(* ===== verification/Prelude.thy ===== *)
theory Prelude
  imports Main "HOL-Library.Product_Lexorder" "HOL-Library.Multiset"
begin

text \<open>
  Shared vocabulary of the development: results of fallible code, the state-and-exception
  combinators in which the asynchronous keeper code is written, the JavaScript string
  operations the sources use (lower-casing, decimal printing and parsing, splitting and
  trimming), JavaScript numbers behind \<open>Number.isInteger\<close>, and the list lemmas the
  components share.

  Conventions.  A \<open>bigint\<close> is an \<open>int\<close>.  A \<open>number\<close> that the source checks with
  \<open>Number.isInteger\<close> is a \<open>js_number\<close>; other counters and indices are \<open>int\<close> or \<open>nat\<close>.
  Strings are ASCII.  A thrown error is the left summand of a result.
\<close>

section \<open>Fact collections\<close>

named_theorems result_simps \<open>inversion rules for results and guarded code\<close>
named_theorems string_simps \<open>facts on decimal strings and lower-casing\<close>

section \<open>Results of fallible code\<close>

type_synonym ('e, 'a) result = "'e + 'a"

fun bind_result :: "('e, 'a) result \<Rightarrow> ('a \<Rightarrow> ('e, 'b) result) \<Rightarrow> ('e, 'b) result" where
  "bind_result (Inl e) f = Inl e"
| "bind_result (Inr a) f = f a"

fun is_ok :: "('e, 'a) result \<Rightarrow> bool" where
  "is_ok (Inl e) = False"
| "is_ok (Inr a) = True"

text \<open>\<open>Promise.all(xs.map(f))\<close> and \<open>xs.map(f)\<close> with a throwing \<open>f\<close>: the first error wins.\<close>

fun map_result :: "('a \<Rightarrow> ('e, 'b) result) \<Rightarrow> 'a list \<Rightarrow> ('e, 'b list) result" where
  "map_result f [] = Inr []"
| "map_result f (x # xs) =
     bind_result (f x) (\<lambda>y. bind_result (map_result f xs) (\<lambda>ys. Inr (y # ys)))"

section \<open>Effects: state with exceptions\<close>

text \<open>
  An asynchronous method that awaits external calls is a function from the world to a
  result and the world after it; an exception keeps the effects that happened before it.
\<close>

type_synonym ('e, 's, 'a) eff = "'s \<Rightarrow> ('e, 'a) result \<times> 's"

definition ret :: "'a \<Rightarrow> ('e, 's, 'a) eff" where
  "ret a = (\<lambda>s. (Inr a, s))"

definition throw :: "'e \<Rightarrow> ('e, 's, 'a) eff" where
  "throw e = (\<lambda>s. (Inl e, s))"

definition bind_eff :: "('e, 's, 'a) eff \<Rightarrow> ('a \<Rightarrow> ('e, 's, 'b) eff) \<Rightarrow> ('e, 's, 'b) eff" where
  "bind_eff m f = (\<lambda>s. case m s of (Inl e, s') \<Rightarrow> (Inl e, s') | (Inr a, s') \<Rightarrow> f a s')"

definition catch_eff :: "('e, 's, 'a) eff \<Rightarrow> ('e \<Rightarrow> ('e, 's, 'a) eff) \<Rightarrow> ('e, 's, 'a) eff" where
  "catch_eff m h = (\<lambda>s. case m s of (Inl e, s') \<Rightarrow> h e s' | (Inr a, s') \<Rightarrow> (Inr a, s'))"

definition lift_result :: "('e, 'a) result \<Rightarrow> ('e, 's, 'a) eff" where
  "lift_result r = (\<lambda>s. (r, s))"

text \<open>A sequence of calls on one object; the first exception ends it.\<close>

fun run_ops :: "('o \<Rightarrow> ('e, 's, unit) eff) \<Rightarrow> 'o list \<Rightarrow> ('e, 's, unit) eff" where
  "run_ops step [] = ret ()"
| "run_ops step (x # xs) = bind_eff (step x) (\<lambda>_. run_ops step xs)"

section \<open>JavaScript numbers, strings and arrays\<close>

text \<open>\<open>JNonInt\<close> is any number for which \<open>Number.isInteger\<close> is false.\<close>

datatype js_number = JInt int | JNonInt

definition MAX_SAFE_INTEGER :: int where
  "MAX_SAFE_INTEGER = 2 ^ 53 - 1"

fun isSafeInteger :: "js_number \<Rightarrow> bool" where
  "isSafeInteger (JInt n) = (\<bar>n\<bar> \<le> MAX_SAFE_INTEGER)"
| "isSafeInteger JNonInt = False"

text \<open>\<open>bigint\<close> division truncates towards zero.\<close>

definition big_div :: "int \<Rightarrow> int \<Rightarrow> int" where
  "big_div a b = sgn a * sgn b * (\<bar>a\<bar> div \<bar>b\<bar>)"

definition big_mod :: "int \<Rightarrow> int \<Rightarrow> int" where
  "big_mod a b = a - b * big_div a b"

definition lower_char :: "char \<Rightarrow> char" where
  "lower_char c = (let n = of_char c :: nat in
     if 65 \<le> n \<and> n \<le> 90 then char_of (n + 32) else c)"

definition toLowerCase :: "string \<Rightarrow> string" where
  "toLowerCase = map lower_char"

definition is_digit :: "char \<Rightarrow> bool" where
  "is_digit c = (let n = of_char c :: nat in 48 \<le> n \<and> n \<le> 57)"

definition is_hex_digit :: "char \<Rightarrow> bool" where
  "is_hex_digit c = (let n = of_char c :: nat in
     (48 \<le> n \<and> n \<le> 57) \<or> (65 \<le> n \<and> n \<le> 70) \<or> (97 \<le> n \<and> n \<le> 102))"

definition digit_char :: "nat \<Rightarrow> char" where
  "digit_char d = char_of (48 + d)"

fun nat_digits :: "nat \<Rightarrow> string" where
  "nat_digits n = (if n < 10 then [digit_char n] else nat_digits (n div 10) @ [digit_char (n mod 10)])"

declare nat_digits.simps [simp del]

text \<open>\<open>value.toString()\<close> of a \<open>bigint\<close>.\<close>

definition int_to_string :: "int \<Rightarrow> string" where
  "int_to_string i = (if i < 0 then CHR ''-'' # nat_digits (nat (- i)) else nat_digits (nat i))"

text \<open>\<open>BigInt(s)\<close> on a string of decimal digits, and the regular expressions \<open>^\d+$\<close>
  and \<open>^0x[0-9a-fA-F]{n}$\<close>.\<close>

definition digits_value :: "string \<Rightarrow> nat" where
  "digits_value s = foldl (\<lambda>acc c. acc * 10 + (of_char c - 48)) 0 s"

definition decimal_string :: "string \<Rightarrow> bool" where
  "decimal_string s = (s \<noteq> [] \<and> list_all is_digit s)"

definition hex_string :: "nat \<Rightarrow> string \<Rightarrow> bool" where
  "hex_string n s = (take 2 s = ''0x'' \<and> length s = n + 2 \<and> list_all is_hex_digit (drop 2 s))"

definition is_space :: "char \<Rightarrow> bool" where
  "is_space c = (let n = of_char c :: nat in n = 32 \<or> (9 \<le> n \<and> n \<le> 13))"

definition trim :: "string \<Rightarrow> string" where
  "trim s = rev (dropWhile is_space (rev (dropWhile is_space s)))"

text \<open>\<open>s.split(c)\<close> for a one-character separator.\<close>

fun split_on :: "char \<Rightarrow> string \<Rightarrow> string list" where
  "split_on c [] = [[]]"
| "split_on c (x # xs) =
     (if x = c then [] # split_on c xs
      else case split_on c xs of [] \<Rightarrow> [[x]] | w # ws \<Rightarrow> (x # w) # ws)"

definition last_opt :: "'a list \<Rightarrow> 'a option" where
  "last_opt xs = (if xs = [] then None else Some (last xs))"

definition nth_opt :: "'a list \<Rightarrow> nat \<Rightarrow> 'a option" where
  "nth_opt xs i = (if i < length xs then Some (xs ! i) else None)"

text \<open>\<open>for (const x of xs) { const y = f(x); if (y) return y; }\<close>\<close>

fun first_some :: "('a \<Rightarrow> 'b option) \<Rightarrow> 'a list \<Rightarrow> 'b option" where
  "first_some f [] = None"
| "first_some f (x # xs) = (case f x of Some y \<Rightarrow> Some y | None \<Rightarrow> first_some f xs)"

section \<open>Lemmas on results and effects\<close>

lemma bind_result_Inr [result_simps]:
  "bind_result r f = Inr b \<longleftrightarrow> (\<exists>a. r = Inr a \<and> f a = Inr b)"
  by (cases r) auto

lemma bind_result_Inl [result_simps]:
  "bind_result r f = Inl e \<longleftrightarrow> r = Inl e \<or> (\<exists>a. r = Inr a \<and> f a = Inl e)"
  by (cases r) auto

lemma is_ok_iff: "is_ok r \<longleftrightarrow> (\<exists>a. r = Inr a)"
  by (cases r) auto

lemma not_is_ok_iff: "\<not> is_ok r \<longleftrightarrow> (\<exists>e. r = Inl e)"
  by (cases r) auto

lemma map_result_Inr:
  "map_result f xs = Inr ys \<longleftrightarrow> list_all2 (\<lambda>x y. f x = Inr y) xs ys"
proof (induction xs arbitrary: ys)
  case Nil
  show ?case by auto
next
  case (Cons x xs)
  show ?case
    by (cases ys) (auto simp: bind_result_Inr Cons.IH)
qed

lemma map_result_length: "map_result f xs = Inr ys \<Longrightarrow> length ys = length xs"
  by (auto simp: map_result_Inr dest: list_all2_lengthD)

lemma map_result_set:
  "map_result f xs = Inr ys \<Longrightarrow> y \<in> set ys \<Longrightarrow> \<exists>x \<in> set xs. f x = Inr y"
  by (fastforce simp: map_result_Inr list_all2_conv_all_nth in_set_conv_nth)

lemma bind_eff_ret [simp]: "bind_eff (ret a) f = f a"
  by (simp add: bind_eff_def ret_def)

lemma bind_eff_throw [simp]: "bind_eff (throw e) f = throw e"
  by (simp add: bind_eff_def throw_def)

lemma ret_apply [simp]: "ret a s = (Inr a, s)"
  by (simp add: ret_def)

lemma throw_apply [simp]: "throw e s = (Inl e, s)"
  by (simp add: throw_def)

lemma lift_result_apply [simp]: "lift_result r s = (r, s)"
  by (simp add: lift_result_def)

lemma bind_eff_apply:
  "bind_eff m f s = (case m s of (Inl e, s') \<Rightarrow> (Inl e, s') | (Inr a, s') \<Rightarrow> f a s')"
  by (simp add: bind_eff_def)

lemma catch_eff_apply:
  "catch_eff m h s = (case m s of (Inl e, s') \<Rightarrow> h e s' | (Inr a, s') \<Rightarrow> (Inr a, s'))"
  by (simp add: catch_eff_def)

lemma bind_eff_assoc: "bind_eff (bind_eff m f) g = bind_eff m (\<lambda>a. bind_eff (f a) g)"
  by (auto simp: bind_eff_def fun_eq_iff split: prod.splits sum.splits)

lemma bind_eff_Inr [result_simps]:
  "bind_eff m f s = (Inr b, s'') \<longleftrightarrow> (\<exists>a s'. m s = (Inr a, s') \<and> f a s' = (Inr b, s''))"
  by (auto simp: bind_eff_def split: prod.splits sum.splits)

section \<open>Interface: an object whose calls keep an invariant\<close>

text \<open>
  \<open>step\<close> is one method call, \<open>inv\<close> what a call that returns keeps of the object's state.
  The components that are driven by sequences of calls interpret this locale with their own
  operations, and obtain the invariant for every sequence.
\<close>

locale guarded_machine =
  fixes step :: "'o \<Rightarrow> ('e, 's, unit) eff"
    and inv :: "'s \<Rightarrow> bool"
  assumes step_inv: "inv s \<Longrightarrow> step x s = (Inr (), s') \<Longrightarrow> inv s'"
begin

lemma run_inv: "inv s \<Longrightarrow> run_ops step xs s = (Inr (), s') \<Longrightarrow> inv s'"
proof (induction xs arbitrary: s)
  case Nil
  then show ?case by simp
next
  case (Cons x xs)
  then obtain s1 where "step x s = (Inr (), s1)" and "run_ops step xs s1 = (Inr (), s')"
    by (auto simp: bind_eff_Inr)
  with Cons show ?case by (blast intro: step_inv)
qed

end

text \<open>
  A machine that also keeps its invariant when a call throws, and whose state a throwing call
  leaves as it was: a client that catches the exception continues from a good state.
\<close>

locale atomic_machine = guarded_machine +
  assumes step_throw: "inv s \<Longrightarrow> step x s = (Inl e, s') \<Longrightarrow> s' = s"
begin

lemma run_inv_always: "inv s \<Longrightarrow> inv (snd (run_ops step xs s))"
proof (induction xs arbitrary: s)
  case Nil
  then show ?case by simp
next
  case (Cons x xs)
  obtain r s1 where st: "step x s = (r, s1)" by (cases "step x s")
  show ?case
  proof (cases r)
    case (Inl e)
    with st Cons.prems have "s1 = s" by (blast intro: step_throw)
    with Inl st Cons.prems show ?thesis by (simp add: bind_eff_apply)
  next
    case (Inr u)
    with st Cons.prems have "inv s1" by (auto intro: step_inv)
    with Inr st Cons.IH show ?thesis by (simp add: bind_eff_apply)
  qed
qed

end

section \<open>Lemmas on big integers\<close>

lemma big_div_nonneg [simp]: "0 \<le> a \<Longrightarrow> 0 < b \<Longrightarrow> big_div a b = a div b"
  by (auto simp: big_div_def sgn_if)

lemma big_mod_nonneg [simp]: "0 \<le> a \<Longrightarrow> 0 < b \<Longrightarrow> big_mod a b = a mod b"
  by (simp add: big_mod_def minus_mult_div_eq_mod)

section \<open>Lemmas on decimal strings\<close>

lemma of_char_digit_char [simp]: "d < 10 \<Longrightarrow> of_char (digit_char d) = (48 + d :: nat)"
  by (simp add: digit_char_def)

lemma is_digit_digit_char [simp]: "d < 10 \<Longrightarrow> is_digit (digit_char d)"
  by (simp add: is_digit_def)

lemma nat_digits_nonempty [simp]: "nat_digits n \<noteq> []"
  by (subst nat_digits.simps) simp

lemma nat_digits_all_digits: "list_all is_digit (nat_digits n)"
proof (induction n rule: nat_digits.induct)
  case (1 n)
  then show ?case
    by (subst nat_digits.simps) auto
qed

lemma digits_value_snoc: "digits_value (s @ [c]) = digits_value s * 10 + (of_char c - 48)"
  by (simp add: digits_value_def)

lemma digits_value_nat_digits [simp, string_simps]: "digits_value (nat_digits n) = n"
proof (induction n rule: nat_digits.induct)
  case (1 n)
  show ?case
  proof (cases "n < 10")
    case True
    then show ?thesis
      by (subst nat_digits.simps) (simp add: digits_value_def)
  next
    case False
    then have "digits_value (nat_digits n) = n div 10 * 10 + n mod 10"
      using 1 by (subst nat_digits.simps) (simp add: digits_value_snoc)
    then show ?thesis by simp
  qed
qed

lemma nat_digits_inject [simp]: "nat_digits m = nat_digits n \<longleftrightarrow> m = n"
  by (metis digits_value_nat_digits)

lemma decimal_string_int_to_string [string_simps]: "0 \<le> i \<Longrightarrow> decimal_string (int_to_string i)"
  by (simp add: decimal_string_def int_to_string_def nat_digits_all_digits)

lemma digits_value_int_to_string [string_simps]: "0 \<le> i \<Longrightarrow> int (digits_value (int_to_string i)) = i"
  by (simp add: int_to_string_def)

lemma is_digit_minus [simp]: "\<not> is_digit (CHR ''-'')"
  by (simp add: is_digit_def)

lemma nat_digits_not_minus: "nat_digits n \<noteq> CHR ''-'' # s"
proof
  assume "nat_digits n = CHR ''-'' # s"
  with nat_digits_all_digits [of n] show False by simp
qed

lemma int_to_string_inject [simp]: "int_to_string i = int_to_string j \<longleftrightarrow> i = j"
  using nat_digits_not_minus by (auto simp: int_to_string_def dest: sym)

lemma digits_no_char: "\<not> is_digit c \<Longrightarrow> c \<notin> set (nat_digits n)"
  using nat_digits_all_digits [of n] by (auto simp: list_all_iff)

lemma int_to_string_no_colon [simp]: "CHR '':'' \<notin> set (int_to_string i)"
  using digits_no_char [of "CHR '':''"] by (auto simp: int_to_string_def is_digit_def)

section \<open>Lemmas on lower-casing and separators\<close>

lemma lower_char_colon: "lower_char c = CHR '':'' \<longleftrightarrow> c = CHR '':''"
proof
  assume l: "lower_char c = CHR '':''"
  show "c = CHR '':''"
  proof (cases "65 \<le> (of_char c :: nat) \<and> (of_char c :: nat) \<le> 90")
    case True
    then have "of_char (lower_char c) = (of_char c + 32 :: nat)" by (simp add: lower_char_def)
    with l True show ?thesis by simp
  next
    case False
    with l show ?thesis by (auto simp: lower_char_def Let_def split: if_splits)
  qed
qed (simp add: lower_char_def)

lemma toLowerCase_no_colon [simp]: "CHR '':'' \<in> set (toLowerCase s) \<longleftrightarrow> CHR '':'' \<in> set s"
proof -
  have "CHR '':'' = lower_char c \<longleftrightarrow> c = CHR '':''" for c
    using lower_char_colon [of c] by auto
  then show ?thesis by (simp add: toLowerCase_def image_iff)
qed

lemma lower_char_idem [simp]: "lower_char (lower_char c) = lower_char c"
proof -
  have "of_char (char_of (of_char c + 32 :: nat)) = (of_char c + 32 :: nat)"
    if "(of_char c :: nat) \<le> 90"
    using that by simp
  then show ?thesis
    by (auto simp: lower_char_def Let_def)
qed

lemma toLowerCase_idem [simp]: "toLowerCase (toLowerCase s) = toLowerCase s"
  by (simp add: toLowerCase_def)

lemma length_toLowerCase [simp]: "length (toLowerCase s) = length s"
  by (simp add: toLowerCase_def)

lemma append_sep_inject:
  assumes "c \<notin> set a" and "c \<notin> set b"
  shows "a @ c # s = b @ c # t \<longleftrightarrow> a = b \<and> s = t"
  using assms
proof (induction a arbitrary: b)
  case Nil
  then show ?case by (cases b) auto
next
  case (Cons x a)
  then show ?case by (cases b) auto
qed

lemma split_on_nonempty [simp]: "split_on c s \<noteq> []"
  by (induction s) (auto split: list.splits)

lemma split_on_append_sep: "c \<notin> set a \<Longrightarrow> split_on c (a @ c # s) = a # split_on c s"
  by (induction a) auto

lemma split_on_no_sep: "c \<notin> set a \<Longrightarrow> split_on c a = [a]"
  by (induction a) auto

section \<open>Lemmas on lists\<close>

lemma find_SomeD: "List.find P xs = Some x \<Longrightarrow> x \<in> set xs \<and> P x"
  by (auto simp: find_Some_iff)

lemma find_unique:
  assumes "x \<in> set xs" and "P x" and "\<And>y. y \<in> set xs \<Longrightarrow> P y \<Longrightarrow> y = x"
  shows "List.find P xs = Some x"
proof (cases "List.find P xs")
  case None
  with assms(1,2) show ?thesis by (auto simp: find_None_iff)
next
  case (Some y)
  with assms(3) show ?thesis by (auto dest: find_SomeD)
qed

lemma distinct_map_inject:
  "distinct (map f xs) \<Longrightarrow> x \<in> set xs \<Longrightarrow> y \<in> set xs \<Longrightarrow> f x = f y \<Longrightarrow> x = y"
  by (auto simp: distinct_map inj_on_def)

lemma last_opt_snoc [simp]: "last_opt (xs @ [x]) = Some x"
  by (simp add: last_opt_def)

lemma last_opt_None [simp]: "last_opt xs = None \<longleftrightarrow> xs = []"
  by (simp add: last_opt_def)

lemma last_opt_Nil [simp]: "last_opt [] = None"
  by (simp add: last_opt_def)

lemma last_opt_SomeD: "last_opt xs = Some x \<Longrightarrow> x \<in> set xs"
  by (auto simp: last_opt_def split: if_splits)

lemma first_some_None [simp]: "first_some f xs = None \<longleftrightarrow> (\<forall>x \<in> set xs. f x = None)"
  by (induction xs) (auto split: option.splits)

lemma first_some_Some:
  assumes "first_some f xs = Some y"
  obtains ys x zs where "xs = ys @ x # zs" "f x = Some y" "\<forall>z \<in> set ys. f z = None"
proof -
  have "\<exists>ys x zs. xs = ys @ x # zs \<and> f x = Some y \<and> (\<forall>z \<in> set ys. f z = None)"
    using assms
  proof (induction xs)
    case (Cons a xs)
    show ?case
    proof (cases "f a")
      case None
      with Cons obtain ys x zs where "xs = ys @ x # zs" "f x = Some y" "\<forall>z \<in> set ys. f z = None"
        by auto
      with None show ?thesis by (intro exI [of _ "a # ys"] exI [of _ x] exI [of _ zs]) simp
    next
      case (Some b)
      with Cons.prems show ?thesis by (intro exI [of _ "[]"]) simp
    qed
  qed simp
  with that show ?thesis by blast
qed

lemma first_some_SomeD: "first_some f xs = Some y \<Longrightarrow> \<exists>x \<in> set xs. f x = Some y"
  by (erule first_some_Some) auto

lemma sort_key_hd_le:
  assumes "sort_key f xs = y # ys" and "x \<in> set xs"
  shows "f y \<le> f x"
proof -
  have "sorted (map f (y # ys))" using sorted_sort_key [of f xs] assms(1) by simp
  moreover have "x \<in> set (y # ys)" using assms by (metis set_sort)
  ultimately show ?thesis by auto
qed

lemma sort_key_perm:
  assumes "mset xs = mset ys" and "distinct (map f xs)"
  shows "sort_key f xs = sort_key f ys"
proof (rule map_inj_on)
  have s: "set xs = set ys" using assms(1) by (metis set_mset_mset)
  have "distinct (map f ys)"
    using assms by (metis mset_map mset_eq_imp_distinct_iff)
  then show "map f (sort_key f xs) = map f (sort_key f ys)"
    using assms(2) s
    by (intro sorted_distinct_set_unique) (auto simp: distinct_map)
  show "inj_on f (set (sort_key f xs) \<union> set (sort_key f ys))"
    using assms(2) s by (simp add: distinct_map)
qed

end
