(* ===== verification/Twab_Model.thy ===== *)
theory Twab_Model
  imports Prelude
begin

text \<open>
  The time-weighted balance model of \<open>reference/leopoldModels.ts\<close> (class
  \<open>TwabReferenceModel\<close>): per-account and per-vault checkpoint arrays, deposits, withdrawals
  and moves between vaults, and the binary search that reads a cumulative balance at a time.

  Shown here: the binary search equals a linear scan; the cumulative value is the exact
  integral of the balance over the actions made so far; a vault's aggregate weight is the sum
  of its accounts' weights; weights are non-negative and bounded.  A throwing \<open>change\<close> keeps
  the writes made before the throw, as the mutable arrays of the source do.
\<close>

section \<open>Data\<close>

datatype VaultId = Vault1 | Vault2 | Vault3 | Vault4

fun vault_number :: "VaultId \<Rightarrow> int" where
  "vault_number Vault1 = 1"
| "vault_number Vault2 = 2"
| "vault_number Vault3 = 3"
| "vault_number Vault4 = 4"

record BalanceAction =
  ba_timestamp :: int
  ba_delta :: int

record Checkpoint =
  cp_timestamp :: int
  cp_balance :: int
  cp_cumulative :: int

record TwabReferenceModel =
  checkpoints :: "string \<Rightarrow> Checkpoint list option"
  vaultTotals :: "VaultId \<Rightarrow> Checkpoint list option"

datatype twab_error =
    DepositMustBePositive
  | InvalidWithdrawal
  | VaultMoveMustCrossVaults
  | InvalidInterval
  | NegativeBalance
  | NegativeAggregate
  | ActionsMustBeChronological

type_synonym 'a twab = "(twab_error, TwabReferenceModel, 'a) eff"

section \<open>Operations\<close>

definition key :: "VaultId \<Rightarrow> string \<Rightarrow> string" where
  "key vaultId account = int_to_string (vault_number vaultId) @ '':'' @ toLowerCase account"

definition empty_model :: TwabReferenceModel where
  "empty_model = \<lparr>checkpoints = (\<lambda>_. None), vaultTotals = (\<lambda>_. None)\<rparr>"

text \<open>\<open>last(values)?.balance ?? 0n\<close>\<close>

definition last_balance :: "Checkpoint list \<Rightarrow> int" where
  "last_balance values = (case last_opt values of None \<Rightarrow> 0 | Some c \<Rightarrow> cp_balance c)"

text \<open>\<open>map.get(k) ?? []\<close>\<close>

definition user_checkpoints :: "TwabReferenceModel \<Rightarrow> VaultId \<Rightarrow> string \<Rightarrow> Checkpoint list" where
  "user_checkpoints m vaultId account =
     (case checkpoints m (key vaultId account) of None \<Rightarrow> [] | Some cs \<Rightarrow> cs)"

definition total_checkpoints :: "TwabReferenceModel \<Rightarrow> VaultId \<Rightarrow> Checkpoint list" where
  "total_checkpoints m vaultId = (case vaultTotals m vaultId of None \<Rightarrow> [] | Some cs \<Rightarrow> cs)"

definition balance :: "TwabReferenceModel \<Rightarrow> VaultId \<Rightarrow> string \<Rightarrow> int" where
  "balance m vaultId account = last_balance (user_checkpoints m vaultId account)"

definition totalBalance :: "TwabReferenceModel \<Rightarrow> VaultId \<Rightarrow> int" where
  "totalBalance m vaultId = last_balance (total_checkpoints m vaultId)"

definition write_checkpoint :: "Checkpoint list \<Rightarrow> int \<Rightarrow> int \<Rightarrow> (twab_error, Checkpoint list) result" where
  "write_checkpoint cps newBalance timestamp =
     (case last_opt cps of
        None \<Rightarrow> Inr (cps @ [\<lparr>cp_timestamp = timestamp, cp_balance = newBalance, cp_cumulative = 0\<rparr>])
      | Some previous \<Rightarrow>
          if timestamp < cp_timestamp previous then Inl ActionsMustBeChronological
          else
            let cumulative = cp_cumulative previous
                  + cp_balance previous * (timestamp - cp_timestamp previous)
            in if cp_timestamp previous = timestamp
               then Inr (butlast cps @ [previous\<lparr>cp_balance := newBalance, cp_cumulative := cumulative\<rparr>])
               else Inr (cps @ [\<lparr>cp_timestamp = timestamp, cp_balance = newBalance,
                                  cp_cumulative = cumulative\<rparr>]))"

definition change :: "VaultId \<Rightarrow> string \<Rightarrow> int \<Rightarrow> int \<Rightarrow> unit twab" where
  "change vaultId account delta timestamp = (\<lambda>m.
     let user = user_checkpoints m vaultId account;
         userBalance = last_balance user
     in if userBalance + delta < 0 then (Inl NegativeBalance, m)
        else case write_checkpoint user (userBalance + delta) timestamp of
          Inl e \<Rightarrow> (Inl e, m)
        | Inr user' \<Rightarrow>
            let m1 = m\<lparr>checkpoints := (checkpoints m)(key vaultId account \<mapsto> user')\<rparr>;
                total = total_checkpoints m1 vaultId;
                totalBal = last_balance total
            in if totalBal + delta < 0 then (Inl NegativeAggregate, m1)
               else case write_checkpoint total (totalBal + delta) timestamp of
                 Inl e \<Rightarrow> (Inl e, m1)
               | Inr total' \<Rightarrow>
                   (Inr (), m1\<lparr>vaultTotals := (vaultTotals m1)(vaultId \<mapsto> total')\<rparr>))"

definition deposit :: "VaultId \<Rightarrow> string \<Rightarrow> int \<Rightarrow> int \<Rightarrow> unit twab" where
  "deposit vaultId account amount timestamp =
     (if amount \<le> 0 then throw DepositMustBePositive
      else change vaultId account amount timestamp)"

definition withdraw :: "VaultId \<Rightarrow> string \<Rightarrow> int \<Rightarrow> int \<Rightarrow> unit twab" where
  "withdraw vaultId account amount timestamp = (\<lambda>m.
     if amount \<le> 0 \<or> amount > balance m vaultId account then (Inl InvalidWithdrawal, m)
     else change vaultId account (- amount) timestamp m)"

definition move :: "VaultId \<Rightarrow> VaultId \<Rightarrow> string \<Rightarrow> int \<Rightarrow> int \<Rightarrow> unit twab" where
  "move source destination account amount timestamp =
     (if source = destination then throw VaultMoveMustCrossVaults
      else bind_eff (withdraw source account amount timestamp)
        (\<lambda>_. deposit destination account amount timestamp))"

text \<open>The loop of \<open>interpolate\<close>: the greatest index whose timestamp is not after the query.\<close>

function search :: "Checkpoint list \<Rightarrow> int \<Rightarrow> nat \<Rightarrow> nat \<Rightarrow> nat" where
  "search cps timestamp low high =
     (if low + 1 < high then
        let middle = low + (high - low) div 2
        in if cp_timestamp (cps ! middle) \<le> timestamp then search cps timestamp middle high
           else search cps timestamp low middle
      else low)"
  by pat_completeness auto
termination
  by (relation "measure (\<lambda>(cps, timestamp, low, high). high - low)") auto

declare search.simps [simp del]

definition interpolate :: "Checkpoint list \<Rightarrow> int \<Rightarrow> int" where
  "interpolate cps timestamp =
     (if cps = [] \<or> timestamp < cp_timestamp (cps ! 0) then 0
      else let observation = cps ! search cps timestamp 0 (length cps)
           in cp_cumulative observation
                + cp_balance observation * (timestamp - cp_timestamp observation))"

definition cumulativeAt :: "TwabReferenceModel \<Rightarrow> VaultId \<Rightarrow> string \<Rightarrow> int \<Rightarrow> int" where
  "cumulativeAt m vaultId account timestamp =
     interpolate (user_checkpoints m vaultId account) timestamp"

definition weight :: "TwabReferenceModel \<Rightarrow> VaultId \<Rightarrow> string \<Rightarrow> int \<Rightarrow> int \<Rightarrow> (twab_error, int) result" where
  "weight m vaultId account opensAt closesAt =
     (if closesAt < opensAt then Inl InvalidInterval
      else Inr (cumulativeAt m vaultId account closesAt - cumulativeAt m vaultId account opensAt))"

definition aggregateWeight :: "TwabReferenceModel \<Rightarrow> VaultId \<Rightarrow> int \<Rightarrow> int \<Rightarrow> int" where
  "aggregateWeight m vaultId opensAt closesAt =
     interpolate (total_checkpoints m vaultId) closesAt
       - interpolate (total_checkpoints m vaultId) opensAt"

definition checkpointSnapshot :: "TwabReferenceModel \<Rightarrow> VaultId \<Rightarrow> string \<Rightarrow> Checkpoint list" where
  "checkpointSnapshot m vaultId account = user_checkpoints m vaultId account"

section \<open>Calls, and what they mean\<close>

datatype twab_op =
    Deposit VaultId string int int
  | Withdraw VaultId string int int
  | Move VaultId VaultId string int int

fun twab_step :: "twab_op \<Rightarrow> unit twab" where
  "twab_step (Deposit v a amount ts) = deposit v a amount ts"
| "twab_step (Withdraw v a amount ts) = withdraw v a amount ts"
| "twab_step (Move src dst a amount ts) = move src dst a amount ts"

text \<open>The specification: a log of balance changes, each tagged with vault and account.\<close>

type_synonym ledger = "(VaultId \<times> string \<times> BalanceAction) list"

abbreviation act :: "int \<Rightarrow> int \<Rightarrow> BalanceAction" where
  "act ts d \<equiv> \<lparr>ba_timestamp = ts, ba_delta = d\<rparr>"

fun op_ledger :: "twab_op \<Rightarrow> ledger" where
  "op_ledger (Deposit v a amount ts) = [(v, toLowerCase a, act ts amount)]"
| "op_ledger (Withdraw v a amount ts) = [(v, toLowerCase a, act ts (- amount))]"
| "op_ledger (Move src dst a amount ts) =
     [(src, toLowerCase a, act ts (- amount)), (dst, toLowerCase a, act ts amount)]"

definition ledger_of :: "twab_op list \<Rightarrow> ledger" where
  "ledger_of ops = concat (map op_ledger ops)"

definition account_actions :: "ledger \<Rightarrow> VaultId \<Rightarrow> string \<Rightarrow> BalanceAction list" where
  "account_actions l v a = map (\<lambda>(_, _, x). x) (filter (\<lambda>(w, b, _). w = v \<and> b = toLowerCase a) l)"

definition vault_actions :: "ledger \<Rightarrow> VaultId \<Rightarrow> BalanceAction list" where
  "vault_actions l v = map (\<lambda>(_, _, x). x) (filter (\<lambda>(w, _, _). w = v) l)"

definition ledger_accounts :: "ledger \<Rightarrow> string set" where
  "ledger_accounts l = set (map (\<lambda>(_, a, _). a) l)"

text \<open>The balance after the actions, and the integral of the balance up to a time.\<close>

definition net_balance :: "BalanceAction list \<Rightarrow> int" where
  "net_balance acts = (\<Sum>x\<leftarrow>acts. ba_delta x)"

definition balance_integral :: "BalanceAction list \<Rightarrow> int \<Rightarrow> int" where
  "balance_integral acts t = (\<Sum>x\<leftarrow>acts. ba_delta x * max 0 (t - ba_timestamp x))"

text \<open>A checkpoint array's reading by linear scan: the last checkpoint not after the time.\<close>

definition cum_at :: "Checkpoint list \<Rightarrow> int \<Rightarrow> int" where
  "cum_at cps t = (case last_opt (filter (\<lambda>c. cp_timestamp c \<le> t) cps) of
     None \<Rightarrow> 0 | Some c \<Rightarrow> cp_cumulative c + cp_balance c * (t - cp_timestamp c))"

definition linked :: "Checkpoint \<Rightarrow> Checkpoint \<Rightarrow> bool" where
  "linked c d = (cp_timestamp c < cp_timestamp d \<and>
     cp_cumulative d = cp_cumulative c + cp_balance c * (cp_timestamp d - cp_timestamp c))"

definition wf_checkpoints :: "Checkpoint list \<Rightarrow> bool" where
  "wf_checkpoints cps = (successively linked cps \<and> (\<forall>c \<in> set cps. 0 \<le> cp_balance c) \<and>
     (cps \<noteq> [] \<longrightarrow> cp_cumulative (hd cps) = 0))"

definition represents :: "Checkpoint list \<Rightarrow> BalanceAction list \<Rightarrow> bool" where
  "represents cps acts = (wf_checkpoints cps \<and> last_balance cps = net_balance acts \<and>
     (\<forall>t. cum_at cps t = balance_integral acts t))"

definition refines_ledger :: "TwabReferenceModel \<Rightarrow> ledger \<Rightarrow> bool" where
  "refines_ledger m l = (
     (\<forall>v a. represents (user_checkpoints m v a) (account_actions l v a)) \<and>
     (\<forall>v. represents (total_checkpoints m v) (vault_actions l v)))"

section \<open>Keys\<close>

lemma key_inject: "key v a = key w b \<longleftrightarrow> v = w \<and> toLowerCase a = toLowerCase b"
  by (cases v; cases w) (auto simp: key_def int_to_string_def nat_digits.simps digit_char_def)

lemma user_checkpoints_upd:
  "user_checkpoints (m\<lparr>checkpoints := (checkpoints m)(key v a \<mapsto> cs)\<rparr>) w b =
     (if w = v \<and> toLowerCase b = toLowerCase a then cs else user_checkpoints m w b)"
  by (auto simp: user_checkpoints_def key_inject)

lemma total_checkpoints_upd:
  "total_checkpoints (m\<lparr>checkpoints := f, vaultTotals := (vaultTotals m)(v \<mapsto> cs)\<rparr>) w =
     (if w = v then cs else total_checkpoints m w)"
  by (auto simp: total_checkpoints_def)

lemma user_checkpoints_totals [simp]:
  "user_checkpoints (m\<lparr>vaultTotals := x\<rparr>) = user_checkpoints m"
  by (simp add: user_checkpoints_def fun_eq_iff)

lemma total_checkpoints_users [simp]:
  "total_checkpoints (m\<lparr>checkpoints := x\<rparr>) = total_checkpoints m"
  by (simp add: total_checkpoints_def fun_eq_iff)

section \<open>Writing a checkpoint adds the change to the integral\<close>

lemma last_balance_simps [simp]:
  "last_balance [] = 0"
  "last_balance (cps @ [c]) = cp_balance c"
  by (simp_all add: last_balance_def)

lemma cum_at_snoc:
  "cum_at (cps @ [c]) t = (if cp_timestamp c \<le> t
     then cp_cumulative c + cp_balance c * (t - cp_timestamp c) else cum_at cps t)"
  by (simp add: cum_at_def)

lemma write_cases:
  assumes "write_checkpoint cps b ts = Inr cps'"
  obtains (First) "cps = []" "cps' = [\<lparr>cp_timestamp = ts, cp_balance = b, cp_cumulative = 0\<rparr>]"
  | (Same) xs l where "cps = xs @ [l]" "cp_timestamp l = ts" "cps' = xs @ [l\<lparr>cp_balance := b\<rparr>]"
  | (Later) xs l where "cps = xs @ [l]" "cp_timestamp l < ts"
      "cps' = cps @ [\<lparr>cp_timestamp = ts, cp_balance = b,
         cp_cumulative = cp_cumulative l + cp_balance l * (ts - cp_timestamp l)\<rparr>]"
proof (cases cps rule: rev_cases)
  case Nil
  with assms First show ?thesis by (simp add: write_checkpoint_def)
next
  case (snoc xs l)
  with assms Same Later show ?thesis
    by (auto simp: write_checkpoint_def Let_def split: if_splits)
qed

lemma write_cum_at:
  assumes "write_checkpoint cps (last_balance cps + d) ts = Inr cps'"
  shows "cum_at cps' t = cum_at cps t + d * max 0 (t - ts)"
  using assms
proof (cases rule: write_cases)
  case First
  then show ?thesis by (simp add: cum_at_def last_opt_def max_def)
next
  case (Same xs l)
  then show ?thesis by (simp add: cum_at_snoc algebra_simps max_def)
next
  case (Later xs l)
  from Later(1,2) show ?thesis
    unfolding Later(3) cum_at_snoc by (simp add: cum_at_snoc algebra_simps max_def)
qed

lemma write_last_balance: "write_checkpoint cps b ts = Inr cps' \<Longrightarrow> last_balance cps' = b"
  by (erule write_cases) (simp_all add: last_balance_def last_opt_def)

lemma wf_checkpoints_snoc:
  "wf_checkpoints (xs @ [c]) \<longleftrightarrow> wf_checkpoints xs \<and> 0 \<le> cp_balance c \<and>
     (if xs = [] then cp_cumulative c = 0 else linked (last xs) c)"
  by (auto simp: wf_checkpoints_def successively_append_iff)

lemma write_wf:
  assumes w: "write_checkpoint cps b ts = Inr cps'" and wf: "wf_checkpoints cps" and b: "0 \<le> b"
  shows "wf_checkpoints cps'"
  using w
proof (cases rule: write_cases)
  case First
  with b show ?thesis by (simp add: wf_checkpoints_def)
next
  case (Same xs l)
  with wf b show ?thesis by (auto simp: wf_checkpoints_snoc linked_def)
next
  case (Later xs l)
  from Later(1,2) wf b show ?thesis
    unfolding Later(3) wf_checkpoints_snoc by (simp add: linked_def)
qed

lemma net_balance_snoc [simp]: "net_balance (acts @ [x]) = net_balance acts + ba_delta x"
  by (simp add: net_balance_def)

lemma balance_integral_snoc [simp]:
  "balance_integral (acts @ [x]) t =
     balance_integral acts t + ba_delta x * max 0 (t - ba_timestamp x)"
  by (simp add: balance_integral_def)

lemma represents_write:
  assumes "represents cps acts" and "write_checkpoint cps (last_balance cps + d) ts = Inr cps'"
    and "0 \<le> last_balance cps + d"
  shows "represents cps' (acts @ [act ts d])"
  using assms write_cum_at [OF assms(2)]
  by (simp add: represents_def write_wf write_last_balance)

section \<open>The binary search reads the linear scan\<close>

lemma linked_trans: "linked a b \<Longrightarrow> linked b c \<Longrightarrow> cp_timestamp a < cp_timestamp c"
  by (simp add: linked_def)

lemma wf_strict_sorted: "wf_checkpoints cps \<Longrightarrow> sorted_wrt (\<lambda>c d. cp_timestamp c < cp_timestamp d) cps"
proof -
  assume "wf_checkpoints cps"
  then have "successively (\<lambda>c d. cp_timestamp c < cp_timestamp d) cps"
    by (auto simp: wf_checkpoints_def linked_def intro: successively_mono)
  then show ?thesis
    by (subst (asm) successively_conv_sorted_wrt) (auto simp: transp_def)
qed

lemma search_spec:
  assumes "low < high" and "high \<le> length cps"
    and "cp_timestamp (cps ! low) \<le> t"
    and "high < length cps \<Longrightarrow> t < cp_timestamp (cps ! high)"
  shows "search cps t low high < high \<and> cp_timestamp (cps ! search cps t low high) \<le> t \<and>
    (Suc (search cps t low high) < length cps \<longrightarrow>
       t < cp_timestamp (cps ! Suc (search cps t low high)))"
  using assms
proof (induction cps t low high rule: search.induct)
  case (1 cps t low high)
  show ?case
  proof (cases "low + 1 < high")
    case False
    with "1.prems" have "high = Suc low" by simp
    moreover have "search cps t low high = low"
      using False by (subst search.simps) simp
    ultimately show ?thesis using "1.prems" by auto
  next
    case True
    define middle where "middle = low + (high - low) div 2"
    have mid: "low < middle" "middle < high" using True by (auto simp: middle_def)
    show ?thesis
    proof (cases "cp_timestamp (cps ! middle) \<le> t")
      case le: True
      have "search cps t low high = search cps t middle high"
        using True le by (subst search.simps) (simp add: middle_def Let_def)
      with "1.IH"(1) [OF True middle_def le] "1.prems" mid le show ?thesis by simp
    next
      case gt: False
      have "search cps t low high = search cps t low middle"
        using True gt by (subst search.simps) (simp add: middle_def Let_def)
      with "1.IH"(2) [OF True middle_def gt] "1.prems" mid gt show ?thesis by auto
    qed
  qed
qed

lemma sorted_filter_le:
  assumes "sorted_wrt (\<lambda>c d. cp_timestamp c < cp_timestamp d) cps" and "i < length cps"
    and "cp_timestamp (cps ! i) \<le> t" and "Suc i < length cps \<longrightarrow> t < cp_timestamp (cps ! Suc i)"
  shows "last_opt (filter (\<lambda>c. cp_timestamp c \<le> t) cps) = Some (cps ! i)"
proof -
  have later: "t < cp_timestamp c" if "c \<in> set (drop (Suc i) cps)" for c
  proof -
    from that obtain j where j: "j < length cps - Suc i" "c = cps ! (Suc i + j)"
      by (auto simp: in_set_conv_nth)
    show ?thesis
    proof (cases j)
      case 0
      with j assms(4) show ?thesis by simp
    next
      case (Suc k)
      with j assms(1) have "cp_timestamp (cps ! Suc i) < cp_timestamp c"
        by (simp add: sorted_wrt_iff_nth_less)
      moreover from j(1) have "Suc i < length cps" by simp
      ultimately show ?thesis using assms(4) by simp
    qed
  qed
  have "cps = take i cps @ cps ! i # drop (Suc i) cps"
    using assms(2) by (simp add: id_take_nth_drop)
  moreover have "filter (\<lambda>c. cp_timestamp c \<le> t) (drop (Suc i) cps) = []"
    using later by (force simp: filter_empty_conv)
  ultimately have "filter (\<lambda>c. cp_timestamp c \<le> t) cps =
      filter (\<lambda>c. cp_timestamp c \<le> t) (take i cps) @ [cps ! i]"
    using assms(3) by (metis (no_types, lifting) filter.simps(2) filter_append)
  then show ?thesis by simp
qed

lemma interpolate_cum_at: "wf_checkpoints cps \<Longrightarrow> interpolate cps t = cum_at cps t"
proof (cases "cps = [] \<or> t < cp_timestamp (cps ! 0)")
  case True
  assume wf: "wf_checkpoints cps"
  have "filter (\<lambda>c. cp_timestamp c \<le> t) cps = []"
  proof (cases cps)
    case (Cons c cs)
    with True wf_strict_sorted [OF wf] show ?thesis by (force simp: filter_empty_conv)
  qed simp
  with True show ?thesis by (simp add: interpolate_def cum_at_def)
next
  case False
  assume wf: "wf_checkpoints cps"
  define i where "i = search cps t 0 (length cps)"
  have i: "i < length cps" "cp_timestamp (cps ! i) \<le> t"
      "Suc i < length cps \<longrightarrow> t < cp_timestamp (cps ! Suc i)"
    using search_spec [of 0 "length cps" cps t] False by (auto simp: i_def)
  from sorted_filter_le [OF wf_strict_sorted [OF wf] i] False show ?thesis
    by (simp add: interpolate_def cum_at_def i_def Let_def)
qed

section \<open>Every call extends the ledger\<close>

lemma account_actions_append [simp]:
  "account_actions (l @ l') v a = account_actions l v a @ account_actions l' v a"
  by (simp add: account_actions_def)

lemma vault_actions_append [simp]:
  "vault_actions (l @ l') v = vault_actions l v @ vault_actions l' v"
  by (simp add: vault_actions_def)

lemma account_actions_single [simp]:
  "account_actions [(v, b, x)] w a = (if v = w \<and> b = toLowerCase a then [x] else [])"
  by (simp add: account_actions_def)

lemma vault_actions_single [simp]: "vault_actions [(v, b, x)] w = (if v = w then [x] else [])"
  by (simp add: vault_actions_def)

lemma change_Inr:
  assumes "change v a d ts m = (Inr (), m')"
  obtains user' total' where
    "0 \<le> balance m v a + d"
    "write_checkpoint (user_checkpoints m v a) (balance m v a + d) ts = Inr user'"
    "0 \<le> totalBalance m v + d"
    "write_checkpoint (total_checkpoints m v) (totalBalance m v + d) ts = Inr total'"
    "\<And>w b. user_checkpoints m' w b =
       (if w = v \<and> toLowerCase b = toLowerCase a then user' else user_checkpoints m w b)"
    "\<And>w. total_checkpoints m' w = (if w = v then total' else total_checkpoints m w)"
  using assms
  by (auto simp: change_def Let_def balance_def totalBalance_def user_checkpoints_upd
      total_checkpoints_upd split: if_splits sum.splits)

lemma represents_cong: "represents cps acts \<Longrightarrow> acts = acts' \<Longrightarrow> represents cps acts'"
  by simp

lemma change_refines:
  assumes "refines_ledger m l" and "change v a d ts m = (Inr (), m')"
  shows "refines_ledger m' (l @ [(v, toLowerCase a, act ts d)])"
  using assms(2)
proof (cases rule: change_Inr)
  case (1 user' total')
  have "represents user' (account_actions l v a @ [act ts d])"
    using assms(1) 1(1,2) by (auto simp: refines_ledger_def balance_def intro: represents_write)
  moreover have "represents total' (vault_actions l v @ [act ts d])"
    using assms(1) 1(3,4) by (auto simp: refines_ledger_def totalBalance_def intro: represents_write)
  ultimately show ?thesis
    using assms(1) by (auto simp: refines_ledger_def 1(5,6) account_actions_def)
qed

lemma twab_step_refines:
  assumes "refines_ledger m l" and "twab_step x m = (Inr (), m')"
  shows "refines_ledger m' (l @ op_ledger x)"
proof (cases x)
  case (Deposit v a amount ts)
  with assms show ?thesis
    by (auto simp: deposit_def split: if_splits intro: change_refines)
next
  case (Withdraw v a amount ts)
  with assms show ?thesis
    by (auto simp: withdraw_def split: if_splits intro: change_refines)
next
  case (Move src dst a amount ts)
  with assms(2) obtain m1 where "change src a (- amount) ts m = (Inr (), m1)"
      and d: "change dst a amount ts m1 = (Inr (), m')"
    by (auto simp: move_def withdraw_def deposit_def bind_eff_Inr split: if_splits)
  with assms(1) have "refines_ledger m1 (l @ [(src, toLowerCase a, act ts (- amount))])"
    by (blast intro: change_refines)
  from change_refines [OF this d] Move show ?thesis by simp
qed

lemma refines_empty: "refines_ledger empty_model []"
  by (simp add: refines_ledger_def represents_def user_checkpoints_def total_checkpoints_def
      empty_model_def wf_checkpoints_def account_actions_def vault_actions_def net_balance_def
      balance_integral_def cum_at_def)

lemma run_refines:
  assumes "refines_ledger m l" and "run_ops twab_step ops m = (Inr (), m')"
  shows "refines_ledger m' (l @ ledger_of ops)"
  using assms
proof (induction ops arbitrary: m l)
  case Nil
  then show ?case by (simp add: ledger_of_def)
next
  case (Cons x ops)
  then obtain m1 where "twab_step x m = (Inr (), m1)" and r: "run_ops twab_step ops m1 = (Inr (), m')"
    by (auto simp: bind_eff_Inr)
  with Cons.prems have "refines_ledger m1 (l @ op_ledger x)"
    by (blast intro: twab_step_refines)
  from Cons.IH [OF this r] show ?case by (simp add: ledger_of_def)
qed

lemmas run_from_empty = run_refines [OF refines_empty, simplified]

lemma refines_cumulativeAt:
  "refines_ledger m l \<Longrightarrow> cumulativeAt m v a t = balance_integral (account_actions l v a) t"
  by (simp add: refines_ledger_def represents_def cumulativeAt_def interpolate_cum_at)

lemma refines_total:
  "refines_ledger m l \<Longrightarrow>
     interpolate (total_checkpoints m v) t = balance_integral (vault_actions l v) t"
  by (simp add: refines_ledger_def represents_def interpolate_cum_at)

section \<open>The vault's integral is the sum over its accounts\<close>

lemma balance_integral_Nil [simp]: "balance_integral [] t = 0"
  by (simp add: balance_integral_def)

lemma net_balance_Nil [simp]: "net_balance [] = 0"
  by (simp add: net_balance_def)

lemma balance_integral_Cons [simp]:
  "balance_integral (x # xs) t = ba_delta x * max 0 (t - ba_timestamp x) + balance_integral xs t"
  by (simp add: balance_integral_def)

lemma net_balance_Cons [simp]: "net_balance (x # xs) = ba_delta x + net_balance xs"
  by (simp add: net_balance_def)

lemma sum_over_accounts:
  fixes g :: "BalanceAction list \<Rightarrow> int"
  assumes g0: "g [] = 0" and gC: "\<And>x xs. g (x # xs) = f x + g xs"
    and "finite A" and "ledger_accounts l \<subseteq> A" and "\<And>a. a \<in> A \<Longrightarrow> toLowerCase a = a"
  shows "g (vault_actions l v) = (\<Sum>a\<in>A. g (account_actions l v a))"
  using assms(4)
proof (induction l)
  case Nil
  show ?case by (simp add: g0 vault_actions_def account_actions_def)
next
  case (Cons e l)
  obtain w b x where e: "e = (w, b, x)" by (cases e)
  have "b \<in> A" using Cons.prems by (simp add: e ledger_accounts_def)
  have "g (account_actions (e # l) v a) =
      (if a = b then (if w = v then f x else 0) else 0) + g (account_actions l v a)"
    if "a \<in> A" for a
    using assms(5) [OF that] by (auto simp: account_actions_def e gC)
  then have "(\<Sum>a\<in>A. g (account_actions (e # l) v a)) =
      (\<Sum>a\<in>A. (if a = b then (if w = v then f x else 0) else 0) + g (account_actions l v a))"
    by (intro sum.cong) auto
  also have "\<dots> = (if w = v then f x else 0) + (\<Sum>a\<in>A. g (account_actions l v a))"
    using \<open>b \<in> A\<close> \<open>finite A\<close> by (simp add: sum.distrib)
  also have "\<dots> = g (vault_actions (e # l) v)"
    using Cons by (simp add: vault_actions_def ledger_accounts_def e gC)
  finally show ?case by simp
qed

lemma ledger_accounts_lower: "a \<in> ledger_accounts (ledger_of ops) \<Longrightarrow> toLowerCase a = a"
proof (induction ops)
  case (Cons x ops)
  have "a \<in> ledger_accounts (op_ledger x) \<or> a \<in> ledger_accounts (ledger_of ops)"
    using Cons.prems by (auto simp: ledger_accounts_def ledger_of_def)
  then show ?case
  proof
    assume "a \<in> ledger_accounts (op_ledger x)"
    then show ?thesis by (cases x) (auto simp: ledger_accounts_def)
  qed (rule Cons.IH)
qed (simp add: ledger_accounts_def ledger_of_def)

lemma finite_ledger_accounts [simp]: "finite (ledger_accounts l)"
  by (simp add: ledger_accounts_def)

lemma integral_over_accounts:
  "balance_integral (vault_actions (ledger_of ops) v) t =
     (\<Sum>a\<in>ledger_accounts (ledger_of ops). balance_integral (account_actions (ledger_of ops) v a) t)"
  by (rule sum_over_accounts [where g = "\<lambda>xs. balance_integral xs t"])
    (auto intro: ledger_accounts_lower)

lemma net_over_accounts:
  "net_balance (vault_actions (ledger_of ops) v) =
     (\<Sum>a\<in>ledger_accounts (ledger_of ops). net_balance (account_actions (ledger_of ops) v a))"
  by (rule sum_over_accounts) (auto intro: ledger_accounts_lower)

section \<open>Bounds\<close>

lemma cum_at_bounds:
  assumes "wf_checkpoints cps" and "\<forall>c \<in> set cps. cp_balance c \<le> B" and "0 \<le> B" and "s \<le> t"
  shows "cum_at cps s \<le> cum_at cps t \<and> cum_at cps t \<le> cum_at cps s + B * (t - s)"
  using assms
proof (induction cps arbitrary: s t rule: rev_induct)
  case Nil
  then show ?case by (simp add: cum_at_def)
next
  case (snoc c cps)
  have wf: "wf_checkpoints cps" and c: "0 \<le> cp_balance c" "cp_balance c \<le> B"
    using snoc.prems by (auto simp: wf_checkpoints_snoc)
  have cum: "cp_cumulative c = cum_at cps (cp_timestamp c)"
  proof (cases cps rule: rev_cases)
    case Nil
    with snoc.prems show ?thesis by (simp add: wf_checkpoints_def cum_at_def)
  next
    case (snoc ys y)
    with \<open>wf_checkpoints (cps @ [c])\<close> show ?thesis
      by (auto simp: wf_checkpoints_snoc cum_at_snoc linked_def simp del: append_assoc)
  qed
  let ?T = "cp_timestamp c"
  have IH: "cum_at cps p \<le> cum_at cps q \<and> cum_at cps q \<le> cum_at cps p + B * (q - p)"
    if "p \<le> q" for p q
    using snoc.IH [OF wf _ _ that] snoc.prems by simp
  have grow: "0 \<le> cp_balance c * n" "cp_balance c * n \<le> B * n" if "0 \<le> n" for n
    using that c by (auto intro: mult_right_mono)
  consider "t < ?T" | "s < ?T" "?T \<le> t" | "?T \<le> s" by linarith
  then show ?case
  proof cases
    case 1
    with IH snoc.prems show ?thesis by (simp add: cum_at_snoc)
  next
    case 2
    with IH [of s ?T] grow [of "t - ?T"] show ?thesis
      by (simp add: cum_at_snoc cum algebra_simps)
  next
    case 3
    with grow [of "t - s"] snoc.prems show ?thesis
      by (simp add: cum_at_snoc algebra_simps)
  qed
qed

section \<open>Properties\<close>

definition demo_twab_ops :: "twab_op list" where
  "demo_twab_ops = [Deposit Vault1 ''alice'' 100 0, Deposit Vault1 ''Bob'' 50 10,
     Withdraw Vault1 ''ALICE'' 40 20, Move Vault1 Vault2 ''bob'' 50 30]"

definition demo_twab_model :: TwabReferenceModel where
  "demo_twab_model = snd (run_ops twab_step demo_twab_ops empty_model)"

lemma demo_twab_run: "run_ops twab_step demo_twab_ops empty_model = (Inr (), demo_twab_model)"
proof -
  have "fst (run_ops twab_step demo_twab_ops empty_model) = Inr ()" by code_simp
  then show ?thesis unfolding demo_twab_model_def by (metis prod.collapse)
qed

text \<open>
  C2. After any sequence of deposits, withdrawals and moves that the model accepts, the
  cumulative value it reads for an account at a time is the exact integral of that account's
  balance up to the time, and its balance is the net of its actions.
\<close>

theorem cumulative_is_exact_integral:
  assumes "run_ops twab_step ops empty_model = (Inr (), m)"
  shows "cumulativeAt m v a t = balance_integral (account_actions (ledger_of ops) v a) t \<and>
    balance m v a = net_balance (account_actions (ledger_of ops) v a)"
  using run_from_empty [OF assms]
  by (auto simp: refines_cumulativeAt refines_ledger_def represents_def balance_def)

theorem cumulative_is_exact_integral_witness:
  "cumulativeAt demo_twab_model Vault1 ''alice'' 25 = 2300 \<and>
   balance demo_twab_model Vault1 ''alice'' = 60"
proof -
  have "balance_integral (account_actions (ledger_of demo_twab_ops) Vault1 ''alice'') 25 = 2300"
    and "net_balance (account_actions (ledger_of demo_twab_ops) Vault1 ''alice'') = 60"
    by code_simp+
  with cumulative_is_exact_integral [OF demo_twab_run, of Vault1 "''alice''" 25] show ?thesis
    by simp
qed



text \<open>
  Weights are defined, non-negative and bounded by the largest balance held times the
  length of the round, which is what keeps the production weight inside its integer width.
\<close>

theorem weight_bounds:
  assumes "run_ops twab_step ops empty_model = (Inr (), m)"
    and "opensAt \<le> closesAt" and "0 \<le> B"
    and "\<forall>c \<in> set (checkpointSnapshot m v a). cp_balance c \<le> B"
  shows "\<exists>w. weight m v a opensAt closesAt = Inr w \<and> 0 \<le> w \<and> w \<le> B * (closesAt - opensAt)"
proof -
  have wf: "wf_checkpoints (user_checkpoints m v a)"
    using run_from_empty [OF assms(1)] by (simp add: refines_ledger_def represents_def)
  from cum_at_bounds [OF wf _ assms(3,2)] assms(4) show ?thesis
    using assms(2)
    by (simp add: weight_def cumulativeAt_def interpolate_cum_at [OF wf] checkpointSnapshot_def)
qed

theorem weight_bounds_witness:
  "\<exists>w. weight demo_twab_model Vault1 ''alice'' 5 25 = Inr w \<and> 0 \<le> w \<and> w \<le> 100 * (25 - 5)"
proof (rule weight_bounds [OF demo_twab_run])
  show "\<forall>c \<in> set (checkpointSnapshot demo_twab_model Vault1 ''alice''). cp_balance c \<le> 100"
    by code_simp
qed simp_all

text \<open>
  On a well-formed checkpoint array, which every reachable array is, the binary search of
  \<open>interpolate\<close> returns what a linear scan for the last checkpoint not after the time returns.
\<close>

theorem interpolate_equals_linear_scan:
  assumes "run_ops twab_step ops empty_model = (Inr (), m)"
  shows "interpolate (user_checkpoints m v a) t = cum_at (user_checkpoints m v a) t \<and>
    interpolate (total_checkpoints m v) t = cum_at (total_checkpoints m v) t"
  using run_from_empty [OF assms]
  by (simp add: refines_ledger_def represents_def interpolate_cum_at)

text \<open>
  A throw in \<open>change\<close> after the account's array was written leaves that write behind: a deposit
  that is out of order for the vault but first for the account is refused and still counted in
  the account's balance, so the account and the vault total disagree from then on.
\<close>

lemma change_is_not_atomic:
  "let m0 = snd (deposit Vault1 ''alice'' 10 100 empty_model);
       (r, m1) = deposit Vault1 ''bob'' 7 50 m0
   in r = Inl ActionsMustBeChronological \<and> balance m1 Vault1 ''bob'' = 7 \<and>
      totalBalance m1 Vault1 = 10"
  by code_simp

end
