(* ===== verification/Accounting_Model.thy ===== *)
theory Accounting_Model
  imports Prelude
begin

text \<open>
  The conservation model of \<open>reference/leopoldModels.ts\<close> (class \<open>AccountingReferenceModel\<close>):
  fifteen accounting categories, thirteen operations, and the reconciliation checks that every
  operation ends with.

  Shown here: from a reconciled state no operation can fail its reconciliation, so a throw is
  always a refused request that leaves the state as it was; every sequence of calls keeps the
  books reconciled and conserves the winnings that were allocated; winnings are always payable.
\<close>

section \<open>Data\<close>

record AccountingSnapshot =
  principalLiability :: int
  liquidPrincipal :: int
  deployedPrincipal :: int
  principalInTransition :: int
  strategyShortfall :: int
  liquidPrizeAssets :: int
  realizedSurplus :: int
  reservedPrize :: int
  sponsoredPrize :: int
  winningsLiability :: int
  harvestedYield :: int
  sponsorContributions :: int
  allocatedWinnings :: int
  withdrawnWinnings :: int
  autoSavedWinnings :: int

definition initial_accounting :: AccountingSnapshot where
  "initial_accounting = \<lparr>principalLiability = 0, liquidPrincipal = 0, deployedPrincipal = 0,
     principalInTransition = 0, strategyShortfall = 0, liquidPrizeAssets = 0, realizedSurplus = 0,
     reservedPrize = 0, sponsoredPrize = 0, winningsLiability = 0, harvestedYield = 0,
     sponsorContributions = 0, allocatedWinnings = 0, withdrawnWinnings = 0, autoSavedWinnings = 0\<rparr>"

datatype acct_error =
    AmountMustBePositive
  | InsufficientPrincipalLiquidity
  | InsufficientLiquidPrincipal
  | ExcessDeploymentCompletion
  | ExcessDeploymentCancellation
  | LossExceedsDeployedBasis
  | ExcessPrincipalReturn
  | NegativePrizeSource
  | UnfundedPrize
  | UnreservedWinnings
  | ExcessAutoSave
  | InsufficientWinningsLiquidity
  | NegativeAccountingCategory
  | PrincipalReconciliationFailed
  | PrizeCategoryReconciliationFailed
  | PrizeAssetReconciliationFailed

type_synonym acct = "(acct_error, AccountingSnapshot, unit) eff"

section \<open>Reconciliation\<close>

definition category_values :: "AccountingSnapshot \<Rightarrow> int list" where
  "category_values s = [principalLiability s, liquidPrincipal s, deployedPrincipal s,
     principalInTransition s, strategyShortfall s, liquidPrizeAssets s, realizedSurplus s,
     reservedPrize s, sponsoredPrize s, winningsLiability s, harvestedYield s,
     sponsorContributions s, allocatedWinnings s, withdrawnWinnings s, autoSavedWinnings s]"

definition assertInvariants :: acct where
  "assertInvariants = (\<lambda>s.
     if list_ex (\<lambda>value. value < 0) (category_values s) then (Inl NegativeAccountingCategory, s)
     else if liquidPrincipal s + deployedPrincipal s + principalInTransition s + strategyShortfall s
          \<noteq> principalLiability s then (Inl PrincipalReconciliationFailed, s)
     else if realizedSurplus s + sponsoredPrize s + reservedPrize s + winningsLiability s
          \<noteq> liquidPrizeAssets s then (Inl PrizeCategoryReconciliationFailed, s)
     else if harvestedYield s + sponsorContributions s
          \<noteq> liquidPrizeAssets s + withdrawnWinnings s + autoSavedWinnings s
          then (Inl PrizeAssetReconciliationFailed, s)
     else (Inr (), s))"

definition positive :: "int \<Rightarrow> acct" where
  "positive amount = (if amount \<le> 0 then throw AmountMustBePositive else ret ())"

text \<open>A mutation of the state followed by the reconciliation.\<close>

definition commit :: "(AccountingSnapshot \<Rightarrow> AccountingSnapshot) \<Rightarrow> acct" where
  "commit f = (\<lambda>s. assertInvariants (f s))"

text \<open>\<open>if (cond) throw e\<close> on the current state.\<close>

definition refuse_if :: "(AccountingSnapshot \<Rightarrow> bool) \<Rightarrow> acct_error \<Rightarrow> acct" where
  "refuse_if cond e = (\<lambda>s. if cond s then (Inl e, s) else (Inr (), s))"

section \<open>Operations\<close>

definition depositPrincipal :: "int \<Rightarrow> acct" where
  "depositPrincipal amount = bind_eff (positive amount) (\<lambda>_.
     commit (\<lambda>s. s\<lparr>principalLiability := principalLiability s + amount,
                    liquidPrincipal := liquidPrincipal s + amount\<rparr>))"

definition withdrawPrincipal :: "int \<Rightarrow> acct" where
  "withdrawPrincipal amount = bind_eff (positive amount) (\<lambda>_.
     bind_eff (refuse_if (\<lambda>s. amount > principalLiability s \<or> amount > liquidPrincipal s)
                 InsufficientPrincipalLiquidity) (\<lambda>_.
     commit (\<lambda>s. s\<lparr>principalLiability := principalLiability s - amount,
                    liquidPrincipal := liquidPrincipal s - amount\<rparr>)))"

definition deployPrincipal :: "int \<Rightarrow> acct" where
  "deployPrincipal amount = bind_eff (positive amount) (\<lambda>_.
     bind_eff (refuse_if (\<lambda>s. amount > liquidPrincipal s) InsufficientLiquidPrincipal) (\<lambda>_.
     commit (\<lambda>s. s\<lparr>liquidPrincipal := liquidPrincipal s - amount,
                    deployedPrincipal := deployedPrincipal s + amount\<rparr>)))"

definition beginAggregateDeployment :: "int \<Rightarrow> acct" where
  "beginAggregateDeployment amount = bind_eff (positive amount) (\<lambda>_.
     bind_eff (refuse_if (\<lambda>s. amount > liquidPrincipal s) InsufficientLiquidPrincipal) (\<lambda>_.
     commit (\<lambda>s. s\<lparr>liquidPrincipal := liquidPrincipal s - amount,
                    principalInTransition := principalInTransition s + amount\<rparr>)))"

definition completeAggregateDeployment :: "int \<Rightarrow> acct" where
  "completeAggregateDeployment amount = bind_eff (positive amount) (\<lambda>_.
     bind_eff (refuse_if (\<lambda>s. amount > principalInTransition s) ExcessDeploymentCompletion) (\<lambda>_.
     commit (\<lambda>s. s\<lparr>principalInTransition := principalInTransition s - amount,
                    deployedPrincipal := deployedPrincipal s + amount\<rparr>)))"

definition cancelAggregateDeployment :: "int \<Rightarrow> acct" where
  "cancelAggregateDeployment amount = bind_eff (positive amount) (\<lambda>_.
     bind_eff (refuse_if (\<lambda>s. amount > principalInTransition s) ExcessDeploymentCancellation) (\<lambda>_.
     commit (\<lambda>s. s\<lparr>principalInTransition := principalInTransition s - amount,
                    liquidPrincipal := liquidPrincipal s + amount\<rparr>)))"

definition recognizeStrategyLoss :: "int \<Rightarrow> acct" where
  "recognizeStrategyLoss amount = bind_eff (positive amount) (\<lambda>_.
     bind_eff (refuse_if (\<lambda>s. amount > deployedPrincipal s) LossExceedsDeployedBasis) (\<lambda>_.
     commit (\<lambda>s. s\<lparr>deployedPrincipal := deployedPrincipal s - amount,
                    strategyShortfall := strategyShortfall s + amount\<rparr>)))"

definition returnPrincipal :: "int \<Rightarrow> acct" where
  "returnPrincipal amount = bind_eff (positive amount) (\<lambda>_.
     bind_eff (refuse_if (\<lambda>s. amount > deployedPrincipal s) ExcessPrincipalReturn) (\<lambda>_.
     commit (\<lambda>s. s\<lparr>deployedPrincipal := deployedPrincipal s - amount,
                    liquidPrincipal := liquidPrincipal s + amount\<rparr>)))"

definition harvestGenuineSurplus :: "int \<Rightarrow> acct" where
  "harvestGenuineSurplus amount = bind_eff (positive amount) (\<lambda>_.
     commit (\<lambda>s. s\<lparr>liquidPrizeAssets := liquidPrizeAssets s + amount,
                    realizedSurplus := realizedSurplus s + amount,
                    harvestedYield := harvestedYield s + amount\<rparr>))"

definition sponsor :: "int \<Rightarrow> acct" where
  "sponsor amount = bind_eff (positive amount) (\<lambda>_.
     commit (\<lambda>s. s\<lparr>liquidPrizeAssets := liquidPrizeAssets s + amount,
                    sponsoredPrize := sponsoredPrize s + amount,
                    sponsorContributions := sponsorContributions s + amount\<rparr>))"

definition reservePrize :: "int \<Rightarrow> int \<Rightarrow> acct" where
  "reservePrize fromYield fromSponsor =
     bind_eff (refuse_if (\<lambda>_. fromYield < 0 \<or> fromSponsor < 0) NegativePrizeSource) (\<lambda>_.
     bind_eff (refuse_if (\<lambda>s. fromYield > realizedSurplus s \<or> fromSponsor > sponsoredPrize s)
                 UnfundedPrize) (\<lambda>_.
     commit (\<lambda>s. s\<lparr>realizedSurplus := realizedSurplus s - fromYield,
                    sponsoredPrize := sponsoredPrize s - fromSponsor,
                    reservedPrize := reservedPrize s + (fromYield + fromSponsor)\<rparr>)))"

definition allocateWinnings :: "int \<Rightarrow> acct" where
  "allocateWinnings amount = bind_eff (positive amount) (\<lambda>_.
     bind_eff (refuse_if (\<lambda>s. amount > reservedPrize s) UnreservedWinnings) (\<lambda>_.
     commit (\<lambda>s. s\<lparr>reservedPrize := reservedPrize s - amount,
                    winningsLiability := winningsLiability s + amount,
                    allocatedWinnings := allocatedWinnings s + amount\<rparr>)))"

definition autoSave :: "int \<Rightarrow> acct" where
  "autoSave amount = bind_eff (positive amount) (\<lambda>_.
     bind_eff (refuse_if (\<lambda>s. amount > winningsLiability s) ExcessAutoSave) (\<lambda>_.
     commit (\<lambda>s. s\<lparr>winningsLiability := winningsLiability s - amount,
                    liquidPrizeAssets := liquidPrizeAssets s - amount,
                    principalLiability := principalLiability s + amount,
                    liquidPrincipal := liquidPrincipal s + amount,
                    autoSavedWinnings := autoSavedWinnings s + amount\<rparr>)))"

definition withdrawWinnings :: "int \<Rightarrow> acct" where
  "withdrawWinnings amount = bind_eff (positive amount) (\<lambda>_.
     bind_eff (refuse_if (\<lambda>s. amount > winningsLiability s \<or> amount > liquidPrizeAssets s)
                 InsufficientWinningsLiquidity) (\<lambda>_.
     commit (\<lambda>s. s\<lparr>winningsLiability := winningsLiability s - amount,
                    liquidPrizeAssets := liquidPrizeAssets s - amount,
                    withdrawnWinnings := withdrawnWinnings s + amount\<rparr>)))"

datatype acct_op =
    DepositPrincipal int | WithdrawPrincipal int | DeployPrincipal int
  | BeginAggregateDeployment int | CompleteAggregateDeployment int | CancelAggregateDeployment int
  | RecognizeStrategyLoss int | ReturnPrincipal int | HarvestGenuineSurplus int | Sponsor int
  | ReservePrize int int | AllocateWinnings int | AutoSave int | WithdrawWinnings int

fun acct_step :: "acct_op \<Rightarrow> acct" where
  "acct_step (DepositPrincipal n) = depositPrincipal n"
| "acct_step (WithdrawPrincipal n) = withdrawPrincipal n"
| "acct_step (DeployPrincipal n) = deployPrincipal n"
| "acct_step (BeginAggregateDeployment n) = beginAggregateDeployment n"
| "acct_step (CompleteAggregateDeployment n) = completeAggregateDeployment n"
| "acct_step (CancelAggregateDeployment n) = cancelAggregateDeployment n"
| "acct_step (RecognizeStrategyLoss n) = recognizeStrategyLoss n"
| "acct_step (ReturnPrincipal n) = returnPrincipal n"
| "acct_step (HarvestGenuineSurplus n) = harvestGenuineSurplus n"
| "acct_step (Sponsor n) = sponsor n"
| "acct_step (ReservePrize y p) = reservePrize y p"
| "acct_step (AllocateWinnings n) = allocateWinnings n"
| "acct_step (AutoSave n) = autoSave n"
| "acct_step (WithdrawWinnings n) = withdrawWinnings n"

section \<open>Specification\<close>

text \<open>What the checks of the source establish, and the conservation of allocated winnings,
  which no check of the source states.\<close>

definition reconciled :: "AccountingSnapshot \<Rightarrow> bool" where
  "reconciled s = ((\<forall>x \<in> set (category_values s). 0 \<le> x) \<and>
     principalLiability s
       = liquidPrincipal s + deployedPrincipal s + principalInTransition s + strategyShortfall s \<and>
     liquidPrizeAssets s
       = realizedSurplus s + sponsoredPrize s + reservedPrize s + winningsLiability s \<and>
     harvestedYield s + sponsorContributions s
       = liquidPrizeAssets s + withdrawnWinnings s + autoSavedWinnings s)"

definition winnings_conserved :: "AccountingSnapshot \<Rightarrow> bool" where
  "winnings_conserved s =
     (allocatedWinnings s = winningsLiability s + withdrawnWinnings s + autoSavedWinnings s)"

definition acct_inv :: "AccountingSnapshot \<Rightarrow> bool" where
  "acct_inv s = (reconciled s \<and> winnings_conserved s)"

definition reconciliation_errors :: "acct_error set" where
  "reconciliation_errors = {NegativeAccountingCategory, PrincipalReconciliationFailed,
     PrizeCategoryReconciliationFailed, PrizeAssetReconciliationFailed}"

section \<open>Every operation keeps the books\<close>

lemmas acct_op_defs =
  depositPrincipal_def withdrawPrincipal_def deployPrincipal_def beginAggregateDeployment_def
  completeAggregateDeployment_def cancelAggregateDeployment_def recognizeStrategyLoss_def
  returnPrincipal_def harvestGenuineSurplus_def sponsor_def reservePrize_def allocateWinnings_def
  autoSave_def withdrawWinnings_def

lemma assertInvariants_reconciled:
  "assertInvariants s = (Inr (), s) \<longleftrightarrow> reconciled s"
  by (auto simp: assertInvariants_def reconciled_def list_ex_iff not_less not_le [symmetric])

lemma assertInvariants_state: "snd (assertInvariants s) = s"
  by (simp add: assertInvariants_def)

lemma assertInvariants_ok: "reconciled s \<Longrightarrow> assertInvariants s = (Inr (), s)"
  by (simp add: assertInvariants_reconciled)

text \<open>The three shapes of an operation, run on a state.\<close>

lemma plain_op:
  "bind_eff (positive n) (\<lambda>_. commit f) s =
     (if n \<le> 0 then (Inl AmountMustBePositive, s) else assertInvariants (f s))"
  by (simp add: positive_def commit_def)

lemma guarded_op:
  "bind_eff (positive n) (\<lambda>_. bind_eff (refuse_if c e) (\<lambda>_. commit f)) s =
     (if n \<le> 0 then (Inl AmountMustBePositive, s)
      else if c s then (Inl e, s) else assertInvariants (f s))"
  by (simp add: positive_def refuse_if_def bind_eff_apply commit_def)

lemma reserve_op:
  "bind_eff (refuse_if c1 e1) (\<lambda>_. bind_eff (refuse_if c2 e2) (\<lambda>_. commit f)) s =
     (if c1 s then (Inl e1, s) else if c2 s then (Inl e2, s) else assertInvariants (f s))"
  by (simp add: refuse_if_def bind_eff_apply commit_def)

lemmas acct_op_eqs = acct_op_defs plain_op guarded_op reserve_op

lemmas acct_inv_unfold =
  acct_inv_def reconciled_def winnings_conserved_def category_values_def

text \<open>A call from a reconciled state is either refused by its own guard, with the state
  untouched, or changes the state to one that is reconciled and conserves winnings.\<close>

definition acct_good :: "AccountingSnapshot \<Rightarrow> (acct_error, unit) result \<times> AccountingSnapshot \<Rightarrow> bool" where
  "acct_good s r = ((\<exists>e. e \<notin> reconciliation_errors \<and> r = (Inl e, s)) \<or>
     (\<exists>s'. acct_inv s' \<and> r = (Inr (), s')))"

lemma acct_good_refuse: "e \<notin> reconciliation_errors \<Longrightarrow> acct_good s (Inl e, s)"
  by (simp add: acct_good_def)

lemma acct_good_accept: "acct_inv s' \<Longrightarrow> acct_good s (assertInvariants s')"
  by (auto simp: acct_good_def acct_inv_def assertInvariants_ok)

lemma acct_step_good:
  assumes "acct_inv s"
  shows "acct_good s (acct_step x s)"
proof (cases x)
  case (ReservePrize y p)
  with assms show ?thesis
    by (simp add: acct_op_eqs acct_good_refuse reconciliation_errors_def)
      (intro impI acct_good_accept, simp add: acct_inv_unfold)
qed (use assms in \<open>simp add: acct_op_eqs acct_good_refuse reconciliation_errors_def,
      intro impI acct_good_accept, simp add: acct_inv_unfold\<close>)+

lemmas acct_step_cases = acct_step_good [unfolded acct_good_def]

interpretation acct: atomic_machine acct_step acct_inv
proof
  fix s x s' and e :: acct_error
  assume inv: "acct_inv s"
  show "acct_inv s'" if "acct_step x s = (Inr (), s')"
    using acct_step_cases [OF inv, of x] that by auto
  show "s' = s" if "acct_step x s = (Inl e, s')"
    using acct_step_cases [OF inv, of x] that by auto
qed

lemma acct_inv_initial: "acct_inv initial_accounting"
  by (simp add: acct_inv_def reconciled_def winnings_conserved_def category_values_def
      initial_accounting_def)

section \<open>Properties\<close>

text \<open>
  C3. However the model is driven, also by calls that throw, its books stay reconciled:
  categories are non-negative, principal and prize categories add up, and every unit of
  winnings ever allocated is still owed, was withdrawn or was auto-saved.
\<close>

theorem books_always_reconciled:
  "reconciled (snd (run_ops acct_step ops initial_accounting)) \<and>
   winnings_conserved (snd (run_ops acct_step ops initial_accounting))"
  using acct.run_inv_always [OF acct_inv_initial, of ops] by (simp add: acct_inv_def)

text \<open>
  In a state the model can reach, a call never fails its reconciliation check: a throw is
  a refusal by the operation's own guard and leaves every category as it was.
\<close>

theorem throw_is_a_refusal:
  assumes "s = snd (run_ops acct_step ops initial_accounting)"
    and "acct_step x s = (Inl e, s')"
  shows "s' = s \<and> e \<notin> reconciliation_errors"
proof -
  have "acct_inv s" using acct.run_inv_always [OF acct_inv_initial] assms(1) by simp
  from acct_step_cases [OF this, of x] assms(2) show ?thesis by auto
qed

definition demo_acct_ops :: "acct_op list" where
  "demo_acct_ops = [DepositPrincipal 100, HarvestGenuineSurplus 30, Sponsor 20,
     ReservePrize 30 10, AllocateWinnings 40, AutoSave 15]"

theorem throw_is_a_refusal_witness:
  "let s = snd (run_ops acct_step demo_acct_ops initial_accounting)
   in acct_step (WithdrawWinnings 26) s = (Inl InsufficientWinningsLiquidity, s)"
proof -
  define s where "s = snd (run_ops acct_step demo_acct_ops initial_accounting)"
  have f: "fst (acct_step (WithdrawWinnings 26) s) = Inl InsufficientWinningsLiquidity"
    unfolding s_def by code_simp
  then obtain s' where st: "acct_step (WithdrawWinnings 26) s = (Inl InsufficientWinningsLiquidity, s')"
    by (metis prod.collapse)
  with throw_is_a_refusal [OF s_def st] show ?thesis by (simp add: s_def)
qed

text \<open>
  C34. Solvency: in every reachable state the whole winnings liability can be withdrawn or
  auto-saved, and principal can be withdrawn exactly up to what is liquid.
\<close>

theorem winnings_are_payable:
  assumes "s = snd (run_ops acct_step ops initial_accounting)" and "0 < n"
  shows "(is_ok (fst (withdrawWinnings n s)) \<longleftrightarrow> n \<le> winningsLiability s) \<and>
    (is_ok (fst (autoSave n s)) \<longleftrightarrow> n \<le> winningsLiability s) \<and>
    (is_ok (fst (withdrawPrincipal n s)) \<longleftrightarrow> n \<le> liquidPrincipal s)"
proof -
  have "acct_inv s" using acct.run_inv_always [OF acct_inv_initial] assms(1) by simp
  with assms(2) show ?thesis
    by (simp add: acct_op_eqs assertInvariants_ok acct_inv_unfold)
qed

theorem winnings_are_payable_witness:
  "is_ok (fst (withdrawWinnings 25 (snd (run_ops acct_step demo_acct_ops initial_accounting))))"
proof -
  have "25 \<le> winningsLiability (snd (run_ops acct_step demo_acct_ops initial_accounting))"
    by code_simp
  with winnings_are_payable [OF refl, of 25 demo_acct_ops] show ?thesis by simp
qed

end
