(* ===== verification/Draw_Model.thy ===== *)
theory Draw_Model
  imports Prelude
begin

text \<open>
  The draw of \<open>reference/leopoldModels.ts\<close>: rejection sampling of a 128-bit candidate, the
  round state machine, the private settlement of one draw, and the cursor chunks.

  The locale \<open>rejection_sampler\<close> states what a sampler promises; the mapping of this file and
  the one of \<open>scripts/sg3-domain.ts\<close> both interpret it, and inherit uniformity.  Shown here
  besides: a participant wins on exactly (quotient times weight) of the candidates, the internal
  reconciliation checks of a settlement never fire, the prize is conserved and the principal cap
  is kept, an accepted ticket is final, and chunking never reorders or drops a participant.
\<close>

section \<open>Rejection sampling\<close>

definition UINT128_DOMAIN :: int where
  "UINT128_DOMAIN = 2 ^ 128"

datatype draw_error =
    TotalWeightOutsideSourceDomain
  | CandidateOutsideUint128
  | NegativePrize
  | EmptyRound
  | TicketOutsideAggregate
  | NegativeWeight
  | WinnerReconciliationFailed
  | PrizeConservationFailed
  | CandidateObjectivelyRejected
  | InvalidParticipantCount
  | InvalidChunkSize
  | IllegalCandidateGeneration
  | IllegalRoundTransition

record RejectionParameters =
  rp_quotient :: int
  rp_limit :: int
  rp_acceptsAll :: bool

record MappedCandidate =
  mc_accepted :: bool
  mc_ticket :: "int option"

definition rejectionParameters :: "int \<Rightarrow> (draw_error, RejectionParameters) result" where
  "rejectionParameters totalWeight =
     (if totalWeight \<le> 0 \<or> totalWeight \<ge> UINT128_DOMAIN then Inl TotalWeightOutsideSourceDomain
      else let quotient = big_div UINT128_DOMAIN totalWeight;
               limit = quotient * totalWeight
           in Inr \<lparr>rp_quotient = quotient, rp_limit = limit, rp_acceptsAll = (limit = UINT128_DOMAIN)\<rparr>)"

definition mapCandidate :: "int \<Rightarrow> int \<Rightarrow> (draw_error, MappedCandidate) result" where
  "mapCandidate candidate totalWeight =
     (if candidate < 0 \<or> candidate \<ge> UINT128_DOMAIN then Inl CandidateOutsideUint128
      else bind_result (rejectionParameters totalWeight) (\<lambda>p.
        if \<not> rp_acceptsAll p \<and> candidate \<ge> rp_limit p
        then Inr \<lparr>mc_accepted = False, mc_ticket = None\<rparr>
        else Inr \<lparr>mc_accepted = True, mc_ticket = Some (big_mod candidate totalWeight)\<rparr>))"

section \<open>Round states\<close>

datatype ReferenceRoundState =
    OPEN | AGGREGATE_PENDING | AGGREGATE_FINALIZED | EMPTY | VALIDITY_PENDING | REJECTED
  | ACCEPTED | WINNER_PROCESSING | WINNINGS_ALLOCATED | SETTLED

type_synonym round_model = "(draw_error, ReferenceRoundState, unit) eff"

definition transition :: "ReferenceRoundState \<Rightarrow> ReferenceRoundState \<Rightarrow> round_model" where
  "transition expected nextState = (\<lambda>st.
     if st \<noteq> expected then (Inl IllegalRoundTransition, st) else (Inr (), nextState))"

definition close :: round_model where
  "close = transition OPEN AGGREGATE_PENDING"

definition finalizeAggregate :: "int \<Rightarrow> round_model" where
  "finalizeAggregate totalWeight =
     transition AGGREGATE_PENDING (if totalWeight = 0 then EMPTY else AGGREGATE_FINALIZED)"

definition generate_candidate :: "bool \<Rightarrow> round_model" where
  "generate_candidate acceptsAll = (\<lambda>st.
     if st \<noteq> AGGREGATE_FINALIZED \<and> st \<noteq> REJECTED then (Inl IllegalCandidateGeneration, st)
     else (Inr (), if acceptsAll then ACCEPTED else VALIDITY_PENDING))"

definition validity :: "bool \<Rightarrow> round_model" where
  "validity valid = transition VALIDITY_PENDING (if valid then ACCEPTED else REJECTED)"

datatype round_op = Close | FinalizeAggregate int | Candidate bool | Validity bool

fun round_step :: "round_op \<Rightarrow> round_model" where
  "round_step Close = close"
| "round_step (FinalizeAggregate w) = finalizeAggregate w"
| "round_step (Candidate b) = generate_candidate b"
| "round_step (Validity b) = validity b"

section \<open>Settlement of a draw\<close>

record DrawParticipant =
  dp_account :: string
  dp_weight :: int
  dp_principal :: int
  dp_winnings :: int
  dp_autoSave :: bool

record SettledParticipant = DrawParticipant +
  sp_winner :: bool
  sp_autoSavedPrize :: int
  sp_keptPrize :: int
  sp_autoSaveTimestamp :: "int option"

record DrawSettlementResult =
  dr_totalWeight :: int
  dr_winnerIndex :: int
  dr_finalCumulative :: int
  dr_allocatedPrize :: int
  dr_principalAdded :: int
  dr_winningsAdded :: int
  dr_participants :: "SettledParticipant list"

record CompleteDrawResult = DrawSettlementResult +
  cd_candidate :: int
  cd_candidateValid :: bool
  cd_acceptedTicket :: int

text \<open>The loop that computes the winner predicates, with its running cumulative weight and the
  index it has last found; it returns the predicates and the final values of both.\<close>

fun winner_loop :: "int \<Rightarrow> int \<Rightarrow> int \<Rightarrow> int \<Rightarrow> DrawParticipant list \<Rightarrow> bool list \<times> int \<times> int" where
  "winner_loop ticket cumulative winnerIndex index [] = ([], cumulative, winnerIndex)"
| "winner_loop ticket cumulative winnerIndex index (p # ps) =
     (let cumulative' = cumulative + dp_weight p;
          winner = (dp_weight p > 0 \<and> ticket \<ge> cumulative \<and> ticket < cumulative');
          (ws, c, i) = winner_loop ticket cumulative' (if winner then index else winnerIndex) (index + 1) ps
      in (winner # ws, c, i))"

definition settle_participant ::
  "int \<Rightarrow> int \<Rightarrow> int \<Rightarrow> int \<Rightarrow> DrawParticipant \<Rightarrow> bool \<Rightarrow> SettledParticipant" where
  "settle_participant prize conversionTimestamp principalCap totalPrincipal p isWinner =
     (let won = (if isWinner then prize else 0);
          canAutoSave = (dp_autoSave p \<and> totalPrincipal + won \<le> principalCap);
          autoSavedPrize = (if canAutoSave then won else 0);
          keptPrize = won - autoSavedPrize
      in \<lparr>dp_account = dp_account p, dp_weight = dp_weight p,
          dp_principal = dp_principal p + autoSavedPrize,
          dp_winnings = dp_winnings p + keptPrize, dp_autoSave = dp_autoSave p,
          sp_winner = isWinner, sp_autoSavedPrize = autoSavedPrize, sp_keptPrize = keptPrize,
          sp_autoSaveTimestamp = (if autoSavedPrize > 0 then Some conversionTimestamp else None)\<rparr>)"

fun settle_loop :: "int \<Rightarrow> int \<Rightarrow> int \<Rightarrow> int \<Rightarrow> int \<Rightarrow> int \<Rightarrow> (DrawParticipant \<times> bool) list
    \<Rightarrow> SettledParticipant list \<times> int \<times> int" where
  "settle_loop prize ts cap totalPrincipal principalAdded winningsAdded [] =
     ([], principalAdded, winningsAdded)"
| "settle_loop prize ts cap totalPrincipal principalAdded winningsAdded ((p, w) # ps) =
     (let q = settle_participant prize ts cap totalPrincipal p w;
          (qs, pa, wa) = settle_loop prize ts cap (totalPrincipal + sp_autoSavedPrize q)
             (principalAdded + sp_autoSavedPrize q) (winningsAdded + sp_keptPrize q) ps
      in (q # qs, pa, wa))"

definition settlePrivateDraw ::
  "DrawParticipant list \<Rightarrow> int \<Rightarrow> int \<Rightarrow> int \<Rightarrow> int \<Rightarrow> (draw_error, DrawSettlementResult) result" where
  "settlePrivateDraw participants ticket prize conversionTimestamp principalCap =
     (if prize < 0 then Inl NegativePrize
      else let totalWeight = sum_list (map dp_weight participants) in
        if totalWeight \<le> 0 then Inl EmptyRound
        else if ticket < 0 \<or> ticket \<ge> totalWeight then Inl TicketOutsideAggregate
        else if list_ex (\<lambda>p. dp_weight p < 0) participants then Inl NegativeWeight
        else
          let (winnerPredicates, cumulative, winnerIndex) = winner_loop ticket 0 (- 1) 0 participants in
          if cumulative \<noteq> totalWeight \<or> length (filter id winnerPredicates) \<noteq> 1 \<or> winnerIndex < 0
          then Inl WinnerReconciliationFailed
          else
            let totalPrincipal = sum_list (map dp_principal participants);
                (settled, principalAdded, winningsAdded) =
                  settle_loop prize conversionTimestamp principalCap totalPrincipal 0 0
                    (zip participants winnerPredicates)
            in if principalAdded + winningsAdded \<noteq> prize then Inl PrizeConservationFailed
               else Inr \<lparr>dr_totalWeight = totalWeight, dr_winnerIndex = winnerIndex,
                         dr_finalCumulative = cumulative, dr_allocatedPrize = prize,
                         dr_principalAdded = principalAdded, dr_winningsAdded = winningsAdded,
                         dr_participants = settled\<rparr>)"

definition completePrivateDraw ::
  "DrawParticipant list \<Rightarrow> int \<Rightarrow> int \<Rightarrow> int \<Rightarrow> int \<Rightarrow> (draw_error, CompleteDrawResult) result" where
  "completePrivateDraw participants candidate prize conversionTimestamp principalCap =
     (let totalWeight = sum_list (map dp_weight participants) in
      bind_result (mapCandidate candidate totalWeight) (\<lambda>mapped.
        case mc_ticket mapped of
          None \<Rightarrow> Inl CandidateObjectivelyRejected
        | Some ticket \<Rightarrow>
            if \<not> mc_accepted mapped then Inl CandidateObjectivelyRejected
            else bind_result (settlePrivateDraw participants ticket prize conversionTimestamp principalCap)
              (\<lambda>r. Inr (DrawSettlementResult.extend r
                 (CompleteDrawResult.fields candidate True ticket)))))"

section \<open>Cursor chunks\<close>

function chunk_loop :: "nat \<Rightarrow> nat \<Rightarrow> nat \<Rightarrow> nat list list" where
  "chunk_loop participantCount chunkSize cursor =
     (if cursor < participantCount \<and> 0 < chunkSize
      then [cursor ..< min (cursor + chunkSize) participantCount]
             # chunk_loop participantCount chunkSize (cursor + chunkSize)
      else [])"
  by pat_completeness auto
termination
  by (relation "measure (\<lambda>(n, chunkSize, cursor). n - cursor)") auto

declare chunk_loop.simps [simp del]

fun deterministicChunks :: "js_number \<Rightarrow> js_number \<Rightarrow> (draw_error, nat list list) result" where
  "deterministicChunks (JInt n) (JInt chunkSize) =
     (if \<not> isSafeInteger (JInt n) \<or> n < 0 then Inl InvalidParticipantCount
      else if \<not> isSafeInteger (JInt chunkSize) \<or> chunkSize \<le> 0 then Inl InvalidChunkSize
      else Inr (chunk_loop (nat n) (nat chunkSize) 0))"
| "deterministicChunks (JInt n) JNonInt =
     (if \<not> isSafeInteger (JInt n) \<or> n < 0 then Inl InvalidParticipantCount else Inl InvalidChunkSize)"
| "deterministicChunks JNonInt chunkSize = Inl InvalidParticipantCount"

section \<open>Interface: a rejection sampler\<close>

text \<open>
  \<open>accept c T\<close> is the ticket a sampler over \<open>{0..<domain}\<close> gives to candidate \<open>c\<close> for a total
  weight \<open>T\<close>, or none.  The law is the definition of unbiased rejection: candidates at or above
  the greatest multiple of \<open>T\<close> are rejected, the others reduced modulo \<open>T\<close>.
\<close>

definition winning_candidates :: "int \<Rightarrow> (int \<Rightarrow> int \<Rightarrow> int option) \<Rightarrow> int \<Rightarrow> int set \<Rightarrow> int set" where
  "winning_candidates dsize accept T S =
     {c. 0 \<le> c \<and> c < dsize \<and> (\<exists>t \<in> S. accept c T = Some t)}"

locale rejection_sampler =
  fixes dsize :: int
    and accept :: "int \<Rightarrow> int \<Rightarrow> int option"
  assumes dsize_pos: "0 < dsize"
    and accept_law: "0 < T \<Longrightarrow> T < dsize \<Longrightarrow> 0 \<le> c \<Longrightarrow> c < dsize \<Longrightarrow>
      accept c T = (if c < dsize div T * T then Some (c mod T) else None)"
begin

lemma limit_le: "0 < T \<Longrightarrow> dsize div T * T \<le> dsize"
  using dsize_pos by (simp add: minus_mod_eq_div_mult [symmetric])

lemma winning_candidates_eq:
  assumes "0 < T" and "T < dsize" and "S \<subseteq> {0..<T}"
  shows "winning_candidates dsize accept T S = (\<lambda>(k, t). k * T + t) ` ({0..<dsize div T} \<times> S)"
proof (intro set_eqI iffI)
  fix c
  assume "c \<in> winning_candidates dsize accept T S"
  then have c: "0 \<le> c" "c < dsize div T * T" "c mod T \<in> S"
    using assms accept_law [of T c] by (auto simp: winning_candidates_def split: if_splits)
  have "c = c div T * T + c mod T" by simp
  moreover have "c div T < dsize div T"
  proof (rule ccontr)
    assume "\<not> c div T < dsize div T"
    then have "dsize div T * T \<le> c div T * T" using assms(1) by (intro mult_right_mono) auto
    also have "\<dots> \<le> c" using assms(1) by (simp add: minus_mod_eq_div_mult [symmetric])
    finally show False using c(2) by simp
  qed
  moreover have "0 \<le> c div T" using c(1) assms(1) by (simp add: pos_imp_zdiv_nonneg_iff)
  ultimately show "c \<in> (\<lambda>(k, t). k * T + t) ` ({0..<dsize div T} \<times> S)"
    using c(3) by force
next
  fix c
  assume "c \<in> (\<lambda>(k, t). k * T + t) ` ({0..<dsize div T} \<times> S)"
  then obtain k t where k: "0 \<le> k" "k < dsize div T" "t \<in> S" and c: "c = k * T + t" by auto
  have t: "0 \<le> t" "t < T" using k(3) assms(3) by auto
  have "k * T + t < (k + 1) * T" using t by (simp add: algebra_simps)
  also have "\<dots> \<le> dsize div T * T" using k(2) assms(1) by (intro mult_right_mono) auto
  finally have lt: "c < dsize div T * T" using c by simp
  moreover have "c mod T = t" using t c by simp
  moreover have "0 \<le> c" using c k(1) t(1) assms(1) by simp
  ultimately show "c \<in> winning_candidates dsize accept T S"
    using assms k(3) limit_le [OF assms(1)] accept_law [of T c]
    by (auto simp: winning_candidates_def)
qed

text \<open>Every set of tickets is drawn by the same number of candidates per ticket.\<close>

lemma uniform:
  assumes "0 < T" and "T < dsize" and "S \<subseteq> {0..<T}"
  shows "int (card (winning_candidates dsize accept T S)) = dsize div T * int (card S)"
proof -
  have "inj_on (\<lambda>(k, t). k * T + t) ({0..<dsize div T} \<times> S)"
  proof (rule inj_onI, clarsimp)
    fix k t k' t'
    assume kt: "t \<in> S" "t' \<in> S" and eq: "k * T + t = k' * T + t'"
    have b: "0 \<le> t" "t < T" "0 \<le> t'" "t' < T" using kt assms(3) by auto
    have "(k * T + t) mod T = t" "(k' * T + t') mod T = t'" using b by simp_all
    with eq have "t = t'" by simp
    with eq assms(1) show "k = k' \<and> t = t'" by simp
  qed
  then have "card (winning_candidates dsize accept T S) = card ({0..<dsize div T} \<times> S)"
    unfolding winning_candidates_eq [OF assms] by (rule card_image)
  moreover have "0 \<le> dsize div T" using dsize_pos assms(1) by (simp add: pos_imp_zdiv_nonneg_iff)
  ultimately show ?thesis by (simp add: card_cartesian_product)
qed

lemma accepts_more_than_half:
  assumes "0 < T" and "T < dsize"
  shows "2 * int (card (winning_candidates dsize accept T {0..<T})) > dsize"
proof -
  have "int (card (winning_candidates dsize accept T {0..<T})) = dsize div T * T"
    using uniform [OF assms subset_refl] assms(1) by simp
  moreover have "dsize mod T < T" using assms(1) by simp
  moreover have "dsize = dsize div T * T + dsize mod T" by simp
  moreover have "T \<le> dsize div T * T"
  proof -
    have "1 \<le> dsize div T" using assms by (simp add: pos_imp_zdiv_pos_iff int_one_le_iff_zero_less)
    then have "1 * T \<le> dsize div T * T" using assms(1) by (intro mult_right_mono) auto
    then show ?thesis by simp
  qed
  ultimately show ?thesis by linarith
qed

end

section \<open>The reference mapping is a rejection sampler\<close>

definition map_ticket :: "int \<Rightarrow> int \<Rightarrow> int option" where
  "map_ticket c totalWeight = (case mapCandidate c totalWeight of
     Inl _ \<Rightarrow> None | Inr mapped \<Rightarrow> if mc_accepted mapped then mc_ticket mapped else None)"

lemma UINT128_DOMAIN_pos [simp]: "0 < UINT128_DOMAIN"
  by (simp add: UINT128_DOMAIN_def)

lemma map_ticket_law:
  assumes "0 < T" "T < UINT128_DOMAIN" "0 \<le> c" "c < UINT128_DOMAIN"
  shows "map_ticket c T = (if c < UINT128_DOMAIN div T * T then Some (c mod T) else None)"
  using assms
  by (auto simp: map_ticket_def mapCandidate_def rejectionParameters_def Let_def)

interpretation ref_sampler: rejection_sampler UINT128_DOMAIN map_ticket
  by unfold_locales (simp_all add: map_ticket_law)

section \<open>The winner of a ticket\<close>

text \<open>The participant in whose weight interval the ticket lies.\<close>

fun winner_of :: "DrawParticipant list \<Rightarrow> int \<Rightarrow> nat" where
  "winner_of [] t = 0"
| "winner_of (p # ps) t = (if t < dp_weight p then 0 else Suc (winner_of ps (t - dp_weight p)))"

definition prefix_weight :: "DrawParticipant list \<Rightarrow> nat \<Rightarrow> int" where
  "prefix_weight ps i = sum_list (map dp_weight (take i ps))"

definition total_weight :: "DrawParticipant list \<Rightarrow> int" where
  "total_weight ps = sum_list (map dp_weight ps)"

definition one_hot :: "nat \<Rightarrow> nat \<Rightarrow> bool list" where
  "one_hot n k = map (\<lambda>i. i = k) [0..<n]"

definition nonneg_weights :: "DrawParticipant list \<Rightarrow> bool" where
  "nonneg_weights ps = list_all (\<lambda>p. 0 \<le> dp_weight p) ps"

lemma one_hot_Suc: "one_hot (Suc n) (Suc k) = False # one_hot n k"
  by (simp add: one_hot_def map_upt_Suc del: upt_Suc)

lemma one_hot_0: "one_hot (Suc n) 0 = True # replicate n False"
  by (rule nth_equalityI) (auto simp: one_hot_def nth_Cons simp del: upt_Suc split: nat.splits)

lemma winner_loop_none:
  assumes "nonneg_weights ps" and "t < c"
  shows "winner_loop t c wi idx ps = (replicate (length ps) False, c + total_weight ps, wi)"
  using assms
  by (induction ps arbitrary: c idx) (simp_all add: nonneg_weights_def total_weight_def)

lemma winner_loop_winner:
  assumes "nonneg_weights ps" and "c \<le> t" and "t < c + total_weight ps"
  shows "winner_loop t c wi idx ps =
    (one_hot (length ps) (winner_of ps (t - c)), c + total_weight ps, idx + int (winner_of ps (t - c)))"
  using assms
proof (induction ps arbitrary: c wi idx)
  case Nil
  then show ?case by (simp add: total_weight_def)
next
  case (Cons p ps)
  have nn: "nonneg_weights ps" "0 \<le> dp_weight p" using Cons.prems by (simp_all add: nonneg_weights_def)
  show ?case
  proof (cases "t < c + dp_weight p")
    case True
    with Cons.prems nn winner_loop_none [OF nn(1) True] show ?thesis
      by (simp add: one_hot_0 total_weight_def)
  next
    case False
    with Cons.IH [of "c + dp_weight p"] Cons.prems nn show ?thesis
      by (simp add: one_hot_Suc total_weight_def Let_def algebra_simps)
  qed
qed

lemma winner_of_bounds:
  assumes "nonneg_weights ps" and "0 \<le> t" and "t < total_weight ps"
  shows "winner_of ps t < length ps \<and> prefix_weight ps (winner_of ps t) \<le> t \<and>
    t < prefix_weight ps (Suc (winner_of ps t))"
  using assms
proof (induction ps arbitrary: t)
  case Nil
  then show ?case by (simp add: total_weight_def)
next
  case (Cons p ps)
  show ?case
  proof (cases "t < dp_weight p")
    case True
    with Cons.prems show ?thesis by (simp add: prefix_weight_def)
  next
    case False
    with Cons.IH [of "t - dp_weight p"] Cons.prems show ?thesis
      by (simp add: nonneg_weights_def total_weight_def prefix_weight_def)
  qed
qed

lemma prefix_mono:
  assumes "nonneg_weights ps" and "i \<le> j"
  shows "prefix_weight ps i \<le> prefix_weight ps j"
proof -
  have "take j ps = take i ps @ take (j - i) (drop i ps)"
    using assms(2) by (metis le_add_diff_inverse take_add)
  moreover have "0 \<le> sum_list (map dp_weight (take (j - i) (drop i ps)))"
    using assms(1)
    by (intro sum_list_nonneg) (auto simp: nonneg_weights_def list_all_iff dest!: in_set_takeD in_set_dropD)
  ultimately show ?thesis by (simp add: prefix_weight_def)
qed

lemma prefix_le_total: "nonneg_weights ps \<Longrightarrow> prefix_weight ps i \<le> total_weight ps"
  using prefix_mono [of ps i "max i (length ps)"] by (simp add: prefix_weight_def total_weight_def)

lemma prefix_nonneg: "nonneg_weights ps \<Longrightarrow> 0 \<le> prefix_weight ps i"
  using prefix_mono [of ps 0 i] by (simp add: prefix_weight_def)

lemma prefix_Suc: "i < length ps \<Longrightarrow> prefix_weight ps (Suc i) = prefix_weight ps i + dp_weight (ps ! i)"
  by (simp add: prefix_weight_def take_Suc_conv_app_nth)

lemma winning_tickets:
  assumes "nonneg_weights ps" and "i < length ps"
  shows "{t. 0 \<le> t \<and> t < total_weight ps \<and> winner_of ps t = i}
    = {prefix_weight ps i ..< prefix_weight ps (Suc i)}" (is "?L = ?R")
proof (intro set_eqI iffI)
  fix t
  assume "t \<in> ?L"
  then show "t \<in> ?R" using winner_of_bounds [OF assms(1), of t] by auto
next
  fix t
  assume t: "t \<in> ?R"
  then have r: "0 \<le> t" "t < total_weight ps"
    using prefix_nonneg [OF assms(1), of i] prefix_le_total [OF assms(1), of "Suc i"] by auto
  have b: "prefix_weight ps (winner_of ps t) \<le> t" "t < prefix_weight ps (Suc (winner_of ps t))"
    using winner_of_bounds [OF assms(1) r] by auto
  have "\<not> winner_of ps t < i"
    using prefix_mono [OF assms(1), of "Suc (winner_of ps t)" i] b(2) t by (auto simp: Suc_le_eq)
  moreover have "\<not> i < winner_of ps t"
    using prefix_mono [OF assms(1), of "Suc i" "winner_of ps t"] b(1) t by (auto simp: Suc_le_eq)
  ultimately show "t \<in> ?L" using r by simp
qed

section \<open>Settling conserves the prize\<close>

lemma settle_participant_won:
  "sp_autoSavedPrize (settle_participant prize ts cap tp p w) +
     sp_keptPrize (settle_participant prize ts cap tp p w) = (if w then prize else 0)"
  by (simp add: settle_participant_def Let_def)

lemma settle_loop_sums:
  assumes "settle_loop prize ts cap tp pa wa pws = (qs, pa', wa')"
  shows "pa' + wa' = pa + wa + prize * int (length (filter snd pws)) \<and>
    sum_list (map dp_principal qs) = sum_list (map (dp_principal \<circ> fst) pws) + (pa' - pa) \<and>
    sum_list (map dp_winnings qs) = sum_list (map (dp_winnings \<circ> fst) pws) + (wa' - wa)"
  using assms
proof (induction pws arbitrary: tp pa wa qs pa' wa')
  case Nil
  then show ?case by simp
next
  case (Cons pw pws)
  obtain p w where pw: "pw = (p, w)" by (cases pw)
  define q where "q = settle_participant prize ts cap tp p w"
  from Cons.prems obtain qs' where l:
      "settle_loop prize ts cap (tp + sp_autoSavedPrize q) (pa + sp_autoSavedPrize q)
         (wa + sp_keptPrize q) pws = (qs', pa', wa')" and qs: "qs = q # qs'"
    by (auto simp: pw q_def Let_def split: prod.splits)
  have "dp_principal q = dp_principal p + sp_autoSavedPrize q"
    and "dp_winnings q = dp_winnings p + sp_keptPrize q"
    by (simp_all add: q_def settle_participant_def Let_def)
  with Cons.IH [OF l] qs settle_participant_won [of prize ts cap tp p w] show ?case
    by (auto simp: pw q_def [symmetric] algebra_simps)
qed

lemma settle_loop_cap:
  assumes "settle_loop prize ts cap tp pa wa pws = (qs, pa', wa')" and "0 \<le> prize" and "tp \<le> cap"
  shows "pa \<le> pa' \<and> tp + (pa' - pa) \<le> cap"
  using assms(1,3)
proof (induction pws arbitrary: tp pa wa qs)
  case Nil
  then show ?case by simp
next
  case (Cons pw pws)
  obtain p w where pw: "pw = (p, w)" by (cases pw)
  define q where "q = settle_participant prize ts cap tp p w"
  from Cons.prems obtain qs' where l:
      "settle_loop prize ts cap (tp + sp_autoSavedPrize q) (pa + sp_autoSavedPrize q)
         (wa + sp_keptPrize q) pws = (qs', pa', wa')"
    by (auto simp: pw q_def Let_def split: prod.splits)
  have "tp + sp_autoSavedPrize q \<le> cap" and "0 \<le> sp_autoSavedPrize q"
    using Cons.prems(2) assms(2) by (auto simp: q_def settle_participant_def Let_def)
  with Cons.IH [OF l] show ?case by simp
qed

lemma settle_loop_nth:
  assumes "settle_loop prize ts cap tp pa wa pws = (qs, pa', wa')"
  shows "length qs = length pws \<and>
    (\<forall>i < length pws. \<exists>tp'. qs ! i = settle_participant prize ts cap tp' (fst (pws ! i)) (snd (pws ! i)))"
  using assms
proof (induction pws arbitrary: tp pa wa qs)
  case Nil
  then show ?case by simp
next
  case (Cons pw pws)
  then show ?case
    by (cases pw) (fastforce simp: Let_def nth_Cons split: prod.splits nat.splits)
qed

lemma length_one_hot [simp]: "length (one_hot n k) = n"
  by (simp add: one_hot_def)

lemma one_hot_nth: "i < n \<Longrightarrow> one_hot n k ! i = (i = k)"
  by (simp add: one_hot_def)

lemma one_hot_count: "k < n \<Longrightarrow> length (filter id (one_hot n k)) = 1"
proof (induction n arbitrary: k)
  case (Suc n)
  then show ?case by (cases k) (auto simp: one_hot_0 one_hot_Suc)
qed simp

lemma filter_snd_zip: "length xs = length ys \<Longrightarrow> length (filter snd (zip xs ys)) = length (filter id ys)"
  by (induction xs ys rule: list_induct2) auto

text \<open>The result of a settlement whose arguments pass the guards.\<close>

lemma settle_ok:
  assumes "0 \<le> prize" and "nonneg_weights ps" and "0 \<le> ticket" and "ticket < total_weight ps"
  obtains r where "settlePrivateDraw ps ticket prize ts cap = Inr r"
    and "dr_winnerIndex r = int (winner_of ps ticket)"
    and "settle_loop prize ts cap (sum_list (map dp_principal ps)) 0 0
           (zip ps (one_hot (length ps) (winner_of ps ticket)))
         = (dr_participants r, dr_principalAdded r, dr_winningsAdded r)"
    and "dr_principalAdded r + dr_winningsAdded r = prize"
    and "dr_allocatedPrize r = prize" and "dr_totalWeight r = total_weight ps"
    and "dr_finalCumulative r = total_weight ps"
proof -
  let ?k = "winner_of ps ticket"
  let ?oh = "one_hot (length ps) ?k"
  obtain qs pa wa where l:
      "settle_loop prize ts cap (sum_list (map dp_principal ps)) 0 0 (zip ps ?oh) = (qs, pa, wa)"
    using prod_cases3 by blast
  have k: "?k < length ps" using assms winner_of_bounds by blast
  have w: "winner_loop ticket 0 (- 1) 0 ps = (?oh, total_weight ps, int ?k)"
    using winner_loop_winner [of ps 0 ticket] assms by simp
  have cons: "pa + wa = prize"
    using settle_loop_sums [OF l] k by (simp add: filter_snd_zip one_hot_count)
  have nn: "\<not> list_ex (\<lambda>p. dp_weight p < 0) ps"
    using assms(2) by (auto simp: nonneg_weights_def list_ex_iff list_all_iff not_less)
  show ?thesis
    by (rule that [of "\<lparr>dr_totalWeight = total_weight ps, dr_winnerIndex = int ?k,
          dr_finalCumulative = total_weight ps, dr_allocatedPrize = prize, dr_principalAdded = pa,
          dr_winningsAdded = wa, dr_participants = qs\<rparr>"])
      (use assms w l cons nn one_hot_count [OF k] in
        \<open>auto simp: settlePrivateDraw_def Let_def total_weight_def [symmetric]\<close>)
qed

lemma settle_guards:
  assumes "settlePrivateDraw ps ticket prize ts cap = x"
    and "x \<notin> {Inl NegativePrize, Inl EmptyRound, Inl TicketOutsideAggregate, Inl NegativeWeight}"
  shows "0 \<le> prize" "nonneg_weights ps" "0 \<le> ticket" "ticket < total_weight ps"
  using assms
  by (auto simp: settlePrivateDraw_def Let_def total_weight_def nonneg_weights_def list_ex_iff
      list_all_iff not_less not_le [symmetric] split: if_splits)

lemma settle_invalid:
  "\<not> (0 \<le> ticket \<and> ticket < total_weight ps) \<Longrightarrow> settlePrivateDraw ps ticket prize ts cap \<noteq> Inr r"
  using settle_guards(3,4) [of ps ticket prize ts cap "Inr r"] by auto

lemma map_ticket_range: "map_ticket c T = Some t \<Longrightarrow> 0 \<le> c \<and> c < UINT128_DOMAIN"
  by (auto simp: map_ticket_def mapCandidate_def split: if_splits)

lemma complete_winner:
  "(\<exists>r. completePrivateDraw ps c prize ts cap = Inr r \<and> dr_winnerIndex r = k) \<longleftrightarrow>
   (\<exists>t. map_ticket c (total_weight ps) = Some t \<and>
      (\<exists>q. settlePrivateDraw ps t prize ts cap = Inr q \<and> dr_winnerIndex q = k))"
proof (cases "mapCandidate c (total_weight ps)")
  case (Inl e)
  then show ?thesis
    by (simp add: completePrivateDraw_def map_ticket_def total_weight_def [symmetric])
next
  case (Inr m)
  then show ?thesis
  proof (cases "mc_ticket m")
    case (Some t)
    with Inr show ?thesis
      by (cases "settlePrivateDraw ps t prize ts cap")
        (auto simp: completePrivateDraw_def map_ticket_def total_weight_def [symmetric]
          DrawSettlementResult.extend_def CompleteDrawResult.fields_def)
  qed (simp add: completePrivateDraw_def map_ticket_def total_weight_def [symmetric])
qed

section \<open>Chunks\<close>

lemma concat_chunk_loop: "0 < sz \<Longrightarrow> concat (chunk_loop n sz cur) = [cur..<n]"
proof (induction n sz cur rule: chunk_loop.induct)
  case (1 n sz cur)
  show ?case
  proof (cases "cur < n")
    case True
    have "[cur..<min (cur + sz) n] @ [cur + sz..<n] = [cur..<n]"
    proof (cases "cur + sz \<le> n")
      case le: True
      then show ?thesis by (metis le_Suc_ex le_add1 min.absorb1 upt_add_eq_append)
    qed auto
    with True 1 show ?thesis by (simp add: chunk_loop.simps [of n sz cur])
  qed (simp add: chunk_loop.simps [of n sz cur])
qed

lemma chunk_loop_sizes: "xs \<in> set (chunk_loop n sz cur) \<Longrightarrow> xs \<noteq> [] \<and> length xs \<le> sz"
proof (induction n sz cur rule: chunk_loop.induct)
  case (1 n sz cur)
  then show ?case by (auto simp: chunk_loop.simps [of n sz cur] split: if_splits)
qed

section \<open>Properties\<close>

definition demo_participants :: "DrawParticipant list" where
  "demo_participants =
     [\<lparr>dp_account = ''alice'', dp_weight = 3, dp_principal = 10, dp_winnings = 0, dp_autoSave = True\<rparr>,
      \<lparr>dp_account = ''bob'', dp_weight = 5, dp_principal = 20, dp_winnings = 1, dp_autoSave = False\<rparr>]"

text \<open>
  C1. A draw is fair: over all 128-bit candidates, a participant is the winner of exactly
  (2^128 div total weight) candidates per unit of weight, so odds are proportional to weight and
  the rejection leaves no bias.
\<close>

theorem winning_candidates_proportional_to_weight:
  assumes "0 \<le> prize" and "nonneg_weights ps" and "0 < total_weight ps"
    and "total_weight ps < UINT128_DOMAIN" and "i < length ps"
  shows "int (card {c. \<exists>r. completePrivateDraw ps c prize ts cap = Inr r \<and> dr_winnerIndex r = int i})
    = UINT128_DOMAIN div total_weight ps * dp_weight (ps ! i)"
proof -
  let ?T = "total_weight ps"
  let ?S = "{t. 0 \<le> t \<and> t < ?T \<and> winner_of ps t = i}"
  have idx: "(\<exists>r. settlePrivateDraw ps t prize ts cap = Inr r \<and> dr_winnerIndex r = int i) \<longleftrightarrow> t \<in> ?S" for t
  proof (cases "0 \<le> t \<and> t < ?T")
    case True
    then obtain r where "settlePrivateDraw ps t prize ts cap = Inr r"
        "dr_winnerIndex r = int (winner_of ps t)"
      using settle_ok [OF assms(1,2)] by blast
    with True show ?thesis by simp
  next
    case False
    with settle_invalid show ?thesis by auto
  qed
  have "(\<exists>r. completePrivateDraw ps c prize ts cap = Inr r \<and> dr_winnerIndex r = int i) \<longleftrightarrow>
      0 \<le> c \<and> c < UINT128_DOMAIN \<and> (\<exists>t \<in> ?S. map_ticket c ?T = Some t)" for c
    unfolding complete_winner idx by (auto dest: map_ticket_range)
  then have "{c. \<exists>r. completePrivateDraw ps c prize ts cap = Inr r \<and> dr_winnerIndex r = int i}
      = winning_candidates UINT128_DOMAIN map_ticket ?T ?S"
    by (simp add: winning_candidates_def)
  moreover have "int (card ?S) = dp_weight (ps ! i)"
    unfolding winning_tickets [OF assms(2,5)]
    using assms(2,5) by (simp add: prefix_Suc nonneg_weights_def list_all_length)
  moreover have "?S \<subseteq> {0..<?T}" by auto
  ultimately show ?thesis
    using ref_sampler.uniform [OF assms(3,4), of ?S] by simp
qed

theorem winning_candidates_proportional_to_weight_witness:
  "int (card {c. \<exists>r. completePrivateDraw demo_participants c 7 100 1000 = Inr r \<and> dr_winnerIndex r = int 1})
    = 2 ^ 125 * 5"
proof -
  have "nonneg_weights demo_participants" "total_weight demo_participants = 8"
      "dp_weight (demo_participants ! 1) = 5" "length demo_participants = 2"
    by (simp_all add: nonneg_weights_def total_weight_def demo_participants_def)
  with winning_candidates_proportional_to_weight [of 7 demo_participants 1 100 1000] show ?thesis
    by (simp add: UINT128_DOMAIN_def)
qed

text \<open>
  C9. A settlement with a non-negative prize, non-negative weights and a ticket below the total
  succeeds, and has exactly one winner: the participant whose cumulative weight interval holds
  the ticket.  Nobody else's principal or winnings change.
\<close>

theorem settlement_has_the_one_winner:
  assumes "0 \<le> prize" and "nonneg_weights ps" and "0 \<le> ticket" and "ticket < total_weight ps"
  shows "\<exists>r k. settlePrivateDraw ps ticket prize ts cap = Inr r \<and> k < length ps \<and>
    prefix_weight ps k \<le> ticket \<and> ticket < prefix_weight ps (Suc k) \<and> dr_winnerIndex r = int k \<and>
    length (dr_participants r) = length ps \<and>
    (\<forall>i < length ps. sp_winner (dr_participants r ! i) = (i = k)) \<and>
    (\<forall>i < length ps. i \<noteq> k \<longrightarrow> dp_principal (dr_participants r ! i) = dp_principal (ps ! i) \<and>
       dp_winnings (dr_participants r ! i) = dp_winnings (ps ! i))"
proof -
  let ?k = "winner_of ps ticket"
  from settle_ok [OF assms, of ts cap] obtain r where r:
      "settlePrivateDraw ps ticket prize ts cap = Inr r" "dr_winnerIndex r = int ?k"
      "settle_loop prize ts cap (sum_list (map dp_principal ps)) 0 0
         (zip ps (one_hot (length ps) ?k)) = (dr_participants r, dr_principalAdded r, dr_winningsAdded r)"
    by blast
  have n: "length (dr_participants r) = length ps"
      "\<forall>i < length ps. \<exists>tp. dr_participants r ! i = settle_participant prize ts cap tp (ps ! i) (i = ?k)"
    using settle_loop_nth [OF r(3)] by (auto simp: one_hot_nth)
  have "sp_winner (dr_participants r ! i) = (i = ?k)"
    "i \<noteq> ?k \<longrightarrow> dp_principal (dr_participants r ! i) = dp_principal (ps ! i) \<and>
       dp_winnings (dr_participants r ! i) = dp_winnings (ps ! i)"
    if "i < length ps" for i
    using n(2) that by (auto simp: settle_participant_def Let_def)
  with r n winner_of_bounds [OF assms(2-4)] show ?thesis by blast
qed

theorem settlement_has_the_one_winner_witness:
  "\<exists>r. settlePrivateDraw demo_participants 4 7 100 1000 = Inr r \<and> dr_winnerIndex r = 1"
proof -
  have "nonneg_weights demo_participants" "total_weight demo_participants = 8"
    by (simp_all add: nonneg_weights_def total_weight_def demo_participants_def)
  with settlement_has_the_one_winner [of 7 demo_participants 4 100 1000] obtain r k where
      r: "settlePrivateDraw demo_participants 4 7 100 1000 = Inr r" "dr_winnerIndex r = int k"
      and k: "k < length demo_participants" "prefix_weight demo_participants k \<le> 4"
        "4 < prefix_weight demo_participants (Suc k)"
    by auto
  have "k < 2" using k(1) by (simp add: demo_participants_def)
  moreover have "k \<noteq> 0"
  proof
    assume "k = 0"
    with k(3) show False by (simp add: demo_participants_def prefix_weight_def)
  qed
  ultimately have "k = 1" by simp
  with r show ?thesis by simp
qed

text \<open>
  A settlement that succeeds hands out exactly the prize: what it adds to principals and
  winnings is the prize, the participants' sums grow by exactly these amounts, and principals
  that were within the cap stay within it.
\<close>

theorem settlement_conserves_prize_and_cap:
  assumes "settlePrivateDraw ps ticket prize ts cap = Inr r"
  shows "dr_principalAdded r + dr_winningsAdded r = prize \<and> dr_allocatedPrize r = prize \<and>
    sum_list (map dp_principal (dr_participants r)) = sum_list (map dp_principal ps) + dr_principalAdded r \<and>
    sum_list (map dp_winnings (dr_participants r)) = sum_list (map dp_winnings ps) + dr_winningsAdded r \<and>
    (sum_list (map dp_principal ps) \<le> cap \<longrightarrow>
       sum_list (map dp_principal (dr_participants r)) \<le> cap)"
proof -
  have g: "0 \<le> prize" "nonneg_weights ps" "0 \<le> ticket" "ticket < total_weight ps"
    using settle_guards [OF assms] by simp_all
  let ?z = "zip ps (one_hot (length ps) (winner_of ps ticket))"
  have l: "settle_loop prize ts cap (sum_list (map dp_principal ps)) 0 0 ?z
        = (dr_participants r, dr_principalAdded r, dr_winningsAdded r)"
      and p: "dr_principalAdded r + dr_winningsAdded r = prize" "dr_allocatedPrize r = prize"
    using settle_ok [OF g, of ts cap] assms by auto
  have "map (f \<circ> fst) ?z = map f ps" for f :: "DrawParticipant \<Rightarrow> int"
    by (metis length_one_hot map_fst_zip map_map)
  with settle_loop_sums [OF l] settle_loop_cap [OF l g(1)] p show ?thesis by auto
qed

theorem settlement_conserves_prize_and_cap_witness:
  "let r = projr (settlePrivateDraw demo_participants 1 7 100 40)
   in dr_principalAdded r + dr_winningsAdded r = 7 \<and>
      sum_list (map dp_principal (dr_participants r)) = 37"
proof -
  define r where "r = projr (settlePrivateDraw demo_participants 1 7 100 40)"
  have r: "settlePrivateDraw demo_participants 1 7 100 40 = Inr r"
    and a: "dr_principalAdded r = 7" "sum_list (map dp_principal demo_participants) = 30"
    unfolding r_def by code_simp+
  from settlement_conserves_prize_and_cap [OF r] a show ?thesis by (simp add: r_def [symmetric])
qed

text \<open>
  The two internal checks of a settlement, winner reconciliation and prize conservation,
  never fail, whatever the arguments: every error it returns is an argument it refuses.
\<close>

theorem settlement_checks_never_fail:
  "settlePrivateDraw ps ticket prize ts cap \<noteq> Inl WinnerReconciliationFailed \<and>
   settlePrivateDraw ps ticket prize ts cap \<noteq> Inl PrizeConservationFailed"
proof -
  have "settlePrivateDraw ps ticket prize ts cap \<noteq> Inl e"
    if "e \<in> {WinnerReconciliationFailed, PrizeConservationFailed}" for e
  proof
    assume e: "settlePrivateDraw ps ticket prize ts cap = Inl e"
    with that have "0 \<le> prize" "nonneg_weights ps" "0 \<le> ticket" "ticket < total_weight ps"
      using settle_guards [OF e] by auto
    from settle_ok [OF this, of ts cap] e show False by auto
  qed
  then show ?thesis by simp
qed

text \<open>
  Once a round holds an accepted ticket, or is empty, no sequence of round calls changes
  it: a valid candidate is never redrawn.
\<close>

theorem accepted_ticket_is_final:
  assumes "st = ACCEPTED \<or> st = EMPTY"
  shows "snd (run_ops round_step ops st) = st \<and>
    (ops \<noteq> [] \<longrightarrow> \<not> is_ok (fst (run_ops round_step ops st)))"
proof -
  have "\<exists>e. round_step x st = (Inl e, st)" for x
    using assms
    by (cases x) (auto simp: close_def finalizeAggregate_def generate_candidate_def validity_def
        transition_def)
  then show ?thesis
  proof (cases ops)
    case (Cons x xs)
    from \<open>\<And>x. \<exists>e. round_step x st = (Inl e, st)\<close> obtain e where "round_step x st = (Inl e, st)"
      by blast
    with Cons show ?thesis by (simp add: bind_eff_apply)
  qed simp
qed

theorem accepted_ticket_is_final_witness:
  "snd (run_ops round_step [Close, FinalizeAggregate 8, Candidate False, Validity True] OPEN) = ACCEPTED \<and>
   snd (run_ops round_step [Candidate True, Validity False] ACCEPTED) = ACCEPTED"
  using accepted_ticket_is_final [of ACCEPTED "[Candidate True, Validity False]"] by (simp; code_simp)

text \<open>
  Cutting the participants into chunks only changes how many transactions process them:
  the chunks concatenate to 0, 1, ..., n - 1 in order, none is empty and none exceeds the
  requested size.
\<close>

theorem chunks_partition_participants:
  assumes "0 \<le> n" and "n \<le> MAX_SAFE_INTEGER" and "0 < k" and "k \<le> MAX_SAFE_INTEGER"
  shows "\<exists>cs. deterministicChunks (JInt n) (JInt k) = Inr cs \<and> concat cs = [0..<nat n] \<and>
    (\<forall>xs \<in> set cs. xs \<noteq> [] \<and> length xs \<le> nat k)"
  using assms concat_chunk_loop [of "nat k" "nat n" 0] chunk_loop_sizes [of _ "nat n" "nat k" 0]
  by (auto simp: MAX_SAFE_INTEGER_def)

theorem chunks_partition_participants_witness:
  "\<exists>cs. deterministicChunks (JInt 10) (JInt 4) = Inr cs \<and> concat cs = [0..<10]"
  using chunks_partition_participants [of 10 4] by (auto simp: MAX_SAFE_INTEGER_def)

end
