(* ===== verification/Weight_Domain.thy ===== *)
theory Weight_Domain
  imports Draw_Model
begin

text \<open>
  The weight-domain derivation of \<open>scripts/sg3-domain.ts\<close>: the locked envelope (pool, duration,
  precision), the bit-width computation, the checked accrual of a time-weighted balance, the
  rejection plan for a candidate width, and the derivation that fixes the production widths.

  Shown here: \<open>requiredBits\<close> returns the least sufficient width; accrual inside a round can
  neither overflow nor fail; the plan's mapping is a rejection sampler for every width, and for
  128 bits it agrees with the reference mapping; the whole derivation passes its own checks.
\<close>

section \<open>The locked envelope\<close>

definition TOKEN_DECIMALS :: int where "TOKEN_DECIMALS = 6"
definition TOKEN_SCALE :: int where "TOKEN_SCALE = 10 ^ nat TOKEN_DECIMALS"
definition MAX_POOL_WHOLE_TOKENS :: int where "MAX_POOL_WHOLE_TOKENS = 1000000000"
definition MAX_POOL_BASE_UNITS :: int where "MAX_POOL_BASE_UNITS = MAX_POOL_WHOLE_TOKENS * TOKEN_SCALE"
definition TIME_GRANULARITY_SECONDS :: int where "TIME_GRANULARITY_SECONDS = 1"
definition MAX_ROUND_DURATION_DAYS :: int where "MAX_ROUND_DURATION_DAYS = 365"
definition SECONDS_PER_DAY :: int where "SECONDS_PER_DAY = 24 * 60 * 60"
definition MAX_ROUND_DURATION_SECONDS :: int where
  "MAX_ROUND_DURATION_SECONDS = MAX_ROUND_DURATION_DAYS * SECONDS_PER_DAY"
definition MAX_USER_BALANCE_BASE_UNITS :: int where "MAX_USER_BALANCE_BASE_UNITS = MAX_POOL_BASE_UNITS"
definition MAX_USER_TWAB :: int where
  "MAX_USER_TWAB = MAX_USER_BALANCE_BASE_UNITS * MAX_ROUND_DURATION_SECONDS"
definition MAX_AGGREGATE_TWAB :: int where
  "MAX_AGGREGATE_TWAB = MAX_POOL_BASE_UNITS * MAX_ROUND_DURATION_SECONDS"
definition ENCRYPTED_WIDTHS :: "int list" where "ENCRYPTED_WIDTHS = [64, 128, 256]"
definition PRODUCTION_TICKET_WIDTH :: int where "PRODUCTION_TICKET_WIDTH = 128"

lemmas envelope_defs =
  TOKEN_DECIMALS_def TOKEN_SCALE_def MAX_POOL_WHOLE_TOKENS_def MAX_POOL_BASE_UNITS_def
  TIME_GRANULARITY_SECONDS_def MAX_ROUND_DURATION_DAYS_def SECONDS_PER_DAY_def
  MAX_ROUND_DURATION_SECONDS_def MAX_USER_BALANCE_BASE_UNITS_def MAX_USER_TWAB_def
  MAX_AGGREGATE_TWAB_def

section \<open>Data\<close>

record TwabState =
  ts_balance :: int
  ts_cumulativeTwab :: int
  ts_lastUpdate :: int

record TwabUpdate =
  tu_balance :: int
  tu_cumulativeTwab :: int
  tu_effectiveTime :: int
  tu_elapsed :: int
  tu_weightedDelta :: int

record RejectionPlan =
  pl_noDraw :: bool
  pl_total :: int
  pl_width :: int
  pl_domainSize :: int
  pl_quotient :: "int option"
  pl_rejectionLimit :: "int option"
  pl_rejectedCandidateCount :: "int option"
  pl_allCandidatesValid :: bool
  pl_rejectionLimitFitsCandidateWidth :: bool
  pl_acceptanceNumerator :: "int option"
  pl_acceptanceDenominator :: int
  pl_expectedAttemptsNumerator :: "int option"
  pl_expectedAttemptsDenominator :: "int option"

text \<open>The failed invariant, by its message; the first argument of the parametrised ones is the
  name of the checked quantity.\<close>

datatype domain_error =
    WidthMustBePositive
  | RequiredBitsInputNegative
  | NoSupportedEncryptedWidth
  | MustBeNonNegative string
  | ExceedsLockedMaximum string
  | TimestampsMustBeNonNegative
  | EffectiveTimePrecedesLastUpdate
  | CumulativeAdditionOverflows
  | CandidateWidthMustBePositive
  | RejectionLimitExceedsDomain
  | RemainderNotBelowTotal
  | NonZeroTotalHasNoLimit
  | DerivationCheckFailed string

section \<open>Bit widths\<close>

definition invariant :: "bool \<Rightarrow> domain_error \<Rightarrow> (domain_error, unit) result" where
  "invariant condition e = (if condition then Inr () else Inl e)"

definition maxUnsigned :: "int \<Rightarrow> (domain_error, int) result" where
  "maxUnsigned width = bind_result (invariant (width > 0) WidthMustBePositive)
     (\<lambda>_. Inr (2 ^ nat width - 1))"

text \<open>The loop of \<open>requiredBits\<close>; its variable \<open>maximum\<close> is always \<open>2 ^ bits - 1\<close>.\<close>

function bits_loop :: "int \<Rightarrow> nat \<Rightarrow> nat" where
  "bits_loop value bits = (if 2 ^ bits - 1 < value then bits_loop value (bits + 1) else bits)"
  by pat_completeness auto
termination
  by (relation "measure (\<lambda>(value, bits). nat (value - (2 ^ bits - 1)))") auto

declare bits_loop.simps [simp del]

definition requiredBits :: "int \<Rightarrow> (domain_error, int) result" where
  "requiredBits value = bind_result (invariant (value \<ge> 0) RequiredBitsInputNegative)
     (\<lambda>_. Inr (int (bits_loop value 0)))"

definition smallestSupportedWidth :: "int \<Rightarrow> (domain_error, int) result" where
  "smallestSupportedWidth bits = (case List.find (\<lambda>width. width \<ge> bits) ENCRYPTED_WIDTHS of
     Some width \<Rightarrow> Inr width | None \<Rightarrow> Inl NoSupportedEncryptedWidth)"

definition requireWithin :: "string \<Rightarrow> int \<Rightarrow> int \<Rightarrow> (domain_error, unit) result" where
  "requireWithin name value maximum =
     bind_result (invariant (value \<ge> 0) (MustBeNonNegative name)) (\<lambda>_.
       invariant (value \<le> maximum) (ExceedsLockedMaximum name))"

section \<open>Checked accrual\<close>

definition updateTwabBeforeBalanceMutation ::
  "TwabState \<Rightarrow> int \<Rightarrow> int \<Rightarrow> int \<Rightarrow> (domain_error, TwabUpdate) result" where
  "updateTwabBeforeBalanceMutation st currentTimestamp roundEnd nextBalance =
     bind_result (requireWithin ''balance'' (ts_balance st) MAX_USER_BALANCE_BASE_UNITS) (\<lambda>_.
     bind_result (requireWithin ''next balance'' nextBalance MAX_USER_BALANCE_BASE_UNITS) (\<lambda>_.
     bind_result (requireWithin ''cumulative TWAB'' (ts_cumulativeTwab st) MAX_USER_TWAB) (\<lambda>_.
     bind_result (invariant (currentTimestamp \<ge> 0 \<and> roundEnd \<ge> 0 \<and> ts_lastUpdate st \<ge> 0)
        TimestampsMustBeNonNegative) (\<lambda>_.
     let effectiveTime = (if currentTimestamp < roundEnd then currentTimestamp else roundEnd) in
     bind_result (invariant (effectiveTime \<ge> ts_lastUpdate st) EffectiveTimePrecedesLastUpdate) (\<lambda>_.
     let elapsed = effectiveTime - ts_lastUpdate st in
     bind_result (requireWithin ''elapsed time'' elapsed MAX_ROUND_DURATION_SECONDS) (\<lambda>_.
     let weightedDelta = ts_balance st * elapsed in
     bind_result (requireWithin ''weighted delta'' weightedDelta MAX_USER_TWAB) (\<lambda>_.
     bind_result (invariant (ts_cumulativeTwab st \<le> MAX_USER_TWAB - weightedDelta)
        CumulativeAdditionOverflows) (\<lambda>_.
     Inr \<lparr>tu_balance = nextBalance, tu_cumulativeTwab = ts_cumulativeTwab st + weightedDelta,
          tu_effectiveTime = effectiveTime, tu_elapsed = elapsed,
          tu_weightedDelta = weightedDelta\<rparr>))))))))"

section \<open>Rejection plan\<close>

definition rejectionPlan :: "int \<Rightarrow> int \<Rightarrow> (domain_error, RejectionPlan) result" where
  "rejectionPlan tot width =
     bind_result (invariant (width > 0) CandidateWidthMustBePositive) (\<lambda>_.
     let domainSize = 2 ^ nat width in
     bind_result (requireWithin ''aggregate total'' tot (domainSize - 1)) (\<lambda>_.
     if tot = 0 then
       Inr \<lparr>pl_noDraw = True, pl_total = tot, pl_width = width, pl_domainSize = domainSize,
            pl_quotient = None, pl_rejectionLimit = None, pl_rejectedCandidateCount = None,
            pl_allCandidatesValid = False, pl_rejectionLimitFitsCandidateWidth = False,
            pl_acceptanceNumerator = None, pl_acceptanceDenominator = domainSize,
            pl_expectedAttemptsNumerator = None, pl_expectedAttemptsDenominator = None\<rparr>
     else
       let quotient = big_div domainSize tot;
           rejectionLimit = quotient * tot;
           rejectedCandidateCount = domainSize - rejectionLimit
       in bind_result (invariant (rejectionLimit \<le> domainSize) RejectionLimitExceedsDomain) (\<lambda>_.
          bind_result (invariant (rejectedCandidateCount < tot) RemainderNotBelowTotal) (\<lambda>_.
          Inr \<lparr>pl_noDraw = False, pl_total = tot, pl_width = width, pl_domainSize = domainSize,
               pl_quotient = Some quotient, pl_rejectionLimit = Some rejectionLimit,
               pl_rejectedCandidateCount = Some rejectedCandidateCount,
               pl_allCandidatesValid = (rejectionLimit = domainSize),
               pl_rejectionLimitFitsCandidateWidth = (rejectionLimit \<le> domainSize - 1),
               pl_acceptanceNumerator = Some rejectionLimit, pl_acceptanceDenominator = domainSize,
               pl_expectedAttemptsNumerator = Some domainSize,
               pl_expectedAttemptsDenominator = Some rejectionLimit\<rparr>))))"

record CandidateDecision =
  ac_valid :: bool
  ac_ticket :: "int option"

definition acceptCandidate :: "int \<Rightarrow> int \<Rightarrow> int \<Rightarrow> (domain_error, CandidateDecision) result" where
  "acceptCandidate candidate tot width =
     bind_result (rejectionPlan tot width) (\<lambda>plan.
     bind_result (requireWithin ''candidate'' candidate (pl_domainSize plan - 1)) (\<lambda>_.
     if pl_noDraw plan then Inr \<lparr>ac_valid = False, ac_ticket = None\<rparr>
     else if tot = 1 then Inr \<lparr>ac_valid = True, ac_ticket = Some 0\<rparr>
     else case pl_rejectionLimit plan of
        None \<Rightarrow> Inl NonZeroTotalHasNoLimit
      | Some limit \<Rightarrow>
          let valid = (pl_allCandidatesValid plan \<or> candidate < limit)
          in Inr \<lparr>ac_valid = valid,
                  ac_ticket = (if valid then Some (big_mod candidate tot) else None)\<rparr>))"

section \<open>Derivation of the production widths\<close>

record WidthDecision =
  wd_widthBits :: int
  wd_maximumRepresentable :: int
  wd_balanceEnvelopeFits :: bool
  wd_completeTwabDomainFits :: bool
  wd_capacityMargin :: int
  wd_unusedHeadroomBits :: int
  wd_maximumWholeTokenPool :: int
  wd_maximumRoundDurationSeconds :: int
  wd_installedFullTicketApi :: bool

definition deriveWidthDecision :: "int \<Rightarrow> (domain_error, WidthDecision) result" where
  "deriveWidthDecision width =
     bind_result (maxUnsigned width) (\<lambda>maximum.
     bind_result (requiredBits MAX_AGGREGATE_TWAB) (\<lambda>requiredTwabBits.
     Inr \<lparr>wd_widthBits = width, wd_maximumRepresentable = maximum,
          wd_balanceEnvelopeFits = (MAX_POOL_BASE_UNITS \<le> maximum),
          wd_completeTwabDomainFits = (MAX_AGGREGATE_TWAB \<le> maximum),
          wd_capacityMargin = maximum - MAX_AGGREGATE_TWAB,
          wd_unusedHeadroomBits = width - requiredTwabBits,
          wd_maximumWholeTokenPool = big_div maximum (TOKEN_SCALE * MAX_ROUND_DURATION_SECONDS),
          wd_maximumRoundDurationSeconds = big_div maximum MAX_POOL_BASE_UNITS,
          wd_installedFullTicketApi = (width = 64 \<or> width = 128)\<rparr>))"

record DomainAnalysis =
  da_requiredBalanceBits :: int
  da_requiredElapsedTimeBits :: int
  da_requiredProductBits :: int
  da_requiredTwabBits :: int
  da_requiredAggregateBits :: int
  da_requiredTicketBits :: int
  da_balanceWidth :: int
  da_twabWidth :: int
  da_ticketWidth :: int
  da_productionPlan :: RejectionPlan
  da_domainSize :: int
  da_lowerBoundNumerator :: int
  da_widthDecisions :: "WidthDecision list"

definition derivation_checks :: "DomainAnalysis \<Rightarrow> (bool \<times> string) list" where
  "derivation_checks d =
     [(TOKEN_SCALE = 1000000, ''token scale is not six decimals''),
      (TIME_GRANULARITY_SECONDS = 1, ''time granularity is not one second''),
      (MAX_POOL_BASE_UNITS = 1000000000000000, ''pool scaling is incorrect''),
      (MAX_ROUND_DURATION_SECONDS = 31536000, ''round duration is incorrect''),
      (MAX_USER_TWAB = 31536000000000000000000, ''user TWAB bound is incorrect''),
      (MAX_AGGREGATE_TWAB = MAX_USER_TWAB, ''full-pool single-user bound differs from aggregate bound''),
      (da_requiredBalanceBits d = 50, ''balance bit derivation is incorrect''),
      (da_requiredElapsedTimeBits d = 25, ''elapsed-time bit derivation is incorrect''),
      (da_requiredTwabBits d = 75 \<and> da_requiredAggregateBits d = 75, ''TWAB bit derivation is incorrect''),
      (da_balanceWidth d = 64 \<and> da_twabWidth d = 128 \<and> da_ticketWidth d = 128, ''recommended widths changed''),
      (da_lowerBoundNumerator d * 2 > da_domainSize d, ''acceptance lower bound is not greater than one half''),
      (pl_rejectionLimit (da_productionPlan d) \<noteq> None, ''maximum total has no rejection limit'')]"

fun run_checks :: "(bool \<times> string) list \<Rightarrow> (domain_error, unit) result" where
  "run_checks [] = Inr ()"
| "run_checks ((ok, message) # cs) =
     bind_result (invariant ok (DerivationCheckFailed message)) (\<lambda>_. run_checks cs)"

definition deriveDomainAnalysis :: "(domain_error, DomainAnalysis) result" where
  "deriveDomainAnalysis =
     bind_result (requiredBits MAX_POOL_BASE_UNITS) (\<lambda>requiredBalanceBits.
     bind_result (requiredBits MAX_ROUND_DURATION_SECONDS) (\<lambda>requiredElapsedTimeBits.
     bind_result (requiredBits (MAX_USER_BALANCE_BASE_UNITS * MAX_ROUND_DURATION_SECONDS)) (\<lambda>requiredProductBits.
     bind_result (requiredBits MAX_USER_TWAB) (\<lambda>requiredTwabBits.
     bind_result (requiredBits MAX_AGGREGATE_TWAB) (\<lambda>requiredAggregateBits.
     bind_result (requiredBits (MAX_AGGREGATE_TWAB - 1)) (\<lambda>requiredTicketBits.
     bind_result (smallestSupportedWidth requiredBalanceBits) (\<lambda>balanceWidth.
     bind_result (smallestSupportedWidth requiredTwabBits) (\<lambda>twabWidth.
     bind_result (smallestSupportedWidth requiredTicketBits) (\<lambda>ticketWidth.
     bind_result (rejectionPlan MAX_AGGREGATE_TWAB ticketWidth) (\<lambda>productionPlan.
     let domainSize = 2 ^ nat ticketWidth;
         lowerBoundNumerator = domainSize - MAX_AGGREGATE_TWAB + 1;
         d = \<lparr>da_requiredBalanceBits = requiredBalanceBits,
              da_requiredElapsedTimeBits = requiredElapsedTimeBits,
              da_requiredProductBits = requiredProductBits,
              da_requiredTwabBits = requiredTwabBits,
              da_requiredAggregateBits = requiredAggregateBits,
              da_requiredTicketBits = requiredTicketBits, da_balanceWidth = balanceWidth,
              da_twabWidth = twabWidth, da_ticketWidth = ticketWidth,
              da_productionPlan = productionPlan, da_domainSize = domainSize,
              da_lowerBoundNumerator = lowerBoundNumerator, da_widthDecisions = []\<rparr>
     in bind_result (run_checks (derivation_checks d)) (\<lambda>_.
        bind_result (map_result deriveWidthDecision ENCRYPTED_WIDTHS) (\<lambda>ws.
        Inr (d\<lparr>da_widthDecisions := ws\<rparr>)))))))))))))"

section \<open>Lemmas on bit widths\<close>

lemma invariant_simps [simp]:
  "invariant True e = Inr ()" "invariant False e = Inl e"
  by (simp_all add: invariant_def)

lemma invariant_Inr [result_simps]: "invariant c e = Inr u \<longleftrightarrow> c"
  by (simp add: invariant_def)

lemma requireWithin_Inr [result_simps]: "requireWithin n v m = Inr u \<longleftrightarrow> 0 \<le> v \<and> v \<le> m"
  by (auto simp: requireWithin_def result_simps)

lemma requireWithin_ok [simp]: "0 \<le> v \<Longrightarrow> v \<le> m \<Longrightarrow> requireWithin n v m = Inr ()"
  by (simp add: requireWithin_Inr)

lemma bits_loop_spec:
  "v \<le> 2 ^ bits_loop v bits - 1 \<and> bits \<le> bits_loop v bits \<and>
   (\<forall>b. bits \<le> b \<longrightarrow> b < bits_loop v bits \<longrightarrow> 2 ^ b - 1 < v)"
proof (induction v bits rule: bits_loop.induct)
  case (1 v bits)
  show ?case
  proof (cases "2 ^ bits - 1 < v")
    case True
    then have eq: "bits_loop v bits = bits_loop v (bits + 1)"
      by (subst bits_loop.simps) simp
    have "2 ^ b - 1 < v" if "bits \<le> b" "b < bits_loop v (bits + 1)" for b
      using 1 True that by (cases "b = bits") auto
    with 1 True eq show ?thesis by auto
  next
    case False
    then have "bits_loop v bits = bits" by (subst bits_loop.simps) simp
    with False show ?thesis by auto
  qed
qed

text \<open>Evaluation of the loop at a given width, without running it.\<close>

lemma requiredBits_eval:
  assumes "0 \<le> v" and "v \<le> 2 ^ Suc w - 1" and "2 ^ w - 1 < v"
  shows "requiredBits v = Inr (int (Suc w))"
proof -
  let ?b = "bits_loop v 0"
  note spec = bits_loop_spec [of v 0]
  have "\<not> Suc w < ?b" using spec assms(2) by (force simp: not_le [symmetric])
  moreover have "w < ?b"
  proof (rule ccontr)
    assume "\<not> w < ?b"
    then have "(2::int) ^ ?b \<le> 2 ^ w" by simp
    with spec assms(3) show False by linarith
  qed
  ultimately show ?thesis using assms(1) by (simp add: requiredBits_def)
qed

section \<open>The plan samples by rejection, at every width\<close>

lemma rejectionPlan_ok:
  assumes "0 < width" and "0 < tot" and "tot < 2 ^ nat width"
  shows "rejectionPlan tot width =
    (let domainSize = 2 ^ nat width; limit = domainSize div tot * tot in
     Inr \<lparr>pl_noDraw = False, pl_total = tot, pl_width = width, pl_domainSize = domainSize,
          pl_quotient = Some (domainSize div tot), pl_rejectionLimit = Some limit,
          pl_rejectedCandidateCount = Some (domainSize mod tot),
          pl_allCandidatesValid = (limit = domainSize),
          pl_rejectionLimitFitsCandidateWidth = (limit \<le> domainSize - 1),
          pl_acceptanceNumerator = Some limit, pl_acceptanceDenominator = domainSize,
          pl_expectedAttemptsNumerator = Some domainSize,
          pl_expectedAttemptsDenominator = Some limit\<rparr>)"
proof -
  have "(2::int) ^ nat width - 2 ^ nat width div tot * tot = 2 ^ nat width mod tot"
    by (simp add: minus_div_mult_eq_mod)
  moreover have "(2::int) ^ nat width div tot * tot \<le> 2 ^ nat width"
    using assms(2) by (simp add: minus_mod_eq_div_mult [symmetric])
  ultimately show ?thesis
    using assms by (simp add: rejectionPlan_def Let_def)
qed

definition sg3_ticket :: "int \<Rightarrow> int \<Rightarrow> int \<Rightarrow> int option" where
  "sg3_ticket width c tot = (case acceptCandidate c tot width of
     Inl _ \<Rightarrow> None | Inr d \<Rightarrow> if ac_valid d then ac_ticket d else None)"

lemma sg3_ticket_law:
  assumes "0 < width" "0 < T" "T < 2 ^ nat width" "0 \<le> c" "c < 2 ^ nat width"
  shows "sg3_ticket width c T = (if c < 2 ^ nat width div T * T then Some (c mod T) else None)"
  using assms by (auto simp: sg3_ticket_def acceptCandidate_def rejectionPlan_ok Let_def)

interpretation sg3_sampler: rejection_sampler "2 ^ nat (1 + int w)" "sg3_ticket (1 + int w)" for w
  by unfold_locales (simp_all add: sg3_ticket_law)

section \<open>Accrual inside a round\<close>

text \<open>What the accruals of a round keep: the weight so far is at most the largest balance times
  the time accounted for, which is within the round.\<close>

definition accrual_inv :: "int \<Rightarrow> int \<Rightarrow> TwabState \<Rightarrow> bool" where
  "accrual_inv roundStart roundEnd st = (
     0 \<le> roundStart \<and> roundStart \<le> ts_lastUpdate st \<and> ts_lastUpdate st \<le> roundEnd \<and>
     roundEnd - roundStart \<le> MAX_ROUND_DURATION_SECONDS \<and>
     0 \<le> ts_balance st \<and> ts_balance st \<le> MAX_USER_BALANCE_BASE_UNITS \<and>
     0 \<le> ts_cumulativeTwab st \<and>
     ts_cumulativeTwab st \<le> MAX_USER_BALANCE_BASE_UNITS * (ts_lastUpdate st - roundStart))"

definition next_state :: "TwabUpdate \<Rightarrow> TwabState" where
  "next_state u = \<lparr>ts_balance = tu_balance u, ts_cumulativeTwab = tu_cumulativeTwab u,
     ts_lastUpdate = tu_effectiveTime u\<rparr>"

lemma accrual_step:
  assumes inv: "accrual_inv roundStart roundEnd st" and now: "ts_lastUpdate st \<le> now"
    and nb: "0 \<le> nextBalance" "nextBalance \<le> MAX_USER_BALANCE_BASE_UNITS"
  defines "eff \<equiv> min now roundEnd"
  shows "updateTwabBeforeBalanceMutation st now roundEnd nextBalance =
      Inr \<lparr>tu_balance = nextBalance,
           tu_cumulativeTwab = ts_cumulativeTwab st + ts_balance st * (eff - ts_lastUpdate st),
           tu_effectiveTime = eff, tu_elapsed = eff - ts_lastUpdate st,
           tu_weightedDelta = ts_balance st * (eff - ts_lastUpdate st)\<rparr>"
    and "ts_cumulativeTwab st + ts_balance st * (eff - ts_lastUpdate st)
      \<le> MAX_USER_BALANCE_BASE_UNITS * (eff - roundStart)"
proof -
  let ?B = MAX_USER_BALANCE_BASE_UNITS and ?D = MAX_ROUND_DURATION_SECONDS
  let ?d = "ts_balance st * (eff - ts_lastUpdate st)"
  have e: "ts_lastUpdate st \<le> eff" "eff \<le> roundEnd" "eff = (if now < roundEnd then now else roundEnd)"
    using inv now by (auto simp: accrual_inv_def eff_def)
  have d: "0 \<le> ?d" "?d \<le> ?B * (eff - ts_lastUpdate st)"
    using inv e(1) by (auto simp: accrual_inv_def intro: mult_right_mono)
  then show s: "ts_cumulativeTwab st + ?d \<le> ?B * (eff - roundStart)"
    using inv by (simp add: accrual_inv_def right_diff_distrib)
  have "?B * (eff - roundStart) \<le> ?B * ?D"
    using inv e(2) by (intro mult_left_mono) (auto simp: accrual_inv_def)
  with s have tot: "ts_cumulativeTwab st + ?d \<le> MAX_USER_TWAB" by (simp add: MAX_USER_TWAB_def)
  with d(1) have cum: "ts_cumulativeTwab st \<le> MAX_USER_TWAB" "?d \<le> MAX_USER_TWAB"
    using inv by (auto simp: accrual_inv_def)
  show "updateTwabBeforeBalanceMutation st now roundEnd nextBalance =
      Inr \<lparr>tu_balance = nextBalance, tu_cumulativeTwab = ts_cumulativeTwab st + ?d,
           tu_effectiveTime = eff, tu_elapsed = eff - ts_lastUpdate st, tu_weightedDelta = ?d\<rparr>"
    using inv e(1,2) d(1) tot cum nb now
    by (simp add: updateTwabBeforeBalanceMutation_def Let_def accrual_inv_def e(3) [symmetric])
qed

section \<open>Properties\<close>

text \<open>
  C37. Accrual in a round of at most the locked duration never fails a check: the update
  returns, adds exactly balance times elapsed time (clamped to the round end), keeps the weight
  within the locked maximum, hence within 128 bits, and leaves a state from which the next
  accrual succeeds as well.
\<close>

theorem accrual_never_overflows:
  assumes "accrual_inv roundStart roundEnd st" and "ts_lastUpdate st \<le> now"
    and "0 \<le> nextBalance" and "nextBalance \<le> MAX_USER_BALANCE_BASE_UNITS"
  shows "\<exists>u. updateTwabBeforeBalanceMutation st now roundEnd nextBalance = Inr u \<and>
    tu_cumulativeTwab u = ts_cumulativeTwab st + ts_balance st * (min now roundEnd - ts_lastUpdate st) \<and>
    accrual_inv roundStart roundEnd (next_state u) \<and> tu_cumulativeTwab u \<le> MAX_USER_TWAB \<and>
    tu_cumulativeTwab u < 2 ^ 128"
proof -
  let ?e = "min now roundEnd"
  let ?c = "ts_cumulativeTwab st + ts_balance st * (?e - ts_lastUpdate st)"
  note step = accrual_step [OF assms]
  have "0 \<le> ts_balance st * (?e - ts_lastUpdate st)"
    using assms(1,2) by (simp add: accrual_inv_def)
  with step(2) assms have inv: "accrual_inv roundStart roundEnd
      \<lparr>ts_balance = nextBalance, ts_cumulativeTwab = ?c, ts_lastUpdate = ?e\<rparr>"
    by (auto simp: accrual_inv_def)
  have "MAX_USER_BALANCE_BASE_UNITS * (?e - roundStart) \<le> MAX_USER_TWAB"
    unfolding MAX_USER_TWAB_def using assms(1)
    by (intro mult_left_mono) (auto simp: accrual_inv_def)
  with step(2) have "?c \<le> MAX_USER_TWAB" by linarith
  moreover have "MAX_USER_TWAB < 2 ^ 128" by (simp add: envelope_defs)
  ultimately show ?thesis using step(1) inv by (auto simp: next_state_def)
qed

theorem accrual_never_overflows_witness:
  "\<exists>u. updateTwabBeforeBalanceMutation
         \<lparr>ts_balance = 1000000000000000, ts_cumulativeTwab = 0, ts_lastUpdate = 10\<rparr> 40000000 31536010 5
       = Inr u \<and> tu_cumulativeTwab u = MAX_USER_TWAB"
  using accrual_never_overflows [of 10 31536010
      "\<lparr>ts_balance = 1000000000000000, ts_cumulativeTwab = 0, ts_lastUpdate = 10\<rparr>" 40000000 5]
  by (auto simp: accrual_inv_def envelope_defs)

text \<open>
  The bit count returned for a non-negative value is the least width whose unsigned
  maximum reaches it.
\<close>

theorem requiredBits_is_least_width:
  assumes "0 \<le> v"
  shows "\<exists>w. requiredBits v = Inr (int w) \<and> v \<le> 2 ^ w - 1 \<and> (\<forall>w'. v \<le> 2 ^ w' - 1 \<longrightarrow> w \<le> w')"
proof (intro exI conjI allI impI)
  show "requiredBits v = Inr (int (bits_loop v 0))" using assms by (simp add: requiredBits_def)
  show "v \<le> 2 ^ bits_loop v 0 - 1" using bits_loop_spec [of v 0] by simp
  show "bits_loop v 0 \<le> w'" if "v \<le> 2 ^ w' - 1" for w'
    using bits_loop_spec [of v 0] that by (force simp: not_le [symmetric])
qed

theorem requiredBits_is_least_width_witness:
  "\<exists>w. requiredBits 1000000 = Inr (int w) \<and> (1000000 :: int) \<le> 2 ^ w - 1 \<and> w \<le> 20"
proof -
  from requiredBits_is_least_width [of 1000000] obtain w where
      "requiredBits 1000000 = Inr (int w)" "(1000000 :: int) \<le> 2 ^ w - 1"
      "\<forall>w'. (1000000 :: int) \<le> 2 ^ w' - 1 \<longrightarrow> w \<le> w'"
    by auto
  moreover from this(3) have "(1000000 :: int) \<le> 2 ^ 20 - 1 \<longrightarrow> w \<le> 20" by blast
  ultimately show ?thesis by auto
qed

text \<open>
  C36. The two independently written mappings agree: on every candidate and every total, in or
  out of range, the plan at the production width gives the ticket of the reference mapping, or
  both give none.
\<close>

theorem sg3_mapping_equals_reference_mapping:
  "sg3_ticket PRODUCTION_TICKET_WIDTH candidate totalWeight = map_ticket candidate totalWeight"
proof (cases "0 < totalWeight \<and> totalWeight < UINT128_DOMAIN \<and> 0 \<le> candidate \<and> candidate < UINT128_DOMAIN")
  case True
  then show ?thesis
    using map_ticket_law [of totalWeight candidate] sg3_ticket_law [of 128 totalWeight candidate]
    by (simp add: PRODUCTION_TICKET_WIDTH_def UINT128_DOMAIN_def)
next
  case False
  then have "map_ticket candidate totalWeight = None"
    by (auto simp: map_ticket_def mapCandidate_def rejectionParameters_def)
  moreover from False have "sg3_ticket 128 candidate totalWeight = None"
    by (auto simp: sg3_ticket_def acceptCandidate_def rejectionPlan_def requireWithin_def
        invariant_def Let_def UINT128_DOMAIN_def split: sum.splits if_splits)
  ultimately show ?thesis by (simp add: PRODUCTION_TICKET_WIDTH_def)
qed

text \<open>
  The derivation passes all its own checks: it returns, with 50-bit balances, 75-bit
  weights, 64-bit encrypted balances and 128-bit weights and tickets.
\<close>

theorem domain_analysis_passes:
  "\<exists>d. deriveDomainAnalysis = Inr d \<and> da_requiredBalanceBits d = 50 \<and> da_requiredTwabBits d = 75 \<and>
     da_balanceWidth d = 64 \<and> da_twabWidth d = 128 \<and> da_ticketWidth d = 128 \<and>
     map wd_completeTwabDomainFits (da_widthDecisions d) = [False, True, True]"
proof -
  have bits: "requiredBits MAX_POOL_BASE_UNITS = Inr 50"
      "requiredBits MAX_ROUND_DURATION_SECONDS = Inr 25"
      "requiredBits (MAX_USER_BALANCE_BASE_UNITS * MAX_ROUND_DURATION_SECONDS) = Inr 75"
      "requiredBits MAX_USER_TWAB = Inr 75" "requiredBits MAX_AGGREGATE_TWAB = Inr 75"
      "requiredBits (MAX_AGGREGATE_TWAB - 1) = Inr 75"
    using requiredBits_eval [of MAX_POOL_BASE_UNITS 49]
      requiredBits_eval [of MAX_ROUND_DURATION_SECONDS 24] requiredBits_eval [of MAX_USER_TWAB 74]
      requiredBits_eval [of "MAX_AGGREGATE_TWAB - 1" 74]
    by (simp_all add: envelope_defs)
  have widths: "smallestSupportedWidth 50 = Inr 64" "smallestSupportedWidth 75 = Inr 128"
    by (simp_all add: smallestSupportedWidth_def ENCRYPTED_WIDTHS_def)
  obtain p where plan: "rejectionPlan MAX_AGGREGATE_TWAB 128 = Inr p" "pl_rejectionLimit p \<noteq> None"
    using rejectionPlan_ok [of 128 MAX_AGGREGATE_TWAB] by (simp add: envelope_defs Let_def)
  obtain d1 d2 d3 where dec: "deriveWidthDecision 64 = Inr d1" "deriveWidthDecision 128 = Inr d2"
      "deriveWidthDecision 256 = Inr d3"
    and fits: "\<not> wd_completeTwabDomainFits d1" "wd_completeTwabDomainFits d2"
      "wd_completeTwabDomainFits d3"
    unfolding deriveWidthDecision_def bits(5)
    by (simp add: maxUnsigned_def envelope_defs)
  show ?thesis
    unfolding deriveDomainAnalysis_def bits bind_result.simps widths plan(1)
    using plan(2)
    by (simp add: Let_def derivation_checks_def ENCRYPTED_WIDTHS_def dec fits envelope_defs)
qed

end
