(* ===== verification/Lifecycle.thy ===== *)
theory Lifecycle
  imports Prelude
begin

text \<open>
  The shared vocabulary of the keeper, from \<open>keeper/src/lifecycle.ts\<close>: round states with their
  contract numbers, the snapshot of the protocol that one poll reads, lifecycle actions, signed
  transactions, receipts, and the journal-independent records the other keeper components use.
\<close>

section \<open>Constants and enumerations\<close>

definition SEPOLIA_CHAIN_ID :: int where "SEPOLIA_CHAIN_ID = 11155111"
definition SELECTION_CHUNK_SIZE :: int where "SELECTION_CHUNK_SIZE = 4"
definition ALLOCATION_CHUNK_SIZE :: int where "ALLOCATION_CHUNK_SIZE = 4"

datatype RoundState =
    UNINITIALIZED | OPEN | AGGREGATE_PENDING | AGGREGATE_FINALIZED | EMPTY
  | CANDIDATE_VALIDITY_PENDING | CANDIDATE_REJECTED | TICKET_ACCEPTED | WINNER_PROCESSING
  | WINNINGS_ALLOCATED | SETTLED | RECONCILIATION_PENDING | RECONCILIATION_FAILED
  | READY_TO_ALLOCATE | ALLOCATION_PROCESSING

fun round_state_number :: "RoundState \<Rightarrow> int" where
  "round_state_number UNINITIALIZED = 0"
| "round_state_number OPEN = 1"
| "round_state_number AGGREGATE_PENDING = 2"
| "round_state_number AGGREGATE_FINALIZED = 3"
| "round_state_number EMPTY = 4"
| "round_state_number CANDIDATE_VALIDITY_PENDING = 5"
| "round_state_number CANDIDATE_REJECTED = 6"
| "round_state_number TICKET_ACCEPTED = 7"
| "round_state_number WINNER_PROCESSING = 8"
| "round_state_number WINNINGS_ALLOCATED = 9"
| "round_state_number SETTLED = 10"
| "round_state_number RECONCILIATION_PENDING = 11"
| "round_state_number RECONCILIATION_FAILED = 12"
| "round_state_number READY_TO_ALLOCATE = 13"
| "round_state_number ALLOCATION_PROCESSING = 14"

definition all_round_states :: "RoundState list" where
  "all_round_states = [UNINITIALIZED, OPEN, AGGREGATE_PENDING, AGGREGATE_FINALIZED, EMPTY,
     CANDIDATE_VALIDITY_PENDING, CANDIDATE_REJECTED, TICKET_ACCEPTED, WINNER_PROCESSING,
     WINNINGS_ALLOCATED, SETTLED, RECONCILIATION_PENDING, RECONCILIATION_FAILED,
     READY_TO_ALLOCATE, ALLOCATION_PROCESSING]"

text \<open>The state with a contract number.\<close>

definition round_state_of_number :: "int \<Rightarrow> RoundState option" where
  "round_state_of_number n = List.find (\<lambda>st. round_state_number st = n) all_round_states"

datatype LifecycleActionKind =
    RegisterAutoEntry | PruneAutoEntry | CloseRound | FinalizeAggregate | SettleEmptyRound
  | GenerateRandomCandidate | FinalizeCandidateValidity | ProcessSelection
  | FinalizeReconciliation | RecoverFailedReconciliation | ProcessAllocation | FinalizeSettlement

fun kind_string :: "LifecycleActionKind \<Rightarrow> string" where
  "kind_string RegisterAutoEntry = ''register-auto-entry''"
| "kind_string PruneAutoEntry = ''prune-auto-entry''"
| "kind_string CloseRound = ''close-round''"
| "kind_string FinalizeAggregate = ''finalize-aggregate''"
| "kind_string SettleEmptyRound = ''settle-empty-round''"
| "kind_string GenerateRandomCandidate = ''generate-random-candidate''"
| "kind_string FinalizeCandidateValidity = ''finalize-candidate-validity''"
| "kind_string ProcessSelection = ''process-selection''"
| "kind_string FinalizeReconciliation = ''finalize-reconciliation''"
| "kind_string RecoverFailedReconciliation = ''recover-failed-reconciliation''"
| "kind_string ProcessAllocation = ''process-allocation''"
| "kind_string FinalizeSettlement = ''finalize-settlement''"

definition all_kinds :: "LifecycleActionKind list" where
  "all_kinds = [RegisterAutoEntry, PruneAutoEntry, CloseRound, FinalizeAggregate, SettleEmptyRound,
     GenerateRandomCandidate, FinalizeCandidateValidity, ProcessSelection,
     FinalizeReconciliation, RecoverFailedReconciliation, ProcessAllocation, FinalizeSettlement]"

section \<open>Records\<close>

record VaultConfig =
  vc_id :: int
  vc_name :: string
  vc_cadence :: string
  vc_address :: string
  vc_bondEscrow :: string
  vc_automaticEntry :: "bool option"

record RoundSnapshot =
  rs_roundId :: int
  rs_opensAt :: int
  rs_closesAt :: int
  rs_state :: RoundState
  rs_publicAggregateTwab :: int
  rs_publicPrize :: int
  rs_participantCount :: int
  rs_selectionCursor :: int
  rs_allocationCursor :: int
  rs_candidateValidityHandle :: "string option"

record AutoEntryCandidate =
  ae_account :: string
  ae_enabled :: bool
  ae_prospectivelyEnabled :: "bool option"
  ae_availableCredit :: int
  ae_registered :: bool

record VaultSnapshot =
  vs_vault :: VaultConfig
  vs_activeRoundId :: int
  vs_bondAmount :: int
  vs_autoEntryCandidates :: "AutoEntryCandidate list"
  vs_rounds :: "RoundSnapshot list"

record ProtocolSnapshot =
  ps_chainId :: int
  ps_blockNumber :: int
  ps_blockHash :: string
  ps_blockTimestamp :: int
  ps_vaults :: "VaultSnapshot list"

record SnapshotReadHint =
  sh_vaultAddress :: string
  sh_account :: "string option"
  sh_roundId :: "int option"

record LifecycleAction =
  la_key :: string
  la_kind :: LifecycleActionKind
  la_vault :: VaultConfig
  la_roundId :: int
  la_cursor :: "int option"
  la_account :: "string option"

record PublicProof =
  pp_abiEncodedClearValues :: string
  pp_decryptionProof :: string

record GasPolicyDecision =
  gd_action :: LifecycleActionKind
  gd_estimatedGas :: "int option"
  gd_gasFloor :: "int option"
  gd_multiplierBps :: js_number
  gd_additiveMargin :: int
  gd_gasLimit :: int
  gd_estimationFallback :: "bool option"

record SignedLifecycleTransaction =
  tx_action :: LifecycleAction
  tx_hash :: string
  tx_nonce :: int
  tx_serialized :: string
  tx_calldataHash :: string
  tx_maximumCostWei :: int
  tx_gasPolicy :: "GasPolicyDecision option"

record ReceiptView =
  rv_hash :: string
  rv_blockHash :: string
  rv_blockNumber :: int
  rv_status :: "int option"
  rv_confirmations :: int

section \<open>Lemmas\<close>

instantiation RoundState :: linorder
begin

definition less_eq_RoundState :: "RoundState \<Rightarrow> RoundState \<Rightarrow> bool" where
  "less_eq_RoundState a b = (round_state_number a \<le> round_state_number b)"

definition less_RoundState :: "RoundState \<Rightarrow> RoundState \<Rightarrow> bool" where
  "less_RoundState a b = (round_state_number a < round_state_number b)"

instance
proof
  fix a b :: RoundState
  show "a \<le> b \<Longrightarrow> b \<le> a \<Longrightarrow> a = b"
    by (cases a; cases b) (simp_all add: less_eq_RoundState_def)
qed (auto simp: less_eq_RoundState_def less_RoundState_def)

end

lemma round_state_number_inject: "round_state_number a = round_state_number b \<longleftrightarrow> a = b"
  by (metis less_eq_RoundState_def order_antisym order_refl)

lemma in_all_round_states: "st \<in> set all_round_states"
  by (cases st) (simp_all add: all_round_states_def)

lemma round_state_roundtrip: "round_state_of_number (round_state_number st) = Some st"
  unfolding round_state_of_number_def
  by (rule find_unique) (auto simp: in_all_round_states round_state_number_inject)

lemma in_all_kinds [simp]: "k \<in> set all_kinds"
  by (cases k) (simp_all add: all_kinds_def)

lemma kind_string_inject [simp]: "kind_string a = kind_string b \<longleftrightarrow> a = b"
  by (cases a; cases b) simp_all

lemma kind_string_no_colon: "CHR '':'' \<notin> set (kind_string k)"
  by (cases k) simp_all

end
