(* ===== verification/Planner.thy ===== *)
theory Planner
  imports Lifecycle
begin

text \<open>
  The decision function of the keeper, \<open>keeper/src/planner.ts\<close>: \<open>planNextAction\<close> picks one
  operation from a snapshot, \<open>isActionRequired\<close> re-checks an operation against a later snapshot.

  Shown here: a planned action is required by the snapshot it was planned from; due closures
  come first; the planner returns nothing only when there is nothing to do; settlement follows
  round order inside a vault; the plan does not depend on the order the vaults were read in; an
  action key identifies vault, round, kind and version.
\<close>

section \<open>Definitions\<close>

definition findRound :: "VaultSnapshot \<Rightarrow> int \<Rightarrow> RoundSnapshot option" where
  "findRound vault roundId = List.find (\<lambda>round. rs_roundId round = roundId) (vs_rounds vault)"

definition actionKey :: "VaultSnapshot \<Rightarrow> RoundSnapshot \<Rightarrow> LifecycleActionKind \<Rightarrow> string \<Rightarrow> string" where
  "actionKey vault round kind version =
     toLowerCase (vc_address (vs_vault vault)) @ '':'' @ int_to_string (rs_roundId round) @ '':''
       @ kind_string kind @ '':'' @ version"

text \<open>The optional arguments: \<open>version\<close> defaults to \<open>"phase"\<close>.\<close>

definition createAction ::
  "VaultSnapshot \<Rightarrow> RoundSnapshot \<Rightarrow> LifecycleActionKind \<Rightarrow> string option \<Rightarrow> int option \<Rightarrow> string option
    \<Rightarrow> LifecycleAction" where
  "createAction vault round kind version cursor account =
     \<lparr>la_key = actionKey vault round kind (case version of None \<Rightarrow> ''phase'' | Some v \<Rightarrow> v),
      la_kind = kind, la_vault = vs_vault vault, la_roundId = rs_roundId round,
      la_cursor = cursor, la_account = account\<rparr>"

definition handle_or :: "RoundSnapshot \<Rightarrow> string \<Rightarrow> string" where
  "handle_or round d = (case rs_candidateValidityHandle round of None \<Rightarrow> d | Some h \<Rightarrow> h)"

definition actionForRound :: "VaultSnapshot \<Rightarrow> RoundSnapshot \<Rightarrow> LifecycleAction option" where
  "actionForRound vault round = (case rs_state round of
     AGGREGATE_PENDING \<Rightarrow> Some (createAction vault round FinalizeAggregate None None None)
   | AGGREGATE_FINALIZED \<Rightarrow>
       Some (createAction vault round GenerateRandomCandidate (Some ''initial'') None None)
   | EMPTY \<Rightarrow> Some (createAction vault round SettleEmptyRound None None None)
   | CANDIDATE_VALIDITY_PENDING \<Rightarrow>
       Some (createAction vault round FinalizeCandidateValidity
               (Some (handle_or round ''pending-handle'')) None None)
   | CANDIDATE_REJECTED \<Rightarrow>
       Some (createAction vault round GenerateRandomCandidate
               (Some (handle_or round ''rejected-handle'')) None None)
   | TICKET_ACCEPTED \<Rightarrow>
       Some (createAction vault round ProcessSelection
               (Some (int_to_string (rs_selectionCursor round))) (Some (rs_selectionCursor round)) None)
   | WINNER_PROCESSING \<Rightarrow>
       Some (createAction vault round ProcessSelection
               (Some (int_to_string (rs_selectionCursor round))) (Some (rs_selectionCursor round)) None)
   | RECONCILIATION_PENDING \<Rightarrow> Some (createAction vault round FinalizeReconciliation None None None)
   | RECONCILIATION_FAILED \<Rightarrow> Some (createAction vault round RecoverFailedReconciliation None None None)
   | READY_TO_ALLOCATE \<Rightarrow>
       Some (createAction vault round ProcessAllocation
               (Some (int_to_string (rs_allocationCursor round))) (Some (rs_allocationCursor round)) None)
   | ALLOCATION_PROCESSING \<Rightarrow>
       Some (createAction vault round ProcessAllocation
               (Some (int_to_string (rs_allocationCursor round))) (Some (rs_allocationCursor round)) None)
   | WINNINGS_ALLOCATED \<Rightarrow> Some (createAction vault round FinalizeSettlement None None None)
   | UNINITIALIZED \<Rightarrow> None
   | OPEN \<Rightarrow> None
   | SETTLED \<Rightarrow> None)"

text \<open>The closure of a vault's expired active round, if it is due.\<close>

definition dueClosure :: "int \<Rightarrow> VaultSnapshot \<Rightarrow> LifecycleAction option" where
  "dueClosure now vault = (case findRound vault (vs_activeRoundId vault) of
     None \<Rightarrow> None
   | Some active \<Rightarrow>
       if rs_state active \<noteq> OPEN \<or> now < rs_closesAt active then None
       else Some (createAction vault active CloseRound (Some (int_to_string (rs_closesAt active))) None None))"

definition dueClosures :: "ProtocolSnapshot \<Rightarrow> LifecycleAction list" where
  "dueClosures snapshot =
     sort_key (\<lambda>a. (la_roundId a, vc_id (la_vault a)))
       (List.map_filter (dueClosure (ps_blockTimestamp snapshot)) (ps_vaults snapshot))"

definition entry_ready :: "VaultSnapshot \<Rightarrow> AutoEntryCandidate \<Rightarrow> bool" where
  "entry_ready vault entry =
     (ae_enabled entry \<and> \<not> ae_registered entry \<and> ae_availableCredit entry \<ge> vs_bondAmount vault)"

definition entry_stale :: "AutoEntryCandidate \<Rightarrow> bool" where
  "entry_stale entry = (\<not> ae_enabled entry \<and> ae_prospectivelyEnabled entry \<noteq> Some True)"

text \<open>One iteration of the second loop: registration first, then pruning.\<close>

definition entryAction :: "int \<Rightarrow> VaultSnapshot \<Rightarrow> LifecycleAction option" where
  "entryAction now vault = (case findRound vault (vs_activeRoundId vault) of
     None \<Rightarrow> None
   | Some active \<Rightarrow>
       if rs_state active \<noteq> OPEN \<or> now \<ge> rs_closesAt active then None
       else case List.find (entry_ready vault) (vs_autoEntryCandidates vault) of
         Some candidate \<Rightarrow>
           Some (createAction vault active RegisterAutoEntry
             (Some (toLowerCase (ae_account candidate))) None (Some (ae_account candidate)))
       | None \<Rightarrow> (case List.find entry_stale (vs_autoEntryCandidates vault) of
           Some stale \<Rightarrow>
             Some (createAction vault active PruneAutoEntry
               (Some (toLowerCase (ae_account stale))) None (Some (ae_account stale)))
         | None \<Rightarrow> None))"

definition unfinishedRounds :: "VaultSnapshot \<Rightarrow> RoundSnapshot list" where
  "unfinishedRounds vault =
     sort_key rs_roundId
       (filter (\<lambda>round. rs_roundId round < vs_activeRoundId vault \<and> rs_state round \<noteq> SETTLED)
          (vs_rounds vault))"

text \<open>One iteration of the third loop: the oldest unfinished round that has an action.\<close>

definition settlementAction :: "VaultSnapshot \<Rightarrow> LifecycleAction option" where
  "settlementAction vault = first_some (actionForRound vault) (unfinishedRounds vault)"

definition vaults_by_id :: "ProtocolSnapshot \<Rightarrow> VaultSnapshot list" where
  "vaults_by_id snapshot = sort_key (\<lambda>v. vc_id (vs_vault v)) (ps_vaults snapshot)"

definition planNextAction :: "ProtocolSnapshot \<Rightarrow> LifecycleAction option" where
  "planNextAction snapshot = (case dueClosures snapshot of
     a # _ \<Rightarrow> Some a
   | [] \<Rightarrow>
       (case first_some (entryAction (ps_blockTimestamp snapshot)) (vaults_by_id snapshot) of
          Some a \<Rightarrow> Some a
        | None \<Rightarrow> first_some settlementAction (vaults_by_id snapshot)))"

definition find_vault :: "ProtocolSnapshot \<Rightarrow> string \<Rightarrow> VaultSnapshot option" where
  "find_vault snapshot address =
     List.find (\<lambda>c. toLowerCase (vc_address (vs_vault c)) = toLowerCase address) (ps_vaults snapshot)"

text \<open>\<open>entry.account.toLowerCase() === action.account?.toLowerCase()\<close>\<close>

definition find_candidate :: "VaultSnapshot \<Rightarrow> LifecycleAction \<Rightarrow> AutoEntryCandidate option" where
  "find_candidate vault action =
     List.find (\<lambda>entry. Some (toLowerCase (ae_account entry)) = map_option toLowerCase (la_account action))
       (vs_autoEntryCandidates vault)"

definition active_open :: "ProtocolSnapshot \<Rightarrow> VaultSnapshot \<Rightarrow> bool" where
  "active_open snapshot vault = (case findRound vault (vs_activeRoundId vault) of
     None \<Rightarrow> False
   | Some active \<Rightarrow> rs_state active = OPEN \<and> ps_blockTimestamp snapshot < rs_closesAt active)"

definition required_in :: "ProtocolSnapshot \<Rightarrow> VaultSnapshot \<Rightarrow> RoundSnapshot \<Rightarrow> LifecycleAction \<Rightarrow> bool" where
  "required_in snapshot vault round action = (case la_kind action of
     RegisterAutoEntry \<Rightarrow>
       la_roundId action = vs_activeRoundId vault \<and> active_open snapshot vault \<and>
       (case find_candidate vault action of None \<Rightarrow> False
        | Some c \<Rightarrow> ae_enabled c \<and> \<not> ae_registered c \<and> ae_availableCredit c \<ge> vs_bondAmount vault)
   | PruneAutoEntry \<Rightarrow>
       la_roundId action = vs_activeRoundId vault \<and>
       (case findRound vault (vs_activeRoundId vault) of None \<Rightarrow> False | Some a \<Rightarrow> rs_state a = OPEN) \<and>
       (case find_candidate vault action of None \<Rightarrow> False
        | Some c \<Rightarrow> \<not> ae_enabled c \<and> ae_prospectivelyEnabled c \<noteq> Some True)
   | CloseRound \<Rightarrow>
       vs_activeRoundId vault = la_roundId action \<and> rs_state round = OPEN \<and>
       ps_blockTimestamp snapshot \<ge> rs_closesAt round
   | FinalizeAggregate \<Rightarrow> rs_state round = AGGREGATE_PENDING
   | SettleEmptyRound \<Rightarrow> rs_state round = EMPTY
   | GenerateRandomCandidate \<Rightarrow>
       rs_state round = AGGREGATE_FINALIZED \<or> rs_state round = CANDIDATE_REJECTED
   | FinalizeCandidateValidity \<Rightarrow> rs_state round = CANDIDATE_VALIDITY_PENDING
   | ProcessSelection \<Rightarrow>
       (rs_state round = TICKET_ACCEPTED \<or> rs_state round = WINNER_PROCESSING) \<and>
       Some (rs_selectionCursor round) = la_cursor action \<and>
       rs_selectionCursor round < rs_participantCount round
   | FinalizeReconciliation \<Rightarrow> rs_state round = RECONCILIATION_PENDING
   | RecoverFailedReconciliation \<Rightarrow> rs_state round = RECONCILIATION_FAILED
   | ProcessAllocation \<Rightarrow>
       (rs_state round = READY_TO_ALLOCATE \<or> rs_state round = ALLOCATION_PROCESSING) \<and>
       Some (rs_allocationCursor round) = la_cursor action \<and>
       rs_allocationCursor round < rs_participantCount round \<and> active_open snapshot vault
   | FinalizeSettlement \<Rightarrow> rs_state round = WINNINGS_ALLOCATED)"

definition isActionRequired :: "ProtocolSnapshot \<Rightarrow> LifecycleAction \<Rightarrow> bool" where
  "isActionRequired snapshot action =
     (case find_vault snapshot (vc_address (la_vault action)) of
        None \<Rightarrow> False
      | Some vault \<Rightarrow>
          (case findRound vault (la_roundId action) of
             None \<Rightarrow> False
           | Some round \<Rightarrow> required_in snapshot vault round action))"

definition actionChunkSize :: "LifecycleAction \<Rightarrow> int option" where
  "actionChunkSize action =
     (if la_kind action = ProcessSelection then Some SELECTION_CHUNK_SIZE
      else if la_kind action = ProcessAllocation then Some ALLOCATION_CHUNK_SIZE else None)"

section \<open>What the chain guarantees of a snapshot\<close>

definition cursor_states :: "RoundState list" where
  "cursor_states = [TICKET_ACCEPTED, WINNER_PROCESSING]"

definition allocation_states :: "RoundState list" where
  "allocation_states = [READY_TO_ALLOCATE, ALLOCATION_PROCESSING]"

definition wf_round :: "RoundSnapshot \<Rightarrow> bool" where
  "wf_round r = ((rs_state r \<in> set cursor_states \<longrightarrow> rs_selectionCursor r < rs_participantCount r) \<and>
     (rs_state r \<in> set allocation_states \<longrightarrow> rs_allocationCursor r < rs_participantCount r))"

text \<open>
  One entry per vault address, round and account; the active round is read and open; a round in
  selection or allocation has participants left (the contract leaves the state with its last
  chunk).
\<close>

definition wf_vault :: "VaultSnapshot \<Rightarrow> bool" where
  "wf_vault v = (distinct (map rs_roundId (vs_rounds v)) \<and>
     distinct (map (toLowerCase \<circ> ae_account) (vs_autoEntryCandidates v)) \<and>
     list_all wf_round (vs_rounds v) \<and>
     (case findRound v (vs_activeRoundId v) of None \<Rightarrow> False | Some a \<Rightarrow> rs_state a = OPEN))"

definition wf_snapshot :: "ProtocolSnapshot \<Rightarrow> bool" where
  "wf_snapshot s = (distinct (map (\<lambda>v. toLowerCase (vc_address (vs_vault v))) (ps_vaults s)) \<and>
     list_all wf_vault (ps_vaults s))"

section \<open>Lemmas\<close>

lemma createAction_sel [simp]:
  "la_kind (createAction v r k ver c a) = k" "la_vault (createAction v r k ver c a) = vs_vault v"
  "la_roundId (createAction v r k ver c a) = rs_roundId r"
  "la_cursor (createAction v r k ver c a) = c" "la_account (createAction v r k ver c a) = a"
  by (simp_all add: createAction_def)

lemma findRound_SomeD: "findRound v i = Some r \<Longrightarrow> r \<in> set (vs_rounds v) \<and> rs_roundId r = i"
  unfolding findRound_def by (drule find_SomeD) auto

lemma findRound_wf: "wf_vault v \<Longrightarrow> r \<in> set (vs_rounds v) \<Longrightarrow> findRound v (rs_roundId r) = Some r"
  unfolding findRound_def wf_vault_def
  by (rule find_unique) (auto dest: distinct_map_inject)

lemma find_vault_wf:
  "wf_snapshot s \<Longrightarrow> v \<in> set (ps_vaults s) \<Longrightarrow> find_vault s (vc_address (vs_vault v)) = Some v"
  unfolding find_vault_def wf_snapshot_def
  by (rule find_unique) (auto dest: distinct_map_inject)

lemma wf_snapshot_vault: "wf_snapshot s \<Longrightarrow> v \<in> set (ps_vaults s) \<Longrightarrow> wf_vault v"
  by (simp add: wf_snapshot_def list_all_iff)

lemma find_candidate_wf:
  assumes "wf_vault v" and "c \<in> set (vs_autoEntryCandidates v)" and "la_account a = Some (ae_account c)"
  shows "find_candidate v a = Some c"
  unfolding find_candidate_def using assms
  by (intro find_unique)
    (auto simp: wf_vault_def dest: distinct_map_inject [where f = "toLowerCase \<circ> ae_account"])

text \<open>An action that \<open>createAction\<close> made for a round of a well-formed vault is required as soon
  as its own condition holds.\<close>

lemma isActionRequired_created:
  assumes "wf_snapshot s" and "v \<in> set (ps_vaults s)" and "r \<in> set (vs_rounds v)"
    and "required_in s v r (createAction v r k ver c acc)"
  shows "isActionRequired s (createAction v r k ver c acc)"
  using assms
  by (simp add: isActionRequired_def find_vault_wf findRound_wf wf_snapshot_vault)

lemma set_vaults_by_id [simp]: "set (vaults_by_id s) = set (ps_vaults s)"
  by (simp add: vaults_by_id_def)

lemma set_dueClosures: "set (dueClosures s) = {a. \<exists>v \<in> set (ps_vaults s). dueClosure (ps_blockTimestamp s) v = Some a}"
  by (auto simp: dueClosures_def List.map_filter_def) force

lemma dueClosure_Some:
  "dueClosure now v = Some a \<longleftrightarrow>
     (\<exists>r. findRound v (vs_activeRoundId v) = Some r \<and> rs_state r = OPEN \<and> rs_closesAt r \<le> now \<and>
        a = createAction v r CloseRound (Some (int_to_string (rs_closesAt r))) None None)"
  by (auto simp: dueClosure_def split: option.splits)

lemma entryAction_Some:
  assumes "entryAction now v = Some a"
  obtains (Register) r c where "findRound v (vs_activeRoundId v) = Some r" "rs_state r = OPEN"
      "now < rs_closesAt r" "c \<in> set (vs_autoEntryCandidates v)" "entry_ready v c"
      "a = createAction v r RegisterAutoEntry (Some (toLowerCase (ae_account c))) None (Some (ae_account c))"
  | (Prune) r c where "findRound v (vs_activeRoundId v) = Some r" "rs_state r = OPEN"
      "now < rs_closesAt r" "c \<in> set (vs_autoEntryCandidates v)" "entry_stale c"
      "a = createAction v r PruneAutoEntry (Some (toLowerCase (ae_account c))) None (Some (ae_account c))"
  using assms
  by (auto simp: entryAction_def not_le split: option.splits if_splits dest!: find_SomeD)

lemma set_unfinishedRounds:
  "set (unfinishedRounds v) = {r \<in> set (vs_rounds v). rs_roundId r < vs_activeRoundId v \<and> rs_state r \<noteq> SETTLED}"
  by (simp add: unfinishedRounds_def)

lemma settlementAction_Some:
  assumes "settlementAction v = Some a"
  obtains r where "r \<in> set (vs_rounds v)" "rs_roundId r < vs_activeRoundId v" "actionForRound v r = Some a"
    "\<forall>r' \<in> set (vs_rounds v). rs_roundId r' < rs_roundId r \<longrightarrow> actionForRound v r' = None"
proof -
  from assms obtain ys r zs where u: "unfinishedRounds v = ys @ r # zs" "actionForRound v r = Some a"
      "\<forall>z \<in> set ys. actionForRound v z = None"
    unfolding settlementAction_def by (rule first_some_Some)
  have "sorted (map rs_roundId (ys @ r # zs))"
    unfolding u(1) [symmetric] unfinishedRounds_def by (rule sorted_sort_key)
  then have "r' \<in> set ys" if "r' \<in> set (unfinishedRounds v)" "rs_roundId r' < rs_roundId r" for r'
    using that by (auto simp: u(1) sorted_append)
  moreover have "r \<in> set (unfinishedRounds v)" by (simp add: u(1))
  moreover have "actionForRound v r' = None" if "rs_state r' = SETTLED" for r'
    using that by (simp add: actionForRound_def)
  ultimately show ?thesis
    using that u(2,3) by (fastforce simp: set_unfinishedRounds)
qed

lemma actionForRound_None:
  "actionForRound v r = None \<longleftrightarrow> rs_state r \<in> {UNINITIALIZED, OPEN, SETTLED}"
  by (cases "rs_state r") (simp_all add: actionForRound_def)

lemma actionForRound_kind:
  assumes "actionForRound v r = Some a"
  shows "la_kind a \<notin> {CloseRound, RegisterAutoEntry, PruneAutoEntry} \<and> la_vault a = vs_vault v \<and>
    la_roundId a = rs_roundId r"
  using assms by (cases "rs_state r") (auto simp: actionForRound_def)

lemma actionForRound_required:
  assumes wf: "wf_snapshot s" and v: "v \<in> set (ps_vaults s)" and r: "r \<in> set (vs_rounds v)"
    and nd: "dueClosure (ps_blockTimestamp s) v = None" and a: "actionForRound v r = Some a"
  shows "isActionRequired s a"
proof -
  have wv: "wf_vault v" using wf v by (rule wf_snapshot_vault)
  then have wr: "wf_round r" using r by (simp add: wf_vault_def list_all_iff)
  have "active_open s v"
    using wv nd by (auto simp: wf_vault_def active_open_def dueClosure_def split: option.splits if_splits)
  with wr have "\<exists>k ver c acc. a = createAction v r k ver c acc \<and> required_in s v r a"
    using a
    by (cases "rs_state r")
      (auto simp: actionForRound_def required_in_def wf_round_def cursor_states_def allocation_states_def)
  with wf v r show ?thesis by (auto intro: isActionRequired_created)
qed

lemma no_due_closure:
  "dueClosures s = [] \<longleftrightarrow> (\<forall>v \<in> set (ps_vaults s). dueClosure (ps_blockTimestamp s) v = None)"
  using set_dueClosures [of s] by (auto simp: set_empty [symmetric] simp del: set_empty)

text \<open>The three phases of the planner.\<close>

lemma planNextAction_cases:
  assumes "planNextAction s = Some a"
  obtains (Closure) v where "v \<in> set (ps_vaults s)" "dueClosure (ps_blockTimestamp s) v = Some a"
      "\<forall>b \<in> set (dueClosures s). (la_roundId a, vc_id (la_vault a)) \<le> (la_roundId b, vc_id (la_vault b))"
  | (Entry) v where "dueClosures s = []" "v \<in> set (ps_vaults s)" "entryAction (ps_blockTimestamp s) v = Some a"
  | (Settlement) v where "dueClosures s = []" "v \<in> set (ps_vaults s)" "settlementAction v = Some a"
proof (cases "dueClosures s")
  case Nil
  with assms Entry Settlement show ?thesis
    by (auto simp: planNextAction_def split: option.splits dest!: first_some_SomeD)
next
  case (Cons b bs)
  with assms have ab: "a = b" by (simp add: planNextAction_def)
  have "a \<in> set (dueClosures s)" using Cons ab by simp
  then obtain v where "v \<in> set (ps_vaults s)" "dueClosure (ps_blockTimestamp s) v = Some a"
    by (auto simp: set_dueClosures)
  moreover have "sorted (map (\<lambda>a. (la_roundId a, vc_id (la_vault a))) (dueClosures s))"
    unfolding dueClosures_def by (rule sorted_sort_key)
  then have "\<forall>c \<in> set (dueClosures s).
      (la_roundId a, vc_id (la_vault a)) \<le> (la_roundId c, vc_id (la_vault c))"
    using Cons ab by auto
  ultimately show ?thesis by (rule Closure)
qed

lemma map_filter_perm: "mset xs = mset ys \<Longrightarrow> mset (List.map_filter f xs) = mset (List.map_filter f ys)"
  by (simp add: List.map_filter_def mset_map mset_filter)

lemma map_filter_key_distinct:
  assumes "distinct (map g xs)" and "\<And>x y. f x = Some y \<Longrightarrow> h y = g x"
  shows "distinct (map h (List.map_filter f xs))"
  using assms(1)
proof (induction xs)
  case (Cons x xs)
  have "h ` set (List.map_filter f xs) \<subseteq> g ` set xs"
    using assms(2) by (force simp: List.map_filter_def)
  with Cons assms(2) show ?case
    by (auto simp: List.map_filter_simps split: option.splits)
qed (simp add: List.map_filter_simps)

section \<open>Properties\<close>

definition demo_vault :: VaultConfig where
  "demo_vault = \<lparr>vc_id = 1, vc_name = ''Daily'', vc_cadence = ''daily'', vc_address = ''0xAb'',
     vc_bondEscrow = ''0xCd'', vc_automaticEntry = Some True\<rparr>"

definition demo_round :: "int \<Rightarrow> RoundState \<Rightarrow> int \<Rightarrow> RoundSnapshot" where
  "demo_round i st closes = \<lparr>rs_roundId = i, rs_opensAt = 0, rs_closesAt = closes, rs_state = st,
     rs_publicAggregateTwab = 0, rs_publicPrize = 0, rs_participantCount = 3, rs_selectionCursor = 0,
     rs_allocationCursor = 0, rs_candidateValidityHandle = None\<rparr>"

definition demo_snapshot :: "int \<Rightarrow> ProtocolSnapshot" where
  "demo_snapshot now = \<lparr>ps_chainId = SEPOLIA_CHAIN_ID, ps_blockNumber = 7, ps_blockHash = ''0x1'',
     ps_blockTimestamp = now, ps_vaults = [\<lparr>vs_vault = demo_vault, vs_activeRoundId = 3, vs_bondAmount = 5,
       vs_autoEntryCandidates = [], vs_rounds = [demo_round 1 SETTLED 50, demo_round 2 READY_TO_ALLOCATE 100,
         demo_round 3 OPEN 200]\<rparr>]\<rparr>"

lemmas demo_planner_defs = demo_snapshot_def demo_vault_def demo_round_def

lemma demo_snapshot_wf: "wf_snapshot (demo_snapshot now)"
  by (simp add: demo_planner_defs wf_snapshot_def wf_vault_def wf_round_def findRound_def
      cursor_states_def allocation_states_def)

text \<open>
  C6. The planner and the re-check agree: an action planned from a well-formed snapshot is
  required by that snapshot, whatever its kind.
\<close>

theorem planned_action_is_required:
  assumes "wf_snapshot s" and "planNextAction s = Some a"
  shows "isActionRequired s a"
  using assms(2)
proof (cases rule: planNextAction_cases)
  case (Closure v)
  from Closure(2) obtain r where r: "findRound v (vs_activeRoundId v) = Some r" "rs_state r = OPEN"
      "rs_closesAt r \<le> ps_blockTimestamp s" "a = createAction v r CloseRound (Some (int_to_string (rs_closesAt r))) None None"
    by (auto simp: dueClosure_Some)
  with Closure(1) assms(1) show ?thesis
    by (auto intro!: isActionRequired_created dest!: findRound_SomeD simp: required_in_def)
next
  case (Entry v)
  have wv: "wf_vault v" using assms(1) Entry(2) by (rule wf_snapshot_vault)
  from Entry(3) show ?thesis
  proof (cases rule: entryAction_Some)
    case (Register r c)
    with wv assms(1) Entry(2) findRound_SomeD [OF Register(1)] show ?thesis
      by (auto intro!: isActionRequired_created
          simp: required_in_def active_open_def entry_ready_def find_candidate_wf)
  next
    case (Prune r c)
    with wv assms(1) Entry(2) findRound_SomeD [OF Prune(1)] show ?thesis
      by (auto intro!: isActionRequired_created
          simp: required_in_def entry_stale_def find_candidate_wf)
  qed
next
  case (Settlement v)
  from Settlement(3) obtain r where "r \<in> set (vs_rounds v)" "actionForRound v r = Some a"
    by (rule settlementAction_Some)
  with Settlement(1,2) assms(1) show ?thesis
    by (intro actionForRound_required) (auto simp: no_due_closure)
qed

theorem planned_action_is_required_witness:
  "\<exists>a. planNextAction (demo_snapshot 150) = Some a \<and> la_kind a = ProcessAllocation \<and>
     isActionRequired (demo_snapshot 150) a"
proof -
  let ?a = "the (planNextAction (demo_snapshot 150))"
  have p: "planNextAction (demo_snapshot 150) = Some ?a" "la_kind ?a = ProcessAllocation"
    by code_simp+
  from planned_action_is_required [OF demo_snapshot_wf p(1)] p show ?thesis by blast
qed

text \<open>
  Expired active rounds are closed before anything else: when some vault's active round
  is due, the plan is a closure, and of the due closures the one with the least round id, then
  the least vault id.  So an allocation is never planned while an expired round would block it.
\<close>

theorem due_closures_come_first:
  assumes "v \<in> set (ps_vaults s)" and "dueClosure (ps_blockTimestamp s) v = Some b"
  shows "\<exists>a. planNextAction s = Some a \<and> la_kind a = CloseRound \<and>
    (la_roundId a < la_roundId b \<or>
     la_roundId a = la_roundId b \<and> vc_id (la_vault a) \<le> vc_id (la_vault b))"
proof -
  have b: "b \<in> set (dueClosures s)" using assms by (auto simp: set_dueClosures)
  then obtain a bs where c: "dueClosures s = a # bs" by (cases "dueClosures s") auto
  then have p: "planNextAction s = Some a" by (simp add: planNextAction_def)
  from p show ?thesis
  proof (cases rule: planNextAction_cases)
    case (Closure w)
    with b p show ?thesis by (force simp: dueClosure_Some)
  qed (use c in auto)
qed

theorem due_closures_come_first_witness:
  "\<exists>a. planNextAction (demo_snapshot 200) = Some a \<and> la_kind a = CloseRound"
proof -
  let ?v = "hd (ps_vaults (demo_snapshot 200))"
  have "dueClosure (ps_blockTimestamp (demo_snapshot 200)) ?v \<noteq> None"
    and "?v \<in> set (ps_vaults (demo_snapshot 200))"
    by (simp_all add: demo_planner_defs dueClosure_def findRound_def)
  then show ?thesis using due_closures_come_first [of ?v "demo_snapshot 200"] by auto
qed

lemma planNextAction_None:
  "planNextAction s = None \<longleftrightarrow> (\<forall>v \<in> set (ps_vaults s).
     dueClosure (ps_blockTimestamp s) v = None \<and>
     entryAction (ps_blockTimestamp s) v = None \<and> settlementAction v = None)"
proof (cases "dueClosures s")
  case Nil
  show ?thesis
  proof (cases "first_some (entryAction (ps_blockTimestamp s)) (vaults_by_id s)")
    case None
    with Nil have "planNextAction s = first_some settlementAction (vaults_by_id s)"
      unfolding planNextAction_def by (simp del: first_some_None)
    with None Nil no_due_closure [of s] show ?thesis by auto
  next
    case (Some a)
    with Nil have "planNextAction s = Some a" by (simp add: planNextAction_def)
    with first_some_SomeD [OF Some] show ?thesis by force
  qed
next
  case (Cons a as)
  moreover from this obtain v where "v \<in> set (ps_vaults s)"
      "dueClosure (ps_blockTimestamp s) v \<noteq> None"
    using no_due_closure [of s] by auto
  ultimately show ?thesis by (auto simp: planNextAction_def)
qed

lemma no_entry_work:
  "dueClosure now v = None \<and> entryAction now v = None \<longleftrightarrow>
    (\<forall>r. findRound v (vs_activeRoundId v) = Some r \<and> rs_state r = OPEN \<longrightarrow> now < rs_closesAt r \<and>
      (\<forall>c \<in> set (vs_autoEntryCandidates v). \<not> entry_ready v c \<and> \<not> entry_stale c))"
  by (auto simp: dueClosure_def entryAction_def find_None_iff split: option.splits)
    (auto simp: find_None_iff find_Some_iff)

lemma no_settlement_work:
  "settlementAction v = None \<longleftrightarrow> (\<forall>r \<in> set (vs_rounds v).
     rs_roundId r < vs_activeRoundId v \<longrightarrow> rs_state r \<in> {UNINITIALIZED, OPEN, SETTLED})"
  by (auto simp: settlementAction_def set_unfinishedRounds actionForRound_None)

text \<open>
  C35. The planner is idle exactly when there is nothing to do: no active round is due, no
  account of an open round is ready to enter or stale, and every earlier round is settled, or in
  a state in which the keeper has no operation.
\<close>

theorem planner_idle_iff_nothing_to_do:
  "planNextAction s = None \<longleftrightarrow> (\<forall>v \<in> set (ps_vaults s).
     (\<forall>r. findRound v (vs_activeRoundId v) = Some r \<and> rs_state r = OPEN \<longrightarrow>
        ps_blockTimestamp s < rs_closesAt r \<and>
        (\<forall>c \<in> set (vs_autoEntryCandidates v). \<not> entry_ready v c \<and> \<not> entry_stale c)) \<and>
     (\<forall>r \<in> set (vs_rounds v). rs_roundId r < vs_activeRoundId v \<longrightarrow>
        rs_state r \<in> {UNINITIALIZED, OPEN, SETTLED}))"
  unfolding planNextAction_None using no_entry_work no_settlement_work by blast

theorem planner_idle_iff_nothing_to_do_witness:
  "planNextAction (demo_snapshot 150\<lparr>ps_vaults := [(hd (ps_vaults (demo_snapshot 150)))
     \<lparr>vs_rounds := [demo_round 1 SETTLED 100, demo_round 2 OPEN 200], vs_activeRoundId := 2,
       vs_autoEntryCandidates := []\<rparr>]\<rparr>) = None"
  unfolding planner_idle_iff_nothing_to_do by (auto simp: demo_planner_defs findRound_def)

text \<open>
  Settlement follows round order inside a vault: when the planned action settles a round,
  no earlier round of that vault has an operation left, and no active round of any vault is due.
\<close>

theorem settlement_is_oldest_first:
  assumes "planNextAction s = Some a"
    and "la_kind a \<notin> {CloseRound, RegisterAutoEntry, PruneAutoEntry}"
  shows "(\<exists>v \<in> set (ps_vaults s). la_vault a = vs_vault v \<and>
      (\<forall>r \<in> set (vs_rounds v). rs_roundId r < la_roundId a \<longrightarrow>
         rs_state r \<in> {UNINITIALIZED, OPEN, SETTLED})) \<and>
    (\<forall>v \<in> set (ps_vaults s). dueClosure (ps_blockTimestamp s) v = None)"
  using assms(1)
proof (cases rule: planNextAction_cases)
  case (Closure v)
  with assms(2) show ?thesis by (auto simp: dueClosure_Some)
next
  case (Entry v)
  from Entry(3) show ?thesis by (cases rule: entryAction_Some) (use assms(2) in auto)
next
  case (Settlement v)
  from Settlement(3) obtain r where "actionForRound v r = Some a"
      "\<forall>r' \<in> set (vs_rounds v). rs_roundId r' < rs_roundId r \<longrightarrow> actionForRound v r' = None"
    by (rule settlementAction_Some)
  with Settlement(1,2) show ?thesis
    by (intro conjI bexI [of _ v])
      (auto dest!: actionForRound_kind simp: actionForRound_None no_due_closure)
qed

theorem settlement_is_oldest_first_witness:
  "\<exists>a. planNextAction (demo_snapshot 150) = Some a \<and> la_roundId a = 2 \<and>
     (\<forall>v \<in> set (ps_vaults (demo_snapshot 150)). dueClosure 150 v = None)"
proof -
  let ?a = "the (planNextAction (demo_snapshot 150))"
  have p: "planNextAction (demo_snapshot 150) = Some ?a" "la_roundId ?a = 2"
      "la_kind ?a \<notin> {CloseRound, RegisterAutoEntry, PruneAutoEntry}"
    by code_simp+
  from settlement_is_oldest_first [OF p(1,3)] p show ?thesis
    by (auto simp: demo_snapshot_def)
qed

text \<open>
  The plan does not depend on the order in which the vaults were read, provided their ids
  are distinct (which the manifest loader enforces).
\<close>

theorem plan_independent_of_vault_order:
  assumes "mset (ps_vaults s) = mset (ps_vaults s')"
    and "ps_blockTimestamp s = ps_blockTimestamp s'"
    and "distinct (map (\<lambda>v. vc_id (vs_vault v)) (ps_vaults s))"
  shows "planNextAction s = planNextAction s'"
proof -
  let ?f = "dueClosure (ps_blockTimestamp s)" and ?k = "\<lambda>a. (la_roundId a, vc_id (la_vault a))"
  have "distinct (map (\<lambda>a. vc_id (la_vault a)) (List.map_filter ?f (ps_vaults s)))"
    by (rule map_filter_key_distinct [OF assms(3)]) (auto simp: dueClosure_Some)
  then have "distinct (map ?k (List.map_filter ?f (ps_vaults s)))"
    by (auto simp: distinct_map inj_on_def)
  then have d: "dueClosures s = dueClosures s'"
    unfolding dueClosures_def using assms(1,2)
    by (simp add: sort_key_perm [OF map_filter_perm])
  have v: "vaults_by_id s = vaults_by_id s'"
    unfolding vaults_by_id_def by (rule sort_key_perm [OF assms(1,3)])
  show ?thesis unfolding planNextAction_def d v assms(2) ..
qed

theorem plan_independent_of_vault_order_witness:
  "let v = hd (ps_vaults (demo_snapshot 150));
       w = v\<lparr>vs_vault := demo_vault\<lparr>vc_id := 2, vc_address := ''0xEf''\<rparr>\<rparr>
   in planNextAction (demo_snapshot 150\<lparr>ps_vaults := [v, w]\<rparr>)
        = planNextAction (demo_snapshot 150\<lparr>ps_vaults := [w, v]\<rparr>)"
  unfolding Let_def
  by (rule plan_independent_of_vault_order) (simp_all add: demo_planner_defs)

text \<open>
  An action key identifies the action: for addresses without a colon, equal keys mean the
  same vault address up to case, the same round, the same kind and the same version.
\<close>

theorem actionKey_identifies_action:
  assumes "CHR '':'' \<notin> set (vc_address (vs_vault v))" and "CHR '':'' \<notin> set (vc_address (vs_vault v'))"
  shows "actionKey v r k ver = actionKey v' r' k' ver' \<longleftrightarrow>
    toLowerCase (vc_address (vs_vault v)) = toLowerCase (vc_address (vs_vault v')) \<and>
    rs_roundId r = rs_roundId r' \<and> k = k' \<and> ver = ver'"
  using assms by (simp add: actionKey_def append_sep_inject kind_string_no_colon)

theorem actionKey_identifies_action_witness:
  "let v = hd (ps_vaults (demo_snapshot 0)) in
   actionKey v (demo_round 1 OPEN 0) CloseRound ''11'' \<noteq> actionKey v (demo_round 11 OPEN 0) CloseRound ''1''"
  using actionKey_identifies_action [of "hd (ps_vaults (demo_snapshot 0))" "hd (ps_vaults (demo_snapshot 0))"
      "demo_round 1 OPEN 0" CloseRound "''11''" "demo_round 11 OPEN 0" CloseRound "''1''"]
  by (simp add: Let_def) (simp add: demo_planner_defs)

end
