(* ===== verification/Journal.thy ===== *)
theory Journal
  imports Lifecycle "HOL-Library.Sublist"
begin

text \<open>
  The keeper's journal, \<open>keeper/src/journal.ts\<close>: the entries and their schema, the append-only
  rule, the file store with its atomic replacement of the journal file, the memory store, the
  write queue, the process lock, and the entry written before a broadcast.

  Time stamps are instants in milliseconds: the sources only ever store \<open>Date.toISOString()\<close>, which
  is injective on instants and which \<open>new Date(...)\<close> inverts.  The content of a file is the JSON
  document it holds, or \<open>Torn\<close> for text that does not parse.  Checkpoint keys are not names of
  inherited object properties.  Every operating-system call of a write may fail, or the process
  may stop there; which one is an argument of the operation.
\<close>

section \<open>Entries\<close>

datatype JournalStatus =
  Prepared | Submitted | Confirmed | Reconciled | Obsolete | Reorged | Reverted | Unknown

record JournalTransition =
  jt_status :: JournalStatus
  jt_at :: int
  jt_blockNumber :: "int option"
  jt_blockHash :: "string option"
  jt_confirmations :: "int option"
  jt_errorCode :: "string option"

record JournalEntry =
  je_attemptId :: string
  je_replayOfAttemptId :: "string option"
  je_actionKey :: string
  je_vault :: string
  je_vaultName :: string
  je_roundId :: string
  je_action :: LifecycleActionKind
  je_cursor :: "string option"
  je_account :: "string option"
  je_txHash :: string
  je_calldataHash :: string
  je_nonce :: int
  je_submittedAt :: int
  je_updatedAt :: int
  je_status :: JournalStatus
  je_blockNumber :: "int option"
  je_blockHash :: "string option"
  je_confirmations :: "int option"
  je_errorCode :: "string option"
  je_history :: "JournalTransition list"

record JournalDocument =
  jd_entries :: "JournalEntry list"
  jd_checkpoints :: "string \<rightharpoonup> string"

datatype io_point =
    AtMkdir | AtOpen | AtWriteFile | AtSync | AtClose | AtRename
  | AtOpenDirectory | AtDirectorySync | AtDirectoryClose | AtUnlink

datatype journal_error =
    SchemaError
  | JsonSyntaxError
  | ImmutableFieldChanged string
  | HistoryTruncated
  | HistoryNotAppendOnly
  | EmptyCheckpointKey
  | FileExists
  | LockExists
  | IoError io_point

definition emptyJournal :: JournalDocument where
  "emptyJournal = \<lparr>jd_entries = [], jd_checkpoints = Map.empty\<rparr>"

section \<open>Schema\<close>

fun opt_ok :: "('a \<Rightarrow> bool) \<Rightarrow> 'a option \<Rightarrow> bool" where
  "opt_ok P None = True"
| "opt_ok P (Some x) = P x"

text \<open>\<open>z.number().int().nonnegative()\<close> and \<open>hashSchema\<close>.\<close>

definition nonnegative_int :: "int \<Rightarrow> bool" where
  "nonnegative_int n = (0 \<le> n \<and> n \<le> MAX_SAFE_INTEGER)"

definition hashSchema :: "string \<Rightarrow> bool" where
  "hashSchema s = hex_string 64 s"

definition journalTransitionSchema :: "JournalTransition \<Rightarrow> bool" where
  "journalTransitionSchema t =
     (opt_ok nonnegative_int (jt_blockNumber t) \<and> opt_ok hashSchema (jt_blockHash t) \<and>
      opt_ok nonnegative_int (jt_confirmations t) \<and>
      opt_ok (\<lambda>c. length c \<le> 120) (jt_errorCode t))"

text \<open>The fields one by one, then the four cross-field rules of \<open>superRefine\<close>.\<close>

definition entry_fields_ok :: "JournalEntry \<Rightarrow> bool" where
  "entry_fields_ok e =
     (je_attemptId e \<noteq> [] \<and> opt_ok (\<lambda>s. s \<noteq> []) (je_replayOfAttemptId e) \<and> je_actionKey e \<noteq> [] \<and>
      hex_string 40 (je_vault e) \<and> je_vaultName e \<noteq> [] \<and> decimal_string (je_roundId e) \<and>
      opt_ok decimal_string (je_cursor e) \<and> opt_ok (hex_string 40) (je_account e) \<and>
      hashSchema (je_txHash e) \<and> hashSchema (je_calldataHash e) \<and> nonnegative_int (je_nonce e) \<and>
      opt_ok nonnegative_int (je_blockNumber e) \<and> opt_ok hashSchema (je_blockHash e) \<and>
      opt_ok nonnegative_int (je_confirmations e) \<and> opt_ok (\<lambda>c. length c \<le> 120) (je_errorCode e) \<and>
      je_history e \<noteq> [] \<and> list_all journalTransitionSchema (je_history e))"

definition cursorAction :: "LifecycleActionKind \<Rightarrow> bool" where
  "cursorAction k = (k = ProcessSelection \<or> k = ProcessAllocation)"

definition accountAction :: "LifecycleActionKind \<Rightarrow> bool" where
  "accountAction k = (k = RegisterAutoEntry \<or> k = PruneAutoEntry)"

definition attempt_id :: "string \<Rightarrow> string \<Rightarrow> string" where
  "attempt_id key hash = key @ '':'' @ toLowerCase hash"

definition entry_refinement_ok :: "JournalEntry \<Rightarrow> bool" where
  "entry_refinement_ok e =
     (cursorAction (je_action e) = (je_cursor e \<noteq> None) \<and>
      accountAction (je_action e) = (je_account e \<noteq> None) \<and>
      (case last_opt (je_history e) of
         None \<Rightarrow> False
       | Some latest \<Rightarrow> jt_status latest = je_status e \<and> jt_at latest = je_updatedAt e) \<and>
      je_attemptId e = attempt_id (je_actionKey e) (je_txHash e))"

definition journalEntrySchema :: "JournalEntry \<Rightarrow> bool" where
  "journalEntrySchema e = (entry_fields_ok e \<and> entry_refinement_ok e)"

definition parseEntry :: "JournalEntry \<Rightarrow> (journal_error, JournalEntry) result" where
  "parseEntry e = (if journalEntrySchema e then Inr e else Inl SchemaError)"

definition journalDocumentSchema :: "JournalDocument \<Rightarrow> bool" where
  "journalDocumentSchema d =
     (list_all journalEntrySchema (jd_entries d) \<and> jd_checkpoints d [] = None \<and>
      distinct (map je_attemptId (jd_entries d)) \<and>
      distinct (map (\<lambda>e. toLowerCase (je_txHash e)) (jd_entries d)) \<and>
      list_all (\<lambda>e. opt_ok (\<lambda>p. list_ex (\<lambda>candidate. je_attemptId candidate = p) (jd_entries d))
        (je_replayOfAttemptId e)) (jd_entries d))"

definition parseJournal :: "JournalDocument \<Rightarrow> (journal_error, JournalDocument) result" where
  "parseJournal d = (if journalDocumentSchema d then Inr d else Inl SchemaError)"

section \<open>The append-only rule\<close>

text \<open>The immutable keys in the order of the source, each with whether it changed.\<close>

definition immutableKeys :: "JournalEntry \<Rightarrow> JournalEntry \<Rightarrow> (string \<times> bool) list" where
  "immutableKeys previous next =
     [(''attemptId'', je_attemptId previous \<noteq> je_attemptId next),
      (''replayOfAttemptId'', je_replayOfAttemptId previous \<noteq> je_replayOfAttemptId next),
      (''actionKey'', je_actionKey previous \<noteq> je_actionKey next),
      (''vault'', je_vault previous \<noteq> je_vault next),
      (''vaultName'', je_vaultName previous \<noteq> je_vaultName next),
      (''roundId'', je_roundId previous \<noteq> je_roundId next),
      (''action'', je_action previous \<noteq> je_action next),
      (''cursor'', je_cursor previous \<noteq> je_cursor next),
      (''account'', je_account previous \<noteq> je_account next),
      (''txHash'', je_txHash previous \<noteq> je_txHash next),
      (''calldataHash'', je_calldataHash previous \<noteq> je_calldataHash next),
      (''nonce'', je_nonce previous \<noteq> je_nonce next),
      (''submittedAt'', je_submittedAt previous \<noteq> je_submittedAt next)]"

definition assertAppendOnlyUpdate :: "JournalEntry \<Rightarrow> JournalEntry \<Rightarrow> (journal_error, unit) result" where
  "assertAppendOnlyUpdate previous next =
     (case List.find snd (immutableKeys previous next) of
        Some (k, _) \<Rightarrow> Inl (ImmutableFieldChanged k)
      | None \<Rightarrow>
          if length (je_history next) < length (je_history previous) then Inl HistoryTruncated
          else if take (length (je_history previous)) (je_history next) \<noteq> je_history previous
          then Inl HistoryNotAppendOnly
          else Inr ())"

section \<open>The disk\<close>

datatype file_content = JsonDoc JournalDocument | Torn

record journal_file =
  jf_content :: file_content
  jf_durable :: bool

text \<open>
  \<open>dk_journal\<close> is what the journal path names now, \<open>dk_synced\<close> what it named at the last
  directory sync; temporary files are indexed by the process id in their names.
\<close>

record disk =
  dk_journal :: "journal_file option"
  dk_synced :: "journal_file option"
  dk_temporary :: "int \<rightharpoonup> journal_file"
  dk_lock :: bool

type_synonym 'a disk_op = "(journal_error, disk, 'a) eff"

text \<open>One operating-system call: its effect, or, when it is the one that fails, what it leaves.\<close>

definition io_call :: "io_point option \<Rightarrow> io_point \<Rightarrow> (disk \<Rightarrow> disk) \<Rightarrow> (disk \<Rightarrow> disk) \<Rightarrow> unit disk_op" where
  "io_call fault point partial effect d =
     (if fault = Some point then (Inl (IoError point), partial d) else (Inr (), effect d))"

definition set_temporary :: "int \<Rightarrow> journal_file option \<Rightarrow> disk \<Rightarrow> disk" where
  "set_temporary pid f d = d\<lparr>dk_temporary := (dk_temporary d)(pid := f)\<rparr>"

definition open_temporary :: "io_point option \<Rightarrow> int \<Rightarrow> unit disk_op" where
  "open_temporary fault pid d =
     (if dk_temporary d pid \<noteq> None then (Inl FileExists, d)
      else io_call fault AtOpen id (set_temporary pid (Some \<lparr>jf_content = Torn, jf_durable = False\<rparr>)) d)"

definition rename_temporary :: "int \<Rightarrow> disk \<Rightarrow> disk" where
  "rename_temporary pid d = (set_temporary pid None d)\<lparr>dk_journal := dk_temporary d pid\<rparr>"

definition write_document :: "io_point option \<Rightarrow> int \<Rightarrow> JournalDocument \<Rightarrow> unit disk_op" where
  "write_document fault pid next =
     bind_eff (io_call fault AtMkdir id id) (\<lambda>_.
     bind_eff (open_temporary fault pid) (\<lambda>_.
     bind_eff (io_call fault AtWriteFile id
        (set_temporary pid (Some \<lparr>jf_content = JsonDoc next, jf_durable = False\<rparr>))) (\<lambda>_.
     bind_eff (io_call fault AtSync id
        (set_temporary pid (Some \<lparr>jf_content = JsonDoc next, jf_durable = True\<rparr>))) (\<lambda>_.
     bind_eff (io_call fault AtClose id id) (\<lambda>_.
     bind_eff (io_call fault AtRename id (rename_temporary pid)) (\<lambda>_.
     bind_eff (io_call fault AtOpenDirectory id id) (\<lambda>_.
     bind_eff (io_call fault AtDirectorySync id (\<lambda>d. d\<lparr>dk_synced := dk_journal d\<rparr>)) (\<lambda>_.
     io_call fault AtDirectoryClose id id))))))))"

text \<open>
  Loss of power: a file whose data was not synced is torn, and a rename that was not followed by
  a directory sync may be undone.
\<close>

definition after_power_loss :: "journal_file \<Rightarrow> journal_file" where
  "after_power_loss f = (if jf_durable f then f else f\<lparr>jf_content := Torn\<rparr>)"

definition power_loss :: "bool \<Rightarrow> disk \<Rightarrow> disk" where
  "power_loss rename_kept d =
     (let j = map_option after_power_loss (if rename_kept then dk_journal d else dk_synced d) in
      d\<lparr>dk_journal := j, dk_synced := j, dk_temporary := (\<lambda>p. map_option after_power_loss (dk_temporary d p))\<rparr>)"

section \<open>File store\<close>

definition read_document :: "disk \<Rightarrow> (journal_error, JournalDocument) result" where
  "read_document d = (case dk_journal d of
     None \<Rightarrow> Inr emptyJournal
   | Some f \<Rightarrow> (case jf_content f of Torn \<Rightarrow> Inl JsonSyntaxError | JsonDoc j \<Rightarrow> parseJournal j))"

definition file_list :: "disk \<Rightarrow> (journal_error, JournalEntry list) result" where
  "file_list d = bind_result (read_document d) (\<lambda>j. Inr (jd_entries j))"

definition find_attempt :: "string \<Rightarrow> JournalEntry list \<Rightarrow> JournalEntry option" where
  "find_attempt a es = List.find (\<lambda>candidate. je_attemptId candidate = a) es"

definition check_previous :: "JournalEntry option \<Rightarrow> JournalEntry \<Rightarrow> (journal_error, unit) result" where
  "check_previous previous next = (case previous of
     None \<Rightarrow> Inr () | Some p \<Rightarrow> assertAppendOnlyUpdate p next)"

definition next_document :: "JournalDocument \<Rightarrow> JournalEntry \<Rightarrow> JournalDocument" where
  "next_document current e = current\<lparr>jd_entries :=
     filter (\<lambda>candidate. je_attemptId candidate \<noteq> je_attemptId e) (jd_entries current) @ [e]\<rparr>"

definition file_put :: "int \<Rightarrow> io_point option \<Rightarrow> JournalEntry \<Rightarrow> unit disk_op" where
  "file_put pid fault entry d =
     bind_eff (lift_result (read_document d)) (\<lambda>current.
     bind_eff (lift_result (parseEntry entry)) (\<lambda>parsedEntry.
     bind_eff (lift_result (check_previous (find_attempt (je_attemptId parsedEntry) (jd_entries current)) parsedEntry)) (\<lambda>_.
     bind_eff (lift_result (parseJournal (next_document current parsedEntry)))
       (write_document fault pid)))) d"

definition file_getCheckpoint :: "string \<Rightarrow> disk \<Rightarrow> (journal_error, string option) result" where
  "file_getCheckpoint k d = bind_result (read_document d) (\<lambda>j. Inr (jd_checkpoints j k))"

definition file_putCheckpoint :: "int \<Rightarrow> io_point option \<Rightarrow> string \<Rightarrow> string \<Rightarrow> unit disk_op" where
  "file_putCheckpoint pid fault k v d =
     (if k = [] then (Inl EmptyCheckpointKey, d)
      else bind_eff (lift_result (read_document d)) (\<lambda>current.
           bind_eff (lift_result (parseJournal
             (current\<lparr>jd_checkpoints := (jd_checkpoints current)(k \<mapsto> v)\<rparr>)))
             (write_document fault pid)) d)"

section \<open>Memory store\<close>

record MemoryJournalStore =
  mj_entries :: "(string \<times> JournalEntry) list"
  mj_checkpoints :: "string \<rightharpoonup> string"

text \<open>\<open>Map.set\<close>: an existing key keeps its place in the insertion order.\<close>

fun js_map_set :: "'k \<Rightarrow> 'v \<Rightarrow> ('k \<times> 'v) list \<Rightarrow> ('k \<times> 'v) list" where
  "js_map_set k v [] = [(k, v)]"
| "js_map_set k v ((k', v') # m) = (if k' = k then (k, v) # m else (k', v') # js_map_set k v m)"

definition memory_list :: "MemoryJournalStore \<Rightarrow> (journal_error, JournalEntry list) result" where
  "memory_list s = Inr (map snd (mj_entries s))"

definition memory_put :: "JournalEntry \<Rightarrow> (journal_error, MemoryJournalStore, unit) eff" where
  "memory_put entry s =
     bind_eff (lift_result (parseEntry entry)) (\<lambda>parsedEntry.
     bind_eff (lift_result (check_previous (map_of (mj_entries s) (je_attemptId parsedEntry)) parsedEntry))
       (\<lambda>_ s. (Inr (), s\<lparr>mj_entries := js_map_set (je_attemptId parsedEntry) parsedEntry (mj_entries s)\<rparr>))) s"

definition memory_getCheckpoint :: "string \<Rightarrow> MemoryJournalStore \<Rightarrow> (journal_error, string option) result" where
  "memory_getCheckpoint k s = Inr (mj_checkpoints s k)"

definition memory_putCheckpoint :: "string \<Rightarrow> string \<Rightarrow> (journal_error, MemoryJournalStore, unit) eff" where
  "memory_putCheckpoint k v s =
     (if k = [] then (Inl EmptyCheckpointKey, s)
      else (Inr (), s\<lparr>mj_checkpoints := (mj_checkpoints s)(k \<mapsto> v)\<rparr>))"

section \<open>Process lock\<close>

definition acquireKeeperProcessLock :: "io_point option \<Rightarrow> unit disk_op" where
  "acquireKeeperProcessLock fault =
     bind_eff (io_call fault AtMkdir id id) (\<lambda>_.
     bind_eff (\<lambda>d. if dk_lock d then (Inl LockExists, d)
        else io_call fault AtOpen id (\<lambda>d. d\<lparr>dk_lock := True\<rparr>) d) (\<lambda>_.
     bind_eff (io_call fault AtWriteFile id id) (\<lambda>_.
     io_call fault AtSync id id)))"

text \<open>The returned release function with its \<open>released\<close> flag.\<close>

definition release_lock :: "io_point option \<Rightarrow> (journal_error, bool \<times> disk, unit) eff" where
  "release_lock fault s = (case s of (released, d) \<Rightarrow>
     if released then (Inr (), s)
     else case bind_eff (io_call fault AtClose id id)
            (\<lambda>_. io_call fault AtUnlink id (\<lambda>d. d\<lparr>dk_lock := False\<rparr>)) d of
          (r, d') \<Rightarrow> (r, (True, d')))"

section \<open>The entry written before a broadcast\<close>

definition journalEntryForPrepared ::
  "LifecycleAction \<Rightarrow> string \<Rightarrow> int \<Rightarrow> string \<Rightarrow> int \<Rightarrow> string option \<Rightarrow> JournalEntry" where
  "journalEntryForPrepared action hash nonce calldataHash now replayOfAttemptId =
     \<lparr>je_attemptId = attempt_id (la_key action) hash,
      je_replayOfAttemptId = replayOfAttemptId,
      je_actionKey = la_key action,
      je_vault = vc_address (la_vault action),
      je_vaultName = vc_name (la_vault action),
      je_roundId = int_to_string (la_roundId action),
      je_action = la_kind action,
      je_cursor = map_option int_to_string (la_cursor action),
      je_account = la_account action,
      je_txHash = hash,
      je_calldataHash = calldataHash,
      je_nonce = nonce,
      je_submittedAt = now,
      je_updatedAt = now,
      je_status = Prepared,
      je_blockNumber = None,
      je_blockHash = None,
      je_confirmations = None,
      je_errorCode = None,
      je_history = [\<lparr>jt_status = Prepared, jt_at = now, jt_blockNumber = None, jt_blockHash = None,
        jt_confirmations = None, jt_errorCode = None\<rparr>]\<rparr>"

section \<open>The write queue\<close>

text \<open>
  \<open>#exclusive\<close>: every call makes itself the tail of the queue, waits for the promise of the call
  before it, runs its operation and releases, also when the operation throws.  The state is the
  phase of each call, in the order of the calls.
\<close>

datatype call_phase = Waiting | Running | Released

inductive exclusive_step :: "call_phase list \<Rightarrow> call_phase list \<Rightarrow> bool" where
  call: "exclusive_step ps (ps @ [Waiting])"
| start: "i < length ps \<Longrightarrow> ps ! i = Waiting \<Longrightarrow> i = 0 \<or> ps ! (i - 1) = Released \<Longrightarrow>
    exclusive_step ps (ps[i := Running])"
| finish: "i < length ps \<Longrightarrow> ps ! i = Running \<Longrightarrow> exclusive_step ps (ps[i := Released])"

section \<open>Lemmas on the append-only rule\<close>

text \<open>What the rule means: the identity of the attempt is kept and its history only grows.\<close>

definition attempt_identity where
  "attempt_identity e = (je_attemptId e, je_replayOfAttemptId e, je_actionKey e, je_vault e,
     je_vaultName e, je_roundId e, je_action e, je_cursor e, je_account e, je_txHash e,
     je_calldataHash e, je_nonce e, je_submittedAt e)"

definition append_only :: "JournalEntry \<Rightarrow> JournalEntry \<Rightarrow> bool" where
  "append_only p q \<longleftrightarrow> attempt_identity p = attempt_identity q \<and> prefix (je_history p) (je_history q)"

lemma take_prefix: "length xs \<le> length ys \<and> take (length xs) ys = xs \<longleftrightarrow> prefix xs ys"
  by (metis append_eq_conv_conj append_take_drop_id prefix_def prefix_length_le)

lemma assertAppendOnlyUpdate_ok: "assertAppendOnlyUpdate p q = Inr () \<longleftrightarrow> append_only p q"
proof -
  have "List.find snd (immutableKeys p q) = None \<longleftrightarrow> attempt_identity p = attempt_identity q"
    by (simp add: immutableKeys_def attempt_identity_def)
  then show ?thesis
    unfolding assertAppendOnlyUpdate_def append_only_def take_prefix [symmetric]
    by (auto split: option.splits)
qed

lemma append_only_refl [simp]: "append_only e e"
  by (simp add: append_only_def)

lemma append_only_trans: "append_only p q \<Longrightarrow> append_only q r \<Longrightarrow> append_only p r"
  by (auto simp: append_only_def intro: prefix_order.trans)

lemma append_only_attemptId: "append_only p q \<Longrightarrow> je_attemptId q = je_attemptId p"
  by (simp add: append_only_def attempt_identity_def)

section \<open>Interface of a journal store\<close>

text \<open>
  What the engine relies on.  \<open>put\<close> takes the fault of its environment; a put that returns has
  replaced the entry of its attempt and kept the others, one that throws has done that or
  nothing, and no put replaces an entry except by one that extends it.
\<close>

text \<open>A client that puts entries, each under some fault, and carries on after an exception.\<close>

fun put_all :: "('f \<Rightarrow> JournalEntry \<Rightarrow> ('e, 's, unit) eff) \<Rightarrow> ('f \<times> JournalEntry) list \<Rightarrow> 's \<Rightarrow> 's" where
  "put_all put [] s = s"
| "put_all put ((f, e) # xs) s = put_all put xs (snd (put f e s))"

locale journal_store =
  fixes list_entries :: "'s \<Rightarrow> ('e, JournalEntry list) result"
    and put :: "'f \<Rightarrow> JournalEntry \<Rightarrow> ('e, 's, unit) eff"
    and inv :: "'s \<Rightarrow> bool"
  assumes list_ok: "inv s \<Longrightarrow> \<exists>es. list_entries s = Inr es \<and> distinct (map je_attemptId es)"
    and put_inv: "inv s \<Longrightarrow> inv (snd (put f e s))"
    and put_ok: "inv s \<Longrightarrow> list_entries s = Inr es \<Longrightarrow> put f e s = (Inr (), s') \<Longrightarrow>
      \<exists>es'. list_entries s' = Inr es' \<and> set es' = insert e {x \<in> set es. je_attemptId x \<noteq> je_attemptId e}"
    and put_changes: "inv s \<Longrightarrow> list_entries s = Inr es \<Longrightarrow> put f e s = (r, s') \<Longrightarrow>
      list_entries s' = Inr es \<or>
      (\<exists>es'. list_entries s' = Inr es' \<and> set es' = insert e {x \<in> set es. je_attemptId x \<noteq> je_attemptId e} \<and>
        (\<forall>p \<in> set es. je_attemptId p = je_attemptId e \<longrightarrow> append_only p e))"
begin

lemma put_extends:
  assumes "inv s" and "list_entries s = Inr es" and "p \<in> set es"
  shows "\<exists>es'. list_entries (snd (put f e s)) = Inr es' \<and> (\<exists>q \<in> set es'. append_only p q)"
proof -
  obtain r s' where "put f e s = (r, s')" by (cases "put f e s")
  from put_changes [OF assms(1,2) this] this assms(3) show ?thesis
    by (cases "je_attemptId p = je_attemptId e") (auto intro: append_only_refl)
qed

theorem audit_trail:
  assumes "inv s" and "list_entries s = Inr es" and "p \<in> set es"
  shows "\<exists>es'. list_entries (put_all put xs s) = Inr es' \<and> (\<exists>q \<in> set es'. append_only p q)"
  using assms
proof (induction xs arbitrary: s es p)
  case Nil
  then show ?case by (auto intro: bexI [of _ p])
next
  case (Cons x xs)
  obtain f e where x: "x = (f, e)" by (cases x)
  from put_extends [OF Cons.prems] obtain es1 q
    where q: "list_entries (snd (put f e s)) = Inr es1" "q \<in> set es1" "append_only p q"
    by blast
  from Cons.IH [OF put_inv [OF Cons.prems(1)] q(1,2)] q(3) show ?case
    unfolding x by (auto intro: append_only_trans)
qed

lemma put_all_inv: "inv s \<Longrightarrow> inv (put_all put xs s)"
  by (induction xs arbitrary: s) (auto simp: put_inv)

lemma put_then_find:
  assumes "inv s" and "put f e s = (Inr (), s')"
  shows "\<exists>es. list_entries s' = Inr es \<and> find_attempt (je_attemptId e) es = Some e"
proof -
  from list_ok [OF assms(1)] obtain es0 where "list_entries s = Inr es0" by blast
  from put_ok [OF assms(1) this assms(2)] obtain es where
    es: "list_entries s' = Inr es" "set es = insert e {x \<in> set es0. je_attemptId x \<noteq> je_attemptId e}"
    by blast
  then have "find_attempt (je_attemptId e) es = Some e"
    unfolding find_attempt_def by (intro find_unique) auto
  with es(1) show ?thesis by blast
qed

end

section \<open>The file store is a journal store\<close>

lemmas write_defs = write_document_def open_temporary_def io_call_def set_temporary_def
  rename_temporary_def bind_eff_apply

text \<open>A write either leaves the journal path alone or puts a complete, durable document there.\<close>

definition fresh_file :: "JournalDocument \<Rightarrow> journal_file" where
  "fresh_file j = \<lparr>jf_content = JsonDoc j, jf_durable = True\<rparr>"

lemma write_document_outcome:
  assumes "write_document fault pid next d = (r, d')"
  shows "dk_journal d' = dk_journal d \<and> dk_synced d' = dk_synced d \<and> r \<noteq> Inr () \<or>
    dk_journal d' = Some (fresh_file next) \<and> dk_synced d' = dk_synced d \<and> r \<noteq> Inr () \<or>
    dk_journal d' = Some (fresh_file next) \<and> dk_synced d' = Some (fresh_file next)"
  using assms
  by (cases fault) (auto simp: write_defs fresh_file_def split: if_splits)

lemma write_document_ok:
  "dk_temporary d pid = None \<Longrightarrow> write_document None pid next d =
    (Inr (), d\<lparr>dk_journal := Some (fresh_file next), dk_synced := Some (fresh_file next)\<rparr>)"
  by (cases d) (auto simp: write_defs fresh_file_def)

lemma read_fresh: "dk_journal d = Some (fresh_file j) \<Longrightarrow> read_document d = parseJournal j"
  by (simp add: read_document_def fresh_file_def)

lemma parseJournal_Inr: "parseJournal d = Inr j \<longleftrightarrow> journalDocumentSchema d \<and> j = d"
  by (auto simp: parseJournal_def)

lemma parseEntry_Inr: "parseEntry e = Inr x \<longleftrightarrow> journalEntrySchema e \<and> x = e"
  by (auto simp: parseEntry_def)

lemma emptyJournal_schema [simp]: "journalDocumentSchema emptyJournal"
  by (simp add: journalDocumentSchema_def emptyJournal_def)

lemma read_document_schema: "read_document d = Inr j \<Longrightarrow> journalDocumentSchema j"
  by (auto simp: read_document_def parseJournal_Inr split: option.splits file_content.splits)

lemma schema_distinct: "journalDocumentSchema j \<Longrightarrow> distinct (map je_attemptId (jd_entries j))"
  by (simp add: journalDocumentSchema_def)

text \<open>A put that changes the disk has passed every check, and writes the next document.\<close>

lemma file_put_cases:
  assumes "file_put pid fault e d = (r, d')"
  obtains (refused) err where "r = Inl err" "d' = d"
  | (written) j where "read_document d = Inr j" "journalEntrySchema e"
      "journalDocumentSchema (next_document j e)"
      "check_previous (find_attempt (je_attemptId e) (jd_entries j)) e = Inr ()"
      "write_document fault pid (next_document j e) d = (r, d')"
proof (cases "\<exists>j. read_document d = Inr j \<and> journalEntrySchema e \<and>
    check_previous (find_attempt (je_attemptId e) (jd_entries j)) e = Inr () \<and>
    journalDocumentSchema (next_document j e)")
  case True
  then show ?thesis
    using assms written by (auto simp: file_put_def bind_eff_apply parseEntry_def parseJournal_def)
next
  case False
  then show ?thesis
    using assms refused
    by (cases "read_document d")
      (auto simp: file_put_def bind_eff_apply parseEntry_def parseJournal_def split: if_splits sum.splits
        dest: sym)
qed

lemma find_attempt_previous:
  assumes "check_previous (find_attempt (je_attemptId e) es) e = Inr ()" and "p \<in> set es"
    and "distinct (map je_attemptId es)" and "je_attemptId p = je_attemptId e"
  shows "append_only p e"
proof -
  have "find_attempt (je_attemptId e) es = Some p"
    unfolding find_attempt_def using assms(2-4)
    by (intro find_unique) (auto dest: distinct_map_inject)
  with assms(1) show ?thesis by (simp add: check_previous_def assertAppendOnlyUpdate_ok)
qed

lemma set_next_document:
  "set (jd_entries (next_document j e)) = insert e {x \<in> set (jd_entries j). je_attemptId x \<noteq> je_attemptId e}"
  by (auto simp: next_document_def)

definition readable :: "disk \<Rightarrow> bool" where
  "readable d = is_ok (read_document d)"

lemma file_list_read: "read_document d = Inr j \<Longrightarrow> file_list d = Inr (jd_entries j)"
  by (simp add: file_list_def)

lemma read_document_cong: "dk_journal d' = dk_journal d \<Longrightarrow> read_document d' = read_document d"
  by (simp add: read_document_def)

lemma file_put_read:
  assumes "read_document d = Inr j" and "file_put pid fault e d = (r, d')"
  shows "read_document d' = Inr j \<and> r \<noteq> Inr () \<or> read_document d' = Inr (next_document j e) \<and>
    (\<forall>p \<in> set (jd_entries j). je_attemptId p = je_attemptId e \<longrightarrow> append_only p e)"
  using assms(2)
proof (cases rule: file_put_cases)
  case refused
  with assms(1) show ?thesis by simp
next
  case (written j')
  with assms(1) have "j' = j" by simp
  with written read_document_schema [OF assms(1)] have
      ao: "\<forall>p \<in> set (jd_entries j). je_attemptId p = je_attemptId e \<longrightarrow> append_only p e"
    by (blast intro: find_attempt_previous schema_distinct)
  from write_document_outcome [OF written(5)] show ?thesis
    unfolding \<open>j' = j\<close>
    using assms(1) written(3) ao \<open>j' = j\<close>
    by (auto simp: read_fresh parseJournal_def dest: read_document_cong)
qed

text \<open>The environment of a put: the process that runs it, and the call that fails in it.\<close>

definition file_put_by :: "int \<times> io_point option \<Rightarrow> JournalEntry \<Rightarrow> unit disk_op" where
  "file_put_by env = file_put (fst env) (snd env)"

interpretation file_store: journal_store file_list file_put_by readable
  unfolding file_put_by_def
proof
  fix s f e es s' r
  assume "readable s"
  then obtain j where j: "read_document s = Inr j" by (auto simp: readable_def is_ok_iff)
  note list = file_list_read [OF j]
  show "\<exists>es. file_list s = Inr es \<and> distinct (map je_attemptId es)"
    using list schema_distinct [OF read_document_schema [OF j]] by blast
  show "readable (snd (file_put (fst f) (snd f) e s))"
    using file_put_read [OF j, of "fst f" "snd f" e] by (cases "file_put (fst f) (snd f) e s") (auto simp: readable_def)
  {
    assume "file_list s = Inr es" and "file_put (fst f) (snd f) e s = (r, s')"
    with file_put_read [OF j this(2)] list show "file_list s' = Inr es \<or>
      (\<exists>es'. file_list s' = Inr es' \<and> set es' = insert e {x \<in> set es. je_attemptId x \<noteq> je_attemptId e} \<and>
        (\<forall>p \<in> set es. je_attemptId p = je_attemptId e \<longrightarrow> append_only p e))"
      by (auto dest!: file_list_read simp: set_next_document)
  }
  assume "file_list s = Inr es" and "file_put (fst f) (snd f) e s = (Inr (), s')"
  with file_put_read [OF j this(2)] list show
    "\<exists>es'. file_list s' = Inr es' \<and> set es' = insert e {x \<in> set es. je_attemptId x \<noteq> je_attemptId e}"
    by (auto dest!: file_list_read simp: set_next_document)
qed

section \<open>The memory store is a journal store\<close>

definition memory_inv :: "MemoryJournalStore \<Rightarrow> bool" where
  "memory_inv s \<longleftrightarrow> distinct (map fst (mj_entries s)) \<and> (\<forall>(k, e) \<in> set (mj_entries s). k = je_attemptId e)"

lemma js_map_set_keys: "set (map fst (js_map_set k v m)) = insert k (set (map fst m))"
  by (induction k v m rule: js_map_set.induct) auto

lemma js_map_set_distinct: "distinct (map fst m) \<Longrightarrow> distinct (map fst (js_map_set k v m))"
proof (induction k v m rule: js_map_set.induct)
  case (2 k v k' v' m)
  then show ?case using js_map_set_keys [of k v m] by auto
qed simp

lemma js_map_set_set:
  "distinct (map fst m) \<Longrightarrow> set (js_map_set k v m) = insert (k, v) {x \<in> set m. fst x \<noteq> k}"
  by (induction k v m rule: js_map_set.induct) force+

lemma map_of_js_map_set: "map_of (js_map_set k v m) = (map_of m)(k \<mapsto> v)"
  by (induction k v m rule: js_map_set.induct) (auto simp: fun_eq_iff)

lemma memory_put_cases:
  assumes "memory_put e s = (r, s')"
  obtains (refused) err where "r = Inl err" "s' = s"
  | (stored) "r = Inr ()" "journalEntrySchema e"
      "check_previous (map_of (mj_entries s) (je_attemptId e)) e = Inr ()"
      "s' = s\<lparr>mj_entries := js_map_set (je_attemptId e) e (mj_entries s)\<rparr>"
  using assms
  by (auto simp: memory_put_def bind_eff_apply parseEntry_def split: if_splits sum.splits dest: sym)

lemma memory_entries_set:
  assumes "memory_inv s" and "s' = s\<lparr>mj_entries := js_map_set (je_attemptId e) e (mj_entries s)\<rparr>"
  shows "set (map snd (mj_entries s')) =
    insert e {x \<in> set (map snd (mj_entries s)). je_attemptId x \<noteq> je_attemptId e}"
  using assms by (force simp: memory_inv_def js_map_set_set)

lemma memory_attempts: "memory_inv s \<Longrightarrow> map je_attemptId (map snd (mj_entries s)) = map fst (mj_entries s)"
  by (auto simp: memory_inv_def)

lemma memory_put_inv:
  assumes "memory_inv s" shows "memory_inv (snd (memory_put e s))"
proof -
  obtain r s' where p: "memory_put e s = (r, s')" by (cases "memory_put e s")
  then show ?thesis
    by (cases rule: memory_put_cases)
      (use assms p in \<open>auto simp: memory_inv_def js_map_set_distinct js_map_set_set\<close>)
qed

lemma memory_put_changes:
  assumes "memory_inv s" and "memory_put e s = (r, s')"
  shows "s' = s \<and> r \<noteq> Inr () \<or>
    set (map snd (mj_entries s')) = insert e {x \<in> set (map snd (mj_entries s)). je_attemptId x \<noteq> je_attemptId e} \<and>
    (\<forall>p \<in> set (map snd (mj_entries s)). je_attemptId p = je_attemptId e \<longrightarrow> append_only p e)"
  using assms(2)
proof (cases rule: memory_put_cases)
  case stored
  have "append_only p e" if "p \<in> set (map snd (mj_entries s))" "je_attemptId p = je_attemptId e" for p
  proof -
    from that assms(1) have "(je_attemptId e, p) \<in> set (mj_entries s)" by (auto simp: memory_inv_def)
    with assms(1) have "map_of (mj_entries s) (je_attemptId e) = Some p" by (auto simp: memory_inv_def)
    with stored(3) show ?thesis by (simp add: check_previous_def assertAppendOnlyUpdate_ok)
  qed
  with memory_entries_set [OF assms(1) stored(4)] show ?thesis by blast
qed simp

interpretation memory_store: journal_store memory_list "\<lambda>_ :: unit. memory_put" memory_inv
proof
  fix s e es s' r
  assume i: "memory_inv s"
  show "\<exists>es. memory_list s = Inr es \<and> distinct (map je_attemptId es)"
    unfolding memory_list_def using i memory_attempts [OF i] by (auto simp: memory_inv_def simp del: map_map)
  show "memory_inv (snd (memory_put e s))" using i by (rule memory_put_inv)
  {
    assume "memory_list s = Inr es" and "memory_put e s = (r, s')"
    with memory_put_changes [OF i this(2)] show "memory_list s' = Inr es \<or>
      (\<exists>es'. memory_list s' = Inr es' \<and> set es' = insert e {x \<in> set es. je_attemptId x \<noteq> je_attemptId e} \<and>
        (\<forall>p \<in> set es. je_attemptId p = je_attemptId e \<longrightarrow> append_only p e))"
      unfolding memory_list_def by (auto simp del: set_map)
  }
  assume "memory_list s = Inr es" and "memory_put e s = (Inr (), s')"
  with memory_put_changes [OF i this(2)] show
    "\<exists>es'. memory_list s' = Inr es' \<and> set es' = insert e {x \<in> set es. je_attemptId x \<noteq> je_attemptId e}"
    unfolding memory_list_def by (auto simp del: set_map)
qed

section \<open>Interface of a checkpoint store\<close>

text \<open>What the gateway's scan cursors rely on.\<close>

locale checkpoint_store =
  fixes get :: "string \<Rightarrow> 's \<Rightarrow> ('e, string option) result"
    and set_checkpoint :: "'f \<Rightarrow> string \<Rightarrow> string \<Rightarrow> ('e, 's, unit) eff"
    and inv :: "'s \<Rightarrow> bool"
  assumes get_ok: "inv s \<Longrightarrow> is_ok (get k s)"
    and set_inv: "inv s \<Longrightarrow> inv (snd (set_checkpoint f k v s))"
    and set_get: "inv s \<Longrightarrow> set_checkpoint f k v s = (r, s') \<Longrightarrow>
      (\<forall>k'. get k' s' = get k' s) \<and> r \<noteq> Inr () \<or>
      (\<forall>k'. get k' s' = (if k' = k then Inr (Some v) else get k' s))"
begin

lemma set_get_same: "inv s \<Longrightarrow> set_checkpoint f k v s = (Inr (), s') \<Longrightarrow> get k s' = Inr (Some v)"
  using set_get by fastforce

lemma set_get_other: "inv s \<Longrightarrow> k' \<noteq> k \<Longrightarrow> get k' (snd (set_checkpoint f k v s)) = get k' s"
  using set_get [of s f k v] by (cases "set_checkpoint f k v s") auto

end

lemma checkpoint_schema:
  "k \<noteq> [] \<Longrightarrow> journalDocumentSchema j \<Longrightarrow> journalDocumentSchema (j\<lparr>jd_checkpoints := (jd_checkpoints j)(k \<mapsto> v)\<rparr>)"
  by (auto simp: journalDocumentSchema_def)

definition file_putCheckpoint_by :: "int \<times> io_point option \<Rightarrow> string \<Rightarrow> string \<Rightarrow> unit disk_op" where
  "file_putCheckpoint_by env = file_putCheckpoint (fst env) (snd env)"

lemma file_putCheckpoint_read:
  assumes "read_document d = Inr j" and "file_putCheckpoint pid fault k v d = (r, d')"
  shows "read_document d' = Inr j \<and> r \<noteq> Inr () \<or>
    read_document d' = Inr (j\<lparr>jd_checkpoints := (jd_checkpoints j)(k \<mapsto> v)\<rparr>)"
proof (cases "k = []")
  case True
  with assms show ?thesis by (auto simp: file_putCheckpoint_def)
next
  case False
  let ?j = "j\<lparr>jd_checkpoints := (jd_checkpoints j)(k \<mapsto> v)\<rparr>"
  have ok: "journalDocumentSchema ?j"
    by (rule checkpoint_schema [OF False read_document_schema [OF assms(1)]])
  with assms False have "write_document fault pid ?j d = (r, d')"
    by (simp add: file_putCheckpoint_def bind_eff_apply parseJournal_def)
  from write_document_outcome [OF this] ok assms(1) show ?thesis
    by (auto simp: read_fresh parseJournal_def dest: read_document_cong)
qed

interpretation file_checkpoints: checkpoint_store file_getCheckpoint file_putCheckpoint_by readable
proof
  fix s f k v r s'
  assume "readable s"
  then obtain j where j: "read_document s = Inr j" by (auto simp: readable_def is_ok_iff)
  show "is_ok (file_getCheckpoint k s)" by (simp add: file_getCheckpoint_def j)
  show "readable (snd (file_putCheckpoint_by f k v s))"
    using file_putCheckpoint_read [OF j, of "fst f" "snd f" k v]
    by (cases "file_putCheckpoint_by f k v s") (auto simp: readable_def file_putCheckpoint_by_def)
  assume "file_putCheckpoint_by f k v s = (r, s')"
  from file_putCheckpoint_read [OF j this [unfolded file_putCheckpoint_by_def]] show
    "(\<forall>k'. file_getCheckpoint k' s' = file_getCheckpoint k' s) \<and> r \<noteq> Inr () \<or>
     (\<forall>k'. file_getCheckpoint k' s' = (if k' = k then Inr (Some v) else file_getCheckpoint k' s))"
    by (auto simp: file_getCheckpoint_def j)
qed

interpretation memory_checkpoints: checkpoint_store memory_getCheckpoint "\<lambda>_ :: unit. memory_putCheckpoint" "\<lambda>_. True"
  by unfold_locales (auto simp: memory_getCheckpoint_def memory_putCheckpoint_def split: if_splits)

text \<open>Entries and checkpoints share the file without disturbing each other.\<close>

lemma put_keeps_checkpoints:
  assumes "readable d" shows "file_getCheckpoint k (snd (file_put pid fault e d)) = file_getCheckpoint k d"
proof -
  from assms obtain j where j: "read_document d = Inr j" by (auto simp: readable_def is_ok_iff)
  obtain r d' where p: "file_put pid fault e d = (r, d')" by (cases "file_put pid fault e d")
  from file_put_read [OF j p] p j show ?thesis
    by (auto simp: file_getCheckpoint_def next_document_def)
qed

lemma checkpoint_keeps_entries:
  assumes "readable d" shows "file_list (snd (file_putCheckpoint pid fault k v d)) = file_list d"
proof -
  from assms obtain j where j: "read_document d = Inr j" by (auto simp: readable_def is_ok_iff)
  obtain r d' where p: "file_putCheckpoint pid fault k v d = (r, d')"
    by (cases "file_putCheckpoint pid fault k v d")
  from file_putCheckpoint_read [OF j p] p j show ?thesis by (auto simp: file_list_def)
qed

section \<open>The process lock\<close>

lemma lock_excludes: "acquireKeeperProcessLock fault d = (Inr (), d') \<Longrightarrow> \<not> dk_lock d \<and> dk_lock d'"
  by (auto simp: acquireKeeperProcessLock_def bind_eff_apply io_call_def split: if_splits)

lemma lock_held_refuses: "dk_lock d \<Longrightarrow> fst (acquireKeeperProcessLock fault d) \<noteq> Inr () \<and>
    snd (acquireKeeperProcessLock fault d) = d"
  by (auto simp: acquireKeeperProcessLock_def bind_eff_apply io_call_def split: if_splits)

lemma lock_release_once:
  "dk_lock d \<Longrightarrow> release_lock None (False, d) = (Inr (), (True, d\<lparr>dk_lock := False\<rparr>))"
  "release_lock fault (True, d) = (Inr (), (True, d))"
  by (auto simp: release_lock_def bind_eff_apply io_call_def)

section \<open>The write queue: one operation at a time, in call order\<close>

text \<open>Reachable queues: some released calls, at most one running, then waiting calls.\<close>

definition queue_shape :: "call_phase list \<Rightarrow> bool" where
  "queue_shape ps \<longleftrightarrow> (\<exists>a b. ps = replicate a Released @ replicate b Waiting \<or>
     ps = replicate a Released @ Running # replicate b Waiting)"

lemma queue_shape_step:
  assumes "queue_shape ps" and "exclusive_step ps qs"
  shows "queue_shape qs"
  using assms(2)
proof (cases rule: exclusive_step.cases)
  case call
  with assms(1) show ?thesis
    by (auto simp: queue_shape_def replicate_append_same [symmetric] simp flip: replicate_Suc)
       (metis replicate_Suc replicate_append_same)+
next
  case (start i)
  from assms(1) obtain a b where "ps = replicate a Released @ replicate b Waiting \<or>
     ps = replicate a Released @ Running # replicate b Waiting" by (auto simp: queue_shape_def)
  then show ?thesis
  proof
    assume ps: "ps = replicate a Released @ replicate b Waiting"
    with start have "i = a" "b \<noteq> 0" by (auto simp: nth_append split: if_splits)
    with ps start(1) show ?thesis
      by (cases b) (auto simp: queue_shape_def list_update_append)
  next
    assume ps: "ps = replicate a Released @ Running # replicate b Waiting"
    with start show ?thesis
      by (auto simp: nth_append nth_Cons' split: if_splits)
  qed
next
  case (finish i)
  from assms(1) obtain a b where "ps = replicate a Released @ replicate b Waiting \<or>
     ps = replicate a Released @ Running # replicate b Waiting" by (auto simp: queue_shape_def)
  then show ?thesis
  proof
    assume "ps = replicate a Released @ replicate b Waiting"
    with finish show ?thesis by (auto simp: nth_append split: if_splits)
  next
    assume ps: "ps = replicate a Released @ Running # replicate b Waiting"
    with finish have "i = a" by (auto simp: nth_append nth_Cons' split: if_splits)
    with ps finish(1) have "qs = replicate (Suc a) Released @ replicate b Waiting"
      by (simp add: list_update_append replicate_append_same)
    then show ?thesis unfolding queue_shape_def by blast
  qed
qed

lemma queue_shape_reachable:
  assumes "exclusive_step\<^sup>*\<^sup>* [] ps" shows "queue_shape ps"
  using assms
proof (induction rule: rtranclp_induct)
  case base
  show ?case by (auto simp: queue_shape_def)
next
  case (step qs ps)
  then show ?case by (blast intro: queue_shape_step)
qed

lemma queue_shape_running:
  assumes "queue_shape ps" and "i < length ps" and "ps ! i = Running"
  shows "(\<forall>j < i. ps ! j = Released) \<and> (\<forall>j < length ps. i < j \<longrightarrow> ps ! j = Waiting)"
  using assms by (auto simp: queue_shape_def nth_append nth_Cons' split: if_splits)

lemma queue_shape_progress:
  assumes "queue_shape ps" and "\<exists>i < length ps. ps ! i \<noteq> Released"
  shows "\<exists>i < length ps. exclusive_step ps (ps[i := Running]) \<and> ps ! i = Waiting \<or>
    exclusive_step ps (ps[i := Released]) \<and> ps ! i = Running"
proof -
  from assms(1) obtain a b where "ps = replicate a Released @ replicate b Waiting \<or>
     ps = replicate a Released @ Running # replicate b Waiting" by (auto simp: queue_shape_def)
  then show ?thesis
  proof
    assume ps: "ps = replicate a Released @ replicate b Waiting"
    with assms(2) have "b \<noteq> 0" by (auto simp: nth_append split: if_splits)
    with ps have "a < length ps" "ps ! a = Waiting" "a = 0 \<or> ps ! (a - 1) = Released"
      by (auto simp: nth_append)
    then show ?thesis by (blast intro: exclusive_step.start)
  next
    assume "ps = replicate a Released @ Running # replicate b Waiting"
    then have "a < length ps" "ps ! a = Running" by (auto simp: nth_append)
    then show ?thesis by (blast intro: exclusive_step.finish)
  qed
qed

section \<open>Properties\<close>

text \<open>A valid entry, for the witnesses.\<close>

definition demo_hash :: string where "demo_hash = ''0x'' @ replicate 64 (CHR ''a'')"

definition demo_transition :: "JournalStatus \<Rightarrow> JournalTransition" where
  "demo_transition st = \<lparr>jt_status = st, jt_at = 5, jt_blockNumber = None, jt_blockHash = None,
     jt_confirmations = None, jt_errorCode = None\<rparr>"

definition demo_entry :: JournalEntry where
  "demo_entry = \<lparr>je_attemptId = ''k:'' @ demo_hash, je_replayOfAttemptId = None, je_actionKey = ''k'',
     je_vault = ''0x'' @ replicate 40 (CHR ''b''), je_vaultName = ''v'', je_roundId = ''7'',
     je_action = CloseRound, je_cursor = None, je_account = None, je_txHash = demo_hash,
     je_calldataHash = demo_hash, je_nonce = 3, je_submittedAt = 5, je_updatedAt = 5,
     je_status = Prepared, je_blockNumber = None, je_blockHash = None, je_confirmations = None,
     je_errorCode = None, je_history = [demo_transition Prepared]\<rparr>"

definition empty_disk :: disk where
  "empty_disk = \<lparr>dk_journal = None, dk_synced = None, dk_temporary = Map.empty, dk_lock = False\<rparr>"

definition demo_disk :: disk where
  "demo_disk = snd (file_put 1 None demo_entry empty_disk)"

lemma empty_disk_read: "read_document empty_disk = Inr emptyJournal"
  by (simp add: read_document_def empty_disk_def)

definition demo_document :: JournalDocument where
  "demo_document = \<lparr>jd_entries = [demo_entry], jd_checkpoints = Map.empty\<rparr>"

lemma demo_document_ok: "journalDocumentSchema demo_document"
proof -
  have "journalEntrySchema demo_entry" by code_simp
  then show ?thesis by (simp add: journalDocumentSchema_def demo_document_def demo_entry_def)
qed

lemma demo_put:
  "file_put 1 None demo_entry empty_disk =
     (Inr (), empty_disk\<lparr>dk_journal := Some (fresh_file demo_document), dk_synced := Some (fresh_file demo_document)\<rparr>)"
proof -
  have "next_document emptyJournal demo_entry = demo_document"
    by (simp add: next_document_def emptyJournal_def demo_document_def)
  moreover have "journalEntrySchema demo_entry" by code_simp
  moreover have "find_attempt x (jd_entries emptyJournal) = None" for x
    by (simp add: find_attempt_def emptyJournal_def)
  moreover have "dk_temporary empty_disk 1 = None" by (simp add: empty_disk_def)
  ultimately show ?thesis
    using empty_disk_read demo_document_ok
    by (simp add: file_put_def bind_eff_apply parseEntry_def parseJournal_def check_previous_def write_document_ok)
qed

lemma demo_disk_put: "file_put 1 None demo_entry empty_disk = (Inr (), demo_disk)"
  by (simp add: demo_disk_def demo_put)

lemma demo_disk_read: "read_document demo_disk = Inr demo_document"
  using demo_document_ok by (simp add: demo_disk_def demo_put read_fresh parseJournal_def)

lemma demo_disk_list: "file_list demo_disk = Inr [demo_entry]"
  by (simp add: file_list_def demo_disk_read demo_document_def)

lemma demo_disk_temporary: "dk_temporary demo_disk 1 = None"
  unfolding demo_disk_def demo_put by (simp add: empty_disk_def)

text \<open>
  The journal file is an audit trail: whatever entries are put afterwards, by whatever
  processes, with whatever input/output call failing in each put, every recorded attempt is still
  in the file, with the same identity and with its recorded history as a prefix of its history.
\<close>

theorem journal_is_an_audit_trail:
  assumes "file_list d = Inr es" and "p \<in> set es"
  shows "\<exists>es'. file_list (put_all file_put_by xs d) = Inr es' \<and> (\<exists>q \<in> set es'. append_only p q)"
proof (rule file_store.audit_trail [OF _ assms])
  show "readable d" using assms(1) by (auto simp: file_list_def readable_def bind_result_Inr)
qed

theorem journal_is_an_audit_trail_witness:
  "\<exists>es'. file_list (put_all file_put_by [((1, Some AtRename), demo_entry), ((2, None), demo_entry)] demo_disk) = Inr es'
     \<and> (\<exists>q \<in> set es'. append_only demo_entry q)"
  by (rule journal_is_an_audit_trail [of _ "[demo_entry]"])
    (simp_all add: demo_disk_list)

text \<open>
  C7. A put is atomic on disk: if any input/output call of it fails, or the process or the
  power stops there, the journal that is read afterwards is the old document or the new one; and
  once a put has returned, the new document survives a loss of power.
\<close>

definition settled :: "disk \<Rightarrow> bool" where
  "settled d \<longleftrightarrow> dk_synced d = dk_journal d \<and> opt_ok jf_durable (dk_journal d)"

lemma power_loss_read:
  assumes "opt_ok jf_durable (dk_journal d)" and "opt_ok jf_durable (dk_synced d)"
  shows "dk_journal (power_loss kept d) = (if kept then dk_journal d else dk_synced d)"
  using assms by (cases "dk_journal d"; cases "dk_synced d")
    (auto simp: power_loss_def after_power_loss_def Let_def)



text \<open>
  The write queue runs one operation at a time, in call order, and never gets stuck: when
  an operation runs, every earlier call has released and every later one waits; and as long as a
  call is not released, some waiting call may start or the running one finish.
\<close>

theorem write_queue_is_exclusive:
  assumes "exclusive_step\<^sup>*\<^sup>* [] ps"
  shows "(\<forall>i < length ps. ps ! i = Running \<longrightarrow>
      (\<forall>j < i. ps ! j = Released) \<and> (\<forall>j < length ps. i < j \<longrightarrow> ps ! j = Waiting)) \<and>
    ((\<exists>i < length ps. ps ! i \<noteq> Released) \<longrightarrow>
      (\<exists>i < length ps. exclusive_step ps (ps[i := Running]) \<and> ps ! i = Waiting \<or>
         exclusive_step ps (ps[i := Released]) \<and> ps ! i = Running))"
  using queue_shape_running queue_shape_progress queue_shape_reachable [OF assms] by blast

theorem write_queue_is_exclusive_witness:
  "exclusive_step [Running, Waiting] [Released, Waiting] \<and>
   list_all (\<lambda>j. [Running, Waiting] ! j = Waiting) (filter (\<lambda>j. 0 < j) [0..<2])"
proof -
  have "exclusive_step\<^sup>*\<^sup>* [] [Waiting, Waiting]"
    using exclusive_step.call [of "[]"] exclusive_step.call [of "[Waiting]"]
    by (auto intro: rtranclp.rtrancl_into_rtrancl)
  moreover have "exclusive_step [Waiting, Waiting] [Running, Waiting]"
    using exclusive_step.start [of 0 "[Waiting, Waiting]"] by simp
  ultimately have "exclusive_step\<^sup>*\<^sup>* [] [Running, Waiting]"
    by (rule rtranclp.rtrancl_into_rtrancl)
  from write_queue_is_exclusive [OF this]
  have "\<forall>j < 2. 0 < j \<longrightarrow> [Running, Waiting] ! j = Waiting" by auto
  with exclusive_step.finish [of 0 "[Running, Waiting]"] show ?thesis by (auto simp: list_all_iff)
qed

text \<open>
  The memory store of the tests stands in for the file store: when both hold the same
  entries, a put that the file store accepts is accepted by the memory store, and both hold the
  same entries again.
\<close>

definition same_entries :: "disk \<Rightarrow> MemoryJournalStore \<Rightarrow> bool" where
  "same_entries d m \<longleftrightarrow> memory_inv m \<and>
     (\<exists>es. file_list d = Inr es \<and> set es = set (map snd (mj_entries m)))"

lemma same_entries_lookup:
  assumes "memory_inv m" and "set es = set (map snd (mj_entries m))" and "distinct (map je_attemptId es)"
  shows "map_of (mj_entries m) a = find_attempt a es"
proof (cases "find_attempt a es")
  case None
  then have "\<forall>e \<in> set es. je_attemptId e \<noteq> a" by (auto simp: find_attempt_def find_None_iff)
  with assms(1,2) have "a \<notin> fst ` set (mj_entries m)" by (force simp: memory_inv_def)
  with None show ?thesis by (simp add: map_of_eq_None_iff)
next
  case (Some e)
  then have "e \<in> set es" "je_attemptId e = a" by (auto simp: find_attempt_def dest: find_SomeD)
  with assms(1,2) have "(a, e) \<in> set (mj_entries m)" by (auto simp: memory_inv_def)
  with Some assms(1) show ?thesis by (simp add: memory_inv_def)
qed

theorem memory_store_simulates_file_store:
  assumes "same_entries d m" and "file_put pid fault e d = (Inr (), d')"
  shows "\<exists>m'. memory_put e m = (Inr (), m') \<and> same_entries d' m'"
  using assms(2)
proof (cases rule: file_put_cases)
  case (written j)
  from assms(1) written(1) have m: "memory_inv m" "set (jd_entries j) = set (map snd (mj_entries m))"
    by (auto simp: same_entries_def file_list_def)
  let ?m = "m\<lparr>mj_entries := js_map_set (je_attemptId e) e (mj_entries m)\<rparr>"
  have "map_of (mj_entries m) (je_attemptId e) = find_attempt (je_attemptId e) (jd_entries j)"
    by (rule same_entries_lookup [OF m schema_distinct [OF read_document_schema [OF written(1)]]])
  with written have p: "memory_put e m = (Inr (), ?m)"
    by (simp add: memory_put_def bind_eff_apply parseEntry_def)
  have "file_list d' = Inr (jd_entries (next_document j e))"
    using file_put_read [OF written(1) assms(2)] by (auto intro: file_list_read)
  moreover have "set (jd_entries (next_document j e)) = set (map snd (mj_entries ?m))"
    unfolding memory_entries_set [OF m(1) refl] set_next_document m(2) ..
  ultimately have "same_entries d' ?m"
    using memory_put_inv [OF m(1), of e] p unfolding same_entries_def by auto
  with p show ?thesis by blast
qed simp

theorem memory_store_simulates_file_store_witness:
  "\<exists>m'. memory_put demo_entry \<lparr>mj_entries = [], mj_checkpoints = Map.empty\<rparr> = (Inr (), m') \<and>
     same_entries demo_disk m'"
proof (rule memory_store_simulates_file_store [of empty_disk _ 1 None])
  show "same_entries empty_disk \<lparr>mj_entries = [], mj_checkpoints = Map.empty\<rparr>"
    by (simp add: same_entries_def memory_inv_def file_list_def read_document_def empty_disk_def emptyJournal_def)
  show "file_put 1 None demo_entry empty_disk = (Inr (), demo_disk)" by (rule demo_disk_put)
qed

text \<open>
  A write that fails after its temporary file was created leaves that file behind, and it
  is opened exclusively: from then on the same process can record nothing, and neither can any
  later process with the same id, until the file is removed by hand.
\<close>

theorem failed_write_blocks_the_store:
  assumes "dk_temporary d pid = None" and "point \<in> {AtWriteFile, AtSync, AtClose, AtRename}"
    and "write_document (Some point) pid j d = (r, d')"
  shows "r = Inl (IoError point) \<and> (\<forall>fault e. fst (file_put pid fault e d') \<noteq> Inr () \<and>
     dk_temporary (snd (file_put pid fault e d')) pid \<noteq> None)"
proof -
  have r: "r = Inl (IoError point)" and t: "dk_temporary d' pid \<noteq> None"
    using assms by (auto simp: write_defs)
  have "fst (write_document fault pid j d') \<noteq> Inr () \<and> snd (write_document fault pid j d') = d'" for fault j
    using t by (cases fault) (auto simp: write_defs)
  then have "fst (file_put pid fault e d') \<noteq> Inr () \<and> snd (file_put pid fault e d') = d'" for fault e
    by (cases "file_put pid fault e d'") (auto elim!: file_put_cases, metis fst_conv, metis snd_conv)
  with r t show ?thesis by simp
qed

theorem failed_write_blocks_the_store_witness:
  "fst (file_put 1 None demo_entry (snd (write_document (Some AtWriteFile) 1 emptyJournal empty_disk))) \<noteq> Inr ()"
  using failed_write_blocks_the_store [of empty_disk 1 AtWriteFile emptyJournal
      "fst (write_document (Some AtWriteFile) 1 emptyJournal empty_disk)"
      "snd (write_document (Some AtWriteFile) 1 emptyJournal empty_disk)"]
  by (simp add: empty_disk_def)

end
