(* ===== verification/Gas_Policy.thy ===== *)
theory Gas_Policy
  imports Lifecycle
begin

text \<open>
  Gas limits and balance limits of the keeper: \<open>keeper/src/gas-policy.ts\<close> and
  \<open>keeper/src/balance-guard.ts\<close>.

  \<open>floors\<close> is a plain object indexed by action strings, here a map from strings; it is read only
  at the strings of lifecycle actions.  \<open>parseGasFloors\<close> tests its keys with the \<open>in\<close> operator,
  which also sees the properties that the default object inherits; their names are written out
  in \<open>object_prototype_names\<close>.
\<close>

section \<open>Data\<close>

type_synonym gas_floors = "string \<rightharpoonup> int"

record GasPolicyConfig =
  gp_multiplierBps :: js_number
  gp_additiveMargin :: int
  gp_maximumGasLimit :: int
  gp_floors :: gas_floors

datatype gas_error =
    InvalidMultiplier
  | InvalidPolicyBounds
  | InvalidGasFloor LifecycleActionKind
  | NoEstimateAndNoFloor LifecycleActionKind
  | InvalidGasEstimate LifecycleActionKind
  | GasLimitExceeded LifecycleActionKind int int
  | InvalidFloorsFormat
  | UnknownGasAction string

fun default_floor :: "LifecycleActionKind \<Rightarrow> int" where
  "default_floor RegisterAutoEntry = 700000"
| "default_floor PruneAutoEntry = 300000"
| "default_floor CloseRound = 750000"
| "default_floor FinalizeAggregate = 350000"
| "default_floor SettleEmptyRound = 350000"
| "default_floor GenerateRandomCandidate = 600000"
| "default_floor FinalizeCandidateValidity = 350000"
| "default_floor ProcessSelection = 1000000"
| "default_floor FinalizeReconciliation = 350000"
| "default_floor RecoverFailedReconciliation = 350000"
| "default_floor ProcessAllocation = 1000000"
| "default_floor FinalizeSettlement = 500000"

definition DEFAULT_GAS_FLOORS :: gas_floors where
  "DEFAULT_GAS_FLOORS = map_of (map (\<lambda>k. (kind_string k, default_floor k)) all_kinds)"

definition DEFAULT_GAS_POLICY :: GasPolicyConfig where
  "DEFAULT_GAS_POLICY = \<lparr>gp_multiplierBps = JInt 12500, gp_additiveMargin = 25000,
     gp_maximumGasLimit = 3000000, gp_floors = DEFAULT_GAS_FLOORS\<rparr>"

section \<open>The policy\<close>

definition ceilMultiply :: "int \<Rightarrow> int \<Rightarrow> int" where
  "ceilMultiply v basisPoints = big_div (v * basisPoints + 9999) 10000"

fun multiplier_in_range :: "js_number \<Rightarrow> int option" where
  "multiplier_in_range JNonInt = None"
| "multiplier_in_range (JInt bps) = (if bps < 10000 \<or> 20000 < bps then None else Some bps)"

definition applyGasPolicy ::
  "LifecycleActionKind \<Rightarrow> int option \<Rightarrow> GasPolicyConfig \<Rightarrow> bool \<Rightarrow> (gas_error, GasPolicyDecision) result" where
  "applyGasPolicy action estimatedGas config estimationFallback =
     (case multiplier_in_range (gp_multiplierBps config) of
        None \<Rightarrow> Inl InvalidMultiplier
      | Some bps \<Rightarrow>
          if gp_additiveMargin config < 0 \<or> gp_maximumGasLimit config \<le> 0 then Inl InvalidPolicyBounds
          else let floor = gp_floors config (kind_string action) in
          if (case floor of None \<Rightarrow> False | Some f \<Rightarrow> f \<le> 0 \<or> gp_maximumGasLimit config < f)
          then Inl (InvalidGasFloor action)
          else if estimatedGas = None \<and> floor = None then Inl (NoEstimateAndNoFloor action)
          else if (case estimatedGas of None \<Rightarrow> False | Some e \<Rightarrow> e \<le> 0)
          then Inl (InvalidGasEstimate action)
          else
            let estimatedWithMargin = (case estimatedGas of
                  None \<Rightarrow> the floor
                | Some e \<Rightarrow> ceilMultiply e bps + gp_additiveMargin config);
                gasLimit = (if estimatedWithMargin > (case floor of None \<Rightarrow> 0 | Some f \<Rightarrow> f)
                  then estimatedWithMargin
                  else (case floor of None \<Rightarrow> estimatedWithMargin | Some f \<Rightarrow> f))
            in if gasLimit > gp_maximumGasLimit config
               then Inl (GasLimitExceeded action gasLimit (gp_maximumGasLimit config))
               else Inr \<lparr>gd_action = action, gd_estimatedGas = estimatedGas, gd_gasFloor = floor,
                      gd_multiplierBps = gp_multiplierBps config,
                      gd_additiveMargin = gp_additiveMargin config, gd_gasLimit = gasLimit,
                      gd_estimationFallback = (if estimationFallback then Some True else None)\<rparr>)"

section \<open>Configured floors\<close>

text \<open>The names that \<open>in\<close> finds on every plain object.\<close>

definition object_prototype_names :: "string list" where
  "object_prototype_names = [''constructor'', ''__defineGetter__'', ''__defineSetter__'',
     ''hasOwnProperty'', ''__lookupGetter__'', ''__lookupSetter__'', ''isPrototypeOf'',
     ''propertyIsEnumerable'', ''toString'', ''valueOf'', ''__proto__'', ''toLocaleString'']"

definition in_default_floors :: "string \<Rightarrow> bool" where
  "in_default_floors name = (DEFAULT_GAS_FLOORS name \<noteq> None \<or> name \<in> set object_prototype_names)"

text \<open>\<open>result[name] = v\<close> on an object literal: the inherited setter of \<open>__proto__\<close> ignores a
  value that is not an object.\<close>

definition assign_floor :: "gas_floors \<Rightarrow> string \<Rightarrow> int \<Rightarrow> gas_floors" where
  "assign_floor floors name v = (if name = ''__proto__'' then floors else floors(name \<mapsto> v))"

definition parse_floor_token :: "string \<Rightarrow> gas_floors \<Rightarrow> (gas_error, gas_floors) result" where
  "parse_floor_token token floors =
     (case map trim (split_on (CHR ''='') token) of
        rawAction # rawFloor # _ \<Rightarrow>
          if rawAction = [] \<or> rawFloor = [] \<or> \<not> decimal_string rawFloor then Inl InvalidFloorsFormat
          else if \<not> in_default_floors rawAction then Inl (UnknownGasAction rawAction)
          else Inr (assign_floor floors rawAction (int (digits_value rawFloor)))
      | _ \<Rightarrow> Inl InvalidFloorsFormat)"

fun parse_floor_tokens :: "string list \<Rightarrow> gas_floors \<Rightarrow> (gas_error, gas_floors) result" where
  "parse_floor_tokens [] floors = Inr floors"
| "parse_floor_tokens (t # ts) floors = bind_result (parse_floor_token t floors) (parse_floor_tokens ts)"

definition parseGasFloors :: "string option \<Rightarrow> (gas_error, gas_floors) result" where
  "parseGasFloors v = (case v of
     None \<Rightarrow> Inr Map.empty
   | Some s \<Rightarrow> if trim s = [] then Inr Map.empty else parse_floor_tokens (split_on (CHR '','') s) Map.empty)"

section \<open>Balance limits\<close>

datatype balance_error =
    NegativeMinimum
  | NonPositiveMaximum
  | MinimumAboveMaximum
  | BelowMinimum int int
  | AboveMaximum int int

definition assertKeeperBalanceWithinLimits :: "int \<Rightarrow> int \<Rightarrow> int \<Rightarrow> (balance_error, unit) result" where
  "assertKeeperBalanceWithinLimits balanceWei minimumBalanceWei maximumBalanceWei =
     (if minimumBalanceWei < 0 then Inl NegativeMinimum
      else if maximumBalanceWei \<le> 0 then Inl NonPositiveMaximum
      else if minimumBalanceWei > maximumBalanceWei then Inl MinimumAboveMaximum
      else if balanceWei < minimumBalanceWei then Inl (BelowMinimum balanceWei minimumBalanceWei)
      else if balanceWei > maximumBalanceWei then Inl (AboveMaximum balanceWei maximumBalanceWei)
      else Inr ())"

definition assertKeeperBalanceWithinLimit :: "int \<Rightarrow> int \<Rightarrow> (balance_error, unit) result" where
  "assertKeeperBalanceWithinLimit balanceWei maximumBalanceWei =
     assertKeeperBalanceWithinLimits balanceWei 0 maximumBalanceWei"

section \<open>Lemmas\<close>

lemma balance_within_limits:
  "assertKeeperBalanceWithinLimits b mn mx = Inr () \<longleftrightarrow> 0 \<le> mn \<and> 0 < mx \<and> mn \<le> b \<and> b \<le> mx"
  by (auto simp: assertKeeperBalanceWithinLimits_def)

lemma multiplier_in_range_Some:
  "multiplier_in_range m = Some bps \<longleftrightarrow> m = JInt bps \<and> 10000 \<le> bps \<and> bps \<le> 20000"
  by (cases m) auto

text \<open>The rounding is upward: the result is the least integer at or above the exact product.\<close>

lemma ceilMultiply_bounds:
  assumes "0 \<le> v" and "0 \<le> bps"
  shows "v * bps \<le> 10000 * ceilMultiply v bps" and "10000 * ceilMultiply v bps < v * bps + 10000"
proof -
  define p where "p = v * bps"
  have "0 \<le> p" using assms by (simp add: p_def)
  then have "ceilMultiply v bps = (p + 9999) div 10000"
    by (simp add: ceilMultiply_def p_def [symmetric])
  then show "v * bps \<le> 10000 * ceilMultiply v bps" and "10000 * ceilMultiply v bps < v * bps + 10000"
    unfolding p_def [symmetric]
    using div_mult_mod_eq [of "p + 9999" 10000] pos_mod_bound [of 10000 "p + 9999"]
      pos_mod_sign [of 10000 "p + 9999"] by linarith+
qed

lemma ceilMultiply_ge:
  assumes "0 \<le> v" and "10000 \<le> bps"
  shows "v \<le> ceilMultiply v bps"
proof -
  have "v * 10000 \<le> v * bps" using assms by (intro mult_left_mono) auto
  with ceilMultiply_bounds(1) [of v bps] assms show ?thesis by linarith
qed

lemma default_floor_lookup [simp]: "DEFAULT_GAS_FLOORS (kind_string k) = Some (default_floor k)"
  by (cases k) (simp_all add: DEFAULT_GAS_FLOORS_def all_kinds_def)

lemma default_floor_range: "300000 \<le> default_floor k \<and> default_floor k \<le> 1000000"
  by (cases k) simp_all

text \<open>The accepted limit is the larger of the floor and the enlarged estimate.\<close>

definition policy_limit :: "int option \<Rightarrow> int option \<Rightarrow> int \<Rightarrow> int \<Rightarrow> int" where
  "policy_limit floor est bps margin = (case (floor, est) of
     (None, None) \<Rightarrow> 0
   | (Some f, None) \<Rightarrow> f
   | (None, Some e) \<Rightarrow> ceilMultiply e bps + margin
   | (Some f, Some e) \<Rightarrow> max f (ceilMultiply e bps + margin))"

lemma applyGasPolicy_Inr:
  "applyGasPolicy k est cfg fb = Inr d \<longleftrightarrow> (\<exists>bps.
     gp_multiplierBps cfg = JInt bps \<and> 10000 \<le> bps \<and> bps \<le> 20000 \<and>
     0 \<le> gp_additiveMargin cfg \<and> 0 < gp_maximumGasLimit cfg \<and>
     (\<forall>f. gp_floors cfg (kind_string k) = Some f \<longrightarrow> 0 < f) \<and>
     (\<forall>e. est = Some e \<longrightarrow> 0 < e) \<and>
     (est \<noteq> None \<or> gp_floors cfg (kind_string k) \<noteq> None) \<and>
     policy_limit (gp_floors cfg (kind_string k)) est bps (gp_additiveMargin cfg) \<le> gp_maximumGasLimit cfg \<and>
     d = \<lparr>gd_action = k, gd_estimatedGas = est, gd_gasFloor = gp_floors cfg (kind_string k),
          gd_multiplierBps = JInt bps, gd_additiveMargin = gp_additiveMargin cfg,
          gd_gasLimit = policy_limit (gp_floors cfg (kind_string k)) est bps (gp_additiveMargin cfg),
          gd_estimationFallback = (if fb then Some True else None)\<rparr>)"
    (is "_ \<longleftrightarrow> ?R")
proof (cases "multiplier_in_range (gp_multiplierBps cfg)")
  case None
  then have "\<not> ?R" using multiplier_in_range_Some by auto
  with None show ?thesis by (simp add: applyGasPolicy_def)
next
  case (Some bps)
  then have m: "gp_multiplierBps cfg = JInt bps" "10000 \<le> bps" "bps \<le> 20000"
    by (simp_all add: multiplier_in_range_Some)
  have pos: "0 < ceilMultiply e bps" if "0 < e" for e
    using ceilMultiply_ge [of e bps] m that by simp
  have [simp]: "multiplier_in_range (JInt bps) = Some bps" using Some m by simp
  have [simp]: "\<not> bps < 10000" "\<not> 20000 < bps" using m by auto
  show ?thesis
    using m(2,3)
    by (cases "gp_floors cfg (kind_string k)"; cases est)
      (auto simp: applyGasPolicy_def m(1) policy_limit_def Let_def max_def
        simp del: multiplier_in_range.simps dest: pos)
qed

text \<open>
  A decided gas limit is safe and no larger than needed: it is at most the configured
  maximum, at least the reviewed floor, at least the estimate enlarged by the multiplier and the
  margin, and it is one of the two.  The multiplier never shrinks an estimate.
\<close>

theorem gas_limit_is_safe:
  assumes "applyGasPolicy k est cfg fb = Inr d"
  shows "0 < gd_gasLimit d \<and> gd_gasLimit d \<le> gp_maximumGasLimit cfg \<and>
    (\<forall>f. gp_floors cfg (kind_string k) = Some f \<longrightarrow> f \<le> gd_gasLimit d) \<and>
    (\<exists>bps. gp_multiplierBps cfg = JInt bps \<and> 10000 \<le> bps \<and> bps \<le> 20000 \<and>
      (\<forall>e. est = Some e \<longrightarrow> e \<le> gd_gasLimit d \<and>
        e * bps + 10000 * gp_additiveMargin cfg \<le> 10000 * gd_gasLimit d) \<and>
      (gp_floors cfg (kind_string k) = Some (gd_gasLimit d) \<or>
       (\<exists>e. est = Some e \<and> 10000 * gd_gasLimit d < e * bps + 10000 * gp_additiveMargin cfg + 10000)))"
proof -
  from assms obtain bps where m: "gp_multiplierBps cfg = JInt bps" "10000 \<le> bps" "bps \<le> 20000"
    and r: "0 \<le> gp_additiveMargin cfg" "\<And>f. gp_floors cfg (kind_string k) = Some f \<Longrightarrow> 0 < f"
      "\<And>e. est = Some e \<Longrightarrow> 0 < e" "est \<noteq> None \<or> gp_floors cfg (kind_string k) \<noteq> None"
    and l: "gd_gasLimit d = policy_limit (gp_floors cfg (kind_string k)) est bps (gp_additiveMargin cfg)"
      "gd_gasLimit d \<le> gp_maximumGasLimit cfg"
    unfolding applyGasPolicy_Inr by auto
  have e: "e \<le> gd_gasLimit d \<and> e * bps + 10000 * gp_additiveMargin cfg \<le> 10000 * gd_gasLimit d"
    if "est = Some e" for e
    using that m r(1) r(3) [of e] ceilMultiply_bounds(1) [of e bps] ceilMultiply_ge [of e bps]
    by (auto simp: l(1) policy_limit_def max_def split: option.splits)
  have f: "f \<le> gd_gasLimit d" if "gp_floors cfg (kind_string k) = Some f" for f
    using that by (auto simp: l(1) policy_limit_def split: option.splits)
  have "gp_floors cfg (kind_string k) = Some (gd_gasLimit d) \<or>
       (\<exists>e. est = Some e \<and> 10000 * gd_gasLimit d < e * bps + 10000 * gp_additiveMargin cfg + 10000)"
    using r(3,4) m ceilMultiply_bounds(2) [of "the est" bps]
    by (cases est; cases "gp_floors cfg (kind_string k)") (auto simp: l(1) policy_limit_def max_def)
  moreover have "0 < gd_gasLimit d"
    using r(2,3,4) e f by (cases est; cases "gp_floors cfg (kind_string k)") fastforce+
  ultimately show ?thesis using m l(2) e f by blast
qed

theorem gas_limit_is_safe_witness:
  "\<exists>d. applyGasPolicy ProcessAllocation (Some 2269439) DEFAULT_GAS_POLICY False = Inr d \<and>
     gd_gasLimit d = 2861799 \<and> gd_gasLimit d \<le> 3000000"
proof -
  have "applyGasPolicy ProcessAllocation (Some 2269439) DEFAULT_GAS_POLICY False = Inr
      \<lparr>gd_action = ProcessAllocation, gd_estimatedGas = Some 2269439, gd_gasFloor = Some 1000000,
       gd_multiplierBps = JInt 12500, gd_additiveMargin = 25000, gd_gasLimit = 2861799,
       gd_estimationFallback = None\<rparr>" (is "_ = Inr ?d")
    using default_floor_lookup [of ProcessAllocation]
    by (simp add: applyGasPolicy_Inr DEFAULT_GAS_POLICY_def policy_limit_def ceilMultiply_def)
  with gas_limit_is_safe [OF this] show ?thesis by (auto simp: DEFAULT_GAS_POLICY_def)
qed

text \<open>
  With the default policy every action has a limit as long as its estimate is between one
  and 2,380,000 gas, and a failed estimate falls back to the reviewed floor; larger estimates are
  refused.
\<close>

theorem default_policy_accepts_exactly:
  "is_ok (applyGasPolicy k est DEFAULT_GAS_POLICY fb) \<longleftrightarrow>
     (case est of None \<Rightarrow> True | Some e \<Rightarrow> 0 < e \<and> e \<le> 2380000)"
proof -
  have c: "ceilMultiply e 12500 + 25000 \<le> 3000000 \<longleftrightarrow> e \<le> 2380000" if "0 < e" for e
    using ceilMultiply_bounds [of e 12500] that by auto
  show ?thesis
    using default_floor_range [of k] c
    by (auto simp: is_ok_iff applyGasPolicy_Inr DEFAULT_GAS_POLICY_def policy_limit_def
        split: option.splits)
qed

section \<open>Printing and parsing of floors\<close>

text \<open>The documented form of \<open>KEEPER_GAS_FLOORS\<close>: \<open>action=floor\<close> pairs separated by commas.\<close>

definition print_floor :: "LifecycleActionKind \<times> int \<Rightarrow> string" where
  "print_floor p = kind_string (fst p) @ CHR ''='' # int_to_string (snd p)"

fun join_comma :: "string list \<Rightarrow> string" where
  "join_comma [] = []"
| "join_comma [s] = s"
| "join_comma (s # ss) = s @ CHR '','' # join_comma ss"

text \<open>Characters that neither separate nor get trimmed.\<close>

definition plain :: "string \<Rightarrow> bool" where
  "plain s = list_all (\<lambda>c. \<not> is_space c \<and> c \<noteq> CHR ''='' \<and> c \<noteq> CHR '','') s"

lemma trim_no_space: "list_all (\<lambda>c. \<not> is_space c) s \<Longrightarrow> trim s = s"
proof -
  have d: "list_all (\<lambda>c. \<not> is_space c) t \<Longrightarrow> dropWhile is_space t = t" for t
    by (cases t) auto
  show "list_all (\<lambda>c. \<not> is_space c) s \<Longrightarrow> trim s = s"
    by (simp add: trim_def d)
qed

lemma plainD: "plain s \<Longrightarrow> CHR ''='' \<notin> set s \<and> CHR '','' \<notin> set s \<and> trim s = s"
  unfolding plain_def list_all_iff
  by (intro conjI trim_no_space) (unfold list_all_iff, blast+)

lemma kind_string_plain: "plain (kind_string k)"
  by (cases k) (simp_all add: plain_def is_space_def)

lemma kind_string_not_proto: "kind_string k \<noteq> ''__proto__'' \<and> kind_string k \<noteq> []"
  by (cases k) simp_all

lemma is_digit_not_special: "is_digit c \<Longrightarrow> \<not> is_space c \<and> c \<noteq> CHR ''='' \<and> c \<noteq> CHR '',''"
  by (auto simp: is_space_def Let_def) (simp_all add: is_digit_def)

lemma decimal_plain: "decimal_string s \<Longrightarrow> plain s"
  by (fastforce simp: plain_def decimal_string_def list_all_iff dest: is_digit_not_special)

lemma parse_print_token:
  assumes "0 \<le> v"
  shows "parse_floor_token (print_floor (k, v)) floors = Inr (floors(kind_string k \<mapsto> v))"
proof -
  have d: "decimal_string (int_to_string v)" using assms by (rule decimal_string_int_to_string)
  have "split_on (CHR ''='') (print_floor (k, v)) = [kind_string k, int_to_string v]"
    using plainD [OF kind_string_plain, of k] plainD [OF decimal_plain [OF d]]
    by (simp add: print_floor_def split_on_append_sep split_on_no_sep)
  moreover have "trim (kind_string k) = kind_string k" "trim (int_to_string v) = int_to_string v"
    using plainD [OF kind_string_plain, of k] plainD [OF decimal_plain [OF d]] by simp_all
  moreover have "int_to_string v \<noteq> []" using d by (simp add: decimal_string_def)
  ultimately show ?thesis
    using d kind_string_not_proto [of k] assms
    by (simp add: parse_floor_token_def in_default_floors_def assign_floor_def digits_value_int_to_string)
qed

lemma print_floor_no_comma:
  assumes "0 \<le> v" shows "CHR '','' \<notin> set (print_floor (k, v))"
  using plainD [OF kind_string_plain, of k]
    plainD [OF decimal_plain [OF decimal_string_int_to_string [OF assms]]]
  by (simp add: print_floor_def)

lemma split_join_comma:
  "\<forall>s \<in> set ss. CHR '','' \<notin> set s \<Longrightarrow> ss \<noteq> [] \<Longrightarrow> split_on (CHR '','') (join_comma ss) = ss"
  by (induction ss rule: join_comma.induct) (auto simp: split_on_no_sep split_on_append_sep)

lemma parse_print_tokens:
  assumes "\<forall>p \<in> set ps. 0 \<le> snd p"
  shows "parse_floor_tokens (map print_floor ps) floors =
    Inr (floors ++ map_of (rev (map (\<lambda>p. (kind_string (fst p), snd p)) ps)))"
  using assms
  by (induction ps arbitrary: floors) (auto simp: parse_print_token map_add_def fun_eq_iff split: option.splits)

lemma trim_Nil_iff: "trim s = [] \<longleftrightarrow> list_all is_space s"
  by (auto simp: trim_def dropWhile_eq_Nil_conv list_all_iff)
    (metis dropWhile_eq_Nil_conv hd_dropWhile hd_in_set, blast dest: set_dropWhileD)

lemma join_comma_head: "ss \<noteq> [] \<Longrightarrow> \<exists>t. join_comma ss = hd ss @ t"
  by (induction ss rule: join_comma.induct) auto

lemma trim_printed_floors:
  assumes "ps \<noteq> []"
  shows "trim (join_comma (map print_floor ps)) \<noteq> []"
proof -
  let ?k = "kind_string (fst (hd ps))"
  obtain t where "join_comma (map print_floor ps) = ?k @ t"
    using join_comma_head [of "map print_floor ps"] assms by (auto simp: hd_map print_floor_def)
  moreover have "hd ?k \<in> set ?k" "\<not> is_space (hd ?k)"
    using kind_string_not_proto [of "fst (hd ps)"] kind_string_plain [of "fst (hd ps)"]
    by (auto simp: plain_def list_all_iff)
  ultimately show ?thesis by (auto simp: trim_Nil_iff list_all_iff)
qed

text \<open>
  C39. Floors written in the documented form are read back: parsing the printed pairs gives each
  action the last floor written for it, and nothing else.
\<close>

theorem gas_floors_roundtrip:
  assumes "ps \<noteq> []" and "\<forall>p \<in> set ps. 0 \<le> snd p"
  shows "parseGasFloors (Some (join_comma (map print_floor ps))) =
    Inr (map_of (rev (map (\<lambda>p. (kind_string (fst p), snd p)) ps)))"
proof -
  have "split_on (CHR '','') (join_comma (map print_floor ps)) = map print_floor ps"
    using assms print_floor_no_comma by (intro split_join_comma) fastforce+
  with trim_printed_floors [OF assms(1)] show ?thesis
    by (simp add: parseGasFloors_def parse_print_tokens [OF assms(2)])
qed

theorem gas_floors_roundtrip_witness:
  "parseGasFloors (Some ''close-round=900,prune-auto-entry=7,close-round=800'') =
     Inr (Map.empty(''close-round'' \<mapsto> 800, ''prune-auto-entry'' \<mapsto> 7))"
proof -
  have "join_comma (map print_floor [(CloseRound, 900), (PruneAutoEntry, 7), (CloseRound, 800)])
      = ''close-round=900,prune-auto-entry=7,close-round=800''"
    by code_simp
  then show ?thesis
    using gas_floors_roundtrip [of "[(CloseRound, 900), (PruneAutoEntry, 7), (CloseRound, 800)]"]
    by (auto simp: fun_eq_iff)
qed

text \<open>
  The key test with \<open>in\<close> lets inherited names through, and a second equals sign is ignored:
  neither input is rejected, and no floor of an action changes.
\<close>

lemma floors_accept_inherited_name:
  "is_ok (parseGasFloors (Some ''toString=5''))" "is_ok (parseGasFloors (Some ''close-round=5=x''))"
  by code_simp+

end
