(* ===== verification/Eff_Logic.thy ===== *)
theory Eff_Logic
  imports Prelude
begin

text \<open>
  Hoare triples for effectful code: the postcondition speaks of the result, an exception
  included, and of the state the call leaves.  \<open>keeps I m\<close> is the triple of an invariant that no
  outcome of \<open>m\<close> breaks.  The rules follow the combinators of the prelude.
\<close>

named_theorems keeps_rules \<open>introduction rules for invariants of effectful code\<close>

definition triple :: "('s \<Rightarrow> bool) \<Rightarrow> ('e, 's, 'a) eff \<Rightarrow> (('e, 'a) result \<Rightarrow> 's \<Rightarrow> bool) \<Rightarrow> bool" where
  "triple P m Q \<longleftrightarrow> (\<forall>s. P s \<longrightarrow> Q (fst (m s)) (snd (m s)))"

definition keeps :: "('s \<Rightarrow> bool) \<Rightarrow> ('e, 's, 'a) eff \<Rightarrow> bool" where
  "keeps I m \<longleftrightarrow> triple I m (\<lambda>_. I)"

lemma tripleI: "(\<And>s r s'. P s \<Longrightarrow> m s = (r, s') \<Longrightarrow> Q r s') \<Longrightarrow> triple P m Q"
  unfolding triple_def by (metis prod.collapse)

lemma tripleD: "triple P m Q \<Longrightarrow> P s \<Longrightarrow> m s = (r, s') \<Longrightarrow> Q r s'"
  unfolding triple_def by (metis fst_conv snd_conv)

lemma triple_weaken:
  "triple P m Q \<Longrightarrow> (\<And>s. P' s \<Longrightarrow> P s) \<Longrightarrow> (\<And>r s. Q r s \<Longrightarrow> Q' r s) \<Longrightarrow> triple P' m Q'"
  unfolding triple_def by blast

text \<open>Sequencing: \<open>R\<close> holds between the two, \<open>E\<close> when the first one throws.\<close>

lemma triple_bind:
  assumes "triple P m (\<lambda>r s. case r of Inl e \<Rightarrow> Q (Inl e) s | Inr a \<Rightarrow> R a s)"
    and "\<And>a. triple (R a) (f a) Q"
  shows "triple P (bind_eff m f) Q"
proof (rule tripleI)
  fix s r s'
  assume p: "P s" and b: "bind_eff m f s = (r, s')"
  obtain r1 s1 where m: "m s = (r1, s1)" by (cases "m s")
  from tripleD [OF assms(1) p m] b m show "Q r s'"
    by (cases r1) (auto simp: bind_eff_apply dest: tripleD [OF assms(2)])
qed

lemma triple_catch:
  assumes "triple P m (\<lambda>r s. case r of Inl e \<Rightarrow> H e s | Inr a \<Rightarrow> Q (Inr a) s)"
    and "\<And>e. triple (H e) (h e) Q"
  shows "triple P (catch_eff m h) Q"
proof (rule tripleI)
  fix s r s'
  assume p: "P s" and b: "catch_eff m h s = (r, s')"
  obtain r1 s1 where m: "m s = (r1, s1)" by (cases "m s")
  from tripleD [OF assms(1) p m] b m show "Q r s'"
    by (cases r1) (auto simp: catch_eff_apply dest: tripleD [OF assms(2)])
qed

lemma triple_ret [simp]: "triple P (ret a) Q \<longleftrightarrow> (\<forall>s. P s \<longrightarrow> Q (Inr a) s)"
  by (simp add: triple_def)

lemma triple_throw [simp]: "triple P (throw e) Q \<longleftrightarrow> (\<forall>s. P s \<longrightarrow> Q (Inl e) s)"
  by (simp add: triple_def)

lemma keepsI: "(\<And>s r s'. I s \<Longrightarrow> m s = (r, s') \<Longrightarrow> I s') \<Longrightarrow> keeps I m"
  unfolding keeps_def by (rule tripleI)

lemma keepsD: "keeps I m \<Longrightarrow> I s \<Longrightarrow> m s = (r, s') \<Longrightarrow> I s'"
  unfolding keeps_def by (rule tripleD)

lemma keeps_ret [keeps_rules]: "keeps I (ret a)"
  by (simp add: keeps_def)

lemma keeps_throw [keeps_rules]: "keeps I (throw e)"
  by (simp add: keeps_def)

lemma keeps_bind [keeps_rules]:
  assumes "keeps I m" and "\<And>a. keeps I (f a)"
  shows "keeps I (bind_eff m f)"
  unfolding keeps_def
  by (rule triple_bind [where R = "\<lambda>_. I"])
    (use assms in \<open>auto simp: keeps_def elim!: triple_weaken split: sum.splits\<close>)

lemma keeps_catch [keeps_rules]:
  assumes "keeps I m" and "\<And>e. keeps I (h e)"
  shows "keeps I (catch_eff m h)"
  unfolding keeps_def
  by (rule triple_catch [where H = "\<lambda>_. I"])
    (use assms in \<open>auto simp: keeps_def elim!: triple_weaken split: sum.splits\<close>)

lemma keeps_if [keeps_rules]: "(b \<Longrightarrow> keeps I m) \<Longrightarrow> (\<not> b \<Longrightarrow> keeps I m') \<Longrightarrow> keeps I (if b then m else m')"
  by simp

lemma keeps_case_option [keeps_rules]:
  "(x = None \<Longrightarrow> keeps I m) \<Longrightarrow> (\<And>a. x = Some a \<Longrightarrow> keeps I (f a)) \<Longrightarrow>
    keeps I (case x of None \<Rightarrow> m | Some a \<Rightarrow> f a)"
  by (cases x) auto

lemma keeps_case_sum [keeps_rules]:
  "(\<And>e. x = Inl e \<Longrightarrow> keeps I (g e)) \<Longrightarrow> (\<And>a. x = Inr a \<Longrightarrow> keeps I (f a)) \<Longrightarrow>
    keeps I (case x of Inl e \<Rightarrow> g e | Inr a \<Rightarrow> f a)"
  by (cases x) auto

lemma keeps_let [keeps_rules]: "keeps I (f x) \<Longrightarrow> keeps I (Let x f)"
  by simp

text \<open>A sequence of polls, each of which may end in an exception the caller survives.\<close>

fun iterate_eff :: "nat \<Rightarrow> ('e, 's, 'a) eff \<Rightarrow> 's \<Rightarrow> 's" where
  "iterate_eff 0 m s = s"
| "iterate_eff (Suc n) m s = iterate_eff n m (snd (m s))"

lemma keeps_iterate: "keeps I m \<Longrightarrow> I s \<Longrightarrow> I (iterate_eff n m s)"
  by (induction n arbitrary: s) (auto simp: keeps_def triple_def)

section \<open>Calls over a list\<close>

text \<open>\<open>Promise.all(xs.map(f))\<close> and loops of awaited calls: in order, the first error ends them.\<close>

fun map_eff :: "('a \<Rightarrow> ('e, 's, 'b) eff) \<Rightarrow> 'a list \<Rightarrow> ('e, 's, 'b list) eff" where
  "map_eff f [] = ret []"
| "map_eff f (x # xs) = bind_eff (f x) (\<lambda>y. bind_eff (map_eff f xs) (\<lambda>ys. ret (y # ys)))"

text \<open>Every element of a mapped list comes from a call that returned.\<close>

lemma map_eff_Inr:
  "map_eff f xs s = (Inr ys, s') \<Longrightarrow> list_all2 (\<lambda>x y. \<exists>s1 s2. f x s1 = (Inr y, s2)) xs ys"
proof (induction xs arbitrary: ys s)
  case Nil
  then show ?case by simp
next
  case (Cons x xs)
  then obtain y s1 zs where "f x s = (Inr y, s1)" "map_eff f xs s1 = (Inr zs, s')" "ys = y # zs"
    by (auto simp: bind_eff_Inr)
  with Cons.IH [of s1 zs] show ?case by auto
qed

lemma list_all2_set1: "list_all2 P xs ys \<Longrightarrow> x \<in> set xs \<Longrightarrow> \<exists>y \<in> set ys. P x y"
  by (metis in_set_conv_nth list_all2_conv_all_nth)

lemma map_eff_each:
  "map_eff f xs s = (Inr ys, s') \<Longrightarrow> x \<in> set xs \<Longrightarrow> \<exists>y \<in> set ys. \<exists>s1 s2. f x s1 = (Inr y, s2)"
  by (drule map_eff_Inr) (rule list_all2_set1)

lemma map_eff_map:
  assumes "map_eff f xs s = (Inr ys, s')" and "\<And>x y s1 s2. f x s1 = (Inr y, s2) \<Longrightarrow> g y = h x"
  shows "map g ys = map h xs"
proof -
  from map_eff_Inr [OF assms(1)] have "list_all2 (\<lambda>x y. g y = h x) xs ys"
    by (rule list_all2_mono) (auto dest: assms(2))
  then show ?thesis by (induction) auto
qed

lemma lift_result_Inr: "lift_result r st = (Inr a, st') \<longleftrightarrow> r = Inr a \<and> st' = st"
  by (auto simp: lift_result_def)

lemma if_throw_Inr:
  "(if b then throw e else m) s = (Inr x, s') \<longleftrightarrow> \<not> b \<and> m s = (Inr x, s')"
  by simp

text \<open>The values an effect may return, in whatever state it runs.\<close>

definition yields :: "('e, 's, 'a) eff \<Rightarrow> 'a set" where
  "yields m = {a. \<exists>t t'. m t = (Inr a, t')}"

lemma yieldsI: "m s = (Inr a, s') \<Longrightarrow> a \<in> yields m"
  by (auto simp: yields_def)

end
