(* ===== verification/Engine.thy ===== *)
theory Engine
  imports Planner Journal Gas_Policy Eff_Logic
begin

text \<open>
  The keeper engine, \<open>keeper/src/engine.ts\<close>: one poll of the keeper reconciles the outstanding
  journal entry with the chain, plans one action, signs it, records it and only then broadcasts
  it.

  The gateway and the journal are arguments: a record of operations on a chain-side state
  \<open>'c\<close> and on a journal state \<open>'j\<close>, any of which may throw.  The world of the engine is the pair
  of both states with a trace of the calls that matter from outside (chain id and balance reads,
  journal writes, broadcasts); the trace is only ever appended to and no decision reads it.  Log
  lines are not modelled.  Entries come out of the journal's schema, so \<open>BigInt\<close> of their round
  and cursor strings is decimal.
\<close>

section \<open>World\<close>

text \<open>A thrown value: its \<open>code\<close> property, and its \<open>name\<close> when it is an \<open>Error\<close>.\<close>

datatype error_code = CodeString string | CodeNumber int | CodeOther

datatype thrown = Thrown (th_code: "error_code option") (th_name: "string option")

datatype engine_error =
    External thrown
  | RefusesChain int
  | BalanceRefused balance_error
  | SnapshotNotSepolia
  | CannotCoverCost
  | BroadcastHashMismatch
  | OutOfFuel

datatype block_tag = Latest | Pending

datatype event =
    EvChainId int
  | EvBalance int
  | EvPut JournalEntry bool
  | EvBroadcast SignedLifecycleTransaction

record ('j, 'c) world =
  w_journal :: 'j
  w_chain :: 'c
  w_trace :: "event list"

type_synonym ('j, 'c, 'a) engine_op = "(engine_error, ('j, 'c) world, 'a) eff"

record 'c KeeperGateway =
  gw_getChainId :: "(thrown, 'c, int) eff"
  gw_getKeeperBalance :: "(thrown, 'c, int) eff"
  gw_readSnapshot :: "SnapshotReadHint option \<Rightarrow> (thrown, 'c, ProtocolSnapshot) eff"
  gw_encodeAction :: "LifecycleAction \<Rightarrow> (thrown, 'c, string) eff"
  gw_simulate :: "LifecycleAction \<Rightarrow> string \<Rightarrow> (thrown, 'c, unit) eff"
  gw_sign :: "LifecycleAction \<Rightarrow> string \<Rightarrow> (thrown, 'c, SignedLifecycleTransaction) eff"
  gw_broadcast :: "SignedLifecycleTransaction \<Rightarrow> (thrown, 'c, string) eff"
  gw_getReceipt :: "string \<Rightarrow> (thrown, 'c, ReceiptView option) eff"
  gw_getTransaction :: "string \<Rightarrow> (thrown, 'c, (string \<times> int) option) eff"
  gw_getTransactionCount :: "block_tag \<Rightarrow> (thrown, 'c, int) eff"

record ('j, 'c) KeeperEngine =
  ke_gateway :: "'c KeeperGateway"
  ke_list :: "(thrown, 'j, JournalEntry list) eff"
  ke_put :: "JournalEntry \<Rightarrow> (thrown, 'j, unit) eff"
  ke_minimumBalanceWei :: int
  ke_maximumBalanceWei :: int
  ke_confirmations :: int
  ke_receiptWaitMs :: int
  ke_receiptPollMs :: int
  ke_now :: "'c \<Rightarrow> int \<times> 'c"
  ke_sleep :: "int \<Rightarrow> 'c \<Rightarrow> 'c"

text \<open>Calls of the gateway, the clock and the journal from the engine.\<close>

definition on_chain :: "(thrown, 'c, 'a) eff \<Rightarrow> ('j, 'c, 'a) engine_op" where
  "on_chain m w = (case m (w_chain w) of
     (Inl e, c) \<Rightarrow> (Inl (External e), w\<lparr>w_chain := c\<rparr>)
   | (Inr a, c) \<Rightarrow> (Inr a, w\<lparr>w_chain := c\<rparr>))"

definition emit :: "event \<Rightarrow> ('j, 'c, unit) engine_op" where
  "emit ev w = (Inr (), w\<lparr>w_trace := w_trace w @ [ev]\<rparr>)"

definition now_ms :: "('j, 'c) KeeperEngine \<Rightarrow> ('j, 'c, int) engine_op" where
  "now_ms eng w = (case ke_now eng (w_chain w) of (t, c) \<Rightarrow> (Inr t, w\<lparr>w_chain := c\<rparr>))"

definition sleep_ms :: "('j, 'c) KeeperEngine \<Rightarrow> int \<Rightarrow> ('j, 'c, unit) engine_op" where
  "sleep_ms eng ms w = (Inr (), w\<lparr>w_chain := ke_sleep eng ms (w_chain w)\<rparr>)"

definition journal_list :: "('j, 'c) KeeperEngine \<Rightarrow> ('j, 'c, JournalEntry list) engine_op" where
  "journal_list eng w = (case ke_list eng (w_journal w) of
     (Inl e, j) \<Rightarrow> (Inl (External e), w\<lparr>w_journal := j\<rparr>)
   | (Inr es, j) \<Rightarrow> (Inr es, w\<lparr>w_journal := j\<rparr>))"

definition journal_put :: "('j, 'c) KeeperEngine \<Rightarrow> JournalEntry \<Rightarrow> ('j, 'c, unit) engine_op" where
  "journal_put eng entry w = (case ke_put eng entry (w_journal w) of
     (Inl e, j) \<Rightarrow> (Inl (External e), w\<lparr>w_journal := j, w_trace := w_trace w @ [EvPut entry False]\<rparr>)
   | (Inr _, j) \<Rightarrow> (Inr (), w\<lparr>w_journal := j, w_trace := w_trace w @ [EvPut entry True]\<rparr>))"

definition read_chain_id :: "('j, 'c) KeeperEngine \<Rightarrow> ('j, 'c, int) engine_op" where
  "read_chain_id eng = bind_eff (on_chain (gw_getChainId (ke_gateway eng)))
     (\<lambda>i. bind_eff (emit (EvChainId i)) (\<lambda>_. ret i))"

definition read_balance :: "('j, 'c) KeeperEngine \<Rightarrow> ('j, 'c, int) engine_op" where
  "read_balance eng = bind_eff (on_chain (gw_getKeeperBalance (ke_gateway eng)))
     (\<lambda>b. bind_eff (emit (EvBalance b)) (\<lambda>_. ret b))"

definition broadcast :: "('j, 'c) KeeperEngine \<Rightarrow> SignedLifecycleTransaction \<Rightarrow> ('j, 'c, string) engine_op" where
  "broadcast eng tx = bind_eff (emit (EvBroadcast tx)) (\<lambda>_. on_chain (gw_broadcast (ke_gateway eng) tx))"

section \<open>Pure helpers\<close>

definition unresolvedStatuses :: "JournalStatus list" where
  "unresolvedStatuses = [Prepared, Submitted, Confirmed, Unknown, Reverted]"

definition unresolved :: "JournalEntry \<Rightarrow> bool" where
  "unresolved e = (je_status e \<in> set unresolvedStatuses)"

datatype KeeperRunResult =
    RunIdle
  | RunBlocked string JournalStatus
  | RunSubmitted string string
  | RunReconciled string string
  | RunObsolete string string

fun safeErrorCode :: "engine_error \<Rightarrow> string" where
  "safeErrorCode (External t) = (case th_code t of
      Some (CodeString c) \<Rightarrow> take 80 c
    | Some (CodeNumber n) \<Rightarrow> take 80 (int_to_string n)
    | _ \<Rightarrow> (case th_name t of Some name \<Rightarrow> take 80 name | None \<Rightarrow> ''UNKNOWN_ERROR''))"
| "safeErrorCode _ = ''Error''"

record update_options =
  uo_blockNumber :: "int option"
  uo_blockHash :: "string option"
  uo_confirmations :: "int option"
  uo_errorCode :: "string option"

definition no_options :: update_options where
  "no_options = \<lparr>uo_blockNumber = None, uo_blockHash = None, uo_confirmations = None, uo_errorCode = None\<rparr>"

definition error_option :: "string \<Rightarrow> update_options" where
  "error_option code = no_options\<lparr>uo_errorCode := Some code\<rparr>"

definition receipt_options :: "ReceiptView \<Rightarrow> string option \<Rightarrow> update_options" where
  "receipt_options r code = \<lparr>uo_blockNumber = Some (rv_blockNumber r), uo_blockHash = Some (rv_blockHash r),
     uo_confirmations = Some (rv_confirmations r), uo_errorCode = code\<rparr>"

text \<open>\<open>...(x === undefined ? {} : { x })\<close> over a field that may already be there.\<close>

fun overwrite :: "'a option \<Rightarrow> 'a option \<Rightarrow> 'a option" where
  "overwrite None old = old"
| "overwrite (Some x) old = Some x"

definition updateEntry :: "JournalEntry \<Rightarrow> JournalStatus \<Rightarrow> int \<Rightarrow> update_options \<Rightarrow> JournalEntry" where
  "updateEntry entry status now options =
     entry\<lparr>je_status := status, je_updatedAt := now,
       je_blockNumber := overwrite (uo_blockNumber options) (je_blockNumber entry),
       je_blockHash := overwrite (uo_blockHash options) (je_blockHash entry),
       je_confirmations := overwrite (uo_confirmations options) (je_confirmations entry),
       je_errorCode := overwrite (uo_errorCode options) (je_errorCode entry),
       je_history := je_history entry @ [\<lparr>jt_status = status, jt_at = now,
         jt_blockNumber = uo_blockNumber options, jt_blockHash = uo_blockHash options,
         jt_confirmations = uo_confirmations options, jt_errorCode = uo_errorCode options\<rparr>]\<rparr>"

definition BigInt :: "string \<Rightarrow> int" where
  "BigInt s = int (digits_value s)"

definition actionFromEntry :: "ProtocolSnapshot \<Rightarrow> JournalEntry \<Rightarrow> LifecycleAction option" where
  "actionFromEntry snapshot entry =
     (case List.find (\<lambda>candidate. toLowerCase (vc_address (vs_vault candidate)) = toLowerCase (je_vault entry))
            (ps_vaults snapshot) of
        None \<Rightarrow> None
      | Some vault \<Rightarrow> Some \<lparr>la_key = je_actionKey entry, la_kind = je_action entry,
          la_vault = vs_vault vault, la_roundId = BigInt (je_roundId entry),
          la_cursor = map_option BigInt (je_cursor entry), la_account = je_account entry\<rparr>)"

definition read_hint :: "LifecycleActionKind \<Rightarrow> string \<Rightarrow> string option \<Rightarrow> int \<Rightarrow> SnapshotReadHint" where
  "read_hint kind vaultAddress account roundId =
     \<lparr>sh_vaultAddress = vaultAddress,
      sh_account = (if accountAction kind \<and> account \<noteq> Some [] then account else None),
      sh_roundId = Some roundId\<rparr>"

section \<open>Operations\<close>

definition preflight :: "('j, 'c) KeeperEngine \<Rightarrow> ('j, 'c, int) engine_op" where
  "preflight eng =
     bind_eff (read_chain_id eng) (\<lambda>chainId.
     if chainId \<noteq> SEPOLIA_CHAIN_ID then throw (RefusesChain chainId)
     else bind_eff (read_balance eng) (\<lambda>balance.
       case assertKeeperBalanceWithinLimits balance (ke_minimumBalanceWei eng) (ke_maximumBalanceWei eng) of
         Inl e \<Rightarrow> throw (BalanceRefused e)
       | Inr _ \<Rightarrow> ret balance))"

text \<open>\<open>const x = updateEntry(entry, status, this.#now(), options); await this.#journal.put(x); return x;\<close>\<close>

definition record_update ::
  "('j, 'c) KeeperEngine \<Rightarrow> JournalEntry \<Rightarrow> JournalStatus \<Rightarrow> update_options \<Rightarrow> ('j, 'c, JournalEntry) engine_op" where
  "record_update eng entry status options =
     bind_eff (now_ms eng) (\<lambda>t.
     bind_eff (journal_put eng (updateEntry entry status t options)) (\<lambda>_.
     ret (updateEntry entry status t options)))"

definition reconcile_receipt ::
  "('j, 'c) KeeperEngine \<Rightarrow> JournalEntry \<Rightarrow> bool \<Rightarrow> ReceiptView \<Rightarrow> ('j, 'c, JournalEntry) engine_op" where
  "reconcile_receipt eng entry required receipt =
     (if rv_confirmations receipt < ke_confirmations eng
      then record_update eng entry Confirmed (receipt_options receipt (Some ''WAITING_CONFIRMATIONS''))
      else if rv_status receipt = Some 1 \<and> \<not> required
      then record_update eng entry Reconciled (receipt_options receipt None)
      else if rv_status receipt = Some 0 \<and> \<not> required
      then record_update eng entry Obsolete (receipt_options receipt None)
      else record_update eng entry (if rv_status receipt = Some 0 then Reverted else Unknown)
             (receipt_options receipt (Some (if rv_status receipt = Some 0
                then ''TRANSACTION_REVERTED'' else ''CONFIRMED_STATE_UNCHANGED''))))"

definition reconcile_missing ::
  "('j, 'c) KeeperEngine \<Rightarrow> JournalEntry \<Rightarrow> bool \<Rightarrow> ('j, 'c, JournalEntry) engine_op" where
  "reconcile_missing eng entry required =
     bind_eff (on_chain (gw_getTransaction (ke_gateway eng) (je_txHash entry))) (\<lambda>transaction.
     if transaction \<noteq> None then record_update eng entry Submitted no_options
     else bind_eff (now_ms eng) (\<lambda>t.
       if (je_status entry = Prepared \<or> je_status entry = Submitted) \<and>
          t - je_submittedAt entry < ke_receiptWaitMs eng
       then ret entry
       else if \<not> required
       then record_update eng entry Obsolete (error_option ''STATE_ADVANCED_EXTERNALLY'')
       else if je_status entry = Confirmed
       then record_update eng entry Reorged (error_option ''REORGED_TRANSACTION_DROPPED'')
       else bind_eff (on_chain (gw_getTransactionCount (ke_gateway eng) Latest)) (\<lambda>latestNonce.
            bind_eff (on_chain (gw_getTransactionCount (ke_gateway eng) Pending)) (\<lambda>pendingNonce.
            record_update eng entry Unknown (error_option
              (if latestNonce > je_nonce entry \<or> pendingNonce > je_nonce entry
               then ''NONCE_CONSUMED_OUTCOME_UNKNOWN'' else ''TX_OUTCOME_UNKNOWN''))))))"

definition is_required :: "ProtocolSnapshot \<Rightarrow> JournalEntry \<Rightarrow> bool" where
  "is_required snapshot entry = (case actionFromEntry snapshot entry of
     None \<Rightarrow> False | Some action \<Rightarrow> isActionRequired snapshot action)"

definition reconcileEntry :: "('j, 'c) KeeperEngine \<Rightarrow> JournalEntry \<Rightarrow> ('j, 'c, JournalEntry) engine_op" where
  "reconcileEntry eng entry =
     bind_eff (on_chain (gw_getReceipt (ke_gateway eng) (je_txHash entry))) (\<lambda>receipt.
     bind_eff (on_chain (gw_readSnapshot (ke_gateway eng)
        (Some (read_hint (je_action entry) (je_vault entry) (je_account entry) (BigInt (je_roundId entry)))))) (\<lambda>snapshot.
     let required = is_required snapshot entry in
     if je_status entry = Unknown \<or> je_status entry = Reverted
     then (if required then ret entry
           else record_update eng entry Obsolete (error_option ''STATE_ADVANCED_EXTERNALLY''))
     else case receipt of
       Some r \<Rightarrow> reconcile_receipt eng entry required r
     | None \<Rightarrow> reconcile_missing eng entry required))"

fun reconcile_first :: "('j, 'c) KeeperEngine \<Rightarrow> JournalEntry list \<Rightarrow> ('j, 'c, JournalEntry option) engine_op" where
  "reconcile_first eng [] = ret None"
| "reconcile_first eng (entry # entries) =
     bind_eff (reconcileEntry eng entry) (\<lambda>reconciled.
     if unresolved reconciled then ret (Some reconciled) else reconcile_first eng entries)"

definition reconcileOutstanding :: "('j, 'c) KeeperEngine \<Rightarrow> ('j, 'c, JournalEntry option) engine_op" where
  "reconcileOutstanding eng =
     bind_eff (journal_list eng) (\<lambda>entries. reconcile_first eng (filter unresolved entries))"

fun wait_loop :: "('j, 'c) KeeperEngine \<Rightarrow> int \<Rightarrow> nat \<Rightarrow> JournalEntry \<Rightarrow> ('j, 'c, JournalEntry) engine_op" where
  "wait_loop eng deadline 0 current = throw OutOfFuel"
| "wait_loop eng deadline (Suc fuel) current =
     bind_eff (reconcileEntry eng current) (\<lambda>current'.
     if je_status current' \<noteq> Submitted \<and> je_status current' \<noteq> Confirmed then ret current'
     else bind_eff (now_ms eng) (\<lambda>t.
       if t \<ge> deadline then ret current'
       else bind_eff (sleep_ms eng (ke_receiptPollMs eng)) (\<lambda>_. wait_loop eng deadline fuel current')))"

definition waitAndReconcile :: "nat \<Rightarrow> ('j, 'c) KeeperEngine \<Rightarrow> JournalEntry \<Rightarrow> ('j, 'c, JournalEntry) engine_op" where
  "waitAndReconcile fuel eng entry =
     bind_eff (now_ms eng) (\<lambda>t. wait_loop eng (t + ke_receiptWaitMs eng) fuel entry)"

text \<open>
  The parts of \<open>runOnce\<close> in their order.  The encoded call data, or nothing when the action became
  unnecessary while it was prepared.
\<close>

definition prepare_call :: "('j, 'c) KeeperEngine \<Rightarrow> LifecycleAction \<Rightarrow> ('j, 'c, string option) engine_op" where
  "prepare_call eng action =
     catch_eff
       (bind_eff (on_chain (gw_encodeAction (ke_gateway eng) action)) (\<lambda>data.
        bind_eff (on_chain (gw_simulate (ke_gateway eng) action data)) (\<lambda>_. ret (Some data))))
       (\<lambda>error.
        bind_eff (on_chain (gw_readSnapshot (ke_gateway eng)
          (Some (read_hint (la_kind action) (vc_address (la_vault action)) (la_account action) (la_roundId action))))) (\<lambda>snapshot.
        if \<not> isActionRequired snapshot action then ret None else throw error))"

definition check_cost :: "('j, 'c) KeeperEngine \<Rightarrow> SignedLifecycleTransaction \<Rightarrow> ('j, 'c, unit) engine_op" where
  "check_cost eng tx =
     bind_eff (read_balance eng) (\<lambda>balance.
     case assertKeeperBalanceWithinLimits balance (ke_minimumBalanceWei eng) (ke_maximumBalanceWei eng) of
       Inl e \<Rightarrow> throw (BalanceRefused e)
     | Inr _ \<Rightarrow> if tx_maximumCostWei tx > balance - ke_minimumBalanceWei eng then throw CannotCoverCost else ret ())"

text \<open>The \<open>catch\<close> block after a broadcast; \<open>entry\<close> is the variable's value when the error was thrown.\<close>

definition broadcast_failed ::
  "('j, 'c) KeeperEngine \<Rightarrow> JournalEntry \<Rightarrow> engine_error \<Rightarrow> ('j, 'c, JournalEntry option) engine_op" where
  "broadcast_failed eng entry error =
     bind_eff (record_update eng entry Unknown (error_option (safeErrorCode error))) (\<lambda>_. ret None)"

definition submit :: "('j, 'c) KeeperEngine \<Rightarrow> JournalEntry \<Rightarrow> SignedLifecycleTransaction \<Rightarrow> ('j, 'c, JournalEntry option) engine_op" where
  "submit eng entry tx w =
     (case bind_eff (broadcast eng tx) (\<lambda>broadcastHash.
             if toLowerCase broadcastHash \<noteq> toLowerCase (tx_hash tx) then throw BroadcastHashMismatch else ret ()) w of
        (Inl error, w') \<Rightarrow> broadcast_failed eng entry error w'
      | (Inr _, w') \<Rightarrow>
          bind_eff (now_ms eng) (\<lambda>t.
          let submitted = updateEntry entry Submitted t no_options in
          catch_eff (bind_eff (journal_put eng submitted) (\<lambda>_. ret (Some submitted)))
            (broadcast_failed eng submitted)) w')"

definition run_result :: "LifecycleAction \<Rightarrow> SignedLifecycleTransaction \<Rightarrow> JournalEntry \<Rightarrow> KeeperRunResult" where
  "run_result action tx finalEntry =
     (if je_status finalEntry = Reconciled then RunReconciled (la_key action) (tx_hash tx)
      else if je_status finalEntry = Obsolete then RunObsolete (la_key action) (tx_hash tx)
      else if je_status finalEntry = Submitted then RunSubmitted (la_key action) (tx_hash tx)
      else RunBlocked (la_key action) (je_status finalEntry))"

definition execute ::
  "nat \<Rightarrow> ('j, 'c) KeeperEngine \<Rightarrow> LifecycleAction \<Rightarrow> JournalEntry option \<Rightarrow> string \<Rightarrow> ('j, 'c, KeeperRunResult) engine_op" where
  "execute fuel eng action previous data =
     bind_eff (on_chain (gw_sign (ke_gateway eng) action data)) (\<lambda>tx.
     bind_eff (check_cost eng tx) (\<lambda>_.
     bind_eff (now_ms eng) (\<lambda>t.
     let entry = journalEntryForPrepared action (tx_hash tx) (tx_nonce tx) (tx_calldataHash tx) t
           (map_option je_attemptId previous) in
     bind_eff (journal_put eng entry) (\<lambda>_.
     bind_eff (submit eng entry tx) (\<lambda>submitted.
     case submitted of
       None \<Rightarrow> ret (RunBlocked (la_key action) Unknown)
     | Some current \<Rightarrow>
         bind_eff (waitAndReconcile fuel eng current) (\<lambda>finalEntry.
         ret (run_result action tx finalEntry)))))))"

definition attempt :: "nat \<Rightarrow> ('j, 'c) KeeperEngine \<Rightarrow> LifecycleAction \<Rightarrow> ('j, 'c, KeeperRunResult) engine_op" where
  "attempt fuel eng action =
     bind_eff (journal_list eng) (\<lambda>entries.
     let previous = last_opt (filter (\<lambda>entry. je_actionKey entry = la_key action) entries) in
     if \<not> opt_ok (\<lambda>p. \<not> unresolved p) previous
     then ret (RunBlocked (je_actionKey (the previous)) (je_status (the previous)))
     else bind_eff (prepare_call eng action) (\<lambda>prepared.
       case prepared of
         None \<Rightarrow> ret RunIdle
       | Some data \<Rightarrow> execute fuel eng action previous data))"

definition poll :: "nat \<Rightarrow> ('j, 'c) KeeperEngine \<Rightarrow> ('j, 'c, KeeperRunResult) engine_op" where
  "poll fuel eng =
     bind_eff (on_chain (gw_readSnapshot (ke_gateway eng) None)) (\<lambda>snapshot.
     if ps_chainId snapshot \<noteq> SEPOLIA_CHAIN_ID then throw SnapshotNotSepolia
     else case planNextAction snapshot of
       None \<Rightarrow> ret RunIdle
     | Some action \<Rightarrow> attempt fuel eng action)"

definition runOnce :: "nat \<Rightarrow> ('j, 'c) KeeperEngine \<Rightarrow> ('j, 'c, KeeperRunResult) engine_op" where
  "runOnce fuel eng =
     bind_eff (preflight eng) (\<lambda>_.
     bind_eff (reconcileOutstanding eng) (\<lambda>outstanding.
     case outstanding of
       Some e \<Rightarrow> ret (RunBlocked (je_actionKey e) (je_status e))
     | None \<Rightarrow> poll fuel eng))"

section \<open>The engine on its stores\<close>

text \<open>How an error of the journal looks to the engine.\<close>

fun thrown_of_journal :: "journal_error \<Rightarrow> thrown" where
  "thrown_of_journal SchemaError = Thrown None (Some ''ZodError'')"
| "thrown_of_journal JsonSyntaxError = Thrown None (Some ''SyntaxError'')"
| "thrown_of_journal FileExists = Thrown (Some (CodeString ''EEXIST'')) (Some ''Error'')"
| "thrown_of_journal (IoError p) = Thrown (Some (CodeString ''EIO'')) (Some ''Error'')"
| "thrown_of_journal _ = Thrown None (Some ''Error'')"

definition as_thrown :: "(journal_error, 'a) result \<Rightarrow> (thrown, 'a) result" where
  "as_thrown r = (case r of Inl e \<Rightarrow> Inl (thrown_of_journal e) | Inr a \<Rightarrow> Inr a)"

text \<open>
  The engine of \<open>cli.ts\<close>, on the file store: the journal state is the disk and the faults that the
  coming writes meet.  The engine of the tests, on the memory store.
\<close>

type_synonym file_journal = "disk \<times> io_point option list"

definition next_fault :: "io_point option list \<Rightarrow> io_point option" where
  "next_fault fs = (case fs of [] \<Rightarrow> None | f # _ \<Rightarrow> f)"

definition file_engine :: "int \<Rightarrow> (file_journal, 'c) KeeperEngine \<Rightarrow> (file_journal, 'c) KeeperEngine" where
  "file_engine pid eng = eng\<lparr>
     ke_list := (\<lambda>j. (as_thrown (file_list (fst j)), j)),
     ke_put := (\<lambda>e j. case file_put pid (next_fault (snd j)) e (fst j) of
        (r, d) \<Rightarrow> (as_thrown r, (d, tl (snd j))))\<rparr>"

definition memory_engine :: "(MemoryJournalStore, 'c) KeeperEngine \<Rightarrow> (MemoryJournalStore, 'c) KeeperEngine" where
  "memory_engine eng = eng\<lparr>
     ke_list := (\<lambda>j. (as_thrown (memory_list j), j)),
     ke_put := (\<lambda>e j. case memory_put e j of (r, j') \<Rightarrow> (as_thrown r, j'))\<rparr>"

section \<open>Lemmas on updates\<close>

lemma updateEntry_append_only: "append_only e (updateEntry e st t opts)"
  by (simp add: append_only_def attempt_identity_def updateEntry_def)

lemma as_thrown_Inr [simp]: "as_thrown r = Inr x \<longleftrightarrow> r = Inr x"
  by (auto simp: as_thrown_def split: sum.splits)

text \<open>Options as the engine builds them from a receipt of the chain.\<close>

definition options_ok :: "update_options \<Rightarrow> bool" where
  "options_ok opts \<longleftrightarrow> opt_ok nonnegative_int (uo_blockNumber opts) \<and> opt_ok hashSchema (uo_blockHash opts) \<and>
     opt_ok nonnegative_int (uo_confirmations opts) \<and> opt_ok (\<lambda>c. length c \<le> 120) (uo_errorCode opts)"

lemma opt_ok_overwrite: "opt_ok P x \<Longrightarrow> opt_ok P y \<Longrightarrow> opt_ok P (overwrite x y)"
  by (cases x) auto

lemma updateEntry_schema:
  assumes "journalEntrySchema e" and "options_ok opts"
  shows "journalEntrySchema (updateEntry e st t opts)"
proof -
  have "entry_fields_ok (updateEntry e st t opts)"
    using assms
    by (auto simp: journalEntrySchema_def entry_fields_ok_def options_ok_def updateEntry_def opt_ok_overwrite
        journalTransitionSchema_def)
  moreover have "entry_refinement_ok (updateEntry e st t opts)"
    using assms(1) by (auto simp: journalEntrySchema_def entry_refinement_ok_def updateEntry_def)
  ultimately show ?thesis by (simp add: journalEntrySchema_def)
qed

lemma error_option_ok: "length code \<le> 120 \<Longrightarrow> options_ok (error_option code)"
  by (simp add: options_ok_def error_option_def no_options_def)

lemma length_safeErrorCode: "length (safeErrorCode err) \<le> 80"
  by (cases err) (auto split: option.splits error_code.splits)

lemma last_history_update: "last (je_history (updateEntry e st t opts)) =
    \<lparr>jt_status = st, jt_at = t, jt_blockNumber = uo_blockNumber opts, jt_blockHash = uo_blockHash opts,
     jt_confirmations = uo_confirmations opts, jt_errorCode = uo_errorCode opts\<rparr>"
  by (simp add: updateEntry_def)

text \<open>
  An update that brings no error code keeps the old one: an entry that waited for confirmations
  still says so after it was reconciled.
\<close>

lemma reconciled_keeps_stale_error_code:
  "je_errorCode (updateEntry (updateEntry e Confirmed t (receipt_options r (Some ''WAITING_CONFIRMATIONS'')))
     Reconciled t' (receipt_options r' None)) = Some ''WAITING_CONFIRMATIONS''"
  by (simp add: updateEntry_def receipt_options_def)

text \<open>The action rebuilt from a journal entry is the action it was written for.\<close>

lemma BigInt_int_to_string: "0 \<le> i \<Longrightarrow> BigInt (int_to_string i) = i"
  by (simp add: BigInt_def digits_value_int_to_string)

lemma actionFromEntry_prepared:
  assumes "wf_snapshot s" and "v \<in> set (ps_vaults s)" and "la_vault a = vs_vault v"
    and "0 \<le> la_roundId a" and "opt_ok (\<lambda>c. 0 \<le> c) (la_cursor a)"
  shows "actionFromEntry s (journalEntryForPrepared a h n ch t p) = Some a"
proof -
  have "List.find (\<lambda>c. toLowerCase (vc_address (vs_vault c)) = toLowerCase (vc_address (vs_vault v))) (ps_vaults s) = Some v"
    using assms(1,2) by (intro find_unique) (auto simp: wf_snapshot_def dest: distinct_map_inject)
  moreover have "map_option BigInt (map_option int_to_string (la_cursor a)) = la_cursor a"
    using assms(5) by (cases "la_cursor a") (simp_all add: BigInt_int_to_string)
  ultimately show ?thesis
    using assms(3,4) by (simp add: actionFromEntry_def journalEntryForPrepared_def BigInt_int_to_string)
qed

section \<open>A concrete keeper\<close>

text \<open>
  A gateway for the witnesses: one vault with a due round; its state is the clock and whether the
  closing transaction was sent, after which the chain reports it confirmed and the round closed.
\<close>

definition demo_keeper_vault :: VaultConfig where
  "demo_keeper_vault = demo_vault\<lparr>vc_address := ''0x'' @ replicate 40 (CHR ''b'')\<rparr>"

definition demo_chain_snapshot :: "bool \<Rightarrow> ProtocolSnapshot" where
  "demo_chain_snapshot sent = \<lparr>ps_chainId = SEPOLIA_CHAIN_ID, ps_blockNumber = 7, ps_blockHash = demo_hash,
     ps_blockTimestamp = 300, ps_vaults = [\<lparr>vs_vault = demo_keeper_vault,
       vs_activeRoundId = (if sent then 4 else 3), vs_bondAmount = 5, vs_autoEntryCandidates = [],
       vs_rounds = (if sent then [demo_round 3 AGGREGATE_PENDING 200, demo_round 4 OPEN 900]
         else [demo_round 3 OPEN 200])\<rparr>]\<rparr>"

definition demo_tx :: "LifecycleAction \<Rightarrow> SignedLifecycleTransaction" where
  "demo_tx a = \<lparr>tx_action = a, tx_hash = demo_hash, tx_nonce = 3, tx_serialized = ''0x'',
     tx_calldataHash = demo_hash, tx_maximumCostWei = 10, tx_gasPolicy = None\<rparr>"

definition demo_receipt :: ReceiptView where
  "demo_receipt = \<lparr>rv_hash = demo_hash, rv_blockHash = demo_hash, rv_blockNumber = 7, rv_status = Some 1,
     rv_confirmations = 12\<rparr>"

definition demo_gateway :: "(int \<times> bool) KeeperGateway" where
  "demo_gateway = \<lparr>gw_getChainId = ret SEPOLIA_CHAIN_ID, gw_getKeeperBalance = ret 1000,
     gw_readSnapshot = (\<lambda>_ c. (Inr (demo_chain_snapshot (snd c)), c)),
     gw_encodeAction = (\<lambda>_. ret ''0x''), gw_simulate = (\<lambda>_ _. ret ()), gw_sign = (\<lambda>a _. ret (demo_tx a)),
     gw_broadcast = (\<lambda>tx c. (Inr (tx_hash tx), (fst c, True))),
     gw_getReceipt = (\<lambda>_ c. (Inr (if snd c then Some demo_receipt else None), c)),
     gw_getTransaction = (\<lambda>_. ret None), gw_getTransactionCount = (\<lambda>_. ret 3)\<rparr>"

definition demo_engine :: "(file_journal, int \<times> bool) KeeperEngine" where
  "demo_engine = \<lparr>ke_gateway = demo_gateway, ke_list = ret [], ke_put = (\<lambda>_. ret ()),
     ke_minimumBalanceWei = 100, ke_maximumBalanceWei = 5000, ke_confirmations = 12,
     ke_receiptWaitMs = 1000, ke_receiptPollMs = 10, ke_now = (\<lambda>c. (fst c, c)),
     ke_sleep = (\<lambda>ms c. (fst c + ms, snd c))\<rparr>"

definition demo_world :: "bool \<Rightarrow> disk \<Rightarrow> (file_journal, int \<times> bool) world" where
  "demo_world sent d = \<lparr>w_journal = (d, []), w_chain = (5, sent), w_trace = []\<rparr>"

end
