(* ===== verification/Gateway.thy ===== *)
theory Gateway
  imports Engine
begin

text \<open>
  The keeper's gateway to the chain, \<open>keeper/src/ethers-gateway.ts\<close>: agreement of the RPC
  endpoints on one block, the paged scans with their persistent cursors, the snapshot of all
  vaults at the agreed block, the encoding of actions, and signing under the gas policy.

  The RPC endpoints, the contract reads, the wallet and the encoder are arguments: operations on
  a chain-side state \<open>'c\<close> that may throw.  The checkpoint store is an argument too, on its own
  state \<open>'s\<close>.  \<open>Promise.all\<close> is run in the order of its list.  A round state number outside the
  enumeration, which the planner handles like an uninitialised round, is read as one.
\<close>

section \<open>Errors and combinators\<close>

datatype gateway_error =
    GatewayThrown thrown
  | InvalidScanBounds
  | NoEndpoints
  | EndpointsDisagree
  | IncompleteBlock
  | HeadLagExceeded
  | PinnedBlockReorganized
  | InvalidChainId
  | NotSepolia
  | InvalidPersistedCursor
  | UnsafeRoundId
  | EscrowMismatch string
  | BackpointerMismatch string
  | UnsafeAccountCount
  | MissingAccount
  | GasRefused gas_error
  | NotPopulated
  | NoFee

type_synonym ('s, 'c, 'a) gw_op = "(gateway_error, 's \<times> 'c, 'a) eff"

definition on_rpc :: "(thrown, 'c, 'a) eff \<Rightarrow> ('s, 'c, 'a) gw_op" where
  "on_rpc m st = (case m (snd st) of
     (Inl e, c) \<Rightarrow> (Inl (GatewayThrown e), (fst st, c))
   | (Inr a, c) \<Rightarrow> (Inr a, (fst st, c)))"

definition on_store :: "(thrown, 's, 'a) eff \<Rightarrow> ('s, 'c, 'a) gw_op" where
  "on_store m st = (case m (fst st) of
     (Inl e, s) \<Rightarrow> (Inl (GatewayThrown e), (s, snd st))
   | (Inr a, s) \<Rightarrow> (Inr a, (s, snd st)))"

section \<open>Paged scans\<close>

definition MAX_ALLOWED_RPC_HEAD_LAG_BLOCKS :: int where
  "MAX_ALLOWED_RPC_HEAD_LAG_BLOCKS = 2"

record scan_page =
  sp_indexes :: "int list"
  sp_nextCursor :: int

definition circularScanPage :: "int \<Rightarrow> int \<Rightarrow> js_number \<Rightarrow> (gateway_error, scan_page) result" where
  "circularScanPage itemCount cursor maximumPageSize =
     (case maximumPageSize of
        JNonInt \<Rightarrow> Inl InvalidScanBounds
      | JInt limit \<Rightarrow>
          if itemCount < 0 \<or> cursor < 0 \<or> limit < 1 then Inl InvalidScanBounds
          else if itemCount = 0 then Inr \<lparr>sp_indexes = [], sp_nextCursor = 0\<rparr>
          else let start = big_mod cursor itemCount; pageSize = (if itemCount < limit then itemCount else limit) in
            Inr \<lparr>sp_indexes = map (\<lambda>offset. big_mod (start + int offset) itemCount) [0..<nat pageSize],
                 sp_nextCursor = big_mod (start + pageSize) itemCount\<rparr>)"

record 's KeeperCheckpointStore =
  cs_getCheckpoint :: "string \<Rightarrow> (thrown, 's, string option) eff"
  cs_putCheckpoint :: "string \<Rightarrow> string \<Rightarrow> (thrown, 's, unit) eff"

definition persistentCircularScanPage ::
  "'s KeeperCheckpointStore \<Rightarrow> int \<Rightarrow> string \<Rightarrow> js_number \<Rightarrow> ('s, 'c, scan_page) gw_op" where
  "persistentCircularScanPage checkpoints itemCount checkpointKey maximumPageSize =
     bind_eff (on_store (cs_getCheckpoint checkpoints checkpointKey)) (\<lambda>encodedCursor.
     if \<not> opt_ok decimal_string encodedCursor then throw InvalidPersistedCursor
     else bind_eff (lift_result (circularScanPage itemCount
            (case encodedCursor of None \<Rightarrow> 0 | Some c \<Rightarrow> BigInt c) maximumPageSize)) (\<lambda>page.
          bind_eff (on_store (cs_putCheckpoint checkpoints checkpointKey (int_to_string (sp_nextCursor page)))) (\<lambda>_.
          ret page)))"

section \<open>Agreement of the endpoints\<close>

record RpcBlockIdentity =
  rb_number :: int
  rb_hash :: string
  rb_timestamp :: int

record RpcBlockIdentityCandidate =
  rc_number :: int
  rc_hash :: "string option"
  rc_timestamp :: int

definition same_block :: "RpcBlockIdentity \<Rightarrow> RpcBlockIdentity \<Rightarrow> bool" where
  "same_block a b = (rb_number a = rb_number b \<and> toLowerCase (rb_hash a) = toLowerCase (rb_hash b) \<and>
     rb_timestamp a = rb_timestamp b)"

definition assertAgreedBlockIdentities :: "RpcBlockIdentity list \<Rightarrow> (gateway_error, RpcBlockIdentity) result" where
  "assertAgreedBlockIdentities blocks = (case blocks of
     [] \<Rightarrow> Inl NoEndpoints
   | first # _ \<Rightarrow> if list_ex (\<lambda>block. \<not> same_block block first) blocks then Inl EndpointsDisagree else Inr first)"

definition requireCompleteBlockIdentity ::
  "RpcBlockIdentityCandidate option \<Rightarrow> (gateway_error, RpcBlockIdentity) result" where
  "requireCompleteBlockIdentity block = (case block of
     None \<Rightarrow> Inl IncompleteBlock
   | Some b \<Rightarrow> (case rc_hash b of
       None \<Rightarrow> Inl IncompleteBlock
     | Some h \<Rightarrow> if h = [] then Inl IncompleteBlock
         else Inr \<lparr>rb_number = rc_number b, rb_hash = h, rb_timestamp = rc_timestamp b\<rparr>))"

definition selectCommonBlockHeight :: "RpcBlockIdentity list \<Rightarrow> (gateway_error, int) result" where
  "selectCommonBlockHeight latestBlocks =
     (if latestBlocks = [] then Inl NoEndpoints
      else let heights = map rb_number latestBlocks;
               minimum = fold min heights (hd heights); maximum = fold max heights (hd heights) in
        if maximum - minimum > MAX_ALLOWED_RPC_HEAD_LAG_BLOCKS then Inl HeadLagExceeded else Inr minimum)"

definition assertPinnedBlockIdentity ::
  "RpcBlockIdentity \<Rightarrow> RpcBlockIdentity list \<Rightarrow> (gateway_error, RpcBlockIdentity) result" where
  "assertPinnedBlockIdentity expected pinnedBlocks =
     bind_result (assertAgreedBlockIdentities pinnedBlocks) (\<lambda>canonical.
     if \<not> same_block canonical expected then Inl PinnedBlockReorganized else Inr canonical)"

text \<open>\<open>/^0x[0-9a-fA-F]+$/\<close> and \<open>BigInt\<close> of such a string.\<close>

definition hex_digit_value :: "char \<Rightarrow> nat" where
  "hex_digit_value c = (let n = of_char c :: nat in
     if n \<le> 57 then n - 48 else if n \<le> 70 then n - 55 else n - 87)"

definition hex_number :: "string \<Rightarrow> int option" where
  "hex_number s = (if take 2 s = ''0x'' \<and> length s > 2 \<and> list_all is_hex_digit (drop 2 s)
     then Some (int (foldl (\<lambda>acc c. acc * 16 + hex_digit_value c) 0 (drop 2 s))) else None)"

datatype rpc_value = RpcString string | RpcOther

datatype block_ref = LatestBlock | BlockNumber int

record 'c RpcEndpoint =
  ep_chainId :: "(thrown, 'c, rpc_value) eff"
  ep_getBlock :: "block_ref \<Rightarrow> (thrown, 'c, RpcBlockIdentityCandidate option) eff"

definition read_endpoint_chain :: "'c RpcEndpoint \<Rightarrow> ('s, 'c, int) gw_op" where
  "read_endpoint_chain endpoint =
     bind_eff (on_rpc (ep_chainId endpoint)) (\<lambda>result.
     case result of
       RpcOther \<Rightarrow> throw InvalidChainId
     | RpcString s \<Rightarrow> (case hex_number s of None \<Rightarrow> throw InvalidChainId | Some i \<Rightarrow> ret i))"

definition verifySepoliaRpcIdentity :: "'c RpcEndpoint list \<Rightarrow> ('s, 'c, int) gw_op" where
  "verifySepoliaRpcIdentity endpoints =
     (if endpoints = [] then throw NoEndpoints
      else bind_eff (map_eff read_endpoint_chain endpoints) (\<lambda>chainIds.
        if list_ex (\<lambda>chainId. chainId \<noteq> SEPOLIA_CHAIN_ID) chainIds then throw NotSepolia
        else ret SEPOLIA_CHAIN_ID))"

section \<open>Snapshots\<close>

text \<open>What the sources read of the contracts, at a block; and \<open>getAddress\<close> of the ethers library.\<close>

record round_info =
  ri_opensAt :: int
  ri_closesAt :: int
  ri_state :: int
  ri_publicAggregateTwab :: int
  ri_publicPrize :: int
  ri_participantCount :: int
  ri_selectionCursor :: int
  ri_allocationCursor :: int

record 'c contract_reads =
  cr_activeRoundId :: "string \<Rightarrow> int \<Rightarrow> (thrown, 'c, int) eff"
  cr_settlementBondEscrow :: "string \<Rightarrow> int \<Rightarrow> (thrown, 'c, string) eff"
  cr_escrowVault :: "string \<Rightarrow> int \<Rightarrow> (thrown, 'c, string) eff"
  cr_bondAmount :: "string \<Rightarrow> int \<Rightarrow> (thrown, 'c, int) eff"
  cr_roundInfo :: "string \<Rightarrow> int \<Rightarrow> int \<Rightarrow> (thrown, 'c, round_info) eff"
  cr_candidateValidityHandle :: "string \<Rightarrow> int \<Rightarrow> int \<Rightarrow> (thrown, 'c, string) eff"
  cr_autoEntryAccountCount :: "string \<Rightarrow> int \<Rightarrow> (thrown, 'c, int) eff"
  cr_autoEntryAccountAt :: "string \<Rightarrow> int \<Rightarrow> int \<Rightarrow> (thrown, 'c, string) eff"
  cr_isAutoEntryEnabled :: "string \<Rightarrow> string \<Rightarrow> int \<Rightarrow> int \<Rightarrow> (thrown, 'c, bool) eff"
  cr_automationBondCredit :: "string \<Rightarrow> string \<Rightarrow> int \<Rightarrow> (thrown, 'c, int) eff"
  cr_isRegistered :: "string \<Rightarrow> int \<Rightarrow> string \<Rightarrow> int \<Rightarrow> (thrown, 'c, bool) eff"
  cr_autoEntryPreference :: "string \<Rightarrow> string \<Rightarrow> int \<Rightarrow> (thrown, 'c, bool \<times> bool \<times> int) eff"

record tx_request =
  rq_nonce :: "int option"
  rq_gasLimit :: "int option"
  rq_maxFeePerGas :: "int option"
  rq_gasPrice :: "int option"
  rq_value :: "int option"

record raw_receipt =
  rr_hash :: string
  rr_blockHash :: string
  rr_blockNumber :: int
  rr_status :: "int option"

datatype abi_argument = ArgInt int | ArgString string | ArgNull

datatype abi_call = EscrowCall string "abi_argument list" | VaultCall string "abi_argument list"

record 'c chain_client =
  cc_getAddress :: "string \<Rightarrow> (thrown, string) result"
  cc_reads :: "'c contract_reads"
  cc_getBalance :: "string \<Rightarrow> (thrown, 'c, int) eff"
  cc_handle :: "string \<Rightarrow> string \<Rightarrow> int \<Rightarrow> (thrown, 'c, string) eff"
  cc_publicDecrypt :: "string \<Rightarrow> (thrown, 'c, PublicProof) eff"
  cc_encodeFunctionData :: "abi_call \<Rightarrow> (thrown, string) result"
  cc_call :: "string \<Rightarrow> string \<Rightarrow> string \<Rightarrow> (thrown, 'c, unit) eff"
  cc_estimateGas :: "string \<Rightarrow> string \<Rightarrow> string \<Rightarrow> (thrown, 'c, int) eff"
  cc_populateTransaction :: "string \<Rightarrow> string \<Rightarrow> int \<Rightarrow> (thrown, 'c, tx_request) eff"
  cc_signTransaction :: "tx_request \<Rightarrow> (thrown, 'c, string) eff"
  cc_keccak256 :: "string \<Rightarrow> string"
  cc_broadcastTransaction :: "string \<Rightarrow> (thrown, 'c, string) eff"
  cc_getTransactionReceipt :: "string \<Rightarrow> (thrown, 'c, raw_receipt option) eff"
  cc_confirmations :: "raw_receipt \<Rightarrow> (thrown, 'c, int) eff"
  cc_getTransaction :: "string \<Rightarrow> (thrown, 'c, (string \<times> int) option) eff"
  cc_getTransactionCount :: "string \<Rightarrow> block_tag \<Rightarrow> (thrown, 'c, int) eff"

record ('s, 'c) EthersKeeperGateway =
  eg_endpoints :: "'c RpcEndpoint list"
  eg_client :: "'c chain_client"
  eg_vaults :: "VaultConfig list"
  eg_autoEntryScanSize :: js_number
  eg_historicalScanSize :: js_number
  eg_checkpoints :: "'s KeeperCheckpointStore"
  eg_gasPolicy :: GasPolicyConfig
  eg_keeperAddress :: string

definition get_address :: "('s, 'c) EthersKeeperGateway \<Rightarrow> string \<Rightarrow> ('s, 'c, string) gw_op" where
  "get_address g a = lift_result (case cc_getAddress (eg_client g) a of
     Inl e \<Rightarrow> Inl (GatewayThrown e) | Inr x \<Rightarrow> Inr x)"

definition gw_chain_id :: "('s, 'c) EthersKeeperGateway \<Rightarrow> ('s, 'c, int) gw_op" where
  "gw_chain_id g = verifySepoliaRpcIdentity (eg_endpoints g)"

definition round_state_read :: "int \<Rightarrow> RoundState" where
  "round_state_read n = (case round_state_of_number n of None \<Rightarrow> UNINITIALIZED | Some st \<Rightarrow> st)"

definition read_round :: "('s, 'c) EthersKeeperGateway \<Rightarrow> string \<Rightarrow> int \<Rightarrow> int \<Rightarrow> ('s, 'c, RoundSnapshot) gw_op" where
  "read_round g address blockTag roundId =
     bind_eff (on_rpc (cr_roundInfo (cc_reads (eg_client g)) address roundId blockTag)) (\<lambda>result.
     let state = round_state_read (ri_state result) in
     bind_eff (if state = CANDIDATE_VALIDITY_PENDING \<or> state = CANDIDATE_REJECTED
       then bind_eff (on_rpc (cr_candidateValidityHandle (cc_reads (eg_client g)) address roundId blockTag)) (\<lambda>h. ret (Some h))
       else ret None) (\<lambda>candidateValidityHandle.
     ret \<lparr>rs_roundId = roundId, rs_opensAt = ri_opensAt result, rs_closesAt = ri_closesAt result,
       rs_state = state, rs_publicAggregateTwab = ri_publicAggregateTwab result,
       rs_publicPrize = ri_publicPrize result, rs_participantCount = ri_participantCount result,
       rs_selectionCursor = ri_selectionCursor result, rs_allocationCursor = ri_allocationCursor result,
       rs_candidateValidityHandle = candidateValidityHandle\<rparr>))"

definition read_account_at :: "('s, 'c) EthersKeeperGateway \<Rightarrow> string \<Rightarrow> int \<Rightarrow> int \<Rightarrow> ('s, 'c, string) gw_op" where
  "read_account_at g escrow blockTag index =
     bind_eff (on_rpc (cr_autoEntryAccountAt (cc_reads (eg_client g)) escrow index blockTag)) (get_address g)"

definition read_candidate ::
  "('s, 'c) EthersKeeperGateway \<Rightarrow> string \<Rightarrow> int \<Rightarrow> int \<Rightarrow> string \<Rightarrow> ('s, 'c, AutoEntryCandidate) gw_op" where
  "read_candidate g escrow roundId blockTag account =
     (let reads = cc_reads (eg_client g) in
     bind_eff (on_rpc (cr_isAutoEntryEnabled reads escrow account roundId blockTag)) (\<lambda>enabled.
     bind_eff (on_rpc (cr_automationBondCredit reads escrow account blockTag)) (\<lambda>availableCredit.
     bind_eff (on_rpc (cr_isRegistered reads escrow roundId account blockTag)) (\<lambda>registered.
     bind_eff (on_rpc (cr_autoEntryPreference reads escrow account blockTag)) (\<lambda>preference.
     ret \<lparr>ae_account = account, ae_enabled = enabled, ae_prospectivelyEnabled = Some (fst (snd preference)),
       ae_availableCredit = availableCredit, ae_registered = registered\<rparr>)))))"

text \<open>The account a hint asks for, when it concerns this vault and is not on the page.\<close>

definition hinted_account :: "VaultConfig \<Rightarrow> SnapshotReadHint option \<Rightarrow> string list \<Rightarrow> string option" where
  "hinted_account vault hint accounts = (case hint of
     None \<Rightarrow> None
   | Some h \<Rightarrow> (case sh_account h of
       None \<Rightarrow> None
     | Some requiredAccount \<Rightarrow>
         if toLowerCase (sh_vaultAddress h) = toLowerCase (vc_address vault) \<and>
            \<not> list_ex (\<lambda>account. toLowerCase account = toLowerCase requiredAccount) accounts
         then Some requiredAccount else None))"

definition readAutoEntryCandidates ::
  "('s, 'c) EthersKeeperGateway \<Rightarrow> string \<Rightarrow> VaultConfig \<Rightarrow> int \<Rightarrow> int \<Rightarrow> SnapshotReadHint option
     \<Rightarrow> ('s, 'c, AutoEntryCandidate list) gw_op" where
  "readAutoEntryCandidates g escrow vault roundId blockTag hint =
     bind_eff (on_rpc (cr_autoEntryAccountCount (cc_reads (eg_client g)) escrow blockTag)) (\<lambda>itemCount.
     if itemCount > MAX_SAFE_INTEGER then throw UnsafeAccountCount
     else bind_eff (persistentCircularScanPage (eg_checkpoints g) itemCount
            (''auto-entry:'' @ toLowerCase (vc_address vault)) (eg_autoEntryScanSize g)) (\<lambda>page.
          bind_eff (map_eff (read_account_at g escrow blockTag) (sp_indexes page)) (\<lambda>accounts.
          bind_eff (case hinted_account vault hint accounts of
              None \<Rightarrow> ret accounts
            | Some requiredAccount \<Rightarrow> bind_eff (get_address g requiredAccount) (\<lambda>a. ret (accounts @ [a]))) (\<lambda>accounts'.
          map_eff (read_candidate g escrow roundId blockTag) accounts'))))"

text \<open>The rounds of a vault that one snapshot reads: a page of the past, the active one, the hinted one.\<close>

definition round_ids :: "VaultConfig \<Rightarrow> int \<Rightarrow> int list \<Rightarrow> SnapshotReadHint option \<Rightarrow> int list" where
  "round_ids vault activeRoundId indexes hint =
     (let roundIds = map (\<lambda>index. index + 1) indexes @ [activeRoundId] in
      case hint of
        None \<Rightarrow> roundIds
      | Some h \<Rightarrow> (case sh_roundId h of
          None \<Rightarrow> roundIds
        | Some r \<Rightarrow>
            if toLowerCase (sh_vaultAddress h) = toLowerCase (vc_address vault) \<and> r > 0 \<and> r \<le> activeRoundId \<and>
               r \<notin> set roundIds
            then roundIds @ [r] else roundIds))"

definition readVault ::
  "('s, 'c) EthersKeeperGateway \<Rightarrow> int \<Rightarrow> SnapshotReadHint option \<Rightarrow> VaultConfig \<Rightarrow> ('s, 'c, VaultSnapshot) gw_op" where
  "readVault g blockTag hint vault =
     (let reads = cc_reads (eg_client g) in
     bind_eff (on_rpc (cr_activeRoundId reads (vc_address vault) blockTag)) (\<lambda>activeRoundId.
     bind_eff (on_rpc (cr_settlementBondEscrow reads (vc_address vault) blockTag)) (\<lambda>configuredEscrowAddress.
     if activeRoundId > MAX_SAFE_INTEGER then throw UnsafeRoundId
     else bind_eff (get_address g configuredEscrowAddress) (\<lambda>escrowAddress.
     bind_eff (get_address g (vc_bondEscrow vault)) (\<lambda>manifestEscrow.
     if escrowAddress \<noteq> manifestEscrow then throw (EscrowMismatch (vc_name vault))
     else bind_eff (on_rpc (cr_escrowVault reads escrowAddress blockTag)) (\<lambda>escrowVault.
     bind_eff (on_rpc (cr_bondAmount reads escrowAddress blockTag)) (\<lambda>bondAmount.
     bind_eff (get_address g escrowVault) (\<lambda>escrowVaultAddress.
     bind_eff (get_address g (vc_address vault)) (\<lambda>vaultAddress.
     if escrowVaultAddress \<noteq> vaultAddress then throw (BackpointerMismatch (vc_name vault))
     else bind_eff (persistentCircularScanPage (eg_checkpoints g)
            (if activeRoundId > 0 then activeRoundId - 1 else 0)
            (''historical:'' @ toLowerCase (vc_address vault)) (eg_historicalScanSize g)) (\<lambda>historicalPage.
     bind_eff (map_eff (read_round g (vc_address vault) blockTag)
        (round_ids vault activeRoundId (sp_indexes historicalPage) hint)) (\<lambda>rounds.
     bind_eff (if vc_automaticEntry vault = Some True
        then readAutoEntryCandidates g escrowAddress vault activeRoundId blockTag hint
        else ret []) (\<lambda>autoEntryCandidates.
     ret \<lparr>vs_vault = vault, vs_activeRoundId = activeRoundId, vs_bondAmount = bondAmount,
       vs_autoEntryCandidates = autoEntryCandidates, vs_rounds = rounds\<rparr>))))))))))))"

definition read_block :: "block_ref \<Rightarrow> 'c RpcEndpoint \<Rightarrow> ('s, 'c, RpcBlockIdentity) gw_op" where
  "read_block ref endpoint =
     bind_eff (on_rpc (ep_getBlock endpoint ref)) (\<lambda>candidate. lift_result (requireCompleteBlockIdentity candidate))"

definition readSnapshot :: "('s, 'c) EthersKeeperGateway \<Rightarrow> SnapshotReadHint option \<Rightarrow> ('s, 'c, ProtocolSnapshot) gw_op" where
  "readSnapshot g hint =
     bind_eff (gw_chain_id g) (\<lambda>_.
     bind_eff (map_eff (read_block LatestBlock) (eg_endpoints g)) (\<lambda>latestBlocks.
     bind_eff (lift_result (selectCommonBlockHeight latestBlocks)) (\<lambda>commonBlockNumber.
     bind_eff (map_eff (read_block (BlockNumber commonBlockNumber)) (eg_endpoints g)) (\<lambda>commonBlocks.
     bind_eff (lift_result (assertAgreedBlockIdentities commonBlocks)) (\<lambda>block.
     bind_eff (map_eff (readVault g (rb_number block) hint) (eg_vaults g)) (\<lambda>vaults.
     bind_eff (map_eff (read_block (BlockNumber (rb_number block))) (eg_endpoints g)) (\<lambda>canonicalBlocks.
     bind_eff (lift_result (assertPinnedBlockIdentity block canonicalBlocks)) (\<lambda>_.
     ret \<lparr>ps_chainId = SEPOLIA_CHAIN_ID, ps_blockNumber = rb_number block, ps_blockHash = rb_hash block,
       ps_blockTimestamp = rb_timestamp block, ps_vaults = vaults\<rparr>))))))))"

section \<open>Actions\<close>

definition publicProof :: "('s, 'c) EthersKeeperGateway \<Rightarrow> int \<Rightarrow> string \<Rightarrow> string \<Rightarrow> ('s, 'c, PublicProof) gw_op" where
  "publicProof g roundId address handleFunction =
     bind_eff (on_rpc (cc_handle (eg_client g) address handleFunction roundId)) (\<lambda>handle.
     on_rpc (cc_publicDecrypt (eg_client g) handle))"

definition encode :: "('s, 'c) EthersKeeperGateway \<Rightarrow> abi_call \<Rightarrow> ('s, 'c, string) gw_op" where
  "encode g c = lift_result (case cc_encodeFunctionData (eg_client g) c of
     Inl e \<Rightarrow> Inl (GatewayThrown e) | Inr x \<Rightarrow> Inr x)"

definition encode_proof :: "('s, 'c) EthersKeeperGateway \<Rightarrow> LifecycleAction \<Rightarrow> string \<Rightarrow> string \<Rightarrow> ('s, 'c, string) gw_op" where
  "encode_proof g action handleFunction name =
     bind_eff (publicProof g (la_roundId action) (vc_address (la_vault action)) handleFunction) (\<lambda>proof.
     encode g (VaultCall name [ArgInt (la_roundId action), ArgString (pp_abiEncodedClearValues proof),
       ArgString (pp_decryptionProof proof)]))"

definition chunk_argument :: "LifecycleAction \<Rightarrow> abi_argument" where
  "chunk_argument action = (case actionChunkSize action of None \<Rightarrow> ArgNull | Some n \<Rightarrow> ArgInt n)"

definition encodeAction :: "('s, 'c) EthersKeeperGateway \<Rightarrow> LifecycleAction \<Rightarrow> ('s, 'c, string) gw_op" where
  "encodeAction g action = (case la_kind action of
     RegisterAutoEntry \<Rightarrow> (case la_account action of
         None \<Rightarrow> throw MissingAccount
       | Some account \<Rightarrow> if account = [] then throw MissingAccount
           else encode g (EscrowCall ''registerForRoundFor'' [ArgString account, ArgInt (la_roundId action)]))
   | PruneAutoEntry \<Rightarrow> (case la_account action of
         None \<Rightarrow> throw MissingAccount
       | Some account \<Rightarrow> if account = [] then throw MissingAccount
           else encode g (EscrowCall ''pruneAutoEntryAccount'' [ArgString account]))
   | CloseRound \<Rightarrow> encode g (VaultCall ''closeRound'' [])
   | FinalizeAggregate \<Rightarrow> encode_proof g action ''aggregateTwabHandle'' ''finalizeAggregate''
   | SettleEmptyRound \<Rightarrow> encode g (VaultCall ''settleEmptyRound'' [ArgInt (la_roundId action)])
   | GenerateRandomCandidate \<Rightarrow> encode g (VaultCall ''generateRandomCandidate'' [ArgInt (la_roundId action)])
   | FinalizeCandidateValidity \<Rightarrow> encode_proof g action ''candidateValidityHandle'' ''finalizeCandidateValidity''
   | ProcessSelection \<Rightarrow> encode g (VaultCall ''processSelection'' [ArgInt (la_roundId action), chunk_argument action])
   | FinalizeReconciliation \<Rightarrow> encode_proof g action ''reconciliationHandle'' ''finalizeSelectionReconciliation''
   | RecoverFailedReconciliation \<Rightarrow> encode g (VaultCall ''recoverFailedReconciliation'' [ArgInt (la_roundId action)])
   | ProcessAllocation \<Rightarrow> encode g (VaultCall ''processAllocation'' [ArgInt (la_roundId action), chunk_argument action])
   | FinalizeSettlement \<Rightarrow> encode g (VaultCall ''finalizeSettlement'' [ArgInt (la_roundId action)]))"

definition target :: "LifecycleAction \<Rightarrow> string" where
  "target action = (if la_kind action = RegisterAutoEntry \<or> la_kind action = PruneAutoEntry
     then vc_bondEscrow (la_vault action) else vc_address (la_vault action))"

definition simulate :: "('s, 'c) EthersKeeperGateway \<Rightarrow> LifecycleAction \<Rightarrow> string \<Rightarrow> ('s, 'c, unit) gw_op" where
  "simulate g action data = on_rpc (cc_call (eg_client g) (eg_keeperAddress g) (target action) data)"

text \<open>The gas estimate, or the fallback when the action has a floor.\<close>

definition estimate_gas :: "('s, 'c) EthersKeeperGateway \<Rightarrow> LifecycleAction \<Rightarrow> string \<Rightarrow> ('s, 'c, int option \<times> bool) gw_op" where
  "estimate_gas g action data =
     catch_eff
       (bind_eff (on_rpc (cc_estimateGas (eg_client g) (eg_keeperAddress g) (target action) data))
          (\<lambda>estimatedGas. ret (Some estimatedGas, False)))
       (\<lambda>error. if gp_floors (eg_gasPolicy g) (kind_string (la_kind action)) = None then throw error
                else ret (None, True))"

definition sign :: "('s, 'c) EthersKeeperGateway \<Rightarrow> LifecycleAction \<Rightarrow> string \<Rightarrow> ('s, 'c, SignedLifecycleTransaction) gw_op" where
  "sign g action data =
     bind_eff (estimate_gas g action data) (\<lambda>(estimatedGas, estimationFallback).
     bind_eff (lift_result (case applyGasPolicy (la_kind action) estimatedGas (eg_gasPolicy g) estimationFallback of
        Inl e \<Rightarrow> Inl (GasRefused e) | Inr d \<Rightarrow> Inr d)) (\<lambda>gasPolicy.
     bind_eff (on_rpc (cc_populateTransaction (eg_client g) (target action) data (gd_gasLimit gasPolicy))) (\<lambda>request.
     bind_eff (on_rpc (cc_signTransaction (eg_client g) request)) (\<lambda>serialized.
     case (rq_nonce request, rq_gasLimit request) of
       (Some nonce, Some gasLimit) \<Rightarrow>
         (case (case rq_maxFeePerGas request of Some f \<Rightarrow> Some f | None \<Rightarrow> rq_gasPrice request) of
            None \<Rightarrow> throw NoFee
          | Some feePerGas \<Rightarrow> ret \<lparr>tx_action = action, tx_hash = cc_keccak256 (eg_client g) serialized,
              tx_nonce = nonce, tx_serialized = serialized, tx_calldataHash = cc_keccak256 (eg_client g) data,
              tx_maximumCostWei = gasLimit * feePerGas + (case rq_value request of None \<Rightarrow> 0 | Some v \<Rightarrow> v),
              tx_gasPolicy = Some gasPolicy\<rparr>)
     | _ \<Rightarrow> throw NotPopulated))))"

definition broadcastTransaction :: "('s, 'c) EthersKeeperGateway \<Rightarrow> SignedLifecycleTransaction \<Rightarrow> ('s, 'c, string) gw_op" where
  "broadcastTransaction g tx = on_rpc (cc_broadcastTransaction (eg_client g) (tx_serialized tx))"

definition getReceipt :: "('s, 'c) EthersKeeperGateway \<Rightarrow> string \<Rightarrow> ('s, 'c, ReceiptView option) gw_op" where
  "getReceipt g hash =
     bind_eff (on_rpc (cc_getTransactionReceipt (eg_client g) hash)) (\<lambda>receipt.
     case receipt of
       None \<Rightarrow> ret None
     | Some r \<Rightarrow> bind_eff (on_rpc (cc_confirmations (eg_client g) r)) (\<lambda>confirmations.
         ret (Some \<lparr>rv_hash = rr_hash r, rv_blockHash = rr_blockHash r, rv_blockNumber = rr_blockNumber r,
           rv_status = rr_status r, rv_confirmations = confirmations\<rparr>)))"

definition getTransaction :: "('s, 'c) EthersKeeperGateway \<Rightarrow> string \<Rightarrow> ('s, 'c, (string \<times> int) option) gw_op" where
  "getTransaction g hash = on_rpc (cc_getTransaction (eg_client g) hash)"

definition getTransactionCount :: "('s, 'c) EthersKeeperGateway \<Rightarrow> block_tag \<Rightarrow> ('s, 'c, int) gw_op" where
  "getTransactionCount g blockTag = on_rpc (cc_getTransactionCount (eg_client g) (eg_keeperAddress g) blockTag)"

definition getKeeperBalance :: "('s, 'c) EthersKeeperGateway \<Rightarrow> ('s, 'c, int) gw_op" where
  "getKeeperBalance g = on_rpc (cc_getBalance (eg_client g) (eg_keeperAddress g))"

text \<open>The gateway as the engine sees it: its own errors are plain \<open>Error\<close> objects.\<close>

fun thrown_of_gateway :: "gateway_error \<Rightarrow> thrown" where
  "thrown_of_gateway (GatewayThrown t) = t"
| "thrown_of_gateway _ = Thrown None (Some ''Error'')"

definition for_engine :: "('s, 'c, 'a) gw_op \<Rightarrow> (thrown, 's \<times> 'c, 'a) eff" where
  "for_engine m st = (case m st of (Inl e, st') \<Rightarrow> (Inl (thrown_of_gateway e), st') | (Inr a, st') \<Rightarrow> (Inr a, st'))"

definition ethers_gateway :: "('s, 'c) EthersKeeperGateway \<Rightarrow> ('s \<times> 'c) KeeperGateway" where
  "ethers_gateway g = \<lparr>gw_getChainId = for_engine (gw_chain_id g),
     gw_getKeeperBalance = for_engine (getKeeperBalance g),
     gw_readSnapshot = (\<lambda>hint. for_engine (readSnapshot g hint)),
     gw_encodeAction = (\<lambda>a. for_engine (encodeAction g a)),
     gw_simulate = (\<lambda>a data. for_engine (simulate g a data)),
     gw_sign = (\<lambda>a data. for_engine (sign g a data)),
     gw_broadcast = (\<lambda>tx. for_engine (broadcastTransaction g tx)),
     gw_getReceipt = (\<lambda>h. for_engine (getReceipt g h)),
     gw_getTransaction = (\<lambda>h. for_engine (getTransaction g h)),
     gw_getTransactionCount = (\<lambda>t. for_engine (getTransactionCount g t))\<rparr>"

section \<open>Construction\<close>

datatype gateway_config_error = EmptyRpcUrl | InvalidAutoEntryScanSize | InvalidHistoricalScanSize

fun scan_size_ok :: "js_number \<Rightarrow> bool" where
  "scan_size_ok JNonInt = False"
| "scan_size_ok (JInt n) = (1 \<le> n \<and> n \<le> 500)"

definition check_gateway_options :: "string list \<Rightarrow> js_number \<Rightarrow> js_number \<Rightarrow> (gateway_config_error, unit) result" where
  "check_gateway_options rpcUrls autoEntryScanSize historicalScanSize =
     (if rpcUrls = [] \<or> list_ex (\<lambda>url. trim url = []) rpcUrls then Inl EmptyRpcUrl
      else if \<not> scan_size_ok autoEntryScanSize then Inl InvalidAutoEntryScanSize
      else if \<not> scan_size_ok historicalScanSize then Inl InvalidHistoricalScanSize
      else Inr ())"

section \<open>Lemmas on scans\<close>

lemma circularScanPage_Inr:
  assumes "circularScanPage n cursor (JInt m) = Inr page"
  shows "0 \<le> n \<and> 0 \<le> cursor \<and> 1 \<le> m \<and>
    (if n = 0 then sp_indexes page = [] \<and> sp_nextCursor page = 0
     else sp_indexes page = map (\<lambda>i. (cursor + int i) mod n) [0..<nat (min n m)] \<and>
       sp_nextCursor page = (cursor + min n m) mod n)"
  using assms
  by (auto simp: circularScanPage_def Let_def min_def not_less mod_simps split: if_splits)

lemma circularScanPage_ok:
  "0 \<le> n \<Longrightarrow> 0 \<le> cursor \<Longrightarrow> 1 \<le> m \<Longrightarrow> is_ok (circularScanPage n cursor (JInt m))"
  by (simp add: circularScanPage_def Let_def)

lemma circular_page_distinct:
  assumes "circularScanPage n cursor (JInt m) = Inr page"
  shows "distinct (sp_indexes page) \<and> set (sp_indexes page) \<subseteq> {0..<n} \<and>
    int (length (sp_indexes page)) = min n m \<and> 0 \<le> sp_nextCursor page"
proof (cases "n = 0")
  case True
  then show ?thesis using circularScanPage_Inr [OF assms] by auto
next
  case False
  with circularScanPage_Inr [OF assms] have n: "0 < n" "1 \<le> m"
    and p: "sp_indexes page = map (\<lambda>i. (cursor + int i) mod n) [0..<nat (min n m)]"
      "sp_nextCursor page = (cursor + min n m) mod n"
    by auto
  have "i = j" if "i < nat (min n m)" "j < nat (min n m)" "(cursor + int i) mod n = (cursor + int j) mod n" for i j
  proof -
    from that(3) have "n dvd (cursor + int i) - (cursor + int j)" by (simp add: mod_eq_dvd_iff)
    then have "n dvd int i - int j" by simp
    moreover have "\<bar>int i - int j\<bar> < n" using that(1,2) n by linarith
    ultimately have "int i - int j = 0" using dvd_imp_le_int [of "int i - int j" n] n by fastforce
    then show ?thesis by simp
  qed
  then have "inj_on (\<lambda>i. (cursor + int i) mod n) {0..<nat (min n m)}" by (auto intro: inj_onI)
  with n p show ?thesis by (auto simp: distinct_map)
qed

text \<open>Consecutive pages are consecutive stretches of the circle.\<close>

lemma circular_stretch:
  assumes "0 < (n :: int)"
  shows "(\<lambda>i. (c + int i) mod n) ` {0..<a} \<union> (\<lambda>i. ((c + int a) mod n + int i) mod n) ` {0..<b}
    = (\<lambda>i. (c + int i) mod n) ` {0..<a + b}"
proof -
  have "((c + int a) mod n + int i) mod n = (c + int (i + a)) mod n" for i
    by (simp add: mod_simps algebra_simps)
  moreover have shift: "{a..<a + b} = (\<lambda>i. i + a) ` {0..<b}"
    by (simp add: image_add_atLeastLessThan' add.commute)
  ultimately have "(\<lambda>i. ((c + int a) mod n + int i) mod n) ` {0..<b} = (\<lambda>i. (c + int i) mod n) ` {a..<a + b}"
    unfolding shift image_image by simp
  moreover have "{0..<a + b} = {0..<a} \<union> {a..<a + b}" by auto
  ultimately show ?thesis by (simp add: image_Un)
qed

lemma circular_full:
  assumes "0 < (n :: int)" and "n \<le> int k"
  shows "(\<lambda>i. (c + int i) mod n) ` {0..<k} = {0..<n}"
proof
  show "(\<lambda>i. (c + int i) mod n) ` {0..<k} \<subseteq> {0..<n}" using assms(1) by auto
  show "{0..<n} \<subseteq> (\<lambda>i. (c + int i) mod n) ` {0..<k}"
  proof
    fix x assume x: "x \<in> {0..<n}"
    let ?i = "nat ((x - c) mod n)"
    have "(x - c) mod n < n" "0 \<le> (x - c) mod n" using assms(1) by simp_all
    then have "?i < k" using assms(2) by linarith
    moreover have "(c + int ?i) mod n = x"
      using \<open>0 \<le> (x - c) mod n\<close> x assms(1) by (simp add: mod_simps)
    ultimately show "x \<in> (\<lambda>i. (c + int i) mod n) ` {0..<k}" by (metis atLeast0LessThan image_eqI lessThan_iff)
  qed
qed

section \<open>Interface: persistent cursors\<close>

text \<open>
  The store behind the scan cursors: a read returns what was last written under the key, and a
  write that returns changes that key only.
\<close>

locale cursor_store =
  fixes store :: "'s KeeperCheckpointStore"
    and lookup :: "string \<Rightarrow> 's \<Rightarrow> string option"
    and inv :: "'s \<Rightarrow> bool"
  assumes get_law: "inv s \<Longrightarrow> cs_getCheckpoint store k s = (Inr (lookup k s), s)"
    and put_law: "inv s \<Longrightarrow> cs_putCheckpoint store k v s = (Inr (), s') \<Longrightarrow>
      inv s' \<and> (\<forall>k'. lookup k' s' = (if k' = k then Some v else lookup k' s))"
begin

definition cursor_at :: "string \<Rightarrow> 's \<Rightarrow> int" where
  "cursor_at k s = (case lookup k s of None \<Rightarrow> 0 | Some c \<Rightarrow> BigInt c)"

lemma persistent_page:
  assumes "inv (fst st)" and "persistentCircularScanPage store n k m st = (Inr page, st')"
  shows "circularScanPage n (cursor_at k (fst st)) m = Inr page \<and> inv (fst st') \<and>
    lookup k (fst st') = Some (int_to_string (sp_nextCursor page)) \<and>
    (\<forall>k'. k' \<noteq> k \<longrightarrow> lookup k' (fst st') = lookup k' (fst st))"
proof -
  have g: "on_store (cs_getCheckpoint store k) st = (Inr (lookup k (fst st)), st)"
    using get_law [OF assms(1)] by (simp add: on_store_def)
  from assms(2) have page: "circularScanPage n (cursor_at k (fst st)) m = Inr page"
    and p: "on_store (cs_putCheckpoint store k (int_to_string (sp_nextCursor page))) st = (Inr (), st')"
    by (auto simp: persistentCircularScanPage_def bind_eff_apply g cursor_at_def
        split: if_splits sum.splits prod.splits option.splits)
  from p have "cs_putCheckpoint store k (int_to_string (sp_nextCursor page)) (fst st) = (Inr (), fst st')"
    by (auto simp: on_store_def split: prod.splits sum.splits)
  from put_law [OF assms(1) this] page show ?thesis by simp
qed

lemma cursor_after:
  assumes "inv (fst st)" and "persistentCircularScanPage store n k (JInt m) st = (Inr page, st')"
  shows "cursor_at k (fst st') = sp_nextCursor page"
proof -
  note p = persistent_page [OF assms]
  from p have "0 \<le> sp_nextCursor page" using circular_page_distinct by blast
  with p show ?thesis by (simp add: cursor_at_def BigInt_int_to_string)
qed

end

text \<open>A scan repeated \<open>k\<close> times, with the indexes of all its pages.\<close>

fun scan_times :: "nat \<Rightarrow> 's KeeperCheckpointStore \<Rightarrow> int \<Rightarrow> string \<Rightarrow> js_number \<Rightarrow> ('s, 'c, int list) gw_op" where
  "scan_times 0 store n key m = ret []"
| "scan_times (Suc k) store n key m =
     bind_eff (persistentCircularScanPage store n key m) (\<lambda>page.
     bind_eff (scan_times k store n key m) (\<lambda>xs. ret (sp_indexes page @ xs)))"

context cursor_store
begin

lemma scan_times_covers:
  assumes "inv (fst st)" and "scan_times k store n key (JInt m) st = (Inr xs, st')" and "0 < n"
  shows "set xs = (\<lambda>i. (cursor_at key (fst st) + int i) mod n) ` {0..<k * nat (min n m)} \<and> inv (fst st')"
  using assms(1,2)
proof (induction k arbitrary: st xs)
  case 0
  then show ?case by simp
next
  case (Suc k)
  then obtain page st1 ys where p: "persistentCircularScanPage store n key (JInt m) st = (Inr page, st1)"
    and r: "scan_times k store n key (JInt m) st1 = (Inr ys, st')" and xs: "xs = sp_indexes page @ ys"
    by (auto simp: bind_eff_Inr)
  note page = persistent_page [OF Suc.prems(1) p]
  have i: "sp_indexes page = map (\<lambda>i. (cursor_at key (fst st) + int i) mod n) [0..<nat (min n m)]"
    and c: "sp_nextCursor page = (cursor_at key (fst st) + min n m) mod n" and m: "0 < min n m"
    using circularScanPage_Inr [OF page [THEN conjunct1]] assms(3) by auto
  have next_cursor: "cursor_at key (fst st1) = (cursor_at key (fst st) + int (nat (min n m))) mod n"
    using cursor_after [OF Suc.prems(1) p] c m by simp
  from Suc.IH [OF _ r] page
  have "set ys = (\<lambda>i. (cursor_at key (fst st1) + int i) mod n) ` {0..<k * nat (min n m)}" "inv (fst st')"
    by auto
  then show ?case
    using circular_stretch [OF assms(3), of "cursor_at key (fst st)" "nat (min n m)" "k * nat (min n m)"]
    by (simp add: xs i next_cursor)
qed

theorem scan_complete:
  assumes "inv (fst st)" and "scan_times k store n key (JInt m) st = (Inr xs, st')"
    and "0 < n" and "1 \<le> m" and "n \<le> int k * m"
  shows "set xs = {0..<n}"
proof -
  have "n \<le> int k * min n m"
  proof (cases "m \<le> n")
    case False
    then have "0 < k" using assms(3,5) by (cases k) auto
    with False assms(3) show ?thesis by (simp add: min_def mult_le_cancel_right1)
  qed (use assms(5) in \<open>simp add: min_def\<close>)
  then have "n \<le> int (k * nat (min n m))" using assms(3,4) by simp
  with scan_times_covers [OF assms(1,2,3)] circular_full [OF assms(3)] show ?thesis by simp
qed

end

section \<open>The stores serve the scans\<close>

definition file_checkpoint_store :: "int \<Rightarrow> file_journal KeeperCheckpointStore" where
  "file_checkpoint_store pid = \<lparr>
     cs_getCheckpoint = (\<lambda>k j. (as_thrown (file_getCheckpoint k (fst j)), j)),
     cs_putCheckpoint = (\<lambda>k v j. case file_putCheckpoint pid (next_fault (snd j)) k v (fst j) of
        (r, d) \<Rightarrow> (as_thrown r, (d, tl (snd j))))\<rparr>"

definition memory_checkpoint_store :: "MemoryJournalStore KeeperCheckpointStore" where
  "memory_checkpoint_store = \<lparr>
     cs_getCheckpoint = (\<lambda>k j. (as_thrown (memory_getCheckpoint k j), j)),
     cs_putCheckpoint = (\<lambda>k v j. case memory_putCheckpoint k v j of (r, j') \<Rightarrow> (as_thrown r, j'))\<rparr>"

definition file_checkpoint :: "string \<Rightarrow> file_journal \<Rightarrow> string option" where
  "file_checkpoint k j = (case file_getCheckpoint k (fst j) of Inl _ \<Rightarrow> None | Inr v \<Rightarrow> v)"

interpretation file_cursors: cursor_store "file_checkpoint_store pid" file_checkpoint "\<lambda>j. readable (fst j)"
proof
  fix j :: file_journal and j' k v
  assume i: "readable (fst j)"
  show "cs_getCheckpoint (file_checkpoint_store pid) k j = (Inr (file_checkpoint k j), j)"
    using file_checkpoints.get_ok [OF i, of k]
    by (auto simp: file_checkpoint_store_def file_checkpoint_def as_thrown_def is_ok_iff)
  assume "cs_putCheckpoint (file_checkpoint_store pid) k v j = (Inr (), j')"
  then have p: "file_putCheckpoint_by (pid, next_fault (snd j)) k v (fst j) = (Inr (), fst j')"
    by (auto simp: file_checkpoint_store_def file_putCheckpoint_by_def split: prod.splits)
  have "readable (fst j')"
    using file_checkpoints.set_inv [OF i, of "(pid, next_fault (snd j))" k v] p by simp
  with file_checkpoints.set_get [OF i p] show
    "readable (fst j') \<and> (\<forall>k'. file_checkpoint k' j' = (if k' = k then Some v else file_checkpoint k' j))"
    by (auto simp: file_checkpoint_def)
qed

interpretation memory_cursors: cursor_store memory_checkpoint_store "\<lambda>k j. mj_checkpoints j k" "\<lambda>_. True"
  by unfold_locales
    (auto simp: memory_checkpoint_store_def as_thrown_def memory_getCheckpoint_def memory_putCheckpoint_def
      split: if_splits)

end
