(* ===== verification/Engine_Safety.thy ===== *)
theory Engine_Safety
  imports Engine
begin

text \<open>
  Safety of the keeper engine: what a poll writes to the journal and what it broadcasts, in which
  order, and what the journal looks like after any number of polls.
\<close>

section \<open>Quiet operations\<close>

text \<open>An operation is quiet when its trace holds no broadcast.\<close>

definition no_broadcast :: "event list \<Rightarrow> bool" where
  "no_broadcast t \<longleftrightarrow> (\<forall>tx. EvBroadcast tx \<notin> set t)"

definition quiet_since :: "event list \<Rightarrow> ('j, 'c) world \<Rightarrow> bool" where
  "quiet_since t0 w \<longleftrightarrow> (\<exists>new. w_trace w = t0 @ new \<and> no_broadcast new)"

definition quiet :: "('j, 'c, 'a) engine_op \<Rightarrow> bool" where
  "quiet m \<longleftrightarrow> (\<forall>t0. keeps (quiet_since t0) m)"

lemma no_broadcast_simps [simp]:
  "no_broadcast []" "no_broadcast (a @ b) \<longleftrightarrow> no_broadcast a \<and> no_broadcast b"
  "no_broadcast (EvBalance b1 # t) \<longleftrightarrow> no_broadcast t" "no_broadcast (EvChainId i # t) \<longleftrightarrow> no_broadcast t"
  "no_broadcast (EvPut e ok # t) \<longleftrightarrow> no_broadcast t" "\<not> no_broadcast (EvBroadcast tx # t)"
  by (auto simp: no_broadcast_def)

lemma quiet_since_trace: "w_trace w' = w_trace w \<Longrightarrow> quiet_since t0 w \<Longrightarrow> quiet_since t0 w'"
  by (simp add: quiet_since_def)

lemma quiet_since_snoc:
  assumes "quiet_since t0 w" and "w_trace w' = w_trace w @ t" and "no_broadcast t"
  shows "quiet_since t0 w'"
proof -
  from assms(1) obtain new where "w_trace w = t0 @ new" "no_broadcast new" by (auto simp: quiet_since_def)
  with assms show ?thesis unfolding quiet_since_def by (intro exI [of _ "new @ t"]) simp
qed

lemma quietD: "quiet m \<Longrightarrow> m w = (r, w') \<Longrightarrow> \<exists>new. w_trace w' = w_trace w @ new \<and> no_broadcast new"
  using keepsD [of "quiet_since (w_trace w)" m w r w'] by (auto simp: quiet_def quiet_since_def)

lemma on_chain_journal:
  "on_chain m w = (r, w') \<Longrightarrow> w_journal w' = w_journal w \<and> w_trace w' = w_trace w"
  by (auto simp: on_chain_def split: prod.splits sum.splits)

lemma now_ms_journal: "now_ms eng w = (r, w') \<Longrightarrow> w_journal w' = w_journal w \<and> w_trace w' = w_trace w"
  by (auto simp: now_ms_def split: prod.splits)

lemma sleep_ms_journal: "sleep_ms eng ms w = (r, w') \<Longrightarrow> w_journal w' = w_journal w \<and> w_trace w' = w_trace w"
  by (auto simp: sleep_ms_def)

lemma emit_trace: "emit ev w = (r, w') \<Longrightarrow> w_journal w' = w_journal w \<and> w_trace w' = w_trace w @ [ev] \<and> r = Inr ()"
  by (auto simp: emit_def)

lemma journal_list_trace: "journal_list eng w = (r, w') \<Longrightarrow> w_trace w' = w_trace w"
  by (auto simp: journal_list_def split: prod.splits sum.splits)

lemma journal_put_trace:
  "journal_put eng e w = (r, w') \<Longrightarrow> w_trace w' = w_trace w @ [EvPut e (r = Inr ())]"
  by (auto simp: journal_put_def split: prod.splits sum.splits)

lemma quiet_on_chain: "quiet (on_chain m)"
  unfolding quiet_def by (auto intro!: keepsI dest!: on_chain_journal elim: quiet_since_trace [rotated])

lemma quiet_now: "quiet (now_ms eng)"
  unfolding quiet_def by (auto intro!: keepsI dest!: now_ms_journal elim: quiet_since_trace [rotated])

lemma quiet_sleep: "quiet (sleep_ms eng ms)"
  unfolding quiet_def by (auto intro!: keepsI dest!: sleep_ms_journal elim: quiet_since_trace [rotated])

lemma quiet_list: "quiet (journal_list eng)"
  unfolding quiet_def by (auto intro!: keepsI dest!: journal_list_trace elim: quiet_since_trace [rotated])

lemma quiet_emit: "no_broadcast [ev] \<Longrightarrow> quiet (emit ev)"
  unfolding quiet_def by (auto intro!: keepsI dest!: emit_trace elim: quiet_since_snoc)

lemma quiet_put: "quiet (journal_put eng e)"
  unfolding quiet_def by (auto intro!: keepsI dest!: journal_put_trace elim!: quiet_since_snoc)

lemma quiet_ret: "quiet (ret a)" and quiet_throw: "quiet (throw e)"
  by (simp_all add: quiet_def keeps_ret keeps_throw)

lemma quiet_bind: "quiet m \<Longrightarrow> (\<And>a. quiet (f a)) \<Longrightarrow> quiet (bind_eff m f)"
  by (simp add: quiet_def keeps_bind)

lemma quiet_catch: "quiet m \<Longrightarrow> (\<And>e. quiet (h e)) \<Longrightarrow> quiet (catch_eff m h)"
  by (simp add: quiet_def keeps_catch)

lemma quiet_if: "(b \<Longrightarrow> quiet m) \<Longrightarrow> (\<not> b \<Longrightarrow> quiet m') \<Longrightarrow> quiet (if b then m else m')"
  by simp

lemma quiet_case_option:
  "(x = None \<Longrightarrow> quiet m) \<Longrightarrow> (\<And>a. x = Some a \<Longrightarrow> quiet (f a)) \<Longrightarrow> quiet (case x of None \<Rightarrow> m | Some a \<Rightarrow> f a)"
  by (cases x) auto

lemma quiet_case_sum:
  "(\<And>e. x = Inl e \<Longrightarrow> quiet (g e)) \<Longrightarrow> (\<And>a. x = Inr a \<Longrightarrow> quiet (f a)) \<Longrightarrow> quiet (case x of Inl e \<Rightarrow> g e | Inr a \<Rightarrow> f a)"
  by (cases x) auto

lemmas quiet_rules = quiet_on_chain quiet_now quiet_sleep quiet_list quiet_put quiet_ret quiet_throw
  quiet_bind quiet_catch quiet_if quiet_case_option quiet_case_sum

lemma quiet_read_balance: "quiet (read_balance eng)"
  unfolding read_balance_def by (intro quiet_rules quiet_emit) simp

lemma quiet_read_chain_id: "quiet (read_chain_id eng)"
  unfolding read_chain_id_def by (intro quiet_rules quiet_emit) simp

lemma quiet_preflight: "quiet (preflight eng)"
  unfolding preflight_def by (intro quiet_rules quiet_read_balance quiet_read_chain_id)

lemma quiet_record_update: "quiet (record_update eng e st opts)"
  unfolding record_update_def by (intro quiet_rules)

lemma quiet_reconcileEntry: "quiet (reconcileEntry eng e)"
  unfolding reconcileEntry_def reconcile_receipt_def reconcile_missing_def Let_def
  by (intro quiet_rules quiet_record_update)

lemma quiet_reconcile_first: "quiet (reconcile_first eng es)"
proof (induction es)
  case Nil
  show ?case unfolding reconcile_first.simps by (intro quiet_rules)
next
  case (Cons e es)
  then show ?case unfolding reconcile_first.simps by (intro quiet_rules quiet_reconcileEntry)
qed

lemma quiet_reconcileOutstanding: "quiet (reconcileOutstanding eng)"
  unfolding reconcileOutstanding_def by (intro quiet_rules quiet_reconcile_first)

lemma quiet_wait_loop: "quiet (wait_loop eng deadline fuel e)"
proof (induction fuel arbitrary: e)
  case 0
  show ?case unfolding wait_loop.simps by (intro quiet_rules)
next
  case (Suc fuel)
  then show ?case unfolding wait_loop.simps by (intro quiet_rules quiet_reconcileEntry)
qed

lemma quiet_waitAndReconcile: "quiet (waitAndReconcile fuel eng e)"
  unfolding waitAndReconcile_def by (intro quiet_rules quiet_wait_loop)

lemma quiet_prepare_call: "quiet (prepare_call eng a)"
  unfolding prepare_call_def by (intro quiet_rules)

lemma quiet_broadcast_failed: "quiet (broadcast_failed eng e err)"
  unfolding broadcast_failed_def by (intro quiet_rules quiet_record_update)

section \<open>The write-ahead rule\<close>

text \<open>
  A trace with exactly one broadcast: just before it the keeper read a balance that covers the
  transaction and its own minimum, and recorded a prepared entry for this very transaction.
\<close>

definition one_broadcast :: "('j, 'c) KeeperEngine \<Rightarrow> event list \<Rightarrow> bool" where
  "one_broadcast eng new \<longleftrightarrow> (\<exists>pre b e tx post.
     new = pre @ [EvBalance b, EvPut e True, EvBroadcast tx] @ post \<and> no_broadcast pre \<and> no_broadcast post \<and>
     ke_minimumBalanceWei eng \<le> b \<and> b \<le> ke_maximumBalanceWei eng \<and>
     tx_maximumCostWei tx \<le> b - ke_minimumBalanceWei eng \<and>
     je_status e = Prepared \<and> je_txHash e = tx_hash tx \<and> je_nonce e = tx_nonce tx \<and>
     je_calldataHash e = tx_calldataHash tx)"

definition broadcasts_safely :: "('j, 'c) KeeperEngine \<Rightarrow> event list \<Rightarrow> ('j, 'c) world \<Rightarrow> bool" where
  "broadcasts_safely eng t0 w \<longleftrightarrow>
     (\<exists>new. w_trace w = t0 @ new \<and> (no_broadcast new \<or> one_broadcast eng new))"

lemma one_broadcastI:
  assumes "new = pre @ [EvBalance b, EvPut e True, EvBroadcast tx] @ post" "no_broadcast pre" "no_broadcast post"
    "ke_minimumBalanceWei eng \<le> b" "b \<le> ke_maximumBalanceWei eng"
    "tx_maximumCostWei tx \<le> b - ke_minimumBalanceWei eng"
    "je_status e = Prepared" "je_txHash e = tx_hash tx" "je_nonce e = tx_nonce tx"
    "je_calldataHash e = tx_calldataHash tx"
  shows "one_broadcast eng new"
  unfolding one_broadcast_def using assms by blast

lemma one_broadcast_snoc:
  assumes "one_broadcast eng new" and "no_broadcast t"
  shows "one_broadcast eng (new @ t)"
proof -
  from assms(1) obtain pre b e tx post where o:
    "new = pre @ [EvBalance b, EvPut e True, EvBroadcast tx] @ post" "no_broadcast pre" "no_broadcast post"
    "ke_minimumBalanceWei eng \<le> b" "b \<le> ke_maximumBalanceWei eng"
    "tx_maximumCostWei tx \<le> b - ke_minimumBalanceWei eng"
    "je_status e = Prepared" "je_txHash e = tx_hash tx" "je_nonce e = tx_nonce tx"
    "je_calldataHash e = tx_calldataHash tx"
    unfolding one_broadcast_def by blast
  show ?thesis
    by (rule one_broadcastI [of _ pre b e tx "post @ t"]) (use o assms(2) in simp_all)
qed

lemma broadcasts_safely_quiet: "quiet_since t0 w \<Longrightarrow> broadcasts_safely eng t0 w"
  by (auto simp: quiet_since_def broadcasts_safely_def)

lemma keeps_broadcasts_safely:
  assumes "quiet m" shows "keeps (broadcasts_safely eng t0) m"
proof (rule keepsI)
  fix w r w'
  assume b: "broadcasts_safely eng t0 w" and m: "m w = (r, w')"
  from b obtain new where "w_trace w = t0 @ new" "no_broadcast new \<or> one_broadcast eng new"
    unfolding broadcasts_safely_def by blast
  moreover from quietD [OF assms m] obtain t where "w_trace w' = w_trace w @ t" "no_broadcast t" by blast
  ultimately show "broadcasts_safely eng t0 w'"
    unfolding broadcasts_safely_def
    by (intro exI [of _ "new @ t"]) (auto intro: one_broadcast_snoc)
qed

text \<open>The state between the balance check and the journal write.\<close>

definition funded :: "('j, 'c) KeeperEngine \<Rightarrow> SignedLifecycleTransaction \<Rightarrow> event list \<Rightarrow> ('j, 'c) world \<Rightarrow> bool" where
  "funded eng tx t0 w \<longleftrightarrow> (\<exists>pre b. w_trace w = t0 @ pre @ [EvBalance b] \<and> no_broadcast pre \<and>
     ke_minimumBalanceWei eng \<le> b \<and> b \<le> ke_maximumBalanceWei eng \<and>
     tx_maximumCostWei tx \<le> b - ke_minimumBalanceWei eng)"

lemma funded_quiet: "funded eng tx t0 w \<Longrightarrow> quiet_since t0 w"
  unfolding funded_def quiet_since_def by force

lemma read_balance_ok:
  "read_balance eng w = (Inr b, w') \<Longrightarrow> w_trace w' = w_trace w @ [EvBalance b]"
  by (auto simp: read_balance_def bind_eff_Inr emit_def dest!: on_chain_journal)

lemma check_cost_ok:
  assumes "check_cost eng tx w = (Inr u, w')"
  obtains b where "w_trace w' = w_trace w @ [EvBalance b]" "ke_minimumBalanceWei eng \<le> b"
    "b \<le> ke_maximumBalanceWei eng" "tx_maximumCostWei tx \<le> b - ke_minimumBalanceWei eng"
proof -
  let ?check = "\<lambda>b. assertKeeperBalanceWithinLimits b (ke_minimumBalanceWei eng) (ke_maximumBalanceWei eng)"
  from assms obtain b w1 where b: "read_balance eng w = (Inr b, w1)"
    and c: "(case ?check b of Inl e \<Rightarrow> throw (BalanceRefused e) | Inr _ \<Rightarrow>
      if tx_maximumCostWei tx > b - ke_minimumBalanceWei eng then throw CannotCoverCost else ret ()) w1 = (Inr u, w')"
    unfolding check_cost_def bind_eff_Inr by blast
  from c have "?check b = Inr ()" "w' = w1" "tx_maximumCostWei tx \<le> b - ke_minimumBalanceWei eng"
    by (cases "?check b"; simp split: if_splits)+
  with read_balance_ok [OF b] that show ?thesis by (auto simp: balance_within_limits)
qed

lemma check_cost_funded:
  "triple (quiet_since t0) (check_cost eng tx)
     (\<lambda>r w. case r of Inl _ \<Rightarrow> quiet_since t0 w | Inr _ \<Rightarrow> funded eng tx t0 w)"
proof (rule tripleI)
  fix w r w'
  assume q: "quiet_since t0 w" and c: "check_cost eng tx w = (r, w')"
  have "quiet (check_cost eng tx)"
    unfolding check_cost_def by (intro quiet_rules quiet_read_balance)
  with q c have q': "quiet_since t0 w'" unfolding quiet_def by (blast dest: keepsD)
  show "case r of Inl _ \<Rightarrow> quiet_since t0 w' | Inr _ \<Rightarrow> funded eng tx t0 w'"
  proof (cases r)
    case (Inr u)
    from q obtain new where "w_trace w = t0 @ new" "no_broadcast new" by (auto simp: quiet_since_def)
    with Inr c show ?thesis by (auto simp: funded_def elim!: check_cost_ok)
  qed (use q' in simp)
qed

text \<open>A submission emits its broadcast and is quiet from then on.\<close>

lemma quiet_try:
  assumes "quiet m" and "\<And>e. quiet (h e)" and "\<And>a. quiet (f a)"
  shows "quiet (\<lambda>w. case m w of (Inl e, w') \<Rightarrow> h e w' | (Inr a, w') \<Rightarrow> f a w')"
  unfolding quiet_def
proof (intro allI keepsI)
  fix t0 w r w'
  assume q: "quiet_since t0 w" and m: "(case m w of (Inl e, w') \<Rightarrow> h e w' | (Inr a, w') \<Rightarrow> f a w') = (r, w')"
  obtain r1 w1 where m1: "m w = (r1, w1)" by (cases "m w")
  have q1: "quiet_since t0 w1" using assms(1) q m1 unfolding quiet_def by (blast dest: keepsD)
  have h: "quiet_since t0 w'" if "h e w1 = (r, w')" for e
    using assms(2) [of e] q1 that unfolding quiet_def by (blast dest: keepsD)
  have f: "quiet_since t0 w'" if "f a w1 = (r, w')" for a
    using assms(3) [of a] q1 that unfolding quiet_def by (blast dest: keepsD)
  show "quiet_since t0 w'" using m h f by (cases r1) (auto simp: m1)
qed

lemma submit_after_emit:
  "\<exists>m. quiet m \<and> (\<forall>w. submit eng e tx w = m (w\<lparr>w_trace := w_trace w @ [EvBroadcast tx]\<rparr>))"
proof -
  let ?call = "bind_eff (on_chain (gw_broadcast (ke_gateway eng) tx))
     (\<lambda>h. if toLowerCase h \<noteq> toLowerCase (tx_hash tx) then throw BroadcastHashMismatch else ret ())"
  let ?note = "bind_eff (now_ms eng) (\<lambda>t. let submitted = updateEntry e Submitted t no_options in
      catch_eff (bind_eff (journal_put eng submitted) (\<lambda>_. ret (Some submitted))) (broadcast_failed eng submitted))"
  let ?m = "\<lambda>w. case ?call w of (Inl err, w') \<Rightarrow> broadcast_failed eng e err w' | (Inr _, w') \<Rightarrow> ?note w'"
  have "quiet ?m"
    unfolding Let_def by (intro quiet_try quiet_rules quiet_broadcast_failed)
  moreover have "submit eng e tx w = ?m (w\<lparr>w_trace := w_trace w @ [EvBroadcast tx]\<rparr>)" for w
    unfolding submit_def broadcast_def bind_eff_assoc
    by (simp add: bind_eff_apply [of "emit _"] emit_def)
  ultimately show ?thesis by blast
qed

lemma submit_safely:
  assumes "funded eng tx t0 w0" and "w_trace w = w_trace w0 @ [EvPut e True]"
    and "je_status e = Prepared \<and> je_txHash e = tx_hash tx \<and> je_nonce e = tx_nonce tx \<and>
      je_calldataHash e = tx_calldataHash tx"
    and "submit eng e tx w = (r, w')"
  shows "broadcasts_safely eng t0 w'"
proof -
  let ?w = "w\<lparr>w_trace := w_trace w @ [EvBroadcast tx]\<rparr>"
  from assms(1) obtain pre b where f: "w_trace w0 = t0 @ pre @ [EvBalance b]" "no_broadcast pre"
      "ke_minimumBalanceWei eng \<le> b" "b \<le> ke_maximumBalanceWei eng"
      "tx_maximumCostWei tx \<le> b - ke_minimumBalanceWei eng"
    by (auto simp: funded_def)
  have "one_broadcast eng (pre @ [EvBalance b, EvPut e True, EvBroadcast tx])"
    by (rule one_broadcastI [of _ pre b e tx "[]"]) (use f assms(3) in simp_all)
  then have "broadcasts_safely eng t0 ?w"
    unfolding broadcasts_safely_def
    by (intro exI [of _ "pre @ [EvBalance b, EvPut e True, EvBroadcast tx]"]) (simp add: assms(2) f(1))
  moreover obtain m where "quiet m" "submit eng e tx w = m ?w" using submit_after_emit by metis
  ultimately show ?thesis using assms(4) keepsD [OF keeps_broadcasts_safely] by metis
qed

definition recorded :: "('j, 'c) KeeperEngine \<Rightarrow> SignedLifecycleTransaction \<Rightarrow> JournalEntry \<Rightarrow> event list \<Rightarrow> ('j, 'c) world \<Rightarrow> bool" where
  "recorded eng tx e t0 w \<longleftrightarrow>
     (\<exists>w0 :: ('j, 'c) world. funded eng tx t0 w0 \<and> w_trace w = w_trace w0 @ [EvPut e True])"

lemma put_recorded:
  "triple (funded eng tx t0) (journal_put eng e)
     (\<lambda>r w. case r of Inl _ \<Rightarrow> broadcasts_safely eng t0 w | Inr _ \<Rightarrow> recorded eng tx e t0 w)"
proof (rule tripleI)
  fix w r w'
  assume f: "funded eng tx t0 w" and p: "journal_put eng e w = (r, w')"
  have "quiet_since t0 w'"
    using quiet_since_snoc [OF funded_quiet [OF f] journal_put_trace [OF p]] by simp
  with f journal_put_trace [OF p] show
    "case r of Inl _ \<Rightarrow> broadcasts_safely eng t0 w' | Inr _ \<Rightarrow> recorded eng tx e t0 w'"
    by (cases r) (auto simp: recorded_def intro: broadcasts_safely_quiet)
qed

lemma triple_quiet:
  assumes "quiet m"
  shows "triple (quiet_since t0) m (\<lambda>r w. case r of Inl e \<Rightarrow> broadcasts_safely eng t0 w | Inr a \<Rightarrow> quiet_since t0 w)"
proof (rule tripleI)
  fix w r w'
  assume "quiet_since t0 w" "m w = (r, w')"
  then have "quiet_since t0 w'" using assms unfolding quiet_def by (blast dest: keepsD)
  then show "case r of Inl e \<Rightarrow> broadcasts_safely eng t0 w' | Inr a \<Rightarrow> quiet_since t0 w'"
    by (cases r) (auto intro: broadcasts_safely_quiet)
qed

lemma triple_quiet_end:
  assumes "quiet m" shows "triple (quiet_since t0) m (\<lambda>_. broadcasts_safely eng t0)"
  by (rule triple_weaken [OF triple_quiet [OF assms, where eng = eng]])
    (auto split: sum.splits intro: broadcasts_safely_quiet)

lemma triple_safe_end:
  assumes "quiet m" shows "triple (broadcasts_safely eng t0) m (\<lambda>_. broadcasts_safely eng t0)"
  using keeps_broadcasts_safely [OF assms] by (simp add: keeps_def)

lemma execute_safely:
  "triple (quiet_since t0) (execute fuel eng action previous data) (\<lambda>_. broadcasts_safely eng t0)"
  unfolding execute_def Let_def
proof (rule triple_bind, rule triple_quiet [OF quiet_on_chain], rule triple_bind)
  fix tx
  show "triple (quiet_since t0) (check_cost eng tx)
     (\<lambda>r w. case r of Inl _ \<Rightarrow> broadcasts_safely eng t0 w | Inr _ \<Rightarrow> funded eng tx t0 w)"
    by (rule triple_weaken [OF check_cost_funded]) (auto split: sum.splits intro: broadcasts_safely_quiet)
  let ?entry = "\<lambda>t. journalEntryForPrepared action (tx_hash tx) (tx_nonce tx) (tx_calldataHash tx) t
     (map_option je_attemptId previous)"
  show "triple (funded eng tx t0) (bind_eff (now_ms eng) (\<lambda>t. bind_eff (journal_put eng (?entry t))
      (\<lambda>_. bind_eff (submit eng (?entry t) tx) (\<lambda>submitted. case submitted of
         None \<Rightarrow> ret (RunBlocked (la_key action) Unknown)
       | Some current \<Rightarrow> bind_eff (waitAndReconcile fuel eng current)
           (\<lambda>finalEntry. ret (run_result action tx finalEntry))))))
     (\<lambda>_. broadcasts_safely eng t0)"
  proof (rule triple_bind [where R = "\<lambda>_. funded eng tx t0"])
    show "triple (funded eng tx t0) (now_ms eng)
        (\<lambda>r w. case r of Inl e \<Rightarrow> broadcasts_safely eng t0 w | Inr a \<Rightarrow> funded eng tx t0 w)"
      by (rule tripleI) (auto simp: now_ms_def funded_def split: prod.splits)
  next
    fix t
    have sub: "triple (recorded eng tx (?entry t) t0) (submit eng (?entry t) tx) (\<lambda>_. broadcasts_safely eng t0)"
      by (rule tripleI) (auto simp: recorded_def journalEntryForPrepared_def elim!: submit_safely)
    show "triple (funded eng tx t0) (bind_eff (journal_put eng (?entry t))
      (\<lambda>_. bind_eff (submit eng (?entry t) tx) (\<lambda>submitted. case submitted of
         None \<Rightarrow> ret (RunBlocked (la_key action) Unknown)
       | Some current \<Rightarrow> bind_eff (waitAndReconcile fuel eng current)
           (\<lambda>finalEntry. ret (run_result action tx finalEntry)))))
     (\<lambda>_. broadcasts_safely eng t0)"
      by (rule triple_bind [OF put_recorded], rule triple_bind [where R = "\<lambda>_. broadcasts_safely eng t0"])
        (rule triple_weaken [OF sub], auto split: sum.splits
          intro!: triple_safe_end quiet_rules quiet_waitAndReconcile simp del: triple_ret ret_apply)
  qed
qed

lemma attempt_safely: "triple (quiet_since t0) (attempt fuel eng action) (\<lambda>_. broadcasts_safely eng t0)"
  unfolding attempt_def Let_def
  by (rule triple_bind [OF triple_quiet [OF quiet_list]], split if_split, intro conjI impI
      triple_quiet_end [OF quiet_ret] triple_bind [OF triple_quiet [OF quiet_prepare_call]])
    (auto split: option.splits intro: execute_safely triple_quiet_end quiet_ret simp del: triple_ret ret_apply)

lemma poll_safely: "triple (quiet_since t0) (poll fuel eng) (\<lambda>_. broadcasts_safely eng t0)"
  unfolding poll_def
  by (rule triple_bind [OF triple_quiet [OF quiet_on_chain]])
    (auto split: option.splits intro: attempt_safely triple_quiet_end [OF quiet_ret] triple_quiet_end [OF quiet_throw]
      simp del: triple_ret ret_apply triple_throw throw_apply)

lemma runOnce_safely: "triple (quiet_since t0) (runOnce fuel eng) (\<lambda>_. broadcasts_safely eng t0)"
  unfolding runOnce_def
  by (rule triple_bind [OF triple_quiet [OF quiet_preflight]],
      rule triple_bind [OF triple_quiet [OF quiet_reconcileOutstanding]])
    (auto split: option.splits intro: poll_safely triple_quiet_end [OF quiet_ret] simp del: triple_ret ret_apply)

section \<open>Operations that leave the journal alone\<close>

definition same_journal :: "('j, 'c, 'a) engine_op \<Rightarrow> bool" where
  "same_journal m \<longleftrightarrow> (\<forall>j. keeps (\<lambda>w. w_journal w = j) m)"

lemma same_journalD: "same_journal m \<Longrightarrow> m w = (r, w') \<Longrightarrow> w_journal w' = w_journal w"
  unfolding same_journal_def by (metis (mono_tags) keepsD)

lemma same_journal_base:
  "same_journal (on_chain m)" "same_journal (now_ms eng)" "same_journal (sleep_ms eng ms)" "same_journal (emit ev)"
  by (auto simp: same_journal_def intro!: keepsI dest: on_chain_journal now_ms_journal sleep_ms_journal emit_trace)

lemma same_journal_bind: "same_journal m \<Longrightarrow> (\<And>a. same_journal (f a)) \<Longrightarrow> same_journal (bind_eff m f)"
  by (simp add: same_journal_def keeps_bind)

lemma same_journal_catch: "same_journal m \<Longrightarrow> (\<And>e. same_journal (h e)) \<Longrightarrow> same_journal (catch_eff m h)"
  by (simp add: same_journal_def keeps_catch)

lemma same_journal_ret: "same_journal (ret a)" and same_journal_throw: "same_journal (throw e)"
  by (simp_all add: same_journal_def keeps_ret keeps_throw)

lemma same_journal_if: "(b \<Longrightarrow> same_journal m) \<Longrightarrow> (\<not> b \<Longrightarrow> same_journal m') \<Longrightarrow> same_journal (if b then m else m')"
  by simp

lemma same_journal_case_sum:
  "(\<And>e. x = Inl e \<Longrightarrow> same_journal (g e)) \<Longrightarrow> (\<And>a. x = Inr a \<Longrightarrow> same_journal (f a)) \<Longrightarrow>
    same_journal (case x of Inl e \<Rightarrow> g e | Inr a \<Rightarrow> f a)"
  by (cases x) auto

lemmas same_journal_rules = same_journal_base same_journal_bind same_journal_catch same_journal_ret
  same_journal_throw same_journal_if same_journal_case_sum

lemma same_journal_preflight: "same_journal (preflight eng)"
  unfolding preflight_def read_chain_id_def read_balance_def by (intro same_journal_rules)

lemma same_journal_prepare: "same_journal (prepare_call eng action)"
  unfolding prepare_call_def by (intro same_journal_rules)

lemma same_journal_check_cost: "same_journal (check_cost eng tx)"
  unfolding check_cost_def read_balance_def by (intro same_journal_rules)

lemma same_journal_broadcast: "same_journal (broadcast eng tx)"
  unfolding broadcast_def by (intro same_journal_rules)

section \<open>Interface of the engine's journal\<close>

text \<open>
  What the engine's invariants need of the journal it was given: reads return its entries and
  change nothing, attempts are distinct, and a write replaces the entry of its attempt, or, when
  it throws, does that or nothing.
\<close>

locale engine_store =
  fixes eng :: "('j, 'c) KeeperEngine"
    and entries :: "'j \<Rightarrow> JournalEntry list"
    and inv :: "'j \<Rightarrow> bool"
  assumes list_law: "inv j \<Longrightarrow> ke_list eng j = (Inr (entries j), j)"
    and put_inv: "inv j \<Longrightarrow> inv (snd (ke_put eng e j))"
    and put_law: "inv j \<Longrightarrow> ke_put eng e j = (r, j') \<Longrightarrow>
      set (entries j') = insert e {x \<in> set (entries j). je_attemptId x \<noteq> je_attemptId e} \<or>
      set (entries j') = set (entries j) \<and> r \<noteq> Inr ()"
begin

definition none_unresolved :: "('j, 'c) world \<Rightarrow> bool" where
  "none_unresolved w \<longleftrightarrow> inv (w_journal w) \<and> (\<forall>x \<in> set (entries (w_journal w)). \<not> unresolved x)"

definition unresolved_only :: "string \<Rightarrow> ('j, 'c) world \<Rightarrow> bool" where
  "unresolved_only a w \<longleftrightarrow> inv (w_journal w) \<and>
     (\<forall>x \<in> set (entries (w_journal w)). unresolved x \<longrightarrow> je_attemptId x = a)"

definition one_unresolved :: "('j, 'c) world \<Rightarrow> bool" where
  "one_unresolved w \<longleftrightarrow> (\<exists>a. unresolved_only a w)"

text \<open>The outcome of reconciling an attempt: a resolved result leaves nothing unresolved.\<close>

definition reconciled_post :: "string \<Rightarrow> (engine_error, JournalEntry) result \<Rightarrow> ('j, 'c) world \<Rightarrow> bool" where
  "reconciled_post a r w \<longleftrightarrow> unresolved_only a w \<and>
     (\<forall>e. r = Inr e \<longrightarrow> je_attemptId e = a \<and> (\<not> unresolved e \<longrightarrow> none_unresolved w))"

lemma unresolved_only_cong: "w_journal w' = w_journal w \<Longrightarrow> unresolved_only a w \<Longrightarrow> unresolved_only a w'"
  by (simp add: unresolved_only_def)

lemma none_unresolved_only: "none_unresolved w \<Longrightarrow> unresolved_only a w"
  by (simp add: none_unresolved_def unresolved_only_def)

lemma none_unresolved_cong: "w_journal w' = w_journal w \<Longrightarrow> none_unresolved w \<Longrightarrow> none_unresolved w'"
  by (simp add: none_unresolved_def)

lemma put_outcome:
  assumes "unresolved_only a w" and "je_attemptId e = a" and "journal_put eng e w = (r, w')"
  shows "unresolved_only a w' \<and> (r = Inr () \<and> \<not> unresolved e \<longrightarrow> none_unresolved w')"
proof -
  obtain r1 j where p: "ke_put eng e (w_journal w) = (r1, j)" by (cases "ke_put eng e (w_journal w)")
  have i: "inv (w_journal w)" using assms(1) by (simp add: unresolved_only_def)
  have j: "w_journal w' = j" and r: "r = Inr () \<longleftrightarrow> r1 = Inr ()"
    using assms(3) p by (auto simp: journal_put_def split: sum.splits)
  from put_law [OF i p] put_inv [OF i, of e] assms(1,2) show ?thesis
    unfolding unresolved_only_def none_unresolved_def j r p by auto
qed

lemma list_outcome:
  assumes "inv (w_journal w)" shows "journal_list eng w = (Inr (entries (w_journal w)), w)"
  using list_law [OF assms] by (simp add: journal_list_def)

lemma record_update_triple:
  assumes "je_attemptId e = a"
  shows "triple (unresolved_only a) (record_update eng e st opts) (reconciled_post a)"
proof (rule tripleI)
  fix w r w'
  assume u: "unresolved_only a w" and m: "record_update eng e st opts w = (r, w')"
  obtain t w1 where n: "now_ms eng w = (Inr t, w1)" unfolding now_ms_def by (cases "ke_now eng (w_chain w)") auto
  let ?e = "updateEntry e st t opts"
  obtain r2 w2 where p: "journal_put eng ?e w1 = (r2, w2)" by (cases "journal_put eng ?e w1")
  have u1: "unresolved_only a w1" using now_ms_journal [OF n] u by (simp add: unresolved_only_def)
  have e: "je_attemptId ?e = a" using assms by (simp add: updateEntry_def)
  from m have r: "w' = w2 \<and> r = (case r2 of Inl x \<Rightarrow> Inl x | Inr _ \<Rightarrow> Inr ?e)"
    unfolding record_update_def by (cases r2) (simp_all add: bind_eff_apply n p)
  from put_outcome [OF u1 e p] r show "reconciled_post a r w'"
    using e by (cases r2) (auto simp: reconciled_post_def)
qed

text \<open>Operations of the chain side leave the journal alone.\<close>

lemma bind_chain:
  assumes "\<And>w r w'. m w = (r, w') \<Longrightarrow> w_journal w' = w_journal w" and "\<And>x. triple (unresolved_only a) (f x) (reconciled_post a)"
  shows "triple (unresolved_only a) (bind_eff m f) (reconciled_post a)"
proof (rule triple_bind [where R = "\<lambda>_. unresolved_only a"])
  show "triple (unresolved_only a) m
      (\<lambda>r w. case r of Inl e \<Rightarrow> reconciled_post a (Inl e) w | Inr x \<Rightarrow> unresolved_only a w)"
    by (rule tripleI) (auto simp: reconciled_post_def split: sum.splits dest!: assms(1) elim: unresolved_only_cong [rotated])
qed (rule assms(2))

lemma bind_on_chain:
  "(\<And>x. triple (unresolved_only a) (f x) (reconciled_post a)) \<Longrightarrow>
    triple (unresolved_only a) (bind_eff (on_chain m) f) (reconciled_post a)"
  by (rule bind_chain) (auto dest: on_chain_journal)

lemma bind_now:
  "(\<And>x. triple (unresolved_only a) (f x) (reconciled_post a)) \<Longrightarrow>
    triple (unresolved_only a) (bind_eff (now_ms eng) f) (reconciled_post a)"
  by (rule bind_chain) (auto dest: now_ms_journal)

lemma ret_unresolved:
  "unresolved e \<Longrightarrow> je_attemptId e = a \<Longrightarrow> triple (unresolved_only a) (ret e) (reconciled_post a)"
  by (simp add: reconciled_post_def)

lemma reconcileEntry_triple:
  assumes "je_attemptId e = a" and "unresolved e"
  shows "triple (unresolved_only a) (reconcileEntry eng e) (reconciled_post a)"
  unfolding reconcileEntry_def reconcile_receipt_def reconcile_missing_def Let_def
  by (intro bind_on_chain)
    (auto intro!: bind_on_chain bind_now record_update_triple ret_unresolved assms split: option.splits
      simp del: triple_ret ret_apply)

lemma none_one: "none_unresolved w \<Longrightarrow> one_unresolved w"
  unfolding one_unresolved_def by (blast intro: none_unresolved_only)

lemma bind_same:
  assumes "same_journal m" and "\<And>x. triple none_unresolved (f x) (\<lambda>_. one_unresolved)"
  shows "triple none_unresolved (bind_eff m f) (\<lambda>_. one_unresolved)"
proof (rule triple_bind [where R = "\<lambda>_. none_unresolved"])
  show "triple none_unresolved m (\<lambda>r w. case r of Inl e \<Rightarrow> one_unresolved w | Inr x \<Rightarrow> none_unresolved w)"
    by (rule tripleI) (auto split: sum.splits dest!: same_journalD [OF assms(1)]
        dest: none_unresolved_cong intro: none_one)
qed (rule assms(2))

lemma reconcile_first_triple:
  assumes "\<forall>e \<in> set es. je_attemptId e = a \<and> unresolved e"
  shows "triple (\<lambda>w. unresolved_only a w \<and> (es = [] \<longrightarrow> none_unresolved w)) (reconcile_first eng es)
    (\<lambda>r w. unresolved_only a w \<and> (r = Inr None \<longrightarrow> none_unresolved w))"
  using assms
proof (induction es)
  case Nil
  show ?case unfolding reconcile_first.simps triple_ret by simp
next
  case (Cons e es)
  have "triple (unresolved_only a) (reconcileEntry eng e) (reconciled_post a)"
    using Cons.prems by (intro reconcileEntry_triple) auto
  then show ?case
    unfolding reconcile_first.simps
    by (intro triple_bind [where R = "\<lambda>e' w. unresolved_only a w \<and> (\<not> unresolved e' \<longrightarrow> none_unresolved w)"])
      (use Cons in \<open>auto simp: reconciled_post_def split: sum.splits elim!: triple_weaken\<close>)
qed

lemma reconcileOutstanding_triple:
  "triple one_unresolved (reconcileOutstanding eng)
     (\<lambda>r w. one_unresolved w \<and> (r = Inr None \<longrightarrow> none_unresolved w))"
proof (rule tripleI)
  fix w r w'
  assume "one_unresolved w" and m: "reconcileOutstanding eng w = (r, w')"
  then obtain a where u: "unresolved_only a w" by (auto simp: one_unresolved_def)
  then have i: "inv (w_journal w)" by (simp add: unresolved_only_def)
  let ?es = "filter unresolved (entries (w_journal w))"
  from m have "reconcile_first eng ?es w = (r, w')"
    by (simp add: reconcileOutstanding_def bind_eff_apply list_outcome [OF i])
  moreover have all: "\<forall>e \<in> set ?es. je_attemptId e = a \<and> unresolved e"
    using u by (auto simp: unresolved_only_def)
  moreover have "unresolved_only a w \<and> (?es = [] \<longrightarrow> none_unresolved w)"
    using i u by (auto simp: none_unresolved_def filter_empty_conv)
  ultimately have "unresolved_only a w' \<and> (r = Inr None \<longrightarrow> none_unresolved w')"
    by (intro tripleD [OF reconcile_first_triple [OF all]])
  then show "one_unresolved w' \<and> (r = Inr None \<longrightarrow> none_unresolved w')"
    unfolding one_unresolved_def by blast
qed

lemma wait_loop_keeps:
  assumes "je_attemptId e = a" and "unresolved e"
  shows "triple (unresolved_only a) (wait_loop eng deadline fuel e) (reconciled_post a)"
  using assms
proof (induction fuel arbitrary: e)
  case 0
  show ?case unfolding wait_loop.simps triple_throw by (simp add: reconciled_post_def)
next
  case (Suc fuel)
  let ?R = "\<lambda>e' w. unresolved_only a w \<and> je_attemptId e' = a \<and> (\<not> unresolved e' \<longrightarrow> none_unresolved w)"
  have ret: "triple (?R e') (ret e') (reconciled_post a)" for e' by (simp add: reconciled_post_def)
  have again: "triple (unresolved_only a) (bind_eff (now_ms eng) (\<lambda>t. if t \<ge> deadline then ret e'
      else bind_eff (sleep_ms eng (ke_receiptPollMs eng)) (\<lambda>_. wait_loop eng deadline fuel e'))) (reconciled_post a)"
    if "je_attemptId e' = a" "unresolved e'" for e'
    by (intro bind_now) (auto intro!: bind_chain Suc.IH [OF that] ret_unresolved [OF that(2,1)]
        dest: sleep_ms_journal simp del: triple_ret ret_apply)
  show ?case
    unfolding wait_loop.simps
  proof (rule triple_bind [where R = ?R])
    show "triple (unresolved_only a) (reconcileEntry eng e)
        (\<lambda>r w. case r of Inl x \<Rightarrow> reconciled_post a (Inl x) w | Inr e' \<Rightarrow> ?R e' w)"
      by (rule triple_weaken [OF reconcileEntry_triple [OF Suc.prems]])
        (auto simp: reconciled_post_def split: sum.splits)
    fix e'
    show "triple (?R e') (if je_status e' \<noteq> Submitted \<and> je_status e' \<noteq> Confirmed then ret e'
       else bind_eff (now_ms eng) (\<lambda>t. if t \<ge> deadline then ret e'
          else bind_eff (sleep_ms eng (ke_receiptPollMs eng)) (\<lambda>_. wait_loop eng deadline fuel e')))
      (reconciled_post a)"
    proof (cases "je_status e' \<noteq> Submitted \<and> je_status e' \<noteq> Confirmed")
      case False
      then have u: "unresolved e'" by (auto simp: unresolved_def unresolvedStatuses_def)
      show ?thesis
      proof (cases "je_attemptId e' = a")
        case True
        from again [OF this u] False show ?thesis by (auto elim!: triple_weaken)
      qed (simp add: triple_def)
    qed (use ret in simp)
  qed
qed

lemma broadcast_failed_keeps:
  assumes "je_attemptId e = a"
  shows "triple (unresolved_only a) (broadcast_failed eng e err) (\<lambda>r w. unresolved_only a w \<and> r \<noteq> Inr (Some x))"
  unfolding broadcast_failed_def
  by (rule triple_bind [where R = "\<lambda>_. unresolved_only a"])
    (rule triple_weaken [OF record_update_triple [OF assms]], auto simp: reconciled_post_def split: sum.splits)

definition submitted_post :: "string \<Rightarrow> (engine_error, JournalEntry option) result \<Rightarrow> ('j, 'c) world \<Rightarrow> bool" where
  "submitted_post a r w \<longleftrightarrow> unresolved_only a w \<and>
     (\<forall>e. r = Inr (Some e) \<longrightarrow> je_attemptId e = a \<and> unresolved e)"

lemma broadcast_failed_post:
  "je_attemptId e = a \<Longrightarrow> triple (unresolved_only a) (broadcast_failed eng e err) (submitted_post a)"
  using broadcast_failed_keeps [of e a err] unfolding submitted_post_def triple_def by blast

lemma submit_triple:
  assumes "je_attemptId e = a"
  shows "triple (unresolved_only a) (submit eng e tx) (submitted_post a)"
proof (rule tripleI)
  fix w r w'
  assume u: "unresolved_only a w" and m: "submit eng e tx w = (r, w')"
  let ?b = "bind_eff (broadcast eng tx) (\<lambda>broadcastHash.
     if toLowerCase broadcastHash \<noteq> toLowerCase (tx_hash tx) then throw BroadcastHashMismatch else ret ())"
  obtain r1 w1 where b: "?b w = (r1, w1)" by (cases "?b w")
  have "same_journal ?b" by (intro same_journal_rules same_journal_broadcast)
  from same_journalD [OF this b] u have u1: "unresolved_only a w1" by (simp add: unresolved_only_def)
  let ?s = "\<lambda>t. updateEntry e Submitted t no_options"
  have s: "je_attemptId (?s t) = a" "unresolved (?s t)" for t
    using assms by (auto simp: updateEntry_def unresolved_def unresolvedStatuses_def)
  have put: "triple (unresolved_only a) (bind_eff (journal_put eng (?s t)) (\<lambda>_. ret (Some (?s t))))
      (\<lambda>r w. case r of Inl err \<Rightarrow> unresolved_only a w | Inr x \<Rightarrow> submitted_post a (Inr x) w)" for t
  proof (rule triple_bind [where R = "\<lambda>_. unresolved_only a"])
    show "triple (unresolved_only a) (journal_put eng (?s t))
      (\<lambda>r w. case r of Inl e \<Rightarrow> case Inl e of Inl err \<Rightarrow> unresolved_only a w | Inr x \<Rightarrow> submitted_post a (Inr x) w
         | Inr _ \<Rightarrow> unresolved_only a w)"
      by (rule tripleI) (auto split: sum.splits dest: put_outcome [OF _ s(1)])
    show "triple (unresolved_only a) (ret (Some (?s t)))
      (\<lambda>r w. case r of Inl err \<Rightarrow> unresolved_only a w | Inr x \<Rightarrow> submitted_post a (Inr x) w)" for x
      using s by (simp add: submitted_post_def)
  qed
  have ok: "triple (unresolved_only a) (bind_eff (now_ms eng) (\<lambda>t. let submitted = ?s t in
      catch_eff (bind_eff (journal_put eng submitted) (\<lambda>_. ret (Some submitted)))
        (broadcast_failed eng submitted))) (submitted_post a)"
    unfolding Let_def
  proof (rule triple_bind [where R = "\<lambda>_. unresolved_only a"])
    show "triple (unresolved_only a) (now_ms eng)
      (\<lambda>r w. case r of Inl x \<Rightarrow> submitted_post a (Inl x) w | Inr x \<Rightarrow> unresolved_only a w)"
      by (rule tripleI) (auto simp: now_ms_def unresolved_only_def split: prod.splits)
  qed (rule triple_catch [OF put broadcast_failed_post [OF s(1)]])
  show "submitted_post a r w'"
  proof (cases r1)
    case (Inl err)
    with m b have "broadcast_failed eng e err w1 = (r, w')" by (simp add: submit_def)
    from tripleD [OF broadcast_failed_post [OF assms] u1 this] show ?thesis .
  next
    case (Inr x)
    with m b have "bind_eff (now_ms eng) (\<lambda>t. let submitted = ?s t in
      catch_eff (bind_eff (journal_put eng submitted) (\<lambda>_. ret (Some submitted)))
        (broadcast_failed eng submitted)) w1 = (r, w')" by (simp add: submit_def)
    from tripleD [OF ok u1 this] show ?thesis .
  qed
qed

lemma wait_keeps:
  assumes "je_attemptId e = a" and "unresolved e"
  shows "triple (unresolved_only a) (waitAndReconcile fuel eng e) (reconciled_post a)"
  unfolding waitAndReconcile_def by (intro bind_now wait_loop_keeps assms)

lemma wait_finish:
  assumes "je_attemptId e = a" and "unresolved e"
  shows "triple (unresolved_only a) (bind_eff (waitAndReconcile fuel eng e) (\<lambda>finalEntry. ret (g finalEntry)))
    (\<lambda>_. one_unresolved)"
proof (rule triple_bind [where R = "\<lambda>_. unresolved_only a"])
  show "triple (unresolved_only a) (waitAndReconcile fuel eng e)
      (\<lambda>r w. case r of Inl x \<Rightarrow> one_unresolved w | Inr x \<Rightarrow> unresolved_only a w)"
    by (rule triple_weaken [OF wait_keeps [OF assms]])
      (auto simp: reconciled_post_def one_unresolved_def split: sum.splits)
  show "triple (unresolved_only a) (ret (g x)) (\<lambda>_. one_unresolved)" for x
    unfolding triple_ret one_unresolved_def by blast
qed

lemma submitted_tail:
  assumes "je_attemptId e = a"
  shows "triple (unresolved_only a) (bind_eff (submit eng e tx) (\<lambda>submitted.
     case submitted of None \<Rightarrow> ret x
       | Some current \<Rightarrow> bind_eff (waitAndReconcile fuel eng current) (\<lambda>finalEntry. ret (g finalEntry))))
     (\<lambda>_. one_unresolved)"
proof (rule triple_bind)
  let ?R = "\<lambda>submitted w. unresolved_only a w \<and>
     (\<forall>e. submitted = Some e \<longrightarrow> je_attemptId e = a \<and> unresolved e)"
  show "triple (unresolved_only a) (submit eng e tx)
      (\<lambda>r w. case r of Inl _ \<Rightarrow> one_unresolved w | Inr submitted \<Rightarrow> ?R submitted w)"
    by (rule triple_weaken [OF submit_triple [OF assms]])
      (auto simp: submitted_post_def one_unresolved_def split: sum.splits)
  fix submitted
  show "triple (?R submitted) (case submitted of None \<Rightarrow> ret x
       | Some current \<Rightarrow> bind_eff (waitAndReconcile fuel eng current) (\<lambda>finalEntry. ret (g finalEntry)))
     (\<lambda>_. one_unresolved)"
  proof (cases "\<exists>e. submitted = Some e \<and> je_attemptId e = a \<and> unresolved e")
    case True
    then obtain e where e: "submitted = Some e" "je_attemptId e = a" "unresolved e" by blast
    show ?thesis
      unfolding e(1) option.case by (rule triple_weaken [OF wait_finish [OF e(2,3)]]) simp_all
  next
    case False
    then show ?thesis by (cases submitted) (auto simp: one_unresolved_def triple_def)
  qed
qed

lemma execute_triple: "triple none_unresolved (execute fuel eng action previous data) (\<lambda>_. one_unresolved)"
  unfolding execute_def Let_def
proof (rule bind_same [OF same_journal_base(1)], rule bind_same [OF same_journal_check_cost],
    rule bind_same [OF same_journal_base(2)])
  fix tx :: SignedLifecycleTransaction and u :: unit and t
  let ?e = "journalEntryForPrepared action (tx_hash tx) (tx_nonce tx) (tx_calldataHash tx) t
     (map_option je_attemptId previous)"
  let ?a = "je_attemptId ?e"
  have put: "triple none_unresolved (journal_put eng ?e)
      (\<lambda>r w. case r of Inl _ \<Rightarrow> one_unresolved w | Inr _ \<Rightarrow> unresolved_only ?a w)"
  proof (rule tripleI)
    fix w r w'
    assume "none_unresolved w" and "journal_put eng ?e w = (r, w')"
    from put_outcome [OF none_unresolved_only [OF this(1)] refl this(2)]
    show "case r of Inl _ \<Rightarrow> one_unresolved w' | Inr _ \<Rightarrow> unresolved_only ?a w'"
      by (cases r) (auto simp: one_unresolved_def)
  qed
  show "triple none_unresolved (bind_eff (journal_put eng ?e) (\<lambda>_. bind_eff (submit eng ?e tx) (\<lambda>submitted.
     case submitted of None \<Rightarrow> ret (RunBlocked (la_key action) Unknown)
       | Some current \<Rightarrow> bind_eff (waitAndReconcile fuel eng current)
           (\<lambda>finalEntry. ret (run_result action tx finalEntry))))) (\<lambda>_. one_unresolved)"
    by (rule triple_bind [OF put], rule submitted_tail [OF refl])
qed

lemma attempt_triple: "triple none_unresolved (attempt fuel eng action) (\<lambda>_. one_unresolved)"
proof -
  have none: "triple none_unresolved (ret x) (\<lambda>_. one_unresolved)" for x :: KeeperRunResult
    by (simp add: none_one)
  have ex: "triple none_unresolved (case prepared of None \<Rightarrow> ret RunIdle
      | Some data \<Rightarrow> execute fuel eng action previous data) (\<lambda>_. one_unresolved)" for previous prepared
    by (cases prepared) (auto simp: none_one intro: execute_triple)
  show ?thesis
    unfolding attempt_def Let_def
    by (rule triple_bind [where R = "\<lambda>_. none_unresolved"], rule tripleI, frule none_unresolved_def [THEN iffD1])
      (auto simp: list_outcome intro!: none bind_same [OF same_journal_prepare] ex simp del: triple_ret ret_apply)
qed

lemma runOnce_triple: "keeps one_unresolved (runOnce fuel eng)"
proof -
  have poll: "triple none_unresolved (poll fuel eng) (\<lambda>_. one_unresolved)"
    unfolding poll_def
    by (rule bind_same [OF same_journal_base(1)])
      (auto simp: none_one intro: attempt_triple split: option.splits)
  have out: "triple one_unresolved (bind_eff (reconcileOutstanding eng) (\<lambda>outstanding. case outstanding of
       Some e \<Rightarrow> ret (RunBlocked (je_actionKey e) (je_status e)) | None \<Rightarrow> poll fuel eng)) (\<lambda>_. one_unresolved)"
    by (rule triple_bind [where R = "\<lambda>x w. one_unresolved w \<and> (x = None \<longrightarrow> none_unresolved w)"],
        rule triple_weaken [OF reconcileOutstanding_triple])
      (auto split: sum.splits option.splits intro: triple_weaken [OF poll])
  have pre: "triple one_unresolved (preflight eng)
      (\<lambda>r w. case r of Inl e \<Rightarrow> one_unresolved w | Inr _ \<Rightarrow> one_unresolved w)"
    by (rule tripleI) (auto simp: one_unresolved_def split: sum.splits
        dest!: same_journalD [OF same_journal_preflight] dest: unresolved_only_cong)
  show ?thesis
    unfolding keeps_def runOnce_def by (rule triple_bind [OF pre out])
qed

end

section \<open>The stores serve the engine\<close>

lemma file_engine_put:
  "ke_put (file_engine pid eng) e (d, fs) =
     (case file_put pid (next_fault fs) e d of (r, d') \<Rightarrow> (as_thrown r, (d', tl fs)))"
  by (simp add: file_engine_def)

definition file_entries :: "file_journal \<Rightarrow> JournalEntry list" where
  "file_entries j = (case file_list (fst j) of Inl _ \<Rightarrow> [] | Inr es \<Rightarrow> es)"

lemma readable_entries: "readable (fst j) \<Longrightarrow> file_list (fst j) = Inr (file_entries j)"
  by (auto simp: file_entries_def file_list_def readable_def is_ok_iff)

interpretation file_keeper: engine_store "file_engine pid eng" file_entries "\<lambda>j. readable (fst j)"
proof
  fix j :: file_journal and e r j'
  assume i: "readable (fst j)"
  show "ke_list (file_engine pid eng) j = (Inr (file_entries j), j)"
    using readable_entries [OF i] by (simp add: file_engine_def as_thrown_def)
  have inv: "readable (snd (file_put pid (next_fault (snd j)) e (fst j)))"
    using file_store.put_inv [OF i, of "(pid, next_fault (snd j))" e] by (simp add: file_put_by_def)
  then show "readable (fst (snd (ke_put (file_engine pid eng) e j)))"
    by (cases j) (auto simp: file_engine_put split: prod.splits)
  assume "ke_put (file_engine pid eng) e j = (r, j')"
  then obtain r1 d where p: "file_put pid (next_fault (snd j)) e (fst j) = (r1, d)"
      and j': "j' = (d, tl (snd j))" "r = as_thrown r1"
    by (cases j) (auto simp: file_engine_put split: prod.splits)
  from i obtain doc where doc: "read_document (fst j) = Inr doc" by (auto simp: readable_def is_ok_iff)
  from file_put_read [OF doc p] file_list_read [OF doc] show
    "set (file_entries j') = insert e {x \<in> set (file_entries j). je_attemptId x \<noteq> je_attemptId e} \<or>
     set (file_entries j') = set (file_entries j) \<and> r \<noteq> Inr ()"
    by (auto simp: file_entries_def j' file_list_read set_next_document)
qed

interpretation memory_keeper: engine_store "memory_engine eng" "\<lambda>j. map snd (mj_entries j)" memory_inv
proof
  fix j e r j'
  assume i: "memory_inv j"
  show "ke_list (memory_engine eng) j = (Inr (map snd (mj_entries j)), j)"
    by (simp add: memory_engine_def as_thrown_def memory_list_def)
  show "memory_inv (snd (ke_put (memory_engine eng) e j))"
    using memory_put_inv [OF i, of e] by (auto simp: memory_engine_def split: prod.splits)
  assume "ke_put (memory_engine eng) e j = (r, j')"
  then obtain r1 where p: "memory_put e j = (r1, j')" and r: "r = as_thrown r1"
    by (auto simp: memory_engine_def split: prod.splits)
  from memory_put_changes [OF i p] r show
    "set (map snd (mj_entries j')) = insert e {x \<in> set (map snd (mj_entries j)). je_attemptId x \<noteq> je_attemptId e} \<or>
     set (map snd (mj_entries j')) = set (map snd (mj_entries j)) \<and> r \<noteq> Inr ()"
    by auto
qed

section \<open>Properties\<close>

lemma count_unresolved:
  assumes "distinct (map je_attemptId es)" and "\<forall>x \<in> set es. unresolved x \<longrightarrow> je_attemptId x = a"
  shows "length (filter unresolved es) \<le> 1"
  using assms
proof (induction es)
  case (Cons x es)
  show ?case
  proof (cases "unresolved x")
    case True
    with Cons.prems have "filter unresolved es = []"
      by (simp add: filter_empty_conv) (metis image_eqI)
    then show ?thesis by simp
  qed (use Cons in auto)
qed simp

lemma unresolved_owner:
  assumes "length (filter unresolved es) \<le> 1"
  shows "\<exists>a. \<forall>x \<in> set es. unresolved x \<longrightarrow> je_attemptId x = a"
proof (cases "filter unresolved es")
  case Nil
  then show ?thesis by (auto simp: filter_empty_conv)
next
  case (Cons y ys)
  with assms have "filter unresolved es = [y]" by simp
  then have "set (filter unresolved es) = {y}" by simp
  then have "\<forall>x \<in> set es. unresolved x \<longrightarrow> x = y" by auto
  then show ?thesis by blast
qed

text \<open>
  C4. Write-ahead: whatever the gateway and the journal do, one poll broadcasts at most one
  transaction, and when it does, the very last thing before the broadcast is a successful journal
  write of a prepared entry with the hash, nonce and call-data hash of this transaction, after a
  balance read that covers the cost of the transaction on top of the configured minimum.
\<close>

theorem broadcast_is_recorded_first:
  "\<exists>new. w_trace (snd (runOnce fuel eng w)) = w_trace w @ new \<and> (no_broadcast new \<or> one_broadcast eng new)"
proof -
  obtain r w' where r: "runOnce fuel eng w = (r, w')" by (cases "runOnce fuel eng w")
  have "quiet_since (w_trace w) w" by (simp add: quiet_since_def)
  from tripleD [OF runOnce_safely this r] show ?thesis
    by (auto simp: broadcasts_safely_def r)
qed

text \<open>
  C5. At most one attempt is ever outstanding: whatever the gateway does, whichever journal
  writes fail, and however many polls run, the journal file stays readable and at most one of its
  entries is unresolved.
\<close>

theorem at_most_one_outstanding_attempt:
  assumes "file_list (fst (w_journal w)) = Inr es" and "length (filter unresolved es) \<le> 1"
  shows "\<exists>es'. file_list (fst (w_journal (iterate_eff n (runOnce fuel (file_engine pid eng)) w))) = Inr es' \<and>
    length (filter unresolved es') \<le> 1"
proof -
  have i: "readable (fst (w_journal w))" using assms(1) by (auto simp: file_list_def readable_def bind_result_Inr)
  with assms(1) have "file_entries (w_journal w) = es" by (simp add: file_entries_def)
  with i unresolved_owner [OF assms(2)] have "file_keeper.one_unresolved w"
    by (auto simp: file_keeper.one_unresolved_def file_keeper.unresolved_only_def)
  then have "file_keeper.one_unresolved (iterate_eff n (runOnce fuel (file_engine pid eng)) w)"
    by (rule keeps_iterate [OF file_keeper.runOnce_triple])
  then obtain a where r: "readable (fst (w_journal (iterate_eff n (runOnce fuel (file_engine pid eng)) w)))"
    and a: "\<forall>x \<in> set (file_entries (w_journal (iterate_eff n (runOnce fuel (file_engine pid eng)) w))).
      unresolved x \<longrightarrow> je_attemptId x = a"
    by (auto simp: file_keeper.one_unresolved_def file_keeper.unresolved_only_def)
  from file_store.list_ok [OF r] readable_entries [OF r] count_unresolved [OF _ a] show ?thesis by auto
qed

theorem at_most_one_outstanding_attempt_witness:
  "\<exists>es'. file_list (fst (w_journal (iterate_eff 4 (runOnce 9 (file_engine 1 demo_engine)) (demo_world False demo_disk))))
     = Inr es' \<and> length (filter unresolved es') \<le> 1"
  by (rule at_most_one_outstanding_attempt [of _ "[demo_entry]"]) (simp_all add: demo_world_def demo_disk_list)

end
