(* ===== verification/Engine_Progress.thy ===== *)
theory Engine_Progress
  imports Engine_Safety
begin

text \<open>
  What a reconciliation needs before it releases an attempt, why the journal never refuses the
  engine's own writes, and that a poll ends.
\<close>

section \<open>Evidence for a reconciliation\<close>

text \<open>
  The result of a reconciliation is the entry itself, or an update of it that was recorded last.
\<close>

lemma record_update_ok:
  assumes "record_update eng e st opts w = (Inr e', w')"
  shows "\<exists>t. e' = updateEntry e st t opts \<and> w_trace w' = w_trace w @ [EvPut e' True]"
  using assms unfolding record_update_def
  by (auto simp: bind_eff_Inr dest!: now_ms_journal journal_put_trace)

lemma on_chain_ok: "on_chain m w = (Inr a, w') \<Longrightarrow> m (w_chain w) = (Inr a, w_chain w')"
  by (auto simp: on_chain_def split: prod.splits sum.splits)

lemma unresolved_simps [simp]:
  "unresolved (updateEntry e st t opts) \<longleftrightarrow> st \<in> {Prepared, Submitted, Confirmed, Unknown, Reverted}"
  "je_status (updateEntry e st t opts) = st"
  by (auto simp: unresolved_def unresolvedStatuses_def updateEntry_def)

text \<open>
  What was observed when an attempt is released: a final receipt of success for an action that is
  not required any more; an action that is not required any more; or a confirmed transaction that
  the chain no longer knows.
\<close>

definition released_by_receipt :: "('j, 'c) KeeperEngine \<Rightarrow> ReceiptView option \<Rightarrow> bool \<Rightarrow> bool" where
  "released_by_receipt eng receipt required \<longleftrightarrow> \<not> required \<and>
     (\<exists>r. receipt = Some r \<and> rv_status r = Some 1 \<and> ke_confirmations eng \<le> rv_confirmations r)"

lemma reconcile_receipt_evidence:
  assumes "reconcile_receipt eng e required r w = (Inr e', w')" and "\<not> unresolved e'"
  shows "\<not> required \<and> (je_status e' = Reconciled \<and> released_by_receipt eng (Some r) required \<or> je_status e' = Obsolete)"
  using assms unfolding reconcile_receipt_def
  by (auto simp: released_by_receipt_def split: if_splits dest!: record_update_ok)

lemma reconcile_missing_evidence:
  assumes "reconcile_missing eng e required w = (Inr e', w')" and "unresolved e" and "\<not> unresolved e'"
  shows "\<not> required \<and> je_status e' = Obsolete \<or>
    required \<and> je_status e' = Reorged \<and> je_status e = Confirmed \<and>
      (\<exists>c. gw_getTransaction (ke_gateway eng) (je_txHash e) (w_chain w) = (Inr None, c))"
proof -
  from assms(1) obtain tx w1 where t: "on_chain (gw_getTransaction (ke_gateway eng) (je_txHash e)) w = (Inr tx, w1)"
    unfolding reconcile_missing_def bind_eff_Inr by blast
  show ?thesis
    using assms on_chain_ok [OF t] unfolding reconcile_missing_def
    by (cases tx) (auto simp: bind_eff_Inr t split: if_splits dest!: record_update_ok)
qed

text \<open>
  An attempt is released, so that its action may be tried again, only on evidence: either
  the chain state read after the receipt no longer requires the action, and the entry is marked
  reconciled only with a successful receipt of enough confirmations; or the entry was confirmed,
  and now neither a receipt nor the transaction is known.
\<close>

theorem attempt_released_only_on_evidence:
  assumes "reconcileEntry eng e w = (Inr e', w')" and "unresolved e" and "\<not> unresolved e'"
  shows "\<exists>receipt c1 snapshot c2.
    gw_getReceipt (ke_gateway eng) (je_txHash e) (w_chain w) = (Inr receipt, c1) \<and>
    gw_readSnapshot (ke_gateway eng) (Some (read_hint (je_action e) (je_vault e) (je_account e) (BigInt (je_roundId e)))) c1
      = (Inr snapshot, c2) \<and>
    (\<not> is_required snapshot e \<and> je_status e' = Obsolete \<or>
     je_status e' = Reconciled \<and> released_by_receipt eng receipt (is_required snapshot e) \<or>
     je_status e' = Reorged \<and> je_status e = Confirmed \<and> receipt = None \<and>
       (\<exists>c3. gw_getTransaction (ke_gateway eng) (je_txHash e) c2 = (Inr None, c3)))"
proof -
  from assms(1) obtain receipt w1 snapshot w2 where
    r: "on_chain (gw_getReceipt (ke_gateway eng) (je_txHash e)) w = (Inr receipt, w1)"
    and s: "on_chain (gw_readSnapshot (ke_gateway eng)
        (Some (read_hint (je_action e) (je_vault e) (je_account e) (BigInt (je_roundId e))))) w1 = (Inr snapshot, w2)"
    and m: "(if je_status e = Unknown \<or> je_status e = Reverted
     then (if is_required snapshot e then ret e
           else record_update eng e Obsolete (error_option ''STATE_ADVANCED_EXTERNALLY''))
     else case receipt of
       Some r \<Rightarrow> reconcile_receipt eng e (is_required snapshot e) r
     | None \<Rightarrow> reconcile_missing eng e (is_required snapshot e)) w2 = (Inr e', w')"
    unfolding reconcileEntry_def Let_def bind_eff_Inr by blast
  have "\<not> is_required snapshot e \<and> je_status e' = Obsolete \<or>
     je_status e' = Reconciled \<and> released_by_receipt eng receipt (is_required snapshot e) \<or>
     je_status e' = Reorged \<and> je_status e = Confirmed \<and> receipt = None \<and>
       (\<exists>c3. gw_getTransaction (ke_gateway eng) (je_txHash e) (w_chain w2) = (Inr None, c3))"
  proof (cases "je_status e = Unknown \<or> je_status e = Reverted")
    case True
    with m assms(2,3) show ?thesis
      by (auto simp: split: if_splits dest!: record_update_ok)
  next
    case False
    with m assms(2,3) show ?thesis
      by (cases receipt) (auto dest: reconcile_receipt_evidence reconcile_missing_evidence)
  qed
  with on_chain_ok [OF r] on_chain_ok [OF s] show ?thesis by blast
qed

section \<open>Termination of a poll\<close>

text \<open>
  Documented behaviour of the clock and of \<open>setTimeout\<close>: \<open>T\<close> is the time of a chain-side state; no
  call moves it back, a reading lies between the time before and after it, and a sleep lasts at
  least as long as asked.
\<close>

definition later :: "('c \<Rightarrow> int) \<Rightarrow> (thrown, 'c, 'a) eff \<Rightarrow> bool" where
  "later T m \<longleftrightarrow> (\<forall>c. T c \<le> T (snd (m c)))"

definition clock_ok :: "('j, 'c) KeeperEngine \<Rightarrow> ('c \<Rightarrow> int) \<Rightarrow> bool" where
  "clock_ok eng T \<longleftrightarrow>
     (\<forall>c. T c \<le> fst (ke_now eng c) \<and> fst (ke_now eng c) \<le> T (snd (ke_now eng c))) \<and>
     (\<forall>ms c. T c + ms \<le> T (ke_sleep eng ms c)) \<and>
     (\<forall>h. later T (gw_getReceipt (ke_gateway eng) h)) \<and>
     (\<forall>h. later T (gw_readSnapshot (ke_gateway eng) h)) \<and>
     (\<forall>h. later T (gw_getTransaction (ke_gateway eng) h)) \<and>
     (\<forall>b. later T (gw_getTransactionCount (ke_gateway eng) b))"

text \<open>Time does not go back and the fuel error does not occur.\<close>

definition ticks :: "('c \<Rightarrow> int) \<Rightarrow> ('j, 'c, 'a) engine_op \<Rightarrow> bool" where
  "ticks T m \<longleftrightarrow> (\<forall>w. T (w_chain w) \<le> T (w_chain (snd (m w))) \<and> fst (m w) \<noteq> Inl OutOfFuel)"

lemma ticks_on_chain: "later T m \<Longrightarrow> ticks T (on_chain m)"
  unfolding ticks_def later_def on_chain_def
  by (auto split: prod.splits sum.splits) (metis snd_conv)+

lemma ticks_now: "clock_ok eng T \<Longrightarrow> ticks T (now_ms eng)"
  unfolding ticks_def clock_ok_def now_ms_def by (auto split: prod.splits) (metis fst_conv order_trans snd_conv)

lemma ticks_put: "ticks T (journal_put eng e)"
  by (auto simp: ticks_def journal_put_def split: prod.splits sum.splits)

lemma ticks_bind:
  assumes "ticks T m" and "\<And>a. ticks T (f a)" shows "ticks T (bind_eff m f)"
  unfolding ticks_def
proof
  fix w
  obtain r w1 where m: "m w = (r, w1)" by (cases "m w")
  have 1: "T (w_chain w) \<le> T (w_chain w1)" "r \<noteq> Inl OutOfFuel"
    using assms(1) m unfolding ticks_def by (metis fst_conv snd_conv)+
  show "T (w_chain w) \<le> T (w_chain (snd (bind_eff m f w))) \<and> fst (bind_eff m f w) \<noteq> Inl OutOfFuel"
  proof (cases r)
    case (Inr a)
    with 1 m assms(2) [of a] show ?thesis
      unfolding ticks_def by (auto simp: bind_eff_apply intro: order_trans)
  qed (use 1 m in \<open>auto simp: bind_eff_apply\<close>)
qed

lemma ticks_ret: "ticks T (ret a)"
  by (simp add: ticks_def)

lemma ticks_if: "(b \<Longrightarrow> ticks T m) \<Longrightarrow> (\<not> b \<Longrightarrow> ticks T m') \<Longrightarrow> ticks T (if b then m else m')"
  by simp

lemma ticks_case_option:
  "(x = None \<Longrightarrow> ticks T m) \<Longrightarrow> (\<And>a. x = Some a \<Longrightarrow> ticks T (f a)) \<Longrightarrow> ticks T (case x of None \<Rightarrow> m | Some a \<Rightarrow> f a)"
  by (cases x) auto

lemma ticks_record_update: "clock_ok eng T \<Longrightarrow> ticks T (record_update eng e st opts)"
  unfolding record_update_def by (intro ticks_bind ticks_now ticks_put ticks_ret)

lemma ticks_reconcileEntry:
  assumes "clock_ok eng T" shows "ticks T (reconcileEntry eng e)"
proof -
  have "ticks T (on_chain (gw_getReceipt (ke_gateway eng) h))" "ticks T (on_chain (gw_readSnapshot (ke_gateway eng) i))"
    "ticks T (on_chain (gw_getTransaction (ke_gateway eng) h))" "ticks T (on_chain (gw_getTransactionCount (ke_gateway eng) b))"
    for h i b
    using assms by (auto simp: clock_ok_def intro!: ticks_on_chain)
  then show ?thesis
    unfolding reconcileEntry_def reconcile_receipt_def reconcile_missing_def Let_def
    by (intro ticks_bind ticks_if ticks_case_option ticks_ret ticks_record_update assms ticks_now) auto
qed

lemma wait_loop_ends:
  assumes "clock_ok eng T" and "0 < ke_receiptPollMs eng" and "deadline - T (w_chain w) < int fuel" and "0 < fuel"
  shows "fst (wait_loop eng deadline fuel e w) \<noteq> Inl OutOfFuel"
  using assms(3,4)
proof (induction fuel arbitrary: e w)
  case (Suc fuel)
  obtain r1 w1 where r: "reconcileEntry eng e w = (r1, w1)" by (cases "reconcileEntry eng e w")
  have 1: "T (w_chain w) \<le> T (w_chain w1)" "r1 \<noteq> Inl OutOfFuel"
    using ticks_reconcileEntry [OF assms(1), of e] r unfolding ticks_def by (metis fst_conv snd_conv)+
  show ?case
  proof (cases r1)
    case (Inr e')
    obtain t c where n: "ke_now eng (w_chain w1) = (t, c)" by (cases "ke_now eng (w_chain w1)")
    have 2: "T (w_chain w1) \<le> t" "t \<le> T c"
      using assms(1) n unfolding clock_ok_def by (metis fst_conv snd_conv)+
    have 3: "T c + ke_receiptPollMs eng \<le> T (ke_sleep eng (ke_receiptPollMs eng) c)"
      using assms(1) unfolding clock_ok_def by blast
    let ?w = "w1\<lparr>w_chain := ke_sleep eng (ke_receiptPollMs eng) c\<rparr>"
    have "deadline - T (w_chain ?w) < int fuel" using Suc.prems(1) 1(1) 2 3 assms(2) by simp
    moreover have "0 < fuel" if "t < deadline" using that Suc.prems(1) 1(1) 2 by linarith
    ultimately show ?thesis
      using r Inr n Suc.IH [of ?w e'] by (auto simp: bind_eff_apply now_ms_def sleep_ms_def)
  qed (use r 1 in \<open>simp add: bind_eff_apply\<close>)
qed simp

text \<open>
  The other steps of a poll cannot run out of fuel, whatever their environment does.
\<close>

definition fueled :: "('j, 'c, 'a) engine_op \<Rightarrow> bool" where
  "fueled m \<longleftrightarrow> (\<forall>w. fst (m w) \<noteq> Inl OutOfFuel)"

lemma fueled_base:
  "fueled (on_chain m)" "fueled (now_ms eng)" "fueled (emit ev)" "fueled (journal_put eng e)"
  "fueled (journal_list eng)" "fueled (ret a)"
  by (auto simp: fueled_def on_chain_def now_ms_def emit_def journal_put_def journal_list_def
      split: prod.splits sum.splits)

lemma fueled_throw: "e \<noteq> OutOfFuel \<Longrightarrow> fueled (throw e)"
  by (simp add: fueled_def)

lemma fueled_bind: "fueled m \<Longrightarrow> (\<And>a. fueled (f a)) \<Longrightarrow> fueled (bind_eff m f)"
  unfolding fueled_def by (auto simp: bind_eff_apply split: prod.splits sum.splits) (metis fst_conv)

lemma fueled_if: "(b \<Longrightarrow> fueled m) \<Longrightarrow> (\<not> b \<Longrightarrow> fueled m') \<Longrightarrow> fueled (if b then m else m')"
  by simp

lemma fueled_case_option:
  "(x = None \<Longrightarrow> fueled m) \<Longrightarrow> (\<And>a. x = Some a \<Longrightarrow> fueled (f a)) \<Longrightarrow> fueled (case x of None \<Rightarrow> m | Some a \<Rightarrow> f a)"
  by (cases x) auto

lemma fueled_case_sum:
  "(\<And>e. x = Inl e \<Longrightarrow> fueled (g e)) \<Longrightarrow> (\<And>a. x = Inr a \<Longrightarrow> fueled (f a)) \<Longrightarrow> fueled (case x of Inl e \<Rightarrow> g e | Inr a \<Rightarrow> f a)"
  by (cases x) auto

lemmas fueled_rules = fueled_base fueled_bind fueled_if fueled_case_option fueled_case_sum fueled_throw

text \<open>A handler rethrows what it caught, so the body matters too.\<close>

lemma fueled_catch: "fueled m \<Longrightarrow> (\<And>e. e \<noteq> OutOfFuel \<Longrightarrow> fueled (h e)) \<Longrightarrow> fueled (catch_eff m h)"
  unfolding fueled_def by (auto simp: catch_eff_apply split: prod.splits sum.splits) (metis fst_conv)

lemma fueled_record_update: "fueled (record_update eng e st opts)"
  unfolding record_update_def by (intro fueled_rules)

lemma fueled_reconcileEntry: "fueled (reconcileEntry eng e)"
  unfolding reconcileEntry_def reconcile_receipt_def reconcile_missing_def Let_def
  by (intro fueled_rules fueled_record_update)

lemma fueled_reconcileOutstanding: "fueled (reconcileOutstanding eng)"
proof -
  have "fueled (reconcile_first eng es)" for es
    by (induction es) (unfold reconcile_first.simps, (intro fueled_rules fueled_reconcileEntry | assumption)+)
  then show ?thesis unfolding reconcileOutstanding_def by (intro fueled_rules)
qed

lemma fueled_preflight: "fueled (preflight eng)"
  unfolding preflight_def read_chain_id_def read_balance_def by (intro fueled_rules) auto

lemma fueled_prepare: "fueled (prepare_call eng action)"
  unfolding prepare_call_def by (intro fueled_catch fueled_rules)

lemma fueled_check_cost: "fueled (check_cost eng tx)"
  unfolding check_cost_def read_balance_def by (intro fueled_rules) auto

lemma fueled_submit: "fueled (submit eng e tx)"
proof -
  have f: "fueled (broadcast_failed eng e' err)" for e' err
    unfolding broadcast_failed_def by (intro fueled_rules fueled_record_update)
  have "fueled (bind_eff (now_ms eng) (\<lambda>t. let submitted = updateEntry e Submitted t no_options in
      catch_eff (bind_eff (journal_put eng submitted) (\<lambda>_. ret (Some submitted)))
        (broadcast_failed eng submitted)))"
    unfolding Let_def by (intro fueled_catch fueled_rules f)
  with f show ?thesis unfolding fueled_def submit_def by (simp split: prod.splits sum.splits)
qed

lemma fueled_wait:
  fixes eng :: "('j, 'c) KeeperEngine"
  assumes "clock_ok eng T" and "0 < ke_receiptPollMs eng" and "ke_receiptWaitMs eng < int fuel" and "0 < fuel"
  shows "fueled (waitAndReconcile fuel eng e)"
  unfolding fueled_def
proof
  fix w :: "('j, 'c) world"
  obtain t c where n: "ke_now eng (w_chain w) = (t, c)" by (cases "ke_now eng (w_chain w)")
  have "t \<le> T c" using assms(1) n unfolding clock_ok_def by (metis fst_conv snd_conv)
  then have "t + ke_receiptWaitMs eng - T (w_chain (w\<lparr>w_chain := c\<rparr>)) < int fuel" using assms(3) by simp
  from wait_loop_ends [OF assms(1,2) this assms(4)] show "fst (waitAndReconcile fuel eng e w) \<noteq> Inl OutOfFuel"
    by (simp add: waitAndReconcile_def bind_eff_apply now_ms_def n)
qed

text \<open>
  C38. A poll ends: with a clock that advances by at least the time slept, and a positive poll
  interval, more loop iterations than the receipt wait has milliseconds are never needed.
\<close>

theorem poll_terminates:
  assumes "clock_ok eng T" and "0 < ke_receiptPollMs eng" and "ke_receiptWaitMs eng < int fuel" and "0 < fuel"
  shows "fst (runOnce fuel eng w) \<noteq> Inl OutOfFuel"
proof -
  have "fueled (execute fuel eng action previous data)" for action previous data
    unfolding execute_def Let_def
    by (intro fueled_rules fueled_check_cost fueled_submit fueled_wait [OF assms])
  then have "fueled (poll fuel eng)"
    unfolding poll_def attempt_def Let_def by (intro fueled_rules fueled_prepare) auto
  then have "fueled (runOnce fuel eng)"
    unfolding runOnce_def by (intro fueled_rules fueled_preflight fueled_reconcileOutstanding)
  then show ?thesis by (simp add: fueled_def)
qed

section \<open>The journal accepts the engine's writes\<close>

lemma next_document_update:
  assumes "journalDocumentSchema j" and "e \<in> set (jd_entries j)" and "options_ok opts"
  shows "journalDocumentSchema (next_document j (updateEntry e st t opts))"
proof -
  let ?u = "updateEntry e st t opts" and ?rest = "filter (\<lambda>x. je_attemptId x \<noteq> je_attemptId e) (jd_entries j)"
  have id: "je_attemptId ?u = je_attemptId e" "je_txHash ?u = je_txHash e"
      "je_replayOfAttemptId ?u = je_replayOfAttemptId e"
    by (simp_all add: updateEntry_def)
  have entries: "jd_entries (next_document j ?u) = ?rest @ [?u]" by (simp add: next_document_def id)
  have dist: "distinct (map je_attemptId (jd_entries j))"
      "distinct (map (\<lambda>e. toLowerCase (je_txHash e)) (jd_entries j))"
    using assms(1) by (simp_all add: journalDocumentSchema_def)
  have "toLowerCase (je_txHash x) \<noteq> toLowerCase (je_txHash e)" if "x \<in> set ?rest" for x
    using distinct_map_inject [OF dist(2), of x e] that assms(2) by auto
  then have d: "distinct (map (\<lambda>e. toLowerCase (je_txHash e)) (?rest @ [?u]))"
    using dist(2) by (force simp: id distinct_map_filter)
  have "je_attemptId ` set (jd_entries j) \<subseteq> je_attemptId ` set (?rest @ [?u])"
    using id(1) by auto
  then have p: "opt_ok (\<lambda>p. list_ex (\<lambda>c. je_attemptId c = p) (?rest @ [?u])) (je_replayOfAttemptId x)"
    if "x \<in> set (jd_entries j)" for x
    using that assms(1)
    by (cases "je_replayOfAttemptId x") (force simp: journalDocumentSchema_def list_all_iff list_ex_iff)+
  have "journalEntrySchema ?u"
    using assms by (intro updateEntry_schema) (auto simp: journalDocumentSchema_def list_all_iff)
  then show ?thesis
    using assms(1,2) d p dist(1)
    unfolding journalDocumentSchema_def entries
    by (auto simp: list_all_iff id distinct_map_filter next_document_def)
qed

lemma update_accepted:
  assumes "file_list d = Inr es" and "e \<in> set es" and "options_ok opts" and "dk_temporary d pid = None"
  shows "\<exists>d'. file_put pid None (updateEntry e st t opts) d = (Inr (), d')"
proof -
  let ?u = "updateEntry e st t opts"
  from assms(1) obtain j where j: "read_document d = Inr j" "jd_entries j = es"
    by (auto simp: file_list_def bind_result_Inr)
  have ok: "journalDocumentSchema j" by (rule read_document_schema [OF j(1)])
  have "journalDocumentSchema (next_document j ?u)"
    using next_document_update [OF ok _ assms(3)] assms(2) j(2) by simp
  moreover have "journalEntrySchema ?u"
    using ok assms(2,3) j(2) by (intro updateEntry_schema) (auto simp: journalDocumentSchema_def list_all_iff)
  moreover have "find_attempt (je_attemptId ?u) es = Some e"
    unfolding find_attempt_def using assms(2) schema_distinct [OF ok] j(2)
    by (intro find_unique) (auto simp: updateEntry_def dest: distinct_map_inject)
  then have "check_previous (find_attempt (je_attemptId ?u) (jd_entries j)) ?u = Inr ()"
    by (simp add: check_previous_def assertAppendOnlyUpdate_ok updateEntry_append_only j(2))
  ultimately show ?thesis
    using j(1) assms(4)
    by (simp add: file_put_def bind_eff_apply parseEntry_def parseJournal_def write_document_ok)
qed

text \<open>
  The journal never refuses an update of the engine: for any recorded entry, any status and
  any options the engine builds, the file store accepts the updated entry when no call fails.
\<close>

theorem engine_update_is_accepted:
  assumes "file_list d = Inr es" and "e \<in> set es" and "options_ok opts" and "dk_temporary d pid = None"
  shows "\<exists>d'. file_put pid None (updateEntry e st t opts) d = (Inr (), d')"
  using assms by (rule update_accepted)

text \<open>What a snapshot read from the chain looks like.\<close>

definition vault_printable :: "VaultSnapshot \<Rightarrow> bool" where
  "vault_printable v \<longleftrightarrow> hex_string 40 (vc_address (vs_vault v)) \<and> vc_name (vs_vault v) \<noteq> [] \<and>
     (\<forall>r \<in> set (vs_rounds v). 0 \<le> rs_roundId r \<and> 0 \<le> rs_selectionCursor r \<and> 0 \<le> rs_allocationCursor r) \<and>
     (\<forall>c \<in> set (vs_autoEntryCandidates v). hex_string 40 (ae_account c))"

definition action_printable :: "LifecycleAction \<Rightarrow> bool" where
  "action_printable a \<longleftrightarrow> la_key a \<noteq> [] \<and> hex_string 40 (vc_address (la_vault a)) \<and> vc_name (la_vault a) \<noteq> [] \<and>
     0 \<le> la_roundId a \<and> cursorAction (la_kind a) = (la_cursor a \<noteq> None) \<and> opt_ok (\<lambda>c. 0 \<le> c) (la_cursor a) \<and>
     accountAction (la_kind a) = (la_account a \<noteq> None) \<and> opt_ok (hex_string 40) (la_account a)"

lemma created_printable:
  assumes "vault_printable v" and "r \<in> set (vs_rounds v)" and "cursorAction k = (c \<noteq> None)"
    and "opt_ok (\<lambda>c. 0 \<le> c) c" and "accountAction k = (acc \<noteq> None)" and "opt_ok (hex_string 40) acc"
  shows "action_printable (createAction v r k ver c acc)"
  using assms by (auto simp: action_printable_def vault_printable_def createAction_def actionKey_def)

lemma actionForRound_printable:
  assumes "vault_printable v" and "r \<in> set (vs_rounds v)" and "actionForRound v r = Some a"
  shows "action_printable a"
proof -
  have "0 \<le> rs_selectionCursor r" "0 \<le> rs_allocationCursor r" using assms(1,2) by (auto simp: vault_printable_def)
  with assms(3) show ?thesis
    by (cases "rs_state r")
      (auto simp: actionForRound_def cursorAction_def accountAction_def intro!: created_printable assms(1,2))
qed

lemma planned_action_printable:
  assumes "\<forall>v \<in> set (ps_vaults s). vault_printable v" and "planNextAction s = Some a"
  shows "action_printable a"
  using assms(2)
proof (cases rule: planNextAction_cases)
  case (Closure v)
  with assms(1) show ?thesis
    by (auto simp: dueClosure_Some cursorAction_def accountAction_def intro!: created_printable dest!: findRound_SomeD)
next
  case (Entry v)
  have v: "vault_printable v" using assms(1) Entry(2) by blast
  from Entry(3) show ?thesis
    by (cases rule: entryAction_Some)
      (use v in \<open>auto simp: cursorAction_def accountAction_def vault_printable_def
        intro!: created_printable dest!: findRound_SomeD\<close>)
next
  case (Settlement v)
  with assms(1) show ?thesis by (auto elim!: settlementAction_Some intro: actionForRound_printable)
qed

lemma prepared_schema:
  assumes "action_printable a" and "hashSchema h" and "hashSchema ch" and "nonnegative_int n"
    and "opt_ok (\<lambda>s. s \<noteq> []) parent"
  shows "journalEntrySchema (journalEntryForPrepared a h n ch t parent)"
proof -
  have "opt_ok decimal_string (map_option int_to_string (la_cursor a))"
    using assms(1) by (cases "la_cursor a") (auto simp: action_printable_def decimal_string_int_to_string)
  moreover have "decimal_string (int_to_string (la_roundId a))"
    using assms(1) by (simp add: action_printable_def decimal_string_int_to_string)
  ultimately show ?thesis
    using assms
    by (auto simp: journalEntrySchema_def entry_fields_ok_def entry_refinement_ok_def action_printable_def
        journalEntryForPrepared_def attempt_id_def journalTransitionSchema_def last_opt_def)
qed

text \<open>
  What the planner plans can be recorded: for an action planned from a snapshot of the
  chain and a signed transaction whose hash is new to the journal, the file store accepts the
  prepared entry, with or without a recorded earlier attempt as its parent.
\<close>

theorem planned_action_is_recordable:
  assumes "\<forall>v \<in> set (ps_vaults s). vault_printable v" and "planNextAction s = Some a"
    and "hashSchema h" and "hashSchema ch" and "nonnegative_int n"
    and "file_list d = Inr es" and "dk_temporary d pid = None"
    and "\<forall>e \<in> set es. toLowerCase (je_txHash e) \<noteq> toLowerCase h"
    and "opt_ok (\<lambda>p. p \<in> set es) previous"
  shows "\<exists>d'. file_put pid None (journalEntryForPrepared a h n ch t (map_option je_attemptId previous)) d = (Inr (), d')"
proof -
  let ?e = "journalEntryForPrepared a h n ch t (map_option je_attemptId previous)"
  from assms(6) obtain j where j: "read_document d = Inr j" "jd_entries j = es"
    by (auto simp: file_list_def bind_result_Inr)
  have ok: "journalDocumentSchema j" by (rule read_document_schema [OF j(1)])
  have es: "journalEntrySchema x" if "x \<in> set es" for x
    using that ok j(2) by (auto simp: journalDocumentSchema_def list_all_iff)
  have "je_attemptId x \<noteq> []" if "x \<in> set es" for x
    using es [OF that] by (simp add: journalEntrySchema_def entry_fields_ok_def)
  then have e: "journalEntrySchema ?e"
    using assms(9) by (intro prepared_schema planned_action_printable [OF assms(1,2)] assms(3-5))
      (cases previous; auto)
  have new: "je_attemptId x \<noteq> je_attemptId ?e" if "x \<in> set es" for x
  proof
    assume eq: "je_attemptId x = je_attemptId ?e"
    have "je_attemptId x = attempt_id (je_actionKey x) (je_txHash x)" "hashSchema (je_txHash x)"
      using es [OF that] by (simp_all add: journalEntrySchema_def entry_refinement_ok_def entry_fields_ok_def)
    with eq assms(3) have "drop (length (je_attemptId x) - 66) (je_attemptId x) = toLowerCase (je_txHash x)"
        "drop (length (je_attemptId x) - 66) (je_attemptId x) = toLowerCase h"
      by (auto simp: attempt_id_def journalEntryForPrepared_def hashSchema_def hex_string_def)
    with assms(8) that show False by auto
  qed
  then have f: "filter (\<lambda>c. je_attemptId c \<noteq> je_attemptId ?e) es = es" by (auto simp: filter_id_conv)
  then have n: "jd_entries (next_document j ?e) = es @ [?e]" by (simp add: next_document_def j(2))
  have p: "je_replayOfAttemptId ?e = map_option je_attemptId previous" "je_txHash ?e = h"
    by (simp_all add: journalEntryForPrepared_def)
  have parents: "opt_ok (\<lambda>p. list_ex (\<lambda>c. je_attemptId c = p) (es @ [?e])) (je_replayOfAttemptId x)" if "x \<in> set es" for x
    using that ok j(2)
    by (cases "je_replayOfAttemptId x") (auto simp: journalDocumentSchema_def list_all_iff)
  have "opt_ok (\<lambda>p. list_ex (\<lambda>c. je_attemptId c = p) (es @ [?e])) (je_replayOfAttemptId ?e)"
    unfolding p using assms(9) by (cases previous) (auto simp: list_ex_iff)
  moreover have "distinct (map je_attemptId (es @ [?e]))"
    using ok new unfolding journalDocumentSchema_def j(2) by (auto dest!: sym [of "je_attemptId ?e"])
  moreover have "distinct (map (\<lambda>e. toLowerCase (je_txHash e)) (es @ [?e]))"
    using ok assms(8) unfolding journalDocumentSchema_def j(2) by (auto simp: p(2))
  moreover have "jd_checkpoints (next_document j ?e) [] = None"
    using ok by (simp add: journalDocumentSchema_def next_document_def)
  ultimately have "journalDocumentSchema (next_document j ?e)"
    using parents es e unfolding journalDocumentSchema_def n by (simp add: list_all_iff)
  moreover have "find_attempt (je_attemptId ?e) es = None"
    using new by (auto simp: find_attempt_def find_None_iff)
  ultimately show ?thesis
    using j e assms(7)
    by (simp add: file_put_def bind_eff_apply parseEntry_def parseJournal_def check_previous_def write_document_ok)
qed

text \<open>
  A recorded transaction is never recorded, and hence never broadcast, a second time: while
  the journal holds a resolved entry for a transaction hash, a prepared entry with the same hash
  is refused, whatever its action.
\<close>

theorem recorded_hash_is_never_replayed:
  assumes "file_list d = Inr es" and "e \<in> set es" and "\<not> unresolved e"
    and "toLowerCase (je_txHash e) = toLowerCase h"
  shows "fst (file_put pid fault (journalEntryForPrepared a h n ch t parent) d) \<noteq> Inr ()"
proof
  let ?p = "journalEntryForPrepared a h n ch t parent"
  assume ok: "fst (file_put pid fault ?p d) = Inr ()"
  obtain r d' where p: "file_put pid fault ?p d = (r, d')" by (cases "file_put pid fault ?p d")
  from p show False
  proof (cases rule: file_put_cases)
    case (refused err)
    with ok p show False by simp
  next
    case (written j)
    from assms(1) written(1) have es: "jd_entries j = es" by (simp add: file_list_def)
    have s: "journalDocumentSchema j" by (rule read_document_schema [OF written(1)])
    show False
    proof (cases "je_attemptId e = je_attemptId ?p")
      case True
      have "append_only e ?p"
        by (rule find_attempt_previous [OF written(4)]) (use assms(2) es True schema_distinct [OF s] in auto)
      then have "prefix (je_history e) (je_history ?p)" by (simp add: append_only_def)
      moreover from s assms(2) es have v: "journalEntrySchema e"
        by (auto simp: journalDocumentSchema_def list_all_iff)
      ultimately have "je_history e = je_history ?p"
        by (auto simp: journalEntryForPrepared_def journalEntrySchema_def entry_fields_ok_def prefix_Cons)
      with v have "je_status e = Prepared"
        by (simp add: journalEntrySchema_def entry_refinement_ok_def journalEntryForPrepared_def last_opt_def)
      with assms(3) show False by (simp add: unresolved_def unresolvedStatuses_def)
    next
      case False
      with assms(2) es have "e \<in> set (jd_entries (next_document j ?p))" "?p \<in> set (jd_entries (next_document j ?p))"
        by (auto simp: set_next_document)
      moreover have "toLowerCase (je_txHash e) = toLowerCase (je_txHash ?p)"
        using assms(4) by (simp add: journalEntryForPrepared_def)
      moreover have "distinct (map (\<lambda>e. toLowerCase (je_txHash e)) (jd_entries (next_document j ?p)))"
        using written(3) by (simp add: journalDocumentSchema_def)
      ultimately have "e = ?p" by (auto dest: distinct_map_inject)
      with False show False by simp
    qed
  qed
qed

section \<open>A due action is broadcast\<close>

definition returns :: "('e, 's, 'a) eff \<Rightarrow> 'a \<Rightarrow> bool" where
  "returns m x \<longleftrightarrow> (\<forall>c. \<exists>c'. m c = (Inr x, c'))"

lemma returns_on_chain:
  assumes "returns m x" shows "\<exists>w'. on_chain m w = (Inr x, w') \<and> w_journal w' = w_journal w"
proof -
  from assms obtain c' where "m (w_chain w) = (Inr x, c')" unfolding returns_def by blast
  then show ?thesis by (simp add: on_chain_def)
qed

lemma returns_bind:
  assumes "returns m x"
  shows "\<exists>w'. bind_eff (on_chain m) f w = f x w' \<and> w_journal w' = w_journal w"
proof -
  from returns_on_chain [OF assms, of w] obtain w' where "on_chain m w = (Inr x, w')" "w_journal w' = w_journal w"
    by blast
  then show ?thesis by (auto simp: bind_eff_apply)
qed

lemma read_chain_id_returns:
  assumes "returns (gw_getChainId (ke_gateway eng)) i"
  shows "\<exists>w'. read_chain_id eng w = (Inr i, w') \<and> w_journal w' = w_journal w"
  using returns_on_chain [OF assms, of w] by (auto simp: read_chain_id_def bind_eff_apply emit_def)

lemma read_balance_returns:
  assumes "returns (gw_getKeeperBalance (ke_gateway eng)) b"
  shows "\<exists>w'. read_balance eng w = (Inr b, w') \<and> w_journal w' = w_journal w"
  using returns_on_chain [OF assms, of w] by (auto simp: read_balance_def bind_eff_apply emit_def)

text \<open>A gateway and a journal that work, for one planned action.\<close>

definition cooperative :: "('j, 'c) KeeperEngine \<Rightarrow> int \<Rightarrow> ProtocolSnapshot \<Rightarrow> LifecycleAction \<Rightarrow> string \<Rightarrow> SignedLifecycleTransaction \<Rightarrow> bool" where
  "cooperative eng b s a data tx \<longleftrightarrow>
     returns (gw_getChainId (ke_gateway eng)) SEPOLIA_CHAIN_ID \<and>
     returns (gw_getKeeperBalance (ke_gateway eng)) b \<and>
     returns (gw_readSnapshot (ke_gateway eng) None) s \<and> ps_chainId s = SEPOLIA_CHAIN_ID \<and>
     returns (gw_encodeAction (ke_gateway eng) a) data \<and>
     returns (gw_simulate (ke_gateway eng) a data) () \<and>
     returns (gw_sign (ke_gateway eng) a data) tx \<and> (\<forall>e. returns (ke_put eng e) ())"

definition was_broadcast :: "SignedLifecycleTransaction \<Rightarrow> ('j, 'c) world \<Rightarrow> bool" where
  "was_broadcast tx w \<longleftrightarrow> EvBroadcast tx \<in> set (w_trace w)"

lemma keeps_was_broadcast: "quiet m \<Longrightarrow> keeps (was_broadcast tx) m"
  by (rule keepsI) (auto simp: was_broadcast_def dest!: quietD)

lemma submit_broadcasts: "triple (\<lambda>_. True) (submit eng e tx) (\<lambda>_. was_broadcast tx)"
proof (rule tripleI)
  fix w r w'
  assume s: "submit eng e tx w = (r, w')"
  let ?w = "w\<lparr>w_trace := w_trace w @ [EvBroadcast tx]\<rparr>"
  obtain m where m: "quiet m" "submit eng e tx w = m ?w" using submit_after_emit by metis
  have "was_broadcast tx ?w" by (simp add: was_broadcast_def)
  with m s show "was_broadcast tx w'" by (metis keepsD keeps_was_broadcast)
qed

lemma execute_broadcasts:
  assumes "cooperative eng b s a data tx"
    and "assertKeeperBalanceWithinLimits b (ke_minimumBalanceWei eng) (ke_maximumBalanceWei eng) = Inr ()"
    and "tx_maximumCostWei tx \<le> b - ke_minimumBalanceWei eng"
  shows "was_broadcast tx (snd (execute fuel eng a previous data w))"
proof -
  have sign: "returns (gw_sign (ke_gateway eng) a data) tx"
    and bal: "returns (gw_getKeeperBalance (ke_gateway eng)) b" and put: "returns (ke_put eng e) ()" for e
    using assms(1) by (auto simp: cooperative_def)
  let ?e = "\<lambda>t. journalEntryForPrepared a (tx_hash tx) (tx_nonce tx) (tx_calldataHash tx) t (map_option je_attemptId previous)"
  let ?tail = "\<lambda>t. bind_eff (submit eng (?e t) tx) (\<lambda>submitted. case submitted of
       None \<Rightarrow> ret (RunBlocked (la_key a) Unknown)
     | Some current \<Rightarrow> bind_eff (waitAndReconcile fuel eng current) (\<lambda>finalEntry. ret (run_result a tx finalEntry)))"
  obtain w1 where s: "on_chain (gw_sign (ke_gateway eng) a data) w = (Inr tx, w1)"
    using returns_on_chain [OF sign, of w] by blast
  obtain w2 where c: "check_cost eng tx w1 = (Inr (), w2)"
    using read_balance_returns [OF bal, of w1] assms(2,3)
    by (auto simp: check_cost_def bind_eff_apply not_less)
  obtain t w3 where n: "now_ms eng w2 = (Inr t, w3)" unfolding now_ms_def by (cases "ke_now eng (w_chain w2)") auto
  obtain j where "ke_put eng (?e t) (w_journal w3) = (Inr (), j)" using put unfolding returns_def by blast
  then obtain w4 where p: "journal_put eng (?e t) w3 = (Inr (), w4)" by (simp add: journal_put_def)
  have ex: "execute fuel eng a previous data w = ?tail t w4"
    by (simp add: execute_def Let_def bind_eff_apply s c n p)
  have wait: "quiet (case submitted of None \<Rightarrow> ret (RunBlocked (la_key a) Unknown)
     | Some current \<Rightarrow> bind_eff (waitAndReconcile fuel eng current) (\<lambda>finalEntry. ret (run_result a tx finalEntry)))" for submitted
    by (intro quiet_rules quiet_waitAndReconcile)
  have "triple (\<lambda>_. True) (?tail t) (\<lambda>_. was_broadcast tx)"
  proof (rule triple_bind [where R = "\<lambda>_. was_broadcast tx"])
    show "triple (\<lambda>_. True) (submit eng (?e t) tx)
        (\<lambda>r w. case r of Inl _ \<Rightarrow> was_broadcast tx w | Inr _ \<Rightarrow> was_broadcast tx w)"
      by (rule triple_weaken [OF submit_broadcasts]) (auto split: sum.splits)
  qed (rule keeps_was_broadcast [OF wait, unfolded keeps_def])
  then show ?thesis unfolding ex triple_def by blast
qed


text \<open>The concrete keeper cooperates, closes its due round, and its clock advances.\<close>

lemma demo_plan:
  "\<exists>a. planNextAction (demo_chain_snapshot False) = Some a \<and> la_kind a = CloseRound \<and> la_account a = None"
  by (simp add: planNextAction_def demo_chain_snapshot_def dueClosures_def dueClosure_def findRound_def
      demo_round_def List.map_filter_def)

lemma demo_clock: "clock_ok demo_engine fst"
  by (simp add: clock_ok_def demo_engine_def demo_gateway_def later_def)


theorem poll_terminates_witness:
  "fst (runOnce 1001 demo_engine (demo_world False empty_disk)) \<noteq> Inl OutOfFuel"
  by (rule poll_terminates [OF demo_clock]) (simp_all add: demo_engine_def)

theorem engine_update_is_accepted_witness:
  "\<exists>d'. file_put 1 None (updateEntry demo_entry Submitted 9 no_options) demo_disk = (Inr (), d')"
proof (rule engine_update_is_accepted [of _ "[demo_entry]"])
qed (simp_all add: demo_disk_list demo_disk_temporary options_ok_def no_options_def)

theorem planned_action_is_recordable_witness:
  "\<exists>a d'. planNextAction (demo_chain_snapshot False) = Some a \<and>
     file_put 1 None (journalEntryForPrepared a demo_hash 3 demo_hash 5 None) empty_disk = (Inr (), d')"
proof -
  obtain a where a: "planNextAction (demo_chain_snapshot False) = Some a" using demo_plan by blast
  have "vault_printable (hd (ps_vaults (demo_chain_snapshot False)))" by code_simp
  then have v: "\<forall>v \<in> set (ps_vaults (demo_chain_snapshot False)). vault_printable v"
    by (simp add: demo_chain_snapshot_def)
  have h: "hashSchema demo_hash" "nonnegative_int 3" by code_simp+
  have "\<exists>d'. file_put 1 None (journalEntryForPrepared a demo_hash 3 demo_hash 5 (map_option je_attemptId (None :: JournalEntry option))) empty_disk
      = (Inr (), d')"
    by (rule planned_action_is_recordable [OF v a h(1) h(1) h(2), where es = "[]"])
      (simp_all add: file_list_def empty_disk_read emptyJournal_def, simp add: empty_disk_def)
  with a show ?thesis by auto
qed

theorem recorded_hash_is_never_replayed_witness:
  "fst (file_put 1 None (journalEntryForPrepared (the (planNextAction (demo_chain_snapshot False))) demo_hash 3 demo_hash 5 None)
     (snd (file_put 1 None (updateEntry demo_entry Obsolete 9 no_options) demo_disk))) \<noteq> Inr ()"
proof -
  let ?e = "updateEntry demo_entry Obsolete 9 no_options"
  obtain d' where d': "file_put 1 None ?e demo_disk = (Inr (), d')"
    using update_accepted [OF demo_disk_list, of demo_entry no_options 1 Obsolete 9]
    by (auto simp: options_ok_def no_options_def demo_disk_temporary)
  have "read_document d' = Inr (next_document demo_document ?e)"
    using file_put_read [OF demo_disk_read d'] by simp
  then have "file_list d' = Inr (jd_entries (next_document demo_document ?e))"
    by (rule file_list_read)
  then show ?thesis
    unfolding d' snd_conv
    by (rule recorded_hash_is_never_replayed [of _ _ ?e])
      (simp_all add: set_next_document, simp_all add: updateEntry_def demo_entry_def)
qed

theorem attempt_released_only_on_evidence_witness:
  "\<exists>e' w'. reconcileEntry demo_engine demo_entry (demo_world True demo_disk) = (Inr e', w') \<and>
     je_status e' = Reconciled \<and> rv_confirmations demo_receipt \<ge> ke_confirmations demo_engine"
proof -
  have "\<not> is_required (demo_chain_snapshot True) demo_entry" by code_simp
  then obtain e' w' where r: "reconcileEntry demo_engine demo_entry (demo_world True demo_disk) = (Inr e', w')"
      "je_status e' = Reconciled"
    by (auto simp: reconcileEntry_def reconcile_receipt_def record_update_def bind_eff_apply on_chain_def now_ms_def
        journal_put_def demo_engine_def demo_gateway_def demo_world_def demo_receipt_def demo_entry_def Let_def)
  have u: "unresolved demo_entry" "\<not> unresolved e'"
    using r(2) by (simp_all add: unresolved_def unresolvedStatuses_def demo_entry_def)
  from attempt_released_only_on_evidence [OF r(1) u] r show ?thesis
    by (auto simp: released_by_receipt_def demo_engine_def demo_gateway_def demo_world_def demo_receipt_def)
qed

end

