(* ===== verification/Keeper_Config.thy ===== *)
theory Keeper_Config
  imports Gateway_Safety Engine_Progress
begin

text \<open>
  How the keeper is put together: the vault manifest (\<open>keeper/src/manifest.ts\<close>), the configuration
  (\<open>keeper/src/config.ts\<close>), the public-proof client (\<open>keeper/src/public-proof.ts\<close>) and the command
  line (\<open>keeper/src/cli.ts\<close>).

  \<open>getAddress\<close>, \<open>privateKeyToAccount\<close>, URL normalisation and the Zama relayer are arguments.  The
  configuration is modelled after zod has coerced the environment strings to numbers; an absent
  variable is \<open>None\<close>.
\<close>

section \<open>The vault manifest\<close>

datatype implementation = V1 | V2

record manifest_vault =
  mv_id :: js_number
  mv_type :: string
  mv_name :: string
  mv_vault :: string
  mv_bondEscrow :: string
  mv_implementation :: "implementation option"
  mv_automaticEntry :: "bool option"

record authority_binding =
  ab_targetId :: string
  ab_targetScope :: string
  ab_path :: string
  ab_schema :: string
  ab_recordVersion :: int

record manifest =
  mf_schema :: string
  mf_networkName :: string
  mf_chainId :: js_number
  mf_deploymentStatus :: string
  mf_authorityBinding :: "authority_binding option"
  mf_officialVaults :: "manifest_vault list"

datatype manifest_error =
    ManifestSchemaError
  | ManifestNotSepolia
  | DuplicateVaultId
  | DuplicateVaultAddress string
  | DuplicateEscrowAddress string
  | BadAddress thrown

definition safe_int :: "js_number \<Rightarrow> (int \<Rightarrow> bool) \<Rightarrow> bool" where
  "safe_int n P = (case n of JNonInt \<Rightarrow> False | JInt i \<Rightarrow> \<bar>i\<bar> \<le> MAX_SAFE_INTEGER \<and> P i)"

definition automatic :: "manifest_vault \<Rightarrow> bool" where
  "automatic v = (mv_automaticEntry v = Some True)"

definition manifest_vault_ok :: "manifest_vault \<Rightarrow> bool" where
  "manifest_vault_ok v = (safe_int (mv_id v) (\<lambda>i. 0 < i) \<and> mv_type v \<noteq> [] \<and> mv_name v \<noteq> [] \<and>
     (automatic v \<longrightarrow> mv_implementation v = Some V2))"

definition authority_binding_ok :: "authority_binding \<Rightarrow> bool" where
  "authority_binding_ok b = (ab_targetId b = ''LEOPOLD_V2_SEPOLIA'' \<and> ab_targetScope b = ''LEOPOLD_V2_RELEASE'' \<and>
     ab_path b = ''scripts/sg4-hcu-authority-bindings/v2.json'' \<and>
     ab_schema b = ''zama-szn4.sg4-hcu-authority-binding.v5'' \<and> ab_recordVersion b = 5)"

definition manifestSchema :: "manifest \<Rightarrow> bool" where
  "manifestSchema m = (mf_schema m = ''leopold.frontend-contract-manifest.v1'' \<and>
     mf_networkName m = ''ethereum-sepolia'' \<and> safe_int (mf_chainId m) (\<lambda>_. True) \<and>
     mf_deploymentStatus m = ''OFFICIAL_SEPOLIA_DEPLOYED'' \<and> opt_ok authority_binding_ok (mf_authorityBinding m) \<and>
     mf_officialVaults m \<noteq> [] \<and> list_all manifest_vault_ok (mf_officialVaults m) \<and>
     (list_ex automatic (mf_officialVaults m) \<longrightarrow> mf_authorityBinding m \<noteq> None))"

definition js_int :: "js_number \<Rightarrow> int" where
  "js_int n = (case n of JInt i \<Rightarrow> i | JNonInt \<Rightarrow> 0)"

definition lift_address :: "(thrown, string) result \<Rightarrow> (manifest_error, string) result" where
  "lift_address r = (case r of Inl e \<Rightarrow> Inl (BadAddress e) | Inr a \<Rightarrow> Inr a)"

fun load_vaults ::
  "(string \<Rightarrow> (thrown, string) result) \<Rightarrow> int set \<Rightarrow> string set \<Rightarrow> string set \<Rightarrow> manifest_vault list
     \<Rightarrow> (manifest_error, VaultConfig list) result" where
  "load_vaults getAddress ids addresses escrows [] = Inr []"
| "load_vaults getAddress ids addresses escrows (v # vs) =
     (if js_int (mv_id v) \<in> ids then Inl DuplicateVaultId
      else bind_result (lift_address (getAddress (mv_vault v))) (\<lambda>address.
        if address \<in> addresses then Inl (DuplicateVaultAddress address)
        else bind_result (lift_address (getAddress (mv_bondEscrow v))) (\<lambda>bondEscrow.
          if bondEscrow \<in> escrows then Inl (DuplicateEscrowAddress bondEscrow)
          else bind_result (load_vaults getAddress (insert (js_int (mv_id v)) ids) (insert address addresses)
                 (insert bondEscrow escrows) vs) (\<lambda>rest.
            Inr (\<lparr>vc_id = js_int (mv_id v), vc_name = mv_name v, vc_cadence = mv_type v, vc_address = address,
                  vc_bondEscrow = bondEscrow, vc_automaticEntry = Some (automatic v)\<rparr> # rest)))))"

definition loadOfficialVaults :: "(string \<Rightarrow> (thrown, string) result) \<Rightarrow> manifest \<Rightarrow> (manifest_error, VaultConfig list) result" where
  "loadOfficialVaults getAddress m =
     (if \<not> manifestSchema m then Inl ManifestSchemaError
      else if js_int (mf_chainId m) \<noteq> SEPOLIA_CHAIN_ID then Inl ManifestNotSepolia
      else load_vaults getAddress {} {} {} (mf_officialVaults m))"

section \<open>Configuration\<close>

datatype node_env = Development | Test | Production

record raw_config =
  rk_NODE_ENV :: "node_env option"
  rk_SEPOLIA_RPC_URL :: string
  rk_SEPOLIA_RPC_URLS :: "string option"
  rk_KEEPER_PRIVATE_KEY :: string
  rk_DEPLOYER_ADDRESS :: string
  rk_KEEPER_MIN_BALANCE_WEI :: "int option"
  rk_KEEPER_MAX_BALANCE_WEI :: int
  rk_POLL_INTERVAL_MS :: "js_number option"
  rk_KEEPER_RECEIPT_WAIT_MS :: "js_number option"
  rk_KEEPER_CONFIRMATIONS :: "js_number option"
  rk_KEEPER_AUTO_ENTRY_SCAN_SIZE :: "js_number option"
  rk_KEEPER_HISTORICAL_SCAN_SIZE :: "js_number option"
  rk_KEEPER_GAS_MULTIPLIER_BPS :: "js_number option"
  rk_KEEPER_GAS_MARGIN_UNITS :: "int option"
  rk_KEEPER_GAS_MAX_LIMIT :: "int option"
  rk_KEEPER_GAS_FLOORS :: "string option"
  rk_KEEPER_JOURNAL_PATH :: "string option"
  rk_KEEPER_MANIFEST_PATH :: "string option"

record KeeperConfig =
  kc_RPC_URLS :: "string list"
  kc_KEEPER_PRIVATE_KEY :: string
  kc_DEPLOYER_ADDRESS :: string
  kc_KEEPER_ADDRESS :: string
  kc_KEEPER_MIN_BALANCE_WEI :: int
  kc_KEEPER_MAX_BALANCE_WEI :: int
  kc_POLL_INTERVAL_MS :: js_number
  kc_KEEPER_RECEIPT_WAIT_MS :: js_number
  kc_KEEPER_CONFIRMATIONS :: js_number
  kc_KEEPER_AUTO_ENTRY_SCAN_SIZE :: js_number
  kc_KEEPER_HISTORICAL_SCAN_SIZE :: js_number
  kc_GAS_POLICY :: GasPolicyConfig
  kc_KEEPER_JOURNAL_PATH :: string
  kc_KEEPER_MANIFEST_PATH :: string

datatype config_error = ConfigSchemaError | ConfigUrlError thrown | ConfigGasError gas_error | ConfigAddressError thrown

fun or_default :: "'a \<Rightarrow> 'a option \<Rightarrow> 'a" where
  "or_default d None = d"
| "or_default d (Some x) = x"

text \<open>The field rules, after the defaults of absent variables.\<close>

definition privateKeySchema :: "string \<Rightarrow> bool" where
  "privateKeySchema s = hex_string 64 s"

definition addressSchema :: "string \<Rightarrow> bool" where
  "addressSchema s = hex_string 40 s"

definition config_fields_ok :: "(string \<Rightarrow> bool) \<Rightarrow> raw_config \<Rightarrow> bool" where
  "config_fields_ok is_url c =
     (is_url (rk_SEPOLIA_RPC_URL c) \<and> privateKeySchema (rk_KEEPER_PRIVATE_KEY c) \<and>
      addressSchema (rk_DEPLOYER_ADDRESS c) \<and>
      0 \<le> or_default 10000000000000000 (rk_KEEPER_MIN_BALANCE_WEI c) \<and> 0 < rk_KEEPER_MAX_BALANCE_WEI c \<and>
      safe_int (or_default (JInt 15000) (rk_POLL_INTERVAL_MS c)) (\<lambda>i. 1000 \<le> i) \<and>
      safe_int (or_default (JInt 180000) (rk_KEEPER_RECEIPT_WAIT_MS c)) (\<lambda>i. 0 \<le> i) \<and>
      safe_int (or_default (JInt 1) (rk_KEEPER_CONFIRMATIONS c)) (\<lambda>i. 1 \<le> i \<and> i \<le> 12) \<and>
      safe_int (or_default (JInt 50) (rk_KEEPER_AUTO_ENTRY_SCAN_SIZE c)) (\<lambda>i. 1 \<le> i \<and> i \<le> 500) \<and>
      safe_int (or_default (JInt 50) (rk_KEEPER_HISTORICAL_SCAN_SIZE c)) (\<lambda>i. 1 \<le> i \<and> i \<le> 500) \<and>
      safe_int (or_default (gp_multiplierBps DEFAULT_GAS_POLICY) (rk_KEEPER_GAS_MULTIPLIER_BPS c))
        (\<lambda>i. 10000 \<le> i \<and> i \<le> 20000) \<and>
      0 \<le> or_default (gp_additiveMargin DEFAULT_GAS_POLICY) (rk_KEEPER_GAS_MARGIN_UNITS c) \<and>
      0 < or_default (gp_maximumGasLimit DEFAULT_GAS_POLICY) (rk_KEEPER_GAS_MAX_LIMIT c) \<and>
      or_default ''./keeper-data/lifecycle-journal.json'' (rk_KEEPER_JOURNAL_PATH c) \<noteq> [] \<and>
      or_default ''../config/leopold-frontend-contracts.json'' (rk_KEEPER_MANIFEST_PATH c) \<noteq> [])"

text \<open>\<open>filter((url, index, urls) => urls.indexOf(url) === index)\<close>: the first of equal elements stays.\<close>

fun keep_first :: "'a list \<Rightarrow> 'a list \<Rightarrow> 'a list" where
  "keep_first seen [] = []"
| "keep_first seen (x # xs) = (if x \<in> set seen then keep_first seen xs else x # keep_first (x # seen) xs)"

definition rpc_candidates :: "raw_config \<Rightarrow> string list" where
  "rpc_candidates c = filter (\<lambda>url. url \<noteq> [])
     (map trim (rk_SEPOLIA_RPC_URL c # (case rk_SEPOLIA_RPC_URLS c of None \<Rightarrow> [] | Some s \<Rightarrow> split_on (CHR '','') s)))"

definition RPC_URLS :: "(string \<Rightarrow> (thrown, string) result) \<Rightarrow> raw_config \<Rightarrow> (config_error, string list) result" where
  "RPC_URLS normalizeUrl c =
     bind_result (map_result (\<lambda>url. case normalizeUrl url of Inl e \<Rightarrow> Inl (ConfigUrlError e) | Inr u \<Rightarrow> Inr u) (rpc_candidates c))
       (\<lambda>urls. Inr (keep_first [] urls))"

definition GAS_POLICY :: "raw_config \<Rightarrow> (config_error, GasPolicyConfig) result" where
  "GAS_POLICY c = (case parseGasFloors (rk_KEEPER_GAS_FLOORS c) of
     Inl e \<Rightarrow> Inl (ConfigGasError e)
   | Inr floors \<Rightarrow> Inr \<lparr>gp_multiplierBps = or_default (gp_multiplierBps DEFAULT_GAS_POLICY) (rk_KEEPER_GAS_MULTIPLIER_BPS c),
       gp_additiveMargin = or_default (gp_additiveMargin DEFAULT_GAS_POLICY) (rk_KEEPER_GAS_MARGIN_UNITS c),
       gp_maximumGasLimit = or_default (gp_maximumGasLimit DEFAULT_GAS_POLICY) (rk_KEEPER_GAS_MAX_LIMIT c),
       gp_floors = DEFAULT_GAS_FLOORS ++ floors\<rparr>)"

text \<open>\<open>account\<close> is the checksummed address of a private key, \<open>getAddress\<close> that of an address.\<close>

definition loadConfig ::
  "(string \<Rightarrow> bool) \<Rightarrow> (string \<Rightarrow> (thrown, string) result) \<Rightarrow> (string \<Rightarrow> string) \<Rightarrow> (string \<Rightarrow> (thrown, string) result) \<Rightarrow> raw_config
     \<Rightarrow> (config_error, KeeperConfig) result" where
  "loadConfig is_url normalizeUrl account getAddress c =
     (if \<not> config_fields_ok is_url c then Inl ConfigSchemaError
      else case getAddress (rk_DEPLOYER_ADDRESS c) of
        Inl e \<Rightarrow> Inl (ConfigAddressError e)
      | Inr deployer \<Rightarrow>
          if account (rk_KEEPER_PRIVATE_KEY c) = deployer \<or>
             or_default 10000000000000000 (rk_KEEPER_MIN_BALANCE_WEI c) > rk_KEEPER_MAX_BALANCE_WEI c
          then Inl ConfigSchemaError
          else bind_result (RPC_URLS normalizeUrl c) (\<lambda>urls.
               bind_result (GAS_POLICY c) (\<lambda>policy.
               Inr \<lparr>kc_RPC_URLS = urls, kc_KEEPER_PRIVATE_KEY = rk_KEEPER_PRIVATE_KEY c, kc_DEPLOYER_ADDRESS = deployer,
                 kc_KEEPER_ADDRESS = account (rk_KEEPER_PRIVATE_KEY c),
                 kc_KEEPER_MIN_BALANCE_WEI = or_default 10000000000000000 (rk_KEEPER_MIN_BALANCE_WEI c),
                 kc_KEEPER_MAX_BALANCE_WEI = rk_KEEPER_MAX_BALANCE_WEI c,
                 kc_POLL_INTERVAL_MS = or_default (JInt 15000) (rk_POLL_INTERVAL_MS c),
                 kc_KEEPER_RECEIPT_WAIT_MS = or_default (JInt 180000) (rk_KEEPER_RECEIPT_WAIT_MS c),
                 kc_KEEPER_CONFIRMATIONS = or_default (JInt 1) (rk_KEEPER_CONFIRMATIONS c),
                 kc_KEEPER_AUTO_ENTRY_SCAN_SIZE = or_default (JInt 50) (rk_KEEPER_AUTO_ENTRY_SCAN_SIZE c),
                 kc_KEEPER_HISTORICAL_SCAN_SIZE = or_default (JInt 50) (rk_KEEPER_HISTORICAL_SCAN_SIZE c),
                 kc_GAS_POLICY = policy,
                 kc_KEEPER_JOURNAL_PATH = or_default ''./keeper-data/lifecycle-journal.json'' (rk_KEEPER_JOURNAL_PATH c),
                 kc_KEEPER_MANIFEST_PATH = or_default ''../config/leopold-frontend-contracts.json'' (rk_KEEPER_MANIFEST_PATH c)\<rparr>)))"

section \<open>Public proofs\<close>

text \<open>
  One cached instance per RPC URL; \<open>create\<close> and \<open>decrypt\<close> are the relayer's \<open>createInstance\<close> and
  \<open>publicDecrypt\<close>.  A failure of either forgets the instance of that URL.
\<close>

record 'i proof_provider =
  zp_rpcUrls :: "string list"
  zp_instances :: "'i option list"

definition new_proof_provider :: "string list \<Rightarrow> (unit, 'i proof_provider) result" where
  "new_proof_provider urls = (if urls = [] then Inl ()
     else Inr \<lparr>zp_rpcUrls = urls, zp_instances = replicate (length urls) None\<rparr>)"

definition proof_from ::
  "(string \<Rightarrow> (thrown, 'c, 'i) eff) \<Rightarrow> ('i \<Rightarrow> string \<Rightarrow> (thrown, 'c, PublicProof) eff) \<Rightarrow> string \<Rightarrow> string \<Rightarrow> 'i option
     \<Rightarrow> (thrown, 'c, 'i \<times> PublicProof) eff" where
  "proof_from create decrypt handle url cached =
     bind_eff (case cached of Some i \<Rightarrow> ret i | None \<Rightarrow> create url) (\<lambda>i.
     bind_eff (decrypt i handle) (\<lambda>proof. ret (i, proof)))"

fun decrypt_loop ::
  "(string \<Rightarrow> (thrown, 'c, 'i) eff) \<Rightarrow> ('i \<Rightarrow> string \<Rightarrow> (thrown, 'c, PublicProof) eff) \<Rightarrow> string \<Rightarrow> (string \<times> 'i option) list
     \<Rightarrow> 'c \<Rightarrow> (thrown list, PublicProof) result \<times> 'i option list \<times> 'c" where
  "decrypt_loop create decrypt handle [] c = (Inl [], [], c)"
| "decrypt_loop create decrypt handle ((url, cached) # rest) c =
     (case proof_from create decrypt handle url cached c of
        (Inr (i, proof), c') \<Rightarrow> (Inr proof, Some i # map snd rest, c')
      | (Inl e, c') \<Rightarrow> (case decrypt_loop create decrypt handle rest c' of
          (Inr proof, instances, c'') \<Rightarrow> (Inr proof, None # instances, c'')
        | (Inl es, instances, c'') \<Rightarrow> (Inl (e # es), None # instances, c'')))"

definition publicDecrypt ::
  "(string \<Rightarrow> (thrown, 'c, 'i) eff) \<Rightarrow> ('i \<Rightarrow> string \<Rightarrow> (thrown, 'c, PublicProof) eff) \<Rightarrow> string \<Rightarrow>
     (thrown list, 'i proof_provider \<times> 'c, PublicProof) eff" where
  "publicDecrypt create decrypt handle s = (case s of (p, c) \<Rightarrow>
     case decrypt_loop create decrypt handle (zip (zp_rpcUrls p) (zp_instances p)) c of
       (r, instances, c') \<Rightarrow> (r, (p\<lparr>zp_instances := instances\<rparr>, c')))"

section \<open>Command line\<close>

datatype keeper_mode = Service | Once

datatype cli_error = NoMode | ModesExclusive

definition keeper_mode_of :: "string list \<Rightarrow> (cli_error, keeper_mode) result" where
  "keeper_mode_of argv =
     (if ''--service'' \<notin> set argv \<and> ''--once'' \<notin> set argv then Inl NoMode
      else if ''--service'' \<in> set argv \<and> ''--once'' \<in> set argv then Inl ModesExclusive
      else Inr (if ''--service'' \<in> set argv then Service else Once))"

text \<open>
  The start-up checks under the lock: the vaults of the manifest, a proof provider for the RPC
  URLs, the options of the gateway, and that the gateway signs with the configured address.
  \<open>signer\<close> is the address of the wallet that ethers makes of the private key.
\<close>

datatype startup_error =
    StartManifest manifest_error
  | StartProofProvider
  | StartGateway gateway_config_error
  | SignerMismatch

definition keeper_startup ::
  "(string \<Rightarrow> (thrown, string) result) \<Rightarrow> (string \<Rightarrow> string) \<Rightarrow> manifest \<Rightarrow> KeeperConfig \<Rightarrow> (startup_error, VaultConfig list) result" where
  "keeper_startup getAddress signer m cfg =
     (case loadOfficialVaults getAddress m of Inl e \<Rightarrow> Inl (StartManifest e)
      | Inr vaults \<Rightarrow>
     (case (new_proof_provider (kc_RPC_URLS cfg) :: (unit, unit proof_provider) result) of Inl _ \<Rightarrow> Inl StartProofProvider
      | Inr _ \<Rightarrow>
     (case check_gateway_options (kc_RPC_URLS cfg) (kc_KEEPER_AUTO_ENTRY_SCAN_SIZE cfg) (kc_KEEPER_HISTORICAL_SCAN_SIZE cfg) of
        Inl e \<Rightarrow> Inl (StartGateway e)
      | Inr _ \<Rightarrow>
     if signer (kc_KEEPER_PRIVATE_KEY cfg) \<noteq> kc_KEEPER_ADDRESS cfg then Inl SignerMismatch else Inr vaults)))"

text \<open>The engine with the limits of the configuration; the poll interval of receipts is its default.\<close>

definition configured_engine :: "KeeperConfig \<Rightarrow> ('j, 'c) KeeperEngine \<Rightarrow> ('j, 'c) KeeperEngine" where
  "configured_engine cfg eng = eng\<lparr>ke_minimumBalanceWei := kc_KEEPER_MIN_BALANCE_WEI cfg,
     ke_maximumBalanceWei := kc_KEEPER_MAX_BALANCE_WEI cfg, ke_confirmations := js_int (kc_KEEPER_CONFIRMATIONS cfg),
     ke_receiptWaitMs := js_int (kc_KEEPER_RECEIPT_WAIT_MS cfg), ke_receiptPollMs := 2000\<rparr>"

text \<open>
  The service loop.  Each element says whether the stop signal arrives during that poll; at the
  end of the list it arrives between two polls.
\<close>

fun service_loop :: "nat \<Rightarrow> ('j, 'c) KeeperEngine \<Rightarrow> int \<Rightarrow> bool list \<Rightarrow> ('j, 'c) world \<Rightarrow> ('j, 'c) world" where
  "service_loop fuel eng interval [] w = w"
| "service_loop fuel eng interval (stopping # rest) w =
     (let w1 = snd (runOnce fuel eng w) in
      if stopping then w1 else service_loop fuel eng interval rest (snd (sleep_ms eng interval w1)))"

datatype main_result = MainLocked journal_error | MainStartup startup_error | MainFailed | MainDone int

definition run_mode ::
  "nat \<Rightarrow> KeeperConfig \<Rightarrow> keeper_mode \<Rightarrow> bool list \<Rightarrow> ('j, 'c) KeeperEngine \<Rightarrow> ('j, 'c) world \<Rightarrow> main_result \<times> ('j, 'c) world" where
  "run_mode fuel cfg mode signals eng w = (case mode of
     Once \<Rightarrow> (case runOnce fuel eng w of
         (Inl _, w') \<Rightarrow> (MainFailed, w')
       | (Inr (RunBlocked _ _), w') \<Rightarrow> (MainDone 2, w')
       | (Inr _, w') \<Rightarrow> (MainDone 0, w'))
   | Service \<Rightarrow> (MainDone 0, service_loop fuel eng (js_int (kc_POLL_INTERVAL_MS cfg)) signals w))"

definition on_disk :: "(disk \<Rightarrow> 'r \<times> disk) \<Rightarrow> (file_journal, 'c) world \<Rightarrow> 'r \<times> (file_journal, 'c) world" where
  "on_disk f w = (case f (fst (w_journal w)) of (r, d) \<Rightarrow> (r, w\<lparr>w_journal := (d, snd (w_journal w))\<rparr>))"

text \<open>What runs between taking and releasing the lock.\<close>

definition locked_part ::
  "nat \<Rightarrow> KeeperConfig \<Rightarrow> keeper_mode \<Rightarrow> bool list \<Rightarrow> (startup_error, VaultConfig list) result \<Rightarrow> ('j, 'c) KeeperEngine
     \<Rightarrow> ('j, 'c) world \<Rightarrow> main_result \<times> ('j, 'c) world" where
  "locked_part fuel cfg mode signals started eng w = (case started of
     Inl e \<Rightarrow> (MainStartup e, w)
   | Inr _ \<Rightarrow> (case preflight eng w of
       (Inl _, w1) \<Rightarrow> (MainFailed, w1)
     | (Inr _, w1) \<Rightarrow> run_mode fuel cfg mode signals eng w1))"

text \<open>
  The program: take the lock, run, release it in \<open>finally\<close>; an exception of the release replaces
  the result.  \<open>fault\<close> and \<open>release_fault\<close> are the file system calls that fail at the lock.
\<close>

definition keeper_main ::
  "nat \<Rightarrow> int \<Rightarrow> KeeperConfig \<Rightarrow> keeper_mode \<Rightarrow> bool list \<Rightarrow> io_point option \<Rightarrow> io_point option
     \<Rightarrow> (startup_error, VaultConfig list) result \<Rightarrow> (file_journal, 'c) KeeperEngine \<Rightarrow> (file_journal, 'c) world
     \<Rightarrow> main_result \<times> (file_journal, 'c) world" where
  "keeper_main fuel pid cfg mode signals fault release_fault started eng w =
     (case on_disk (acquireKeeperProcessLock fault) w of
        (Inl e, w1) \<Rightarrow> (MainLocked e, w1)
      | (Inr _, w1) \<Rightarrow>
          (case locked_part fuel cfg mode signals started (file_engine pid (configured_engine cfg eng)) w1 of
             (r, w2) \<Rightarrow>
               (case on_disk (\<lambda>d. case release_lock release_fault (False, d) of (x, (_, d')) \<Rightarrow> (x, d')) w2 of
                  (Inl _, w3) \<Rightarrow> (MainFailed, w3)
                | (Inr _, w3) \<Rightarrow> (r, w3))))"

end
