(* ===== verification/Keeper_Startup.thy ===== *)
theory Keeper_Startup
  imports Keeper_Config
begin

text \<open>
  What the start-up of the keeper guarantees to the parts it starts: distinct vaults from the
  manifest, limits and gas policy that the run-time checks never reject, a proof provider that
  falls back over the RPC URLs, and one keeper process per journal.
\<close>

section \<open>The vaults of the manifest\<close>

lemma lift_address_Inr [simp]: "lift_address r = Inr a \<longleftrightarrow> r = Inr a"
  by (cases r) (simp_all add: lift_address_def)

lemma load_vaults_Inr:
  assumes "load_vaults getAddress ids addresses escrows vs = Inr out"
  shows "list_all2 (\<lambda>v c. vc_id c = js_int (mv_id v) \<and> getAddress (mv_vault v) = Inr (vc_address c) \<and>
      getAddress (mv_bondEscrow v) = Inr (vc_bondEscrow c) \<and> vc_automaticEntry c = Some (automatic v)) vs out \<and>
    distinct (map vc_id out) \<and> vc_id ` set out \<inter> ids = {} \<and>
    distinct (map vc_address out) \<and> vc_address ` set out \<inter> addresses = {} \<and>
    distinct (map vc_bondEscrow out) \<and> vc_bondEscrow ` set out \<inter> escrows = {}"
  using assms
proof (induction vs arbitrary: ids addresses escrows out)
  case (Cons v vs)
  from Cons.prems obtain address bondEscrow rest where
    fresh: "js_int (mv_id v) \<notin> ids" "address \<notin> addresses" "bondEscrow \<notin> escrows"
    and get: "getAddress (mv_vault v) = Inr address" "getAddress (mv_bondEscrow v) = Inr bondEscrow"
    and rest: "load_vaults getAddress (insert (js_int (mv_id v)) ids) (insert address addresses) (insert bondEscrow escrows) vs
        = Inr rest"
    and out: "out = \<lparr>vc_id = js_int (mv_id v), vc_name = mv_name v, vc_cadence = mv_type v, vc_address = address,
        vc_bondEscrow = bondEscrow, vc_automaticEntry = Some (automatic v)\<rparr> # rest"
    by (auto simp: bind_result_Inr split: if_splits)
  from Cons.IH [OF rest] fresh get show ?case unfolding out by auto
qed simp

lemma loadOfficialVaults_Inr:
  "loadOfficialVaults getAddress m = Inr vs \<longleftrightarrow> manifestSchema m \<and> js_int (mf_chainId m) = SEPOLIA_CHAIN_ID \<and>
    load_vaults getAddress {} {} {} (mf_officialVaults m) = Inr vs"
  by (auto simp: loadOfficialVaults_def)

lemma readSnapshot_vaults:
  assumes "readSnapshot g hint st = (Inr s, st')"
  shows "map vs_vault (ps_vaults s) = eg_vaults g"
  using assms
proof (rule readSnapshot_steps)
  fix st1 latest st2 n common st3 block vaults st4 canonical pinned
  assume v: "map_eff (readVault g (rb_number block) hint) (eg_vaults g) st3 = (Inr vaults, st4)"
    and s: "s = \<lparr>ps_chainId = SEPOLIA_CHAIN_ID, ps_blockNumber = rb_number block, ps_blockHash = rb_hash block,
       ps_blockTimestamp = rb_timestamp block, ps_vaults = vaults\<rparr>"
  have "map vs_vault vaults = map id (eg_vaults g)"
    by (rule map_eff_map [OF v]) (use readVault_Inr in force)
  then show ?thesis unfolding s by simp
qed

text \<open>
  C40. The vaults loaded from a manifest are exactly its vaults, in order, at least one, with
  positive and distinct ids, distinct addresses and distinct bond escrows; automatic entry is on
  only for an explicit V2 vault of a manifest that selects the authority binding.  A snapshot read
  for them therefore names distinct vaults, as the planner needs.
\<close>

theorem official_vaults_are_distinct:
  assumes "loadOfficialVaults getAddress m = Inr vs"
  shows "vs \<noteq> [] \<and> list_all2 (\<lambda>v c. vc_id c = js_int (mv_id v) \<and> getAddress (mv_vault v) = Inr (vc_address c) \<and>
        getAddress (mv_bondEscrow v) = Inr (vc_bondEscrow c) \<and> 0 < vc_id c \<and>
        (vc_automaticEntry c = Some True \<longrightarrow> mv_implementation v = Some V2 \<and> mf_authorityBinding m \<noteq> None))
      (mf_officialVaults m) vs \<and>
    distinct (map vc_id vs) \<and> distinct (map vc_address vs) \<and> distinct (map vc_bondEscrow vs) \<and>
    (eg_vaults g = vs \<and> readSnapshot g hint st = (Inr s, st') \<longrightarrow> distinct (map (vc_id \<circ> vs_vault) (ps_vaults s)))"
proof -
  let ?ms = "mf_officialVaults m"
  from assms have sch: "manifestSchema m" and ld: "load_vaults getAddress {} {} {} ?ms = Inr vs"
    by (simp_all add: loadOfficialVaults_Inr)
  note l = load_vaults_Inr [OF ld]
  have ne: "vs \<noteq> []"
    using l sch by (auto simp: manifestSchema_def)
  have each: "list_all2 (\<lambda>v c. vc_id c = js_int (mv_id v) \<and> getAddress (mv_vault v) = Inr (vc_address c) \<and>
        getAddress (mv_bondEscrow v) = Inr (vc_bondEscrow c) \<and> 0 < vc_id c \<and>
        (vc_automaticEntry c = Some True \<longrightarrow> mv_implementation v = Some V2 \<and> mf_authorityBinding m \<noteq> None)) ?ms vs"
  proof (rule list.rel_mono_strong [OF l [THEN conjunct1]])
    fix v c
    assume v: "v \<in> set ?ms"
      and c: "vc_id c = js_int (mv_id v) \<and> getAddress (mv_vault v) = Inr (vc_address c) \<and>
        getAddress (mv_bondEscrow v) = Inr (vc_bondEscrow c) \<and> vc_automaticEntry c = Some (automatic v)"
    from v sch have "manifest_vault_ok v" "automatic v \<longrightarrow> mf_authorityBinding m \<noteq> None"
      by (auto simp: manifestSchema_def list_all_iff list_ex_iff)
    with c show "vc_id c = js_int (mv_id v) \<and> getAddress (mv_vault v) = Inr (vc_address c) \<and>
        getAddress (mv_bondEscrow v) = Inr (vc_bondEscrow c) \<and> 0 < vc_id c \<and>
        (vc_automaticEntry c = Some True \<longrightarrow> mv_implementation v = Some V2 \<and> mf_authorityBinding m \<noteq> None)"
      by (auto simp: manifest_vault_ok_def safe_int_def js_int_def split: js_number.splits)
  qed
  have "distinct (map (vc_id \<circ> vs_vault) (ps_vaults s))"
    if "eg_vaults g = vs" "readSnapshot g hint st = (Inr s, st')"
    using readSnapshot_vaults [OF that(2)] that(1) l by (metis map_map)
  with ne each l show ?thesis by blast
qed

definition demo_manifest_vault :: "int \<Rightarrow> string \<Rightarrow> string \<Rightarrow> manifest_vault" where
  "demo_manifest_vault i a b = \<lparr>mv_id = JInt i, mv_type = ''daily'', mv_name = ''Daily'', mv_vault = a, mv_bondEscrow = b,
     mv_implementation = Some V2, mv_automaticEntry = Some True\<rparr>"

definition demo_manifest :: manifest where
  "demo_manifest = \<lparr>mf_schema = ''leopold.frontend-contract-manifest.v1'', mf_networkName = ''ethereum-sepolia'',
     mf_chainId = JInt SEPOLIA_CHAIN_ID, mf_deploymentStatus = ''OFFICIAL_SEPOLIA_DEPLOYED'',
     mf_authorityBinding = Some \<lparr>ab_targetId = ''LEOPOLD_V2_SEPOLIA'', ab_targetScope = ''LEOPOLD_V2_RELEASE'',
       ab_path = ''scripts/sg4-hcu-authority-bindings/v2.json'', ab_schema = ''zama-szn4.sg4-hcu-authority-binding.v5'',
       ab_recordVersion = 5\<rparr>,
     mf_officialVaults = [demo_manifest_vault 1 ''0xa'' ''0xb'', demo_manifest_vault 2 ''0xc'' ''0xd'']\<rparr>"

lemma demo_manifest_loads:
  "loadOfficialVaults Inr demo_manifest = Inr
     [\<lparr>vc_id = 1, vc_name = ''Daily'', vc_cadence = ''daily'', vc_address = ''0xa'', vc_bondEscrow = ''0xb'', vc_automaticEntry = Some True\<rparr>,
      \<lparr>vc_id = 2, vc_name = ''Daily'', vc_cadence = ''daily'', vc_address = ''0xc'', vc_bondEscrow = ''0xd'', vc_automaticEntry = Some True\<rparr>]"
  by (simp add: loadOfficialVaults_def manifestSchema_def demo_manifest_def demo_manifest_vault_def manifest_vault_ok_def
      authority_binding_ok_def automatic_def safe_int_def js_int_def lift_address_def MAX_SAFE_INTEGER_def SEPOLIA_CHAIN_ID_def)

theorem official_vaults_are_distinct_witness:
  "\<exists>vs. loadOfficialVaults Inr demo_manifest = Inr vs \<and> length vs = 2 \<and> distinct (map vc_address vs)"
  using official_vaults_are_distinct [OF demo_manifest_loads] by (simp add: demo_manifest_loads)

section \<open>Configuration\<close>

lemma keep_first_set: "set (keep_first seen xs) = set xs - set seen"
  by (induction seen xs rule: keep_first.induct) auto

lemma keep_first_distinct: "distinct (keep_first seen xs)"
  by (induction seen xs rule: keep_first.induct) (auto simp: keep_first_set)

lemma keep_first_head: "xs \<noteq> [] \<Longrightarrow> hd xs \<notin> set seen \<Longrightarrow> keep_first seen xs \<noteq> [] \<and> hd (keep_first seen xs) = hd xs"
  by (cases xs) auto

lemma loadConfig_Inr:
  "loadConfig is_url normalizeUrl account getAddress c = Inr k \<Longrightarrow>
    config_fields_ok is_url c \<and> RPC_URLS normalizeUrl c = Inr (kc_RPC_URLS k) \<and> GAS_POLICY c = Inr (kc_GAS_POLICY k) \<and>
    getAddress (rk_DEPLOYER_ADDRESS c) = Inr (kc_DEPLOYER_ADDRESS k) \<and>
    kc_KEEPER_ADDRESS k = account (kc_KEEPER_PRIVATE_KEY k) \<and> kc_KEEPER_ADDRESS k \<noteq> kc_DEPLOYER_ADDRESS k \<and>
    kc_KEEPER_MIN_BALANCE_WEI k = or_default 10000000000000000 (rk_KEEPER_MIN_BALANCE_WEI c) \<and>
    kc_KEEPER_MAX_BALANCE_WEI k = rk_KEEPER_MAX_BALANCE_WEI c \<and>
    kc_KEEPER_MIN_BALANCE_WEI k \<le> kc_KEEPER_MAX_BALANCE_WEI k \<and>
    kc_KEEPER_CONFIRMATIONS k = or_default (JInt 1) (rk_KEEPER_CONFIRMATIONS c) \<and>
    kc_KEEPER_RECEIPT_WAIT_MS k = or_default (JInt 180000) (rk_KEEPER_RECEIPT_WAIT_MS c) \<and>
    kc_KEEPER_AUTO_ENTRY_SCAN_SIZE k = or_default (JInt 50) (rk_KEEPER_AUTO_ENTRY_SCAN_SIZE c) \<and>
    kc_KEEPER_HISTORICAL_SCAN_SIZE k = or_default (JInt 50) (rk_KEEPER_HISTORICAL_SCAN_SIZE c)"
  by (auto simp: loadConfig_def bind_result_Inr not_less split: if_splits sum.splits)

lemma GAS_POLICY_Inr:
  assumes "GAS_POLICY c = Inr p"
  obtains floors where "p = \<lparr>gp_multiplierBps = or_default (gp_multiplierBps DEFAULT_GAS_POLICY) (rk_KEEPER_GAS_MULTIPLIER_BPS c),
       gp_additiveMargin = or_default (gp_additiveMargin DEFAULT_GAS_POLICY) (rk_KEEPER_GAS_MARGIN_UNITS c),
       gp_maximumGasLimit = or_default (gp_maximumGasLimit DEFAULT_GAS_POLICY) (rk_KEEPER_GAS_MAX_LIMIT c),
       gp_floors = DEFAULT_GAS_FLOORS ++ floors\<rparr>"
  using assms by (auto simp: GAS_POLICY_def split: sum.splits)

lemma default_floor_covered: "\<exists>f. (DEFAULT_GAS_FLOORS ++ floors) (kind_string a) = Some f"
  by (cases "floors (kind_string a)") (auto simp: map_add_def)

lemma RPC_URLS_Inr:
  assumes "RPC_URLS normalizeUrl c = Inr urls"
  shows "distinct urls \<and> (\<forall>u \<in> set urls. \<exists>v. trim v \<noteq> [] \<and> normalizeUrl (trim v) = Inr u) \<and>
    (trim (rk_SEPOLIA_RPC_URL c) \<noteq> [] \<longrightarrow> urls \<noteq> [] \<and> normalizeUrl (trim (rk_SEPOLIA_RPC_URL c)) = Inr (hd urls))"
proof -
  let ?f = "\<lambda>url. case normalizeUrl url of Inl e \<Rightarrow> Inl (ConfigUrlError e) | Inr u \<Rightarrow> Inr u"
  from assms obtain all where m: "map_result ?f (rpc_candidates c) = Inr all" and u: "urls = keep_first [] all"
    by (auto simp: RPC_URLS_def bind_result_Inr)
  have f: "?f x = Inr y \<longleftrightarrow> normalizeUrl x = Inr y" for x y by (auto split: sum.splits)
  have each: "\<exists>v. trim v \<noteq> [] \<and> normalizeUrl (trim v) = Inr y" if "y \<in> set urls" for y
    using map_result_set [OF m, of y] that
    by (auto simp: u keep_first_set f rpc_candidates_def split: if_splits)
  have first: "urls \<noteq> [] \<and> normalizeUrl (trim (rk_SEPOLIA_RPC_URL c)) = Inr (hd urls)" if "trim (rk_SEPOLIA_RPC_URL c) \<noteq> []"
  proof -
    from that obtain rest where "rpc_candidates c = trim (rk_SEPOLIA_RPC_URL c) # rest" by (simp add: rpc_candidates_def)
    with m obtain y ys where "all = y # ys" "normalizeUrl (trim (rk_SEPOLIA_RPC_URL c)) = Inr y"
      by (auto simp: bind_result_Inr f)
    then show ?thesis by (simp add: u)
  qed
  show ?thesis using each first keep_first_distinct [of "[]" all] u by blast
qed

text \<open>
  A configuration that loads never trips a run-time check of the keeper's own settings: the gas
  policy is rejected neither for its multiplier nor its bounds nor a missing floor, the balance
  guard only ever complains about the balance, the scan sizes pass the gateway, at least one
  confirmation is required, the RPC URLs are distinct with the primary one first, and the keeper
  does not sign with the deployer's address.
\<close>

theorem loaded_config_is_usable:
  assumes "loadConfig is_url normalizeUrl account getAddress c = Inr k"
    and blank_is_no_url: "\<And>u. is_url u \<Longrightarrow> trim u \<noteq> []"
  shows "applyGasPolicy a est (kc_GAS_POLICY k) fallback \<notin>
      {Inl InvalidMultiplier, Inl InvalidPolicyBounds, Inl (NoEstimateAndNoFloor a)} \<and>
    assertKeeperBalanceWithinLimits b (kc_KEEPER_MIN_BALANCE_WEI k) (kc_KEEPER_MAX_BALANCE_WEI k) =
      (if b < kc_KEEPER_MIN_BALANCE_WEI k then Inl (BelowMinimum b (kc_KEEPER_MIN_BALANCE_WEI k))
       else if b > kc_KEEPER_MAX_BALANCE_WEI k then Inl (AboveMaximum b (kc_KEEPER_MAX_BALANCE_WEI k)) else Inr ()) \<and>
    scan_size_ok (kc_KEEPER_AUTO_ENTRY_SCAN_SIZE k) \<and> scan_size_ok (kc_KEEPER_HISTORICAL_SCAN_SIZE k) \<and>
    (\<exists>n. kc_KEEPER_CONFIRMATIONS k = JInt n \<and> 1 \<le> n \<and> n \<le> 12) \<and>
    distinct (kc_RPC_URLS k) \<and> kc_RPC_URLS k \<noteq> [] \<and> normalizeUrl (trim (rk_SEPOLIA_RPC_URL c)) = Inr (hd (kc_RPC_URLS k)) \<and>
    kc_KEEPER_ADDRESS k \<noteq> kc_DEPLOYER_ADDRESS k"
proof -
  note l = loadConfig_Inr [OF assms(1)]
  have fields: "config_fields_ok is_url c" using l by simp
  obtain floors where p: "kc_GAS_POLICY k =
      \<lparr>gp_multiplierBps = or_default (gp_multiplierBps DEFAULT_GAS_POLICY) (rk_KEEPER_GAS_MULTIPLIER_BPS c),
       gp_additiveMargin = or_default (gp_additiveMargin DEFAULT_GAS_POLICY) (rk_KEEPER_GAS_MARGIN_UNITS c),
       gp_maximumGasLimit = or_default (gp_maximumGasLimit DEFAULT_GAS_POLICY) (rk_KEEPER_GAS_MAX_LIMIT c),
       gp_floors = DEFAULT_GAS_FLOORS ++ floors\<rparr>"
    using GAS_POLICY_Inr [of c "kc_GAS_POLICY k"] l by blast
  from fields have mult: "\<exists>bps. multiplier_in_range (gp_multiplierBps (kc_GAS_POLICY k)) = Some bps"
    and bounds: "0 \<le> gp_additiveMargin (kc_GAS_POLICY k)" "0 < gp_maximumGasLimit (kc_GAS_POLICY k)"
    by (auto simp: p config_fields_ok_def safe_int_def split: js_number.splits)
  obtain fl where fl: "gp_floors (kc_GAS_POLICY k) (kind_string a) = Some fl"
    using default_floor_covered [of floors a] unfolding p GasPolicyConfig.simps by (elim exE)
  have gas: "applyGasPolicy a est (kc_GAS_POLICY k) fallback \<notin>
      {Inl InvalidMultiplier, Inl InvalidPolicyBounds, Inl (NoEstimateAndNoFloor a)}"
    using mult bounds fl by (auto simp: applyGasPolicy_def Let_def split: if_splits option.splits)
  have scans: "scan_size_ok (kc_KEEPER_AUTO_ENTRY_SCAN_SIZE k)" "scan_size_ok (kc_KEEPER_HISTORICAL_SCAN_SIZE k)"
    "\<exists>n. kc_KEEPER_CONFIRMATIONS k = JInt n \<and> 1 \<le> n \<and> n \<le> 12"
    using fields l by (auto simp: config_fields_ok_def safe_int_def split: js_number.splits)
  have bal: "0 \<le> kc_KEEPER_MIN_BALANCE_WEI k" "0 < kc_KEEPER_MAX_BALANCE_WEI k"
      "kc_KEEPER_MIN_BALANCE_WEI k \<le> kc_KEEPER_MAX_BALANCE_WEI k"
    using fields l by (auto simp: config_fields_ok_def)
  have url: "trim (rk_SEPOLIA_RPC_URL c) \<noteq> []"
    using fields blank_is_no_url by (auto simp: config_fields_ok_def)
  have urls: "RPC_URLS normalizeUrl c = Inr (kc_RPC_URLS k)" using l by blast
  show ?thesis
    using gas scans bal l RPC_URLS_Inr [OF urls] url
    by (auto simp: assertKeeperBalanceWithinLimits_def)
qed

definition demo_raw_config :: raw_config where
  "demo_raw_config = \<lparr>rk_NODE_ENV = None, rk_SEPOLIA_RPC_URL = ''u'', rk_SEPOLIA_RPC_URLS = Some ''v,u'',
     rk_KEEPER_PRIVATE_KEY = ''0x'' @ replicate 64 (CHR ''1''), rk_DEPLOYER_ADDRESS = ''0x'' @ replicate 40 (CHR ''2''),
     rk_KEEPER_MIN_BALANCE_WEI = Some 1, rk_KEEPER_MAX_BALANCE_WEI = 10, rk_POLL_INTERVAL_MS = None,
     rk_KEEPER_RECEIPT_WAIT_MS = None, rk_KEEPER_CONFIRMATIONS = Some (JInt 2), rk_KEEPER_AUTO_ENTRY_SCAN_SIZE = None,
     rk_KEEPER_HISTORICAL_SCAN_SIZE = None, rk_KEEPER_GAS_MULTIPLIER_BPS = None, rk_KEEPER_GAS_MARGIN_UNITS = None,
     rk_KEEPER_GAS_MAX_LIMIT = Some 400000, rk_KEEPER_GAS_FLOORS = None, rk_KEEPER_JOURNAL_PATH = None,
     rk_KEEPER_MANIFEST_PATH = None\<rparr>"

lemma demo_config_loads:
  "\<exists>k. loadConfig (\<lambda>u. trim u \<noteq> []) Inr (\<lambda>_. ''k'') Inr demo_raw_config = Inr k \<and>
     kc_RPC_URLS k = [''u'', ''v''] \<and> gp_maximumGasLimit (kc_GAS_POLICY k) = 400000 \<and>
     gp_floors (kc_GAS_POLICY k) = DEFAULT_GAS_FLOORS \<and> gp_multiplierBps (kc_GAS_POLICY k) = JInt 12500 \<and>
     gp_additiveMargin (kc_GAS_POLICY k) = 25000 \<and>
     kc_KEEPER_MIN_BALANCE_WEI k = 1 \<and> kc_KEEPER_MAX_BALANCE_WEI k = 10 \<and> kc_KEEPER_ADDRESS k = ''k''"
proof -
  have h: "hex_string 64 (rk_KEEPER_PRIVATE_KEY demo_raw_config)" "hex_string 40 (rk_DEPLOYER_ADDRESS demo_raw_config)"
    by (simp_all add: demo_raw_config_def, code_simp+)
  have u: "RPC_URLS Inr demo_raw_config = Inr [''u'', ''v'']" "trim (rk_SEPOLIA_RPC_URL demo_raw_config) \<noteq> []"
    by code_simp+
  have g: "GAS_POLICY demo_raw_config = Inr \<lparr>gp_multiplierBps = JInt 12500, gp_additiveMargin = 25000,
      gp_maximumGasLimit = 400000, gp_floors = DEFAULT_GAS_FLOORS\<rparr>"
    by (simp add: GAS_POLICY_def demo_raw_config_def DEFAULT_GAS_POLICY_def parseGasFloors_def)
  have f: "config_fields_ok (\<lambda>u. trim u \<noteq> []) demo_raw_config"
    using h u(2) unfolding config_fields_ok_def privateKeySchema_def addressSchema_def
    by (simp add: demo_raw_config_def safe_int_def MAX_SAFE_INTEGER_def DEFAULT_GAS_POLICY_def)
  have d: "rk_KEEPER_MIN_BALANCE_WEI demo_raw_config = Some 1" "rk_KEEPER_MAX_BALANCE_WEI demo_raw_config = 10"
    "rk_DEPLOYER_ADDRESS demo_raw_config \<noteq> ''k''"
    by (simp_all add: demo_raw_config_def)
  show ?thesis using f u g d by (simp add: loadConfig_def)
qed

theorem loaded_config_is_usable_witness:
  "\<exists>k. loadConfig (\<lambda>u. trim u \<noteq> []) Inr (\<lambda>_. ''k'') Inr demo_raw_config = Inr k \<and> kc_RPC_URLS k \<noteq> [] \<and>
     kc_KEEPER_ADDRESS k \<noteq> kc_DEPLOYER_ADDRESS k"
  using demo_config_loads loaded_config_is_usable [where c = demo_raw_config and is_url = "\<lambda>u. trim u \<noteq> []"] by blast

text \<open>
  The loader does not compare the floors with the configured ceiling, so an accepted configuration
  can make every transaction of an action fail: here the ceiling is below the default floor of
  round closures.
\<close>

lemma config_accepts_unusable_ceiling:
  "\<exists>k. loadConfig (\<lambda>u. trim u \<noteq> []) Inr (\<lambda>_. ''k'') Inr demo_raw_config = Inr k \<and>
     applyGasPolicy CloseRound est (kc_GAS_POLICY k) fallback = Inl (InvalidGasFloor CloseRound)"
  using demo_config_loads
  by (force simp: applyGasPolicy_def Let_def simp del: kind_string.simps)

section \<open>Public proofs\<close>

text \<open>The outcome of asking the URLs one after the other.\<close>

lemma decrypt_loop_instances:
  "decrypt_loop create decrypt handle us c = (r, is, c') \<Longrightarrow> length is = length us"
  by (induction us arbitrary: c r "is") (fastforce split: prod.splits sum.splits)+

lemma decrypt_loop_skip:
  assumes "fst (proof_from create decrypt handle url cached c) = Inl e"
  shows "decrypt_loop create decrypt handle ((url, cached) # rest) c =
    (let (r, is, c') = decrypt_loop create decrypt handle rest (snd (proof_from create decrypt handle url cached c))
     in (case r of Inl es \<Rightarrow> Inl (e # es) | Inr p \<Rightarrow> Inr p, None # is, c'))"
  using assms by (cases "proof_from create decrypt handle url cached c") (auto split: prod.splits sum.splits)

lemma decrypt_loop_outcome:
  assumes "decrypt_loop create decrypt handle us c = (r, is, c')"
  shows "case r of
      Inr p \<Rightarrow> \<exists>n cn i. n < length us \<and> fst (proof_from create decrypt handle (fst (us ! n)) (snd (us ! n)) cn) = Inr (i, p) \<and>
        (\<forall>m < n. \<exists>cm e. fst (proof_from create decrypt handle (fst (us ! m)) (snd (us ! m)) cm) = Inl e) \<and>
        is = replicate n None @ Some i # map snd (drop (Suc n) us)
    | Inl es \<Rightarrow> length es = length us \<and> is = replicate (length us) None \<and>
        list_all2 (\<lambda>u e. \<exists>cn. fst (proof_from create decrypt handle (fst u) (snd u) cn) = Inl e) us es"
  using assms
proof (induction us arbitrary: c r "is" c')
  case (Cons u us)
  obtain url cached where u: "u = (url, cached)" by (cases u)
  obtain x c1 where x: "proof_from create decrypt handle url cached c = (x, c1)" by fastforce
  show ?case
  proof (cases x)
    case (Inr ip)
    with Cons.prems x u show ?thesis by (cases ip) (auto intro!: exI [of _ 0] exI [of _ c])
  next
    case (Inl e)
    obtain r1 is1 c2 where l: "decrypt_loop create decrypt handle us c1 = (r1, is1, c2)" by (metis prod_cases3)
    note ih = Cons.IH [OF l]
    from Cons.prems x u Inl l have r: "is = None # is1" "r = (case r1 of Inl es \<Rightarrow> Inl (e # es) | Inr p \<Rightarrow> Inr p)"
      by (auto split: sum.splits)
    show ?thesis
    proof (cases r1)
      case (Inr p)
      with ih obtain n cn i where "n < length us" "fst (proof_from create decrypt handle (fst (us ! n)) (snd (us ! n)) cn) = Inr (i, p)"
        "\<forall>m < n. \<exists>cm e. fst (proof_from create decrypt handle (fst (us ! m)) (snd (us ! m)) cm) = Inl e"
        "is1 = replicate n None @ Some i # map snd (drop (Suc n) us)" by auto
      moreover have "\<forall>m < Suc n. \<exists>cm e. fst (proof_from create decrypt handle (fst ((u # us) ! m)) (snd ((u # us) ! m)) cm) = Inl e"
        using calculation(3) x u \<open>x = Inl e\<close> by (metis fst_conv less_Suc_eq_0_disj nth_Cons_0 nth_Cons_Suc snd_conv)
      ultimately show ?thesis
        using r Inr by simp (rule exI [of _ "Suc n"], auto)
    next
      case (Inl es)
      with ih r x u \<open>x = Inl e\<close> show ?thesis by (auto intro!: exI [of _ c])
    qed
  qed
qed auto

text \<open>
  The proof provider falls back over all its RPC URLs: it fails only after every one of them
  failed, with one error per URL in order, and has then forgotten all cached instances; it
  succeeds exactly when some URL delivers the proof, keeps that URL's instance and forgets those
  of the URLs that failed before it.  If no relayer call fails, the first URL answers and no other
  is asked.
\<close>

theorem public_decrypt_falls_back:
  assumes "publicDecrypt create decrypt handle (p, c) = (r, (p', c'))" and "length (zp_instances p) = length (zp_rpcUrls p)"
  shows "zp_rpcUrls p' = zp_rpcUrls p \<and> length (zp_instances p') = length (zp_rpcUrls p) \<and>
    (case r of
       Inl es \<Rightarrow> zp_instances p' = replicate (length (zp_rpcUrls p)) None \<and>
         list_all2 (\<lambda>u e. \<exists>cn. fst (proof_from create decrypt handle (fst u) (snd u) cn) = Inl e)
           (zip (zp_rpcUrls p) (zp_instances p)) es
     | Inr pr \<Rightarrow> \<exists>n i cn. n < length (zp_rpcUrls p) \<and>
         fst (proof_from create decrypt handle (zp_rpcUrls p ! n) (zp_instances p ! n) cn) = Inr (i, pr) \<and>
         (\<forall>m < n. \<exists>cm e. fst (proof_from create decrypt handle (zp_rpcUrls p ! m) (zp_instances p ! m) cm) = Inl e) \<and>
         zp_instances p' = replicate n None @ Some i # drop (Suc n) (zp_instances p)) \<and>
    (\<forall>i pr. zp_rpcUrls p \<noteq> [] \<and> fst (proof_from create decrypt handle (hd (zp_rpcUrls p)) (hd (zp_instances p)) c) = Inr (i, pr)
       \<longrightarrow> r = Inr pr \<and> zp_instances p' = Some i # tl (zp_instances p))"
proof -
  let ?us = "zip (zp_rpcUrls p) (zp_instances p)"
  obtain "is" where l: "decrypt_loop create decrypt handle ?us c = (r, is, c')" and p': "p' = p\<lparr>zp_instances := is\<rparr>"
    using assms(1) by (auto simp: publicDecrypt_def split: prod.splits)
  have snds: "map snd (drop n ?us) = drop n (zp_instances p)" for n
    using assms(2) by (simp add: drop_zip)
  have len: "length ?us = length (zp_rpcUrls p)" using assms(2) by simp
  have first: "r = Inr pr \<and> is = Some i # tl (zp_instances p)"
    if "zp_rpcUrls p \<noteq> []" "fst (proof_from create decrypt handle (hd (zp_rpcUrls p)) (hd (zp_instances p)) c) = Inr (i, pr)" for i pr
    using that l assms(2) by (cases "zp_rpcUrls p"; cases "zp_instances p") (auto split: prod.splits sum.splits)
  have out: "case r of
       Inl es \<Rightarrow> is = replicate (length (zp_rpcUrls p)) None \<and>
         list_all2 (\<lambda>u e. \<exists>cn. fst (proof_from create decrypt handle (fst u) (snd u) cn) = Inl e) ?us es
     | Inr pr \<Rightarrow> \<exists>n i cn. n < length (zp_rpcUrls p) \<and>
         fst (proof_from create decrypt handle (zp_rpcUrls p ! n) (zp_instances p ! n) cn) = Inr (i, pr) \<and>
         (\<forall>m < n. \<exists>cm e. fst (proof_from create decrypt handle (zp_rpcUrls p ! m) (zp_instances p ! m) cm) = Inl e) \<and>
         is = replicate n None @ Some i # drop (Suc n) (zp_instances p)"
  proof (cases r)
    case (Inl es)
    with decrypt_loop_outcome [OF l] len show ?thesis by (simp add: case_prod_beta)
  next
    case (Inr pr)
    with decrypt_loop_outcome [OF l] obtain n cn i where n: "n < length ?us"
      "fst (proof_from create decrypt handle (fst (?us ! n)) (snd (?us ! n)) cn) = Inr (i, pr)"
      "\<forall>m < n. \<exists>cm e. fst (proof_from create decrypt handle (fst (?us ! m)) (snd (?us ! m)) cm) = Inl e"
      "is = replicate n None @ Some i # map snd (drop (Suc n) ?us)" by auto
    then show ?thesis using Inr assms(2) unfolding snds by auto
  qed
  show ?thesis using out first decrypt_loop_instances [OF l] len unfolding p' by (simp split: sum.splits) 
qed

theorem public_decrypt_falls_back_witness:
  "\<exists>p'. publicDecrypt (\<lambda>url c. (if url = ''bad'' then Inl (Thrown None None) else Inr url, c))
      (\<lambda>i handle c. (Inr \<lparr>pp_abiEncodedClearValues = handle, pp_decryptionProof = i\<rparr>, c)) ''h''
      (\<lparr>zp_rpcUrls = [''bad'', ''good''], zp_instances = [None, None]\<rparr>, ()) =
      (Inr \<lparr>pp_abiEncodedClearValues = ''h'', pp_decryptionProof = ''good''\<rparr>, (p', ())) \<and>
     zp_rpcUrls p' = [''bad'', ''good''] \<and> length (zp_instances p') = 2"
proof -
  let ?r = "publicDecrypt (\<lambda>url c. (if url = ''bad'' then Inl (Thrown None None) else Inr url, c))
      (\<lambda>i handle c. (Inr \<lparr>pp_abiEncodedClearValues = handle, pp_decryptionProof = i\<rparr>, c)) ''h''
      (\<lparr>zp_rpcUrls = [''bad'', ''good''], zp_instances = [None, None]\<rparr>, ())"
  have r: "?r = (Inr \<lparr>pp_abiEncodedClearValues = ''h'', pp_decryptionProof = ''good''\<rparr>,
      (\<lparr>zp_rpcUrls = [''bad'', ''good''], zp_instances = [None, Some ''good'']\<rparr>, ()))"
    by (simp add: publicDecrypt_def proof_from_def bind_eff_apply)
  from public_decrypt_falls_back [OF r] show ?thesis unfolding r by simp
qed

section \<open>What a poll leaves alone\<close>

text \<open>A predicate of the journal that no journal call changes holds after a poll as before it.\<close>

locale journal_invariant =
  fixes eng :: "('j, 'c) KeeperEngine" and J :: "'j \<Rightarrow> bool"
  assumes list_keeps: "J j \<Longrightarrow> J (snd (ke_list eng j))"
    and put_keeps: "J j \<Longrightarrow> J (snd (ke_put eng e j))"
begin

definition holds :: "('j, 'c) world \<Rightarrow> bool" where
  "holds w \<longleftrightarrow> J (w_journal w)"

lemma keeps_base:
  "keeps holds (on_chain m)" "keeps holds (now_ms eng)" "keeps holds (sleep_ms eng ms)" "keeps holds (emit ev)"
  by (auto intro!: keepsI simp: holds_def on_chain_def now_ms_def sleep_ms_def emit_def split: prod.splits sum.splits)

lemma keeps_list: "keeps holds (journal_list eng)"
  using list_keeps by (fastforce intro!: keepsI simp: holds_def journal_list_def split: prod.splits sum.splits)

lemma keeps_put: "keeps holds (journal_put eng e)"
proof (rule keepsI)
  fix w r w'
  assume w: "holds w" and p: "journal_put eng e w = (r, w')"
  obtain x j where x: "ke_put eng e (w_journal w) = (x, j)" by fastforce
  with w p put_keeps [of "w_journal w" e] show "holds w'"
    by (cases x) (auto simp: holds_def journal_put_def)
qed

lemmas poll_rules = keeps_rules keeps_base keeps_list keeps_put

lemma keeps_record_update: "keeps holds (record_update eng e st opts)"
  unfolding record_update_def by (intro poll_rules)

lemma keeps_reconcileEntry: "keeps holds (reconcileEntry eng e)"
  unfolding reconcileEntry_def reconcile_receipt_def reconcile_missing_def Let_def
  by (intro poll_rules keeps_record_update)

lemma keeps_preflight: "keeps holds (preflight eng)"
  unfolding preflight_def read_chain_id_def read_balance_def by (intro poll_rules)

lemma keeps_reconcileOutstanding: "keeps holds (reconcileOutstanding eng)"
proof -
  have "keeps holds (reconcile_first eng es)" for es
    by (induction es) (unfold reconcile_first.simps, (intro poll_rules keeps_reconcileEntry | assumption)+)
  then show ?thesis unfolding reconcileOutstanding_def by (intro poll_rules)
qed

lemma keeps_wait: "keeps holds (waitAndReconcile fuel eng e)"
proof -
  have "keeps holds (wait_loop eng deadline fuel e)" for deadline e
    by (induction fuel arbitrary: e) (unfold wait_loop.simps, (intro poll_rules keeps_reconcileEntry | assumption)+)
  then show ?thesis unfolding waitAndReconcile_def by (intro poll_rules)
qed

lemma keeps_submit: "keeps holds (submit eng e tx)"
proof -
  have f: "keeps holds (broadcast_failed eng e' err)" for e' err
    unfolding broadcast_failed_def by (intro poll_rules keeps_record_update)
  have a: "keeps holds (bind_eff (broadcast eng tx) (\<lambda>h. if toLowerCase h \<noteq> toLowerCase (tx_hash tx)
      then throw BroadcastHashMismatch else ret ()))"
    unfolding broadcast_def by (intro poll_rules)
  have b: "keeps holds (bind_eff (now_ms eng) (\<lambda>t. let submitted = updateEntry e Submitted t no_options in
      catch_eff (bind_eff (journal_put eng submitted) (\<lambda>_. ret (Some submitted))) (broadcast_failed eng submitted)))"
    unfolding Let_def by (intro poll_rules f)
  show ?thesis
  proof (rule keepsI)
    fix w r w'
    assume w: "holds w" and s: "submit eng e tx w = (r, w')"
    obtain x w1 where x: "bind_eff (broadcast eng tx) (\<lambda>h. if toLowerCase h \<noteq> toLowerCase (tx_hash tx)
      then throw BroadcastHashMismatch else ret ()) w = (x, w1)" by fastforce
    from keepsD [OF a w x] have w1: "holds w1" .
    from s x show "holds w'"
      by (cases x) (auto simp: submit_def dest: keepsD [OF f w1] keepsD [OF b w1])
  qed
qed

lemma keeps_runOnce: "keeps holds (runOnce fuel eng)"
  unfolding runOnce_def poll_def attempt_def execute_def prepare_call_def check_cost_def read_balance_def Let_def
  by (intro poll_rules keeps_preflight keeps_reconcileOutstanding keeps_wait keeps_submit)

lemma service_loop_keeps: "holds w \<Longrightarrow> holds (service_loop fuel eng interval signals w)"
proof (induction signals arbitrary: w)
  case (Cons stopping rest)
  obtain r w1 where r: "runOnce fuel eng w = (r, w1)" by fastforce
  from keepsD [OF keeps_runOnce Cons.prems r] have "holds w1" .
  with Cons.IH show ?case by (simp add: r Let_def) (simp add: sleep_ms_def holds_def)
qed simp

lemma locked_part_keeps:
  assumes "holds w" and "locked_part fuel cfg mode signals started eng w = (r, w')"
  shows "holds w'"
proof (cases started)
  case (Inr vs)
  obtain x w1 where x: "preflight eng w = (x, w1)" by fastforce
  from keepsD [OF keeps_preflight assms(1) x] have w1: "holds w1" .
  obtain y w2 where y: "runOnce fuel eng w1 = (y, w2)" by fastforce
  from keepsD [OF keeps_runOnce w1 y] have "holds w2" .
  with assms(2) Inr x y w1 service_loop_keeps [OF w1] show ?thesis
    by (auto simp: locked_part_def run_mode_def split: sum.splits keeper_mode.splits KeeperRunResult.splits)
qed (use assms in \<open>simp add: locked_part_def\<close>)

end

section \<open>One process per journal\<close>

lemma write_document_lock: "write_document fault pid next d = (r, d') \<Longrightarrow> dk_lock d' = dk_lock d"
  by (cases fault) (auto simp: write_defs split: if_splits)

lemma file_put_lock: "file_put pid fault e d = (r, d') \<Longrightarrow> dk_lock d' = dk_lock d"
  by (erule file_put_cases) (auto dest: write_document_lock)

interpretation held_lock: journal_invariant "file_engine pid eng" "\<lambda>j. dk_lock (fst j)"
  by unfold_locales (auto simp: file_engine_def dest: file_put_lock split: prod.splits)

text \<open>
  One keeper per journal: while the lock file exists the program does nothing but report it;
  a program that takes the lock holds it through its start-up, its checks and all its polls,
  whatever fails in them, and has removed it at the end unless removing it failed itself.  Only
  that failure, or one right after creating the lock file, leaves a lock behind.
\<close>

theorem keeper_process_is_exclusive:
  fixes w :: "(file_journal, 'c) world"
  assumes "keeper_main fuel pid cfg mode signals fault release_fault started eng w = (r, w')"
  shows "(dk_lock (fst (w_journal w)) \<longrightarrow> w' = w \<and> (\<exists>e. r = MainLocked e)) \<and>
    (\<not> dk_lock (fst (w_journal w)) \<and> fault = None \<longrightarrow>
      (\<exists>w1 r2 w2. w1 = w\<lparr>w_journal := ((fst (w_journal w))\<lparr>dk_lock := True\<rparr>, snd (w_journal w))\<rparr> \<and>
        locked_part fuel cfg mode signals started (file_engine pid (configured_engine cfg eng)) w1 = (r2, w2) \<and>
        dk_lock (fst (w_journal w2)) \<and> (release_fault = None \<longrightarrow> r = r2))) \<and>
    (dk_lock (fst (w_journal w')) \<longrightarrow> dk_lock (fst (w_journal w)) \<or>
      fault \<in> {Some AtWriteFile, Some AtSync} \<or> release_fault \<in> {Some AtClose, Some AtUnlink})"
proof -
  let ?d = "fst (w_journal w)"
  let ?eng = "file_engine pid (configured_engine cfg eng)"
  have held: "dk_lock (fst (w_journal w2))"
    if "locked_part fuel cfg mode signals started ?eng w1 = (r2, w2)" "dk_lock (fst (w_journal w1))" for w1 r2 w2
    using held_lock.locked_part_keeps [OF _ that(1)] that(2)
    by (simp add: held_lock.holds_def)
  show ?thesis
  proof (cases "dk_lock ?d")
    case True
    then show ?thesis using assms lock_held_refuses [of ?d fault]
      by (cases "acquireKeeperProcessLock fault ?d") (auto simp: keeper_main_def on_disk_def split: sum.splits)
  next
    case free: False
    obtain x d1 where a: "acquireKeeperProcessLock fault ?d = (x, d1)" by fastforce
    show ?thesis
    proof (cases x)
      case (Inl e)
      with a free have "fault \<noteq> None" "dk_lock d1 \<longrightarrow> fault \<in> {Some AtWriteFile, Some AtSync}"
        by (auto simp: acquireKeeperProcessLock_def bind_eff_apply io_call_def split: if_splits)
      moreover from assms a Inl have "w' = w\<lparr>w_journal := (d1, snd (w_journal w))\<rparr>" by (auto simp: keeper_main_def on_disk_def)
      ultimately show ?thesis using free by auto
    next
      case (Inr u)
      with a lock_excludes [of fault ?d d1] have d1: "dk_lock d1" by simp
      let ?w1 = "w\<lparr>w_journal := (d1, snd (w_journal w))\<rparr>"
      obtain r2 w2 where l: "locked_part fuel cfg mode signals started ?eng ?w1 = (r2, w2)" by fastforce
      have w2: "dk_lock (fst (w_journal w2))" using held [OF l] d1 by simp
      obtain y f d3 where rl: "release_lock release_fault (False, fst (w_journal w2)) = (y, (f, d3))" by (metis prod_cases3)
      from assms a Inr l rl have fin: "w' = w2\<lparr>w_journal := (d3, snd (w_journal w2))\<rparr>" "y = Inr () \<longrightarrow> r = r2"
        by (auto simp: keeper_main_def on_disk_def split: sum.splits)
      have rel: "dk_lock d3 \<longrightarrow> release_fault \<in> {Some AtClose, Some AtUnlink}" "release_fault = None \<longrightarrow> y = Inr ()"
        using rl by (auto simp: release_lock_def bind_eff_apply io_call_def split: if_splits)
      have "fault = None \<longrightarrow> d1 = ?d\<lparr>dk_lock := True\<rparr>"
        using a free by (auto simp: acquireKeeperProcessLock_def bind_eff_apply io_call_def)
      with free l w2 fin rel show ?thesis by auto
    qed
  qed
qed

theorem keeper_process_is_exclusive_witness:
  "\<exists>k. loadConfig (\<lambda>u. trim u \<noteq> []) Inr (\<lambda>_. ''k'') Inr demo_raw_config = Inr k \<and>
     \<not> dk_lock (fst (w_journal (snd (keeper_main 1000 1 k Service [False, True] None None
       (keeper_startup Inr (\<lambda>_. ''k'') demo_manifest k) demo_engine (demo_world False empty_disk)))))"
proof -
  obtain k where k: "loadConfig (\<lambda>u. trim u \<noteq> []) Inr (\<lambda>_. ''k'') Inr demo_raw_config = Inr k"
    using demo_config_loads by blast
  let ?m = "keeper_main 1000 1 k Service [False, True] None None
       (keeper_startup Inr (\<lambda>_. ''k'') demo_manifest k) demo_engine (demo_world False empty_disk)"
  have "\<not> dk_lock (fst (w_journal (snd ?m)))"
    using keeper_process_is_exclusive [of _ _ k _ _ None None _ _ "demo_world False empty_disk" "fst ?m" "snd ?m", OF surjective_pairing]
    by (auto simp: demo_world_def empty_disk_def)
  with k show ?thesis by blast
qed

end
