(* ===== verification/Wallet_Session.thy ===== *)
theory Wallet_Session
  imports Prelude
begin

text \<open>
  The wallet session of the web client (\<open>frontend/lib/auth\<close>): address comparison and the guard of a
  wallet link (\<open>readiness.ts\<close>), the session reducer and the snapshot derived from it
  (\<open>wallet-identity.ts\<close>).  Texts shown to the user are left out; everything a decision depends on
  is modelled.  The address functions of viem are the record \<open>viem\<close>.
\<close>

section \<open>Addresses\<close>

record viem =
  vm_isAddress :: "string \<Rightarrow> bool"
  vm_getAddress :: "string \<Rightarrow> string"

definition normalizeWalletAddress :: "viem \<Rightarrow> string option \<Rightarrow> string option" where
  "normalizeWalletAddress v a = (case a of
     None \<Rightarrow> None
   | Some s \<Rightarrow> if s = [] \<or> \<not> vm_isAddress v s then None else Some (vm_getAddress v (toLowerCase s)))"

definition walletsMatch :: "viem \<Rightarrow> string option \<Rightarrow> string option \<Rightarrow> bool" where
  "walletsMatch v left right = (case (normalizeWalletAddress v left, normalizeWalletAddress v right) of
     (Some l, Some r) \<Rightarrow> l \<noteq> [] \<and> r \<noteq> [] \<and> toLowerCase l = toLowerCase r
   | _ \<Rightarrow> False)"

definition findWalletByAddress :: "viem \<Rightarrow> ('w \<Rightarrow> string) \<Rightarrow> 'w list \<Rightarrow> string option \<Rightarrow> 'w option" where
  "findWalletByAddress v address wallets a =
     (if normalizeWalletAddress v a = None then None
      else find (\<lambda>w. walletsMatch v (Some (address w)) a) wallets)"

section \<open>Readiness of an account\<close>

datatype AuthReadinessState =
    ANONYMOUS | EMAIL_AUTHENTICATED | WALLET_AUTHENTICATED_INCOMPLETE | PROFILE_INCOMPLETE
  | WALLET_REQUIRED | ACCOUNT_READY | SESSION_EXPIRED | ACCOUNT_CONFLICT

record AuthIdentitySnapshot =
  ai_authenticated :: bool
  ai_emailVerified :: bool
  ai_username :: "string option"
  ai_providerUserId :: "string option"
  ai_financialWallet :: "string option"
  ai_connectedWallet :: "string option"
  ai_walletAuthenticated :: bool
  ai_sessionExpired :: bool
  ai_accountConflict :: bool

text \<open>A nullable string is truthy when it is present and not empty.\<close>

definition truthy :: "string option \<Rightarrow> bool" where
  "truthy s = (case s of None \<Rightarrow> False | Some x \<Rightarrow> x \<noteq> [])"

definition getAuthReadiness :: "AuthIdentitySnapshot \<Rightarrow> AuthReadinessState" where
  "getAuthReadiness i =
     (if ai_sessionExpired i then SESSION_EXPIRED
      else if ai_accountConflict i then ACCOUNT_CONFLICT
      else if \<not> ai_authenticated i then ANONYMOUS
      else if \<not> ai_emailVerified i \<and> ai_walletAuthenticated i then WALLET_AUTHENTICATED_INCOMPLETE
      else if \<not> ai_emailVerified i then EMAIL_AUTHENTICATED
      else if \<not> truthy (ai_username i) then PROFILE_INCOMPLETE
      else if \<not> truthy (ai_financialWallet i) then WALLET_REQUIRED
      else ACCOUNT_READY)"

datatype link_refusal =
    AUTH_SESSION_EXPIRED | AUTH_ACCOUNT_CONFLICT | FINANCIAL_IDENTITY_REQUIRED
  | WALLET_SIGNATURE_REQUIRED | FINANCIAL_WALLET_CHANGE_REQUIRES_REAUTH

definition checkFinancialWalletLink ::
  "viem \<Rightarrow> AuthIdentitySnapshot \<Rightarrow> string option \<Rightarrow> (link_refusal, string) result" where
  "checkFinancialWalletLink v i candidateWallet =
     (if ai_sessionExpired i then Inl AUTH_SESSION_EXPIRED
      else if ai_accountConflict i then Inl AUTH_ACCOUNT_CONFLICT
      else if \<not> ai_authenticated i \<or> \<not> truthy (ai_providerUserId i) \<or> \<not> ai_emailVerified i \<or> \<not> truthy (ai_username i)
      then Inl FINANCIAL_IDENTITY_REQUIRED
      else case normalizeWalletAddress v candidateWallet of
        None \<Rightarrow> Inl WALLET_SIGNATURE_REQUIRED
      | Some c \<Rightarrow>
          if c = [] \<or> \<not> truthy (ai_connectedWallet i) \<or> \<not> walletsMatch v (Some c) (ai_connectedWallet i)
          then Inl WALLET_SIGNATURE_REQUIRED
          else if \<not> ai_walletAuthenticated i then Inl WALLET_SIGNATURE_REQUIRED
          else if truthy (ai_financialWallet i) \<and> \<not> walletsMatch v (ai_financialWallet i) (Some c)
          then Inl FINANCIAL_WALLET_CHANGE_REQUIRES_REAUTH
          else Inr c)"

section \<open>Session control\<close>

definition LEOPOLD_CHAIN_ID :: int where
  "LEOPOLD_CHAIN_ID = 11155111"

datatype WalletSessionState =
    WS_BOOTSTRAPPING | WS_DISCONNECTED | WS_CONNECTING | WS_WRONG_NETWORK | WS_CONNECTED | WS_ERROR

datatype WalletSessionIntent = WI_INACTIVE | WI_CONNECTING | WI_ACTIVE

datatype WalletConnectPhase =
    STARTING | SYNCING_PROVIDER | WAITING_FOR_ACCOUNT_SELECTION | VERIFYING_ACCOUNT | VERIFYING_NETWORK | VERIFYING_RUNTIME

datatype WalletSessionReason =
    SDK_INITIALIZING | FINANCIAL_WALLET_NOT_LINKED | NO_ACTIVE_SESSION | USER_DISCONNECTED | ACCOUNT_CHANGED
  | PROVIDER_DISCONNECTED | ACCOUNT_SELECTION_REQUIRED | PROVIDER_UNAVAILABLE | PROVIDER_TIMEOUT | CONNECT_CANCELLED
  | CONNECT_TIMEOUT | WRONG_NETWORK | DYNAMIC_WALLET_UNAVAILABLE | DYNAMIC_PRIMARY_MISMATCH | WAGMI_ACCOUNT_MISMATCH
  | WALLETCLIENT_ACCOUNT_MISMATCH | WALLETCLIENT_NETWORK_MISMATCH | SESSION_RESTORE_INVALID | CONNECTED

datatype connect_origin = USER | RESTORE

record WalletSessionControl =
  wc_intent :: WalletSessionIntent
  wc_status :: WalletSessionState
  wc_reason :: WalletSessionReason
  wc_epoch :: int
  wc_providerRevision :: "int option"
  wc_connectOrigin :: "connect_origin option"
  wc_connectAttemptId :: "string option"
  wc_connectStartedAt :: "int option"
  wc_connectPhase :: "WalletConnectPhase option"

datatype WalletSessionEvent =
    SdkReady "WalletSessionReason option"
  | RestoreStarted string int int
  | ConnectStarted string int int
  | ConnectPhase string WalletConnectPhase "WalletSessionReason option"
  | Connected "string option" int "int option"
  | WrongNetwork "string option" int "int option"
  | Invalidate WalletSessionReason int
  | ConnectFailed WalletSessionReason string int

definition initialWalletSessionControl :: WalletSessionControl where
  "initialWalletSessionControl = \<lparr>wc_intent = WI_INACTIVE, wc_status = WS_BOOTSTRAPPING, wc_reason = SDK_INITIALIZING,
     wc_epoch = 0, wc_providerRevision = None, wc_connectOrigin = None, wc_connectAttemptId = None,
     wc_connectStartedAt = None, wc_connectPhase = None\<rparr>"

definition isCurrentAttempt :: "WalletSessionControl \<Rightarrow> string option \<Rightarrow> bool" where
  "isCurrentAttempt s attemptId = (attemptId = None \<or> wc_connectAttemptId s = attemptId)"

definition started :: "connect_origin \<Rightarrow> string \<Rightarrow> int \<Rightarrow> int \<Rightarrow> WalletSessionControl" where
  "started origin attemptId startedAt epoch = \<lparr>wc_intent = WI_CONNECTING, wc_status = WS_CONNECTING,
     wc_reason = NO_ACTIVE_SESSION, wc_epoch = epoch, wc_providerRevision = None, wc_connectOrigin = Some origin,
     wc_connectAttemptId = Some attemptId, wc_connectStartedAt = Some startedAt, wc_connectPhase = Some STARTING\<rparr>"

definition activated ::
  "WalletSessionState \<Rightarrow> WalletSessionReason \<Rightarrow> int \<Rightarrow> int option \<Rightarrow> WalletSessionControl \<Rightarrow> WalletSessionControl" where
  "activated status reason revision epoch s = \<lparr>wc_intent = WI_ACTIVE, wc_status = status, wc_reason = reason,
     wc_epoch = (case epoch of None \<Rightarrow> wc_epoch s | Some e \<Rightarrow> e), wc_providerRevision = Some revision,
     wc_connectOrigin = None, wc_connectAttemptId = None, wc_connectStartedAt = None, wc_connectPhase = None\<rparr>"

definition deactivated :: "WalletSessionState \<Rightarrow> WalletSessionReason \<Rightarrow> int \<Rightarrow> WalletSessionControl" where
  "deactivated status reason epoch = \<lparr>wc_intent = WI_INACTIVE, wc_status = status, wc_reason = reason,
     wc_epoch = epoch, wc_providerRevision = None, wc_connectOrigin = None, wc_connectAttemptId = None,
     wc_connectStartedAt = None, wc_connectPhase = None\<rparr>"

fun walletSessionReducer :: "WalletSessionControl \<Rightarrow> WalletSessionEvent \<Rightarrow> WalletSessionControl" where
  "walletSessionReducer s (SdkReady reason) =
     (if wc_status s = WS_BOOTSTRAPPING
      then s\<lparr>wc_status := WS_DISCONNECTED, wc_reason := (case reason of None \<Rightarrow> NO_ACTIVE_SESSION | Some r \<Rightarrow> r)\<rparr>
      else s)"
| "walletSessionReducer s (RestoreStarted attemptId startedAt epoch) = started RESTORE attemptId startedAt epoch"
| "walletSessionReducer s (ConnectStarted attemptId startedAt epoch) = started USER attemptId startedAt epoch"
| "walletSessionReducer s (ConnectPhase attemptId phase reason) =
     (if wc_connectAttemptId s \<noteq> Some attemptId \<or> wc_intent s \<noteq> WI_CONNECTING then s
      else s\<lparr>wc_status := WS_CONNECTING, wc_reason := (case reason of None \<Rightarrow> wc_reason s | Some r \<Rightarrow> r),
             wc_connectPhase := Some phase\<rparr>)"
| "walletSessionReducer s (Connected attemptId revision epoch) =
     (if \<not> isCurrentAttempt s attemptId then s else activated WS_CONNECTED CONNECTED revision epoch s)"
| "walletSessionReducer s (WrongNetwork attemptId revision epoch) =
     (if \<not> isCurrentAttempt s attemptId then s else activated WS_WRONG_NETWORK WRONG_NETWORK revision epoch s)"
| "walletSessionReducer s (Invalidate reason epoch) = deactivated WS_DISCONNECTED reason epoch"
| "walletSessionReducer s (ConnectFailed reason attemptId epoch) =
     (if wc_connectAttemptId s \<noteq> Some attemptId then s
      else deactivated (if reason = ACCOUNT_SELECTION_REQUIRED \<or> reason = CONNECT_CANCELLED then WS_DISCONNECTED else WS_ERROR)
             reason epoch)"

section \<open>The session snapshot\<close>

datatype WalletRpcHealthState = NOT_CHECKED | CHECKING | HEALTHY | APP_RPC_UNAVAILABLE | WALLET_RPC_UNAVAILABLE | UNKNOWN_HEALTH

record DynamicWalletDescriptor =
  dw_id :: string
  dw_address :: string

record ProviderObservation =
  po_revision :: int
  po_available :: bool
  po_connected :: bool
  po_accountKnown :: bool
  po_activeAccount :: "string option"
  po_chainId :: "int option"

record WalletRuntimeObservation =
  ro_dynamicPrimaryWallet :: "string option"
  ro_dynamicLinkedWallets :: "DynamicWalletDescriptor list"
  ro_dynamicWalletObject :: "DynamicWalletDescriptor option"
  ro_wagmiAccount :: "string option"
  ro_walletClientAccount :: "string option"
  ro_walletClientId :: "string option"
  ro_walletClientChainId :: "int option"

record WalletSessionInputs =
  wi_initialized :: bool
  wi_verifiedFinancialWallet :: "string option"
  wi_control :: WalletSessionControl
  wi_provider :: ProviderObservation
  wi_runtime :: WalletRuntimeObservation
  wi_networkHealth :: WalletRpcHealthState

datatype WalletSessionRecoveryAction = LINK_WALLET | CONNECT_VERIFIED_WALLET | SWITCH_TO_SEPOLIA | RETRY_PROVIDER | NO_ACTION

record WalletSessionSnapshot =
  ws_status :: WalletSessionState
  ws_intent :: WalletSessionIntent
  ws_reason :: WalletSessionReason
  ws_epoch :: int
  ws_verifiedAddress :: "string option"
  ws_address :: "string option"
  ws_chainId :: "int option"
  ws_providerActiveAccount :: "string option"
  ws_dynamicPrimaryAddress :: "string option"
  ws_dynamicLinkedWallets :: "DynamicWalletDescriptor list"
  ws_dynamicWalletObject :: "DynamicWalletDescriptor option"
  ws_wagmiAccount :: "string option"
  ws_walletClientAccount :: "string option"
  ws_walletClientChainId :: "int option"
  ws_networkHealth :: WalletRpcHealthState
  ws_runtimeAligned :: bool
  ws_canUseFinancialActions :: bool
  ws_recoveryAction :: WalletSessionRecoveryAction
  ws_technicalDetail :: "WalletSessionReason option"

definition normalizeDescriptor :: "viem \<Rightarrow> DynamicWalletDescriptor option \<Rightarrow> DynamicWalletDescriptor option" where
  "normalizeDescriptor v w = (case w of
     None \<Rightarrow> None
   | Some d \<Rightarrow> (case normalizeWalletAddress v (Some (dw_address d)) of
       None \<Rightarrow> None
     | Some a \<Rightarrow> if a = [] then None else Some \<lparr>dw_id = dw_id d, dw_address = a\<rparr>))"

text \<open>\<open>None\<close> when the runtime is aligned, else the reason why not.\<close>

definition runtimeAlignment ::
  "viem \<Rightarrow> string option \<Rightarrow> string option \<Rightarrow> int option \<Rightarrow> WalletRuntimeObservation \<Rightarrow> WalletSessionReason option" where
  "runtimeAlignment v verifiedAddress providerAccount providerChainId runtime =
     (if \<not> truthy verifiedAddress \<or> \<not> truthy providerAccount \<or> \<not> walletsMatch v verifiedAddress providerAccount
      then Some ACCOUNT_CHANGED
      else if ro_dynamicWalletObject runtime = None then Some DYNAMIC_WALLET_UNAVAILABLE
      else if \<not> walletsMatch v (ro_dynamicPrimaryWallet runtime) verifiedAddress then Some DYNAMIC_PRIMARY_MISMATCH
      else if \<not> walletsMatch v (ro_wagmiAccount runtime) verifiedAddress then Some WAGMI_ACCOUNT_MISMATCH
      else if \<not> walletsMatch v (ro_walletClientAccount runtime) verifiedAddress then Some WALLETCLIENT_ACCOUNT_MISMATCH
      else if ro_walletClientChainId runtime \<noteq> providerChainId then Some WALLETCLIENT_NETWORK_MISMATCH
      else None)"

definition recoveryFor :: "WalletSessionState \<Rightarrow> string option \<Rightarrow> WalletSessionRecoveryAction" where
  "recoveryFor status verifiedAddress =
     (if \<not> truthy verifiedAddress then LINK_WALLET
      else case status of
        WS_WRONG_NETWORK \<Rightarrow> SWITCH_TO_SEPOLIA
      | WS_ERROR \<Rightarrow> RETRY_PROVIDER
      | WS_DISCONNECTED \<Rightarrow> CONNECT_VERIFIED_WALLET
      | _ \<Rightarrow> NO_ACTION)"

text \<open>The status and reason of \<open>deriveWalletSession\<close>.\<close>

definition session_status ::
  "viem \<Rightarrow> WalletSessionInputs \<Rightarrow> string option \<Rightarrow> string option \<Rightarrow> WalletSessionState \<times> WalletSessionReason" where
  "session_status v i verifiedAddress providerAccount =
     (let control = wi_control i; provider = wi_provider i in
      if \<not> wi_initialized i then (WS_BOOTSTRAPPING, SDK_INITIALIZING)
      else if \<not> truthy verifiedAddress then (WS_DISCONNECTED, FINANCIAL_WALLET_NOT_LINKED)
      else if wc_intent control = WI_INACTIVE
      then (if wc_status control = WS_ERROR then WS_ERROR else WS_DISCONNECTED, wc_reason control)
      else if wc_intent control = WI_ACTIVE
      then (if wc_providerRevision control \<noteq> Some (po_revision provider) then (WS_DISCONNECTED, ACCOUNT_CHANGED)
            else if \<not> po_accountKnown provider \<or> \<not> po_connected provider \<or> \<not> truthy providerAccount
            then (WS_DISCONNECTED, PROVIDER_DISCONNECTED)
            else if \<not> walletsMatch v providerAccount verifiedAddress then (WS_DISCONNECTED, ACCOUNT_CHANGED)
            else if po_chainId provider \<noteq> Some LEOPOLD_CHAIN_ID then (WS_WRONG_NETWORK, WRONG_NETWORK)
            else case runtimeAlignment v verifiedAddress providerAccount (po_chainId provider) (wi_runtime i) of
              Some reason \<Rightarrow> (WS_ERROR, reason)
            | None \<Rightarrow> (WS_CONNECTED, CONNECTED))
      else (wc_status control, wc_reason control))"

definition deriveWalletSession :: "viem \<Rightarrow> WalletSessionInputs \<Rightarrow> WalletSessionSnapshot" where
  "deriveWalletSession v i =
     (let runtime = wi_runtime i;
          verifiedAddress = normalizeWalletAddress v (wi_verifiedFinancialWallet i);
          providerAccount = normalizeWalletAddress v (po_activeAccount (wi_provider i));
          dynamicPrimaryAddress = normalizeWalletAddress v (ro_dynamicPrimaryWallet runtime);
          wagmiAccount = normalizeWalletAddress v (ro_wagmiAccount runtime);
          walletClientAccount = normalizeWalletAddress v (ro_walletClientAccount runtime);
          dynamicWalletObject = normalizeDescriptor v (ro_dynamicWalletObject runtime);
          dynamicLinkedWallets = List.map_filter (\<lambda>w. normalizeDescriptor v (Some w)) (ro_dynamicLinkedWallets runtime);
          (status, reason) = session_status v i verifiedAddress providerAccount;
          alignment = runtimeAlignment v verifiedAddress providerAccount (po_chainId (wi_provider i))
            (runtime\<lparr>ro_dynamicPrimaryWallet := dynamicPrimaryAddress, ro_dynamicLinkedWallets := dynamicLinkedWallets,
               ro_dynamicWalletObject := dynamicWalletObject, ro_wagmiAccount := wagmiAccount,
               ro_walletClientAccount := walletClientAccount\<rparr>);
          runtimeAligned = (alignment = None \<and> po_chainId (wi_provider i) = Some LEOPOLD_CHAIN_ID)
      in \<lparr>ws_status = status, ws_intent = wc_intent (wi_control i), ws_reason = reason,
          ws_epoch = wc_epoch (wi_control i), ws_verifiedAddress = verifiedAddress,
          ws_address = (if status = WS_CONNECTED \<or> status = WS_WRONG_NETWORK then verifiedAddress else None),
          ws_chainId = po_chainId (wi_provider i), ws_providerActiveAccount = providerAccount,
          ws_dynamicPrimaryAddress = dynamicPrimaryAddress, ws_dynamicLinkedWallets = dynamicLinkedWallets,
          ws_dynamicWalletObject = dynamicWalletObject, ws_wagmiAccount = wagmiAccount,
          ws_walletClientAccount = walletClientAccount, ws_walletClientChainId = ro_walletClientChainId runtime,
          ws_networkHealth = wi_networkHealth i, ws_runtimeAligned = runtimeAligned,
          ws_canUseFinancialActions = (status = WS_CONNECTED \<and> runtimeAligned \<and> wi_networkHealth i = HEALTHY),
          ws_recoveryAction = recoveryFor status verifiedAddress,
          ws_technicalDetail = (if status = WS_ERROR \<or> reason = ACCOUNT_CHANGED \<or> reason = PROVIDER_DISCONNECTED
            then Some reason else None)\<rparr>)"

definition walletSessionRuntimeAligned :: "viem \<Rightarrow> WalletSessionSnapshot \<Rightarrow> bool" where
  "walletSessionRuntimeAligned v s = (ws_status s = WS_CONNECTED \<and> ws_runtimeAligned s \<and>
     walletsMatch v (ws_address s) (ws_verifiedAddress s) \<and> ws_chainId s = Some LEOPOLD_CHAIN_ID)"

text \<open>The key under which observers of the session notice a change: the parts joined by bars.\<close>

fun intent_string :: "WalletSessionIntent \<Rightarrow> string" where
  "intent_string WI_INACTIVE = ''INACTIVE''"
| "intent_string WI_CONNECTING = ''CONNECTING''"
| "intent_string WI_ACTIVE = ''ACTIVE''"

fun status_string :: "WalletSessionState \<Rightarrow> string" where
  "status_string WS_BOOTSTRAPPING = ''BOOTSTRAPPING''"
| "status_string WS_DISCONNECTED = ''DISCONNECTED''"
| "status_string WS_CONNECTING = ''CONNECTING''"
| "status_string WS_WRONG_NETWORK = ''WRONG_NETWORK''"
| "status_string WS_CONNECTED = ''CONNECTED''"
| "status_string WS_ERROR = ''ERROR''"

definition bool_string :: "bool \<Rightarrow> string" where
  "bool_string b = (if b then ''true'' else ''false'')"

definition or_empty :: "string option \<Rightarrow> string" where
  "or_empty s = (case s of None \<Rightarrow> [] | Some x \<Rightarrow> x)"

fun join_bars :: "string list \<Rightarrow> string" where
  "join_bars [] = []"
| "join_bars [x] = x"
| "join_bars (x # y # ys) = x @ CHR ''|'' # join_bars (y # ys)"

definition identity_parts :: "WalletSessionInputs \<Rightarrow> string list" where
  "identity_parts i = (let control = wi_control i; provider = wi_provider i; runtime = wi_runtime i in
     [bool_string (wi_initialized i), or_empty (wi_verifiedFinancialWallet i),
      intent_string (wc_intent control), status_string (wc_status control), int_to_string (wc_epoch control),
      or_empty (map_option int_to_string (wc_providerRevision control)), int_to_string (po_revision provider),
      bool_string (po_accountKnown provider), bool_string (po_connected provider),
      or_empty (po_activeAccount provider), or_empty (map_option int_to_string (po_chainId provider)),
      or_empty (ro_dynamicPrimaryWallet runtime), or_empty (map_option dw_id (ro_dynamicWalletObject runtime)),
      or_empty (ro_wagmiAccount runtime), or_empty (ro_walletClientAccount runtime),
      or_empty (ro_walletClientId runtime), or_empty (map_option int_to_string (ro_walletClientChainId runtime))])"

definition walletSessionIdentityKey :: "WalletSessionInputs \<Rightarrow> string" where
  "walletSessionIdentityKey i = join_bars (identity_parts i)"

section \<open>The persisted session\<close>

text \<open>
  What the browser's session storage holds under the one key: no entry, a text that is no JSON
  object, or an object with the three fields that are read.
\<close>

datatype json_field = JsonString string | JsonNumber int | JsonNull

datatype stored_session = NotAnObject | StoredSession json_field json_field json_field

definition persistActiveWalletSession :: "viem \<Rightarrow> stored_session option \<Rightarrow> string \<Rightarrow> stored_session option" where
  "persistActiveWalletSession v storage address =
     Some (StoredSession (JsonNumber 1) (JsonString ''ACTIVE'')
       (case normalizeWalletAddress v (Some address) of None \<Rightarrow> JsonNull | Some a \<Rightarrow> JsonString a))"

definition clearPersistedWalletSession :: "stored_session option \<Rightarrow> stored_session option" where
  "clearPersistedWalletSession storage = None"

definition readPersistedWalletSession :: "viem \<Rightarrow> stored_session option \<Rightarrow> string option" where
  "readPersistedWalletSession v storage = (case storage of
     Some (StoredSession version intent address) \<Rightarrow>
       (if version \<noteq> JsonNumber 1 \<or> intent \<noteq> JsonString ''ACTIVE'' then None
        else case address of JsonString a \<Rightarrow> normalizeWalletAddress v (Some a) | _ \<Rightarrow> None)
   | _ \<Rightarrow> None)"

section \<open>Lemmas on addresses\<close>

text \<open>
  What is used of viem: checksumming an address changes at most the case of its letters, and its
  result is an address.
\<close>

definition viem_ok :: "viem \<Rightarrow> bool" where
  "viem_ok v \<longleftrightarrow> \<not> vm_isAddress v [] \<and>
     (\<forall>a. vm_isAddress v a \<longrightarrow> toLowerCase (vm_getAddress v (toLowerCase a)) = toLowerCase a \<and>
        vm_isAddress v (vm_getAddress v (toLowerCase a)))"

lemma normalize_Some:
  "normalizeWalletAddress v a = Some b \<longleftrightarrow>
    (\<exists>s. a = Some s \<and> s \<noteq> [] \<and> vm_isAddress v s \<and> b = vm_getAddress v (toLowerCase s))"
  by (auto simp: normalizeWalletAddress_def split: option.splits)

lemma normalize_nonempty:
  "viem_ok v \<Longrightarrow> normalizeWalletAddress v a = Some b \<Longrightarrow> b \<noteq> [] \<and> vm_isAddress v b"
  by (auto simp: normalize_Some viem_ok_def)

lemma normalize_lower:
  "viem_ok v \<Longrightarrow> normalizeWalletAddress v (Some s) = Some b \<Longrightarrow> toLowerCase b = toLowerCase s"
  by (auto simp: normalize_Some viem_ok_def)

lemma normalize_address:
  assumes "viem_ok v" and "vm_isAddress v a"
  shows "\<exists>n. normalizeWalletAddress v (Some a) = Some n \<and> n \<noteq> [] \<and> vm_isAddress v n"
proof -
  have "a \<noteq> []" using assms by (metis viem_ok_def)
  then have "normalizeWalletAddress v (Some a) = Some (vm_getAddress v (toLowerCase a))"
    using assms(2) by (simp add: normalizeWalletAddress_def)
  with normalize_nonempty [OF assms(1)] show ?thesis by blast
qed

lemma normalize_idem:
  assumes "viem_ok v"
  shows "normalizeWalletAddress v (normalizeWalletAddress v a) = normalizeWalletAddress v a"
proof (cases "normalizeWalletAddress v a")
  case (Some b)
  then obtain s where s: "a = Some s" "vm_isAddress v s" "b = vm_getAddress v (toLowerCase s)"
    by (auto simp: normalize_Some)
  have "toLowerCase b = toLowerCase s" using assms s by (simp add: viem_ok_def)
  with normalize_nonempty [OF assms Some] s show ?thesis unfolding Some by (simp add: normalize_Some)
qed (simp add: normalizeWalletAddress_def)

lemma truthy_normalize: "viem_ok v \<Longrightarrow> truthy (normalizeWalletAddress v a) \<longleftrightarrow> normalizeWalletAddress v a \<noteq> None"
  using normalize_nonempty [of v a] by (auto simp: truthy_def split: option.splits)

lemma walletsMatch_iff:
  assumes "viem_ok v"
  shows "walletsMatch v l r \<longleftrightarrow>
    (\<exists>a b. l = Some a \<and> r = Some b \<and> vm_isAddress v a \<and> vm_isAddress v b \<and> toLowerCase a = toLowerCase b)"
proof
  assume "walletsMatch v l r"
  then obtain x y where n: "normalizeWalletAddress v l = Some x" "normalizeWalletAddress v r = Some y"
    and e: "toLowerCase x = toLowerCase y"
    by (auto simp: walletsMatch_def split: option.splits)
  from n obtain a b where "l = Some a" "r = Some b" "vm_isAddress v a" "vm_isAddress v b"
    by (auto simp: normalize_Some)
  moreover from this n e normalize_lower [OF assms] have "toLowerCase a = toLowerCase b" by metis
  ultimately show "\<exists>a b. l = Some a \<and> r = Some b \<and> vm_isAddress v a \<and> vm_isAddress v b \<and> toLowerCase a = toLowerCase b"
    by blast
next
  assume "\<exists>a b. l = Some a \<and> r = Some b \<and> vm_isAddress v a \<and> vm_isAddress v b \<and> toLowerCase a = toLowerCase b"
  then obtain a b where ab: "l = Some a" "r = Some b" "vm_isAddress v a" "vm_isAddress v b" "toLowerCase a = toLowerCase b"
    by blast
  with assms have ne: "a \<noteq> []" "b \<noteq> []" by (auto simp: viem_ok_def)
  with ab have "normalizeWalletAddress v l = Some (vm_getAddress v (toLowerCase a))"
    "normalizeWalletAddress v r = Some (vm_getAddress v (toLowerCase b))"
    by (auto simp: normalizeWalletAddress_def)
  with ab normalize_nonempty [OF assms] show "walletsMatch v l r" by (auto simp: walletsMatch_def)
qed

lemma walletsMatch_normalize:
  assumes "viem_ok v"
  shows "walletsMatch v (normalizeWalletAddress v l) r = walletsMatch v l r"
    and "walletsMatch v l (normalizeWalletAddress v r) = walletsMatch v l r"
  by (simp_all add: walletsMatch_def normalize_idem [OF assms])

lemma walletsMatch_sym: "walletsMatch v l r = walletsMatch v r l"
  by (auto simp: walletsMatch_def split: option.splits)

section \<open>Invariant of the session control\<close>

definition session_inv :: "WalletSessionControl \<Rightarrow> bool" where
  "session_inv s \<longleftrightarrow> (case wc_intent s of
     WI_INACTIVE \<Rightarrow> wc_status s \<in> {WS_BOOTSTRAPPING, WS_DISCONNECTED, WS_ERROR} \<and> wc_providerRevision s = None \<and>
       wc_connectAttemptId s = None \<and> wc_connectOrigin s = None \<and> wc_connectStartedAt s = None \<and> wc_connectPhase s = None
   | WI_CONNECTING \<Rightarrow> wc_status s = WS_CONNECTING \<and> wc_providerRevision s = None \<and> wc_connectAttemptId s \<noteq> None \<and>
       wc_connectOrigin s \<noteq> None \<and> wc_connectStartedAt s \<noteq> None \<and> wc_connectPhase s \<noteq> None
   | WI_ACTIVE \<Rightarrow> wc_status s \<in> {WS_CONNECTED, WS_WRONG_NETWORK} \<and> wc_providerRevision s \<noteq> None \<and>
       wc_connectAttemptId s = None \<and> wc_connectOrigin s = None \<and> wc_connectStartedAt s = None \<and> wc_connectPhase s = None)"

lemmas control_defs = session_inv_def started_def activated_def deactivated_def

lemma session_inv_initial: "session_inv initialWalletSessionControl"
  by (simp add: session_inv_def initialWalletSessionControl_def)

lemma session_inv_step: "session_inv s \<Longrightarrow> session_inv (walletSessionReducer s ev)"
  by (cases ev) (auto simp: control_defs isCurrentAttempt_def split: WalletSessionIntent.splits)

definition run_session :: "WalletSessionEvent list \<Rightarrow> WalletSessionControl \<Rightarrow> WalletSessionControl" where
  "run_session es s = foldl walletSessionReducer s es"

lemma run_session_simps [simp]:
  "run_session [] s = s" "run_session (e # es) s = run_session es (walletSessionReducer s e)"
  by (simp_all add: run_session_def)

lemma session_inv_run: "session_inv s \<Longrightarrow> session_inv (run_session es s)"
  by (induction es arbitrary: s) (auto simp: session_inv_step)

section \<open>A concrete instance\<close>

text \<open>Addresses as viem's non-strict test accepts them, in lower case.\<close>

definition demo_viem :: viem where
  "demo_viem = \<lparr>vm_isAddress = hex_string 40, vm_getAddress = id\<rparr>"

lemma is_hex_digit_lower: "is_hex_digit c \<Longrightarrow> is_hex_digit (lower_char c)"
  by (auto simp: is_hex_digit_def lower_char_def Let_def)

lemma demo_viem_ok: "viem_ok demo_viem"
proof -
  have "hex_string 40 (toLowerCase a)" if "hex_string 40 a" for a
  proof -
    from that have "take 2 (toLowerCase a) = toLowerCase ''0x''"
      by (simp add: hex_string_def toLowerCase_def take_map)
    moreover have "list_all is_hex_digit (drop 2 (toLowerCase a))"
      using that is_hex_digit_lower by (auto simp: hex_string_def toLowerCase_def drop_map list_all_iff)
    ultimately show ?thesis using that by (simp add: hex_string_def toLowerCase_def lower_char_def)
  qed
  then show ?thesis by (simp add: viem_ok_def demo_viem_def) (simp add: hex_string_def)
qed

definition demo_address :: string where
  "demo_address = ''0x'' @ replicate 40 (CHR ''a'')"

lemma demo_address_ok [simp]: "vm_isAddress demo_viem demo_address"
  by (simp add: demo_viem_def demo_address_def hex_string_def) (code_simp)

section \<open>Properties\<close>

text \<open>An observed account is the given address, up to the case of its letters.\<close>

definition names_wallet :: "viem \<Rightarrow> string \<Rightarrow> string option \<Rightarrow> bool" where
  "names_wallet v a x \<longleftrightarrow> (\<exists>b. x = Some b \<and> vm_isAddress v b \<and> toLowerCase b = toLowerCase a)"

lemma walletsMatch_names:
  "viem_ok v \<Longrightarrow> vm_isAddress v a \<Longrightarrow> walletsMatch v x (Some a) \<longleftrightarrow> names_wallet v a x"
  "viem_ok v \<Longrightarrow> vm_isAddress v a \<Longrightarrow> walletsMatch v (Some a) x \<longleftrightarrow> names_wallet v a x"
  by (auto simp: walletsMatch_iff names_wallet_def)

lemma names_wallet_normalize [simp]:
  "viem_ok v \<Longrightarrow> names_wallet v a (normalizeWalletAddress v x) \<longleftrightarrow> names_wallet v a x"
  by (auto simp: names_wallet_def normalize_Some viem_ok_def)

lemma names_wallet_known: "viem_ok v \<Longrightarrow> names_wallet v a x \<Longrightarrow> normalizeWalletAddress v x \<noteq> None"
  by (auto simp: names_wallet_def normalizeWalletAddress_def viem_ok_def)

lemma names_wallet_of_normalized:
  "viem_ok v \<Longrightarrow> normalizeWalletAddress v (Some a) = Some n \<Longrightarrow> names_wallet v n x \<longleftrightarrow> names_wallet v a x"
  by (auto simp: names_wallet_def dest: normalize_lower)

text \<open>The runtime is aligned exactly when every party names the verified wallet on the same chain.\<close>

lemma runtimeAlignment_None:
  assumes "viem_ok v" and "normalizeWalletAddress v (Some a) = Some n"
  shows "runtimeAlignment v (Some n) (normalizeWalletAddress v p) chain rt = None \<longleftrightarrow>
    names_wallet v a p \<and> ro_dynamicWalletObject rt \<noteq> None \<and> names_wallet v a (ro_dynamicPrimaryWallet rt) \<and>
    names_wallet v a (ro_wagmiAccount rt) \<and> names_wallet v a (ro_walletClientAccount rt) \<and> ro_walletClientChainId rt = chain"
proof -
  have n: "vm_isAddress v n" "n \<noteq> []" using normalize_nonempty [OF assms] by auto
  have t: "truthy (Some n)" using n by (simp add: truthy_def)
  show ?thesis
    using names_wallet_known [OF assms(1), of a p]
    by (auto simp: runtimeAlignment_def t walletsMatch_names [OF assms(1) n(1)] names_wallet_of_normalized [OF assms]
        truthy_normalize [OF assms(1)] assms(1))
qed

lemma normalizeDescriptor_known:
  "viem_ok v \<Longrightarrow> normalizeDescriptor v w \<noteq> None \<longleftrightarrow> (\<exists>d. w = Some d \<and> vm_isAddress v (dw_address d))"
proof (cases w)
  case (Some d)
  assume v: "viem_ok v"
  show ?thesis
  proof (cases "vm_isAddress v (dw_address d)")
    case True
    then obtain n where n: "normalizeWalletAddress v (Some (dw_address d)) = Some n"
      using normalize_address [OF v] by blast
    with True Some normalize_nonempty [OF v n] show ?thesis by (simp add: normalizeDescriptor_def)
  qed (simp add: Some normalizeDescriptor_def normalizeWalletAddress_def)
qed (simp add: normalizeDescriptor_def)

lemma canUse_unfold:
  "ws_canUseFinancialActions (deriveWalletSession v i) \<longleftrightarrow>
    fst (session_status v i (normalizeWalletAddress v (wi_verifiedFinancialWallet i))
      (normalizeWalletAddress v (po_activeAccount (wi_provider i)))) = WS_CONNECTED \<and>
    runtimeAlignment v (normalizeWalletAddress v (wi_verifiedFinancialWallet i))
      (normalizeWalletAddress v (po_activeAccount (wi_provider i))) (po_chainId (wi_provider i))
      ((wi_runtime i)\<lparr>ro_dynamicPrimaryWallet := normalizeWalletAddress v (ro_dynamicPrimaryWallet (wi_runtime i)),
         ro_dynamicLinkedWallets := List.map_filter (\<lambda>w. normalizeDescriptor v (Some w)) (ro_dynamicLinkedWallets (wi_runtime i)),
         ro_dynamicWalletObject := normalizeDescriptor v (ro_dynamicWalletObject (wi_runtime i)),
         ro_wagmiAccount := normalizeWalletAddress v (ro_wagmiAccount (wi_runtime i)),
         ro_walletClientAccount := normalizeWalletAddress v (ro_walletClientAccount (wi_runtime i))\<rparr>) = None \<and>
    po_chainId (wi_provider i) = Some LEOPOLD_CHAIN_ID \<and> wi_networkHealth i = HEALTHY"
  by (auto simp: deriveWalletSession_def Let_def split: prod.splits)

lemma session_connected:
  assumes "viem_ok v" and "session_inv (wi_control i)"
  shows "fst (session_status v i (normalizeWalletAddress v (wi_verifiedFinancialWallet i))
      (normalizeWalletAddress v (po_activeAccount (wi_provider i)))) = WS_CONNECTED \<longleftrightarrow>
    (wi_initialized i \<and> wc_intent (wi_control i) = WI_ACTIVE \<and>
     wc_providerRevision (wi_control i) = Some (po_revision (wi_provider i)) \<and>
     po_accountKnown (wi_provider i) \<and> po_connected (wi_provider i) \<and> po_chainId (wi_provider i) = Some LEOPOLD_CHAIN_ID \<and>
     (\<exists>a. wi_verifiedFinancialWallet i = Some a \<and> vm_isAddress v a \<and> names_wallet v a (po_activeAccount (wi_provider i)) \<and>
        runtimeAlignment v (normalizeWalletAddress v (Some a)) (normalizeWalletAddress v (po_activeAccount (wi_provider i)))
          (po_chainId (wi_provider i)) (wi_runtime i) = None))"
proof (cases "normalizeWalletAddress v (wi_verifiedFinancialWallet i)")
  case None
  then have "\<not> (\<exists>a. wi_verifiedFinancialWallet i = Some a \<and> vm_isAddress v a)"
    using assms(1) by (auto simp: normalizeWalletAddress_def viem_ok_def split: if_splits)
  then show ?thesis using None by (auto simp: session_status_def Let_def truthy_def)
next
  case (Some n)
  then obtain a where a: "wi_verifiedFinancialWallet i = Some a" "vm_isAddress v a" by (auto simp: normalize_Some)
  have n: "vm_isAddress v n" "truthy (Some n)"
    using normalize_nonempty [OF assms(1) Some] by (auto simp: truthy_def)
  have na: "normalizeWalletAddress v (Some a) = Some n" using Some a by simp
  have m: "walletsMatch v (normalizeWalletAddress v p) (Some n) \<longleftrightarrow> names_wallet v a p" for p
    by (simp add: walletsMatch_names [OF assms(1) n(1)] names_wallet_of_normalized [OF assms(1) na] assms(1))
  have inv: "wc_intent (wi_control i) = WI_CONNECTING \<Longrightarrow> wc_status (wi_control i) = WS_CONNECTING"
    using assms(2) by (simp add: session_inv_def)
  show ?thesis
    using names_wallet_known [OF assms(1), of a "po_activeAccount (wi_provider i)"] inv
    unfolding a(1) na
    by (cases "wc_intent (wi_control i)")
      (auto simp: session_status_def Let_def n(2) m a truthy_normalize [OF assms(1)] na split: option.splits)
qed


definition demo_inputs :: "WalletSessionControl \<Rightarrow> WalletSessionInputs" where
  "demo_inputs control = \<lparr>wi_initialized = True, wi_verifiedFinancialWallet = Some demo_address, wi_control = control,
     wi_provider = \<lparr>po_revision = 4, po_available = True, po_connected = True, po_accountKnown = True,
       po_activeAccount = Some demo_address, po_chainId = Some 11155111\<rparr>,
     wi_runtime = \<lparr>ro_dynamicPrimaryWallet = Some demo_address, ro_dynamicLinkedWallets = [],
       ro_dynamicWalletObject = Some \<lparr>dw_id = ''w'', dw_address = demo_address\<rparr>, ro_wagmiAccount = Some demo_address,
       ro_walletClientAccount = Some demo_address, ro_walletClientId = None, ro_walletClientChainId = Some 11155111\<rparr>,
     wi_networkHealth = HEALTHY\<rparr>"


text \<open>
  The session control is always in one of three shapes: inactive with nothing pending, one
  pending attempt, or active for one provider revision; and the late events of an attempt that is
  not the pending one never matter: dropping them from any sequence of events gives the same
  state.
\<close>

fun of_attempt :: "string \<Rightarrow> WalletSessionEvent \<Rightarrow> bool" where
  "of_attempt a (ConnectPhase b _ _) = (a = b)"
| "of_attempt a (Connected b _ _) = (b = Some a)"
| "of_attempt a (WrongNetwork b _ _) = (b = Some a)"
| "of_attempt a (ConnectFailed _ b _) = (a = b)"
| "of_attempt a _ = False"

fun starts_attempt :: "string \<Rightarrow> WalletSessionEvent \<Rightarrow> bool" where
  "starts_attempt a (RestoreStarted b _ _) = (a = b)"
| "starts_attempt a (ConnectStarted b _ _) = (a = b)"
| "starts_attempt a _ = False"

lemma stale_event: "wc_connectAttemptId s \<noteq> Some a \<Longrightarrow> of_attempt a e \<Longrightarrow> walletSessionReducer s e = s"
  by (cases e) (auto simp: isCurrentAttempt_def)

lemma attempt_stays_over:
  "wc_connectAttemptId s \<noteq> Some a \<Longrightarrow> \<not> starts_attempt a e \<Longrightarrow>
    wc_connectAttemptId (walletSessionReducer s e) \<noteq> Some a"
  by (cases e) (auto simp: control_defs)

theorem late_attempt_events_do_not_matter:
  assumes "s = run_session before initialWalletSessionControl" and "wc_connectAttemptId s \<noteq> Some a"
    and "\<And>e. e \<in> set es \<Longrightarrow> \<not> starts_attempt a e"
  shows "session_inv s \<and> run_session es s = run_session (filter (\<lambda>e. \<not> of_attempt a e) es) s"
proof
  show "session_inv s" using assms(1) by (simp add: session_inv_run session_inv_initial)
  show "run_session es s = run_session (filter (\<lambda>e. \<not> of_attempt a e) es) s"
    using assms(2,3) by (induction es arbitrary: s) (auto simp: stale_event attempt_stays_over)
qed

theorem late_attempt_events_do_not_matter_witness:
  "run_session [ConnectFailed CONNECT_TIMEOUT ''one'' 2, ConnectStarted ''two'' 7 3, Connected (Some ''one'') 9 None]
     initialWalletSessionControl = run_session [ConnectStarted ''two'' 7 3] initialWalletSessionControl"
proof -
  have "run_session [ConnectFailed CONNECT_TIMEOUT ''one'' 2, ConnectStarted ''two'' 7 3, Connected (Some ''one'') 9 None]
      initialWalletSessionControl =
    run_session (filter (\<lambda>e. \<not> of_attempt ''one'' e)
      [ConnectFailed CONNECT_TIMEOUT ''one'' 2, ConnectStarted ''two'' 7 3, Connected (Some ''one'') 9 None])
      initialWalletSessionControl"
    by (rule late_attempt_events_do_not_matter [where before = "[]", THEN conjunct2])
      (auto simp: initialWalletSessionControl_def)
  then show ?thesis by simp
qed

text \<open>
  The persisted session survives a reload: reading what was persisted for an address gives its
  checksummed form, and nothing for a text that is no address.
\<close>

theorem persisted_session_roundtrip:
  assumes "viem_ok v"
  shows "readPersistedWalletSession v (persistActiveWalletSession v storage a) = normalizeWalletAddress v (Some a) \<and>
    readPersistedWalletSession v (clearPersistedWalletSession storage) = None"
  using normalize_idem [OF assms, of "Some a"]
  by (auto simp: readPersistedWalletSession_def persistActiveWalletSession_def clearPersistedWalletSession_def split: option.splits)

theorem persisted_session_roundtrip_witness:
  "readPersistedWalletSession demo_viem (persistActiveWalletSession demo_viem None demo_address) = Some demo_address"
  using persisted_session_roundtrip [OF demo_viem_ok, of None demo_address]
  by (simp add: normalizeWalletAddress_def) (simp add: demo_viem_def demo_address_def, simp add: toLowerCase_def lower_char_def)

text \<open>
  A wallet is linked only to its owner's account and never replaces another: the guard lets a
  candidate through exactly when the session is valid, the identity complete, the candidate is the
  connected wallet that signed, and no different wallet is designated already.
\<close>

theorem wallet_link_never_replaces:
  assumes "viem_ok v"
  shows "checkFinancialWalletLink v i (Some w) = Inr c \<longleftrightarrow>
    getAuthReadiness i \<in> {WALLET_REQUIRED, ACCOUNT_READY} \<and> truthy (ai_providerUserId i) \<and> ai_walletAuthenticated i \<and>
    vm_isAddress v w \<and> c = vm_getAddress v (toLowerCase w) \<and> names_wallet v w (ai_connectedWallet i) \<and>
    (truthy (ai_financialWallet i) \<longrightarrow> names_wallet v w (ai_financialWallet i))"
proof (cases "normalizeWalletAddress v (Some w)")
  case None
  then have "\<not> vm_isAddress v w" using assms by (auto simp: normalizeWalletAddress_def viem_ok_def split: if_splits)
  with None show ?thesis by (auto simp: checkFinancialWalletLink_def)
next
  case (Some n)
  then have n: "vm_isAddress v w" "n = vm_getAddress v (toLowerCase w)" "w \<noteq> []" by (auto simp: normalize_Some)
  have n': "vm_isAddress v n" "n \<noteq> []" using normalize_nonempty [OF assms Some] by auto
  have "names_wallet v w (ai_connectedWallet i) \<Longrightarrow> truthy (ai_connectedWallet i)"
    using assms by (auto simp: names_wallet_def truthy_def viem_ok_def)
  then show ?thesis
    using n(1,3) n' Some unfolding n(2) [symmetric]
    by (auto simp: checkFinancialWalletLink_def getAuthReadiness_def walletsMatch_names [OF assms n'(1)]
        names_wallet_of_normalized [OF assms Some])
qed

theorem wallet_link_never_replaces_witness:
  "checkFinancialWalletLink demo_viem \<lparr>ai_authenticated = True, ai_emailVerified = True, ai_username = Some ''leo'',
     ai_providerUserId = Some ''u'', ai_financialWallet = None, ai_connectedWallet = Some demo_address,
     ai_walletAuthenticated = True, ai_sessionExpired = False, ai_accountConflict = False\<rparr> (Some demo_address) =
   Inr (toLowerCase demo_address)"
  by (subst wallet_link_never_replaces [OF demo_viem_ok])
    (simp add: getAuthReadiness_def truthy_def names_wallet_def, simp add: demo_viem_def)

end
