(* ===== verification/Client_Account.thy ===== *)
theory Client_Account
  imports Wallet_Session
begin

text \<open>
  The account side of the web client: the account state derived from the login provider's profile
  (\<open>auth/account-state.ts\<close>, \<open>auth/username.ts\<close>), the gate and the one recovery action shown
  (\<open>auth/recovery.ts\<close>), and reconnecting a wallet that is linked already
  (\<open>auth/wallet-recovery.ts\<close>).  \<open>nfkc\<close> stands for the platform's \<open>normalize("NFKC")\<close>.
\<close>

section \<open>User names\<close>

definition username_char :: "char \<Rightarrow> bool" where
  "username_char c = (let n = of_char c :: nat in (97 \<le> n \<and> n \<le> 122) \<or> is_digit c \<or> n = 95)"

definition USERNAME_PATTERN :: "string \<Rightarrow> bool" where
  "USERNAME_PATTERN s = (3 \<le> length s \<and> length s \<le> 20 \<and> list_all username_char s)"

datatype username_error = INVALID_USERNAME

definition canonicalizeUsername :: "(string \<Rightarrow> string) \<Rightarrow> string \<Rightarrow> (username_error, string) result" where
  "canonicalizeUsername nfkc s =
     (let normalized = toLowerCase (nfkc (trim s)) in
      if \<not> USERNAME_PATTERN normalized then Inl INVALID_USERNAME else Inr normalized)"

definition isValidUsername :: "(string \<Rightarrow> string) \<Rightarrow> string \<Rightarrow> bool" where
  "isValidUsername nfkc s = is_ok (canonicalizeUsername nfkc s)"

section \<open>Account state\<close>

datatype meta_value = MetaString string | MetaNull | MetaOther string

record DynamicAccountProfile =
  dp_email :: "string option"
  dp_metadata :: "(string \<rightharpoonup> meta_value) option"
  dp_userId :: "string option"
  dp_verifiedCredentials :: "string option list option"

datatype AccountAuthenticationStatus = AUTH_STATUS_LOADING | AUTH_STATUS_SIGNED_OUT | AUTH_STATUS_SIGNED_IN

datatype AccountProfileStatus = PROFILE_LOADING | INCOMPLETE | COMPLETE

datatype AccountStatus = AUTH_LOADING | SIGNED_OUT | SIGNED_IN_PROFILE_INCOMPLETE | SIGNED_IN_READY

datatype FinancialWalletMetadataStatus = META_LOADING | META_UNAVAILABLE | META_NONE | META_PRESENT | META_ERROR

record FinancialWalletMetadata =
  fm_status :: FinancialWalletMetadataStatus
  fm_address :: "string option"

record AccountState =
  as_status :: AccountStatus
  as_authentication :: AccountAuthenticationStatus
  as_authenticated :: bool
  as_profileStatus :: AccountProfileStatus
  as_identity :: "DynamicAccountProfile option"
  as_email :: "string option"
  as_emailVerified :: bool
  as_username :: "string option"
  as_providerUserId :: "string option"
  as_financialWallet :: FinancialWalletMetadata

record AccountStateInputs =
  ac_clientReady :: bool
  ac_completedUser :: "DynamicAccountProfile option"
  ac_incompleteUser :: "DynamicAccountProfile option"

definition FINANCIAL_WALLET_METADATA_KEY :: string where
  "FINANCIAL_WALLET_METADATA_KEY = ''leopoldFinancialWallet''"

definition LEOPOLD_USERNAME_METADATA_KEY :: string where
  "LEOPOLD_USERNAME_METADATA_KEY = ''Leopold Username''"

definition metadataOf :: "DynamicAccountProfile \<Rightarrow> (string \<rightharpoonup> meta_value)" where
  "metadataOf identity = (case dp_metadata identity of None \<Rightarrow> Map.empty | Some m \<Rightarrow> m)"

definition usernameOf :: "(string \<Rightarrow> string) \<Rightarrow> DynamicAccountProfile \<Rightarrow> string option" where
  "usernameOf nfkc identity = (case metadataOf identity LEOPOLD_USERNAME_METADATA_KEY of
     Some (MetaString configured) \<Rightarrow> (case canonicalizeUsername nfkc configured of Inl _ \<Rightarrow> None | Inr u \<Rightarrow> Some u)
   | _ \<Rightarrow> None)"

definition walletMetadataOf :: "viem \<Rightarrow> DynamicAccountProfile \<Rightarrow> FinancialWalletMetadata" where
  "walletMetadataOf v identity =
     (let recorded = (\<lambda>s. case normalizeWalletAddress v (Some s) of
          Some a \<Rightarrow> if a = [] then \<lparr>fm_status = META_ERROR, fm_address = None\<rparr> else \<lparr>fm_status = META_PRESENT, fm_address = Some a\<rparr>
        | None \<Rightarrow> \<lparr>fm_status = META_ERROR, fm_address = None\<rparr>)
      in case metadataOf identity FINANCIAL_WALLET_METADATA_KEY of
        None \<Rightarrow> \<lparr>fm_status = META_NONE, fm_address = None\<rparr>
      | Some MetaNull \<Rightarrow> \<lparr>fm_status = META_NONE, fm_address = None\<rparr>
      | Some (MetaString s) \<Rightarrow> recorded s
      | Some (MetaOther s) \<Rightarrow> recorded s)"

definition deriveAccountState :: "viem \<Rightarrow> (string \<Rightarrow> string) \<Rightarrow> AccountStateInputs \<Rightarrow> AccountState" where
  "deriveAccountState v nfkc i =
     (if \<not> ac_clientReady i then
        \<lparr>as_status = AUTH_LOADING, as_authentication = AUTH_STATUS_LOADING, as_authenticated = False,
         as_profileStatus = PROFILE_LOADING, as_identity = None, as_email = None, as_emailVerified = False,
         as_username = None, as_providerUserId = None, as_financialWallet = \<lparr>fm_status = META_LOADING, fm_address = None\<rparr>\<rparr>
      else case (case ac_completedUser i of Some u \<Rightarrow> Some u | None \<Rightarrow> ac_incompleteUser i) of
        None \<Rightarrow>
          \<lparr>as_status = SIGNED_OUT, as_authentication = AUTH_STATUS_SIGNED_OUT, as_authenticated = False,
           as_profileStatus = INCOMPLETE, as_identity = None, as_email = None, as_emailVerified = False,
           as_username = None, as_providerUserId = None, as_financialWallet = \<lparr>fm_status = META_UNAVAILABLE, fm_address = None\<rparr>\<rparr>
      | Some identity \<Rightarrow>
          let emailVerified = (case dp_verifiedCredentials identity of
                None \<Rightarrow> False | Some cs \<Rightarrow> list_ex (\<lambda>c. c = Some ''email'') cs);
              username = usernameOf nfkc identity;
              profileStatus = (if emailVerified \<and> truthy username \<and> ac_completedUser i \<noteq> None then COMPLETE else INCOMPLETE)
          in \<lparr>as_status = (if profileStatus = COMPLETE then SIGNED_IN_READY else SIGNED_IN_PROFILE_INCOMPLETE),
              as_authentication = AUTH_STATUS_SIGNED_IN, as_authenticated = True, as_profileStatus = profileStatus,
              as_identity = Some identity, as_email = dp_email identity, as_emailVerified = emailVerified,
              as_username = username, as_providerUserId = dp_userId identity,
              as_financialWallet = walletMetadataOf v identity\<rparr>)"

section \<open>Gate and recovery\<close>

datatype WalletGateMode =
    GATE_AUTH_LOADING | GATE_SIGNED_OUT | GATE_PROFILE_INCOMPLETE | FINANCIAL_METADATA_LOADING | FINANCIAL_METADATA_ERROR | APPLICATION

datatype LeopoldRecoveryAction =
    LINK_FINANCIAL_WALLET | CONFIRM_FINANCIAL_WALLET | CONNECT_WALLET | CONFIRM_ACCOUNT_SELECTION | CANCEL_CONNECTION
  | SWITCH_NETWORK | RETRY_WALLET_PROVIDER | RETRY_NETWORK | RECOVERY_NONE | RECOVERY_ERROR

datatype IntegrityFieldStatus = INTEGRITY_LOADING | INTEGRITY_READY | INTEGRITY_ERROR

record RecoveryInputs =
  ri_accountStatus :: AccountStatus
  ri_financialMetadataStatus :: FinancialWalletMetadataStatus
  ri_walletSessionStatus :: WalletSessionState
  ri_walletSessionReason :: WalletSessionReason
  ri_networkHealth :: WalletRpcHealthState
  ri_canConfirmFinancialWallet :: bool
  ri_financialWalletIntegrity :: "IntegrityFieldStatus option"

definition deriveWalletGateMode :: "AccountStatus \<Rightarrow> FinancialWalletMetadataStatus \<Rightarrow> WalletGateMode" where
  "deriveWalletGateMode accountStatus metadataStatus =
     (if accountStatus = AUTH_LOADING then GATE_AUTH_LOADING
      else if accountStatus = SIGNED_OUT then GATE_SIGNED_OUT
      else if accountStatus = SIGNED_IN_PROFILE_INCOMPLETE then GATE_PROFILE_INCOMPLETE
      else if metadataStatus = META_LOADING then FINANCIAL_METADATA_LOADING
      else if metadataStatus = META_ERROR \<or> metadataStatus = META_UNAVAILABLE then FINANCIAL_METADATA_ERROR
      else APPLICATION)"

text \<open>The visible recovery action; \<open>RECOVERY_NONE\<close> is the hidden one.\<close>

definition deriveLeopoldRecovery :: "RecoveryInputs \<Rightarrow> LeopoldRecoveryAction" where
  "deriveLeopoldRecovery i =
     (if ri_accountStatus i = AUTH_LOADING \<or> ri_accountStatus i = SIGNED_OUT \<or>
         ri_accountStatus i = SIGNED_IN_PROFILE_INCOMPLETE \<or> ri_financialMetadataStatus i = META_LOADING
      then RECOVERY_NONE
      else if ri_financialMetadataStatus i = META_ERROR \<or> ri_financialMetadataStatus i = META_UNAVAILABLE
      then RECOVERY_ERROR
      else if ri_financialMetadataStatus i = META_NONE
      then (if ri_financialWalletIntegrity i = Some INTEGRITY_LOADING then RECOVERY_NONE
            else if ri_financialWalletIntegrity i = Some INTEGRITY_ERROR then RECOVERY_ERROR
            else if ri_canConfirmFinancialWallet i then CONFIRM_FINANCIAL_WALLET
            else LINK_FINANCIAL_WALLET)
      else case ri_walletSessionStatus i of
        WS_BOOTSTRAPPING \<Rightarrow> RECOVERY_NONE
      | WS_DISCONNECTED \<Rightarrow> CONNECT_WALLET
      | WS_CONNECTING \<Rightarrow> (if ri_walletSessionReason i = ACCOUNT_SELECTION_REQUIRED then CONFIRM_ACCOUNT_SELECTION else CANCEL_CONNECTION)
      | WS_WRONG_NETWORK \<Rightarrow> SWITCH_NETWORK
      | WS_ERROR \<Rightarrow> RETRY_WALLET_PROVIDER
      | WS_CONNECTED \<Rightarrow>
          (if ri_networkHealth i \<in> {WALLET_RPC_UNAVAILABLE, APP_RPC_UNAVAILABLE, UNKNOWN_HEALTH} then RETRY_NETWORK
           else RECOVERY_NONE))"

section \<open>Reconnecting a linked wallet\<close>

text \<open>
  A provider call settles after some milliseconds with a value or an error, or never; the timeout
  wins when it has not settled before.  The world of the provider is the state, together with the
  accounts reported through \<open>onProviderAccount\<close>.
\<close>

datatype client_error = ClientTimeout string | ClientThrown string

type_synonym ('w, 'a) provider_call = "'w \<Rightarrow> (int \<times> (string, 'a) result) option \<times> 'w"

type_synonym ('w, 'a) client_op = "(client_error, 'w \<times> string option list, 'a) eff"

definition WALLET_SESSION_TIMEOUT_MS :: int where
  "WALLET_SESSION_TIMEOUT_MS = 10000"

definition withWalletSessionTimeout :: "('w, 'a) provider_call \<Rightarrow> int \<Rightarrow> string \<Rightarrow> ('w, 'a) client_op" where
  "withWalletSessionTimeout operation timeoutMs reason s = (case operation (fst s) of
     (Some (t, r), w) \<Rightarrow> (if t < timeoutMs then (case r of Inl e \<Rightarrow> Inl (ClientThrown e) | Inr a \<Rightarrow> Inr a)
        else Inl (ClientTimeout reason), (w, snd s))
   | (None, w) \<Rightarrow> (Inl (ClientTimeout reason), (w, snd s)))"

definition onProviderAccount :: "string option \<Rightarrow> ('w, unit) client_op" where
  "onProviderAccount a s = (Inr (), (fst s, snd s @ [a]))"

record 'w ExistingWalletConnection =
  ew_isConnected :: "('w, bool) provider_call"
  ew_sync :: "('w, unit) provider_call"
  ew_getConnectedAccounts :: "('w, string list) provider_call"

datatype recovery_reason = VERIFIED_ACCOUNT | SELECTION_REQUIRED | PROVIDER_GONE

record ExistingWalletRecoveryResult =
  er_connected :: bool
  er_activeAddress :: "string option"
  er_reason :: recovery_reason
  er_synced :: bool

definition read_active :: "viem \<Rightarrow> 'w ExistingWalletConnection \<Rightarrow> ('w, string option) client_op" where
  "read_active v wallet =
     bind_eff (withWalletSessionTimeout (ew_getConnectedAccounts wallet) WALLET_SESSION_TIMEOUT_MS ''PROVIDER_ACCOUNT_TIMEOUT'') (\<lambda>accounts.
     let activeAddress = normalizeWalletAddress v (case accounts of [] \<Rightarrow> None | a # _ \<Rightarrow> Some a) in
     bind_eff (onProviderAccount activeAddress) (\<lambda>_. ret activeAddress))"

definition wake_wallet :: "viem \<Rightarrow> 'w ExistingWalletConnection \<Rightarrow> ('w, string option \<times> bool) client_op" where
  "wake_wallet v wallet =
     bind_eff (withWalletSessionTimeout (ew_isConnected wallet) WALLET_SESSION_TIMEOUT_MS ''PROVIDER_CONNECTION_TIMEOUT'') (\<lambda>connected.
     bind_eff (if \<not> connected
        then bind_eff (withWalletSessionTimeout (ew_sync wallet) WALLET_SESSION_TIMEOUT_MS ''PROVIDER_SYNC_TIMEOUT'') (\<lambda>_. ret True)
        else ret False) (\<lambda>synced.
     bind_eff (read_active v wallet) (\<lambda>activeAddress. ret (activeAddress, synced))))"

definition finish_reconnect ::
  "viem \<Rightarrow> 'w ExistingWalletConnection \<Rightarrow> string \<Rightarrow> bool \<Rightarrow> ('w, unit) provider_call \<Rightarrow> string option \<Rightarrow> bool
     \<Rightarrow> ('w, ExistingWalletRecoveryResult) client_op" where
  "finish_reconnect v wallet verifiedAddress isPrimary switchWallet activeAddress synced =
     (if \<not> truthy activeAddress
      then ret \<lparr>er_connected = False, er_activeAddress = None, er_reason = PROVIDER_GONE, er_synced = synced\<rparr>
      else if \<not> walletsMatch v activeAddress (Some verifiedAddress)
      then ret \<lparr>er_connected = False, er_activeAddress = activeAddress, er_reason = SELECTION_REQUIRED, er_synced = synced\<rparr>
      else bind_eff (if \<not> isPrimary
          then withWalletSessionTimeout switchWallet WALLET_SESSION_TIMEOUT_MS ''DYNAMIC_PRIMARY_TIMEOUT'' else ret ()) (\<lambda>_.
        bind_eff (read_active v wallet) (\<lambda>finalAddress.
        ret \<lparr>er_connected = walletsMatch v finalAddress (Some verifiedAddress), er_activeAddress = finalAddress,
          er_reason = (if walletsMatch v finalAddress (Some verifiedAddress) then VERIFIED_ACCOUNT else SELECTION_REQUIRED),
          er_synced = synced\<rparr>)))"

definition reconnectExistingWallet ::
  "viem \<Rightarrow> 'w ExistingWalletConnection \<Rightarrow> string \<Rightarrow> bool \<Rightarrow> ('w, unit) provider_call \<Rightarrow> ('w, ExistingWalletRecoveryResult) client_op" where
  "reconnectExistingWallet v wallet verifiedAddress isPrimary switchWallet =
     bind_eff (read_active v wallet) (\<lambda>first.
     if truthy first \<and> \<not> walletsMatch v first (Some verifiedAddress)
     then ret \<lparr>er_connected = False, er_activeAddress = first, er_reason = SELECTION_REQUIRED, er_synced = False\<rparr>
     else bind_eff (if \<not> truthy first then wake_wallet v wallet else ret (first, False)) (\<lambda>r.
       finish_reconnect v wallet verifiedAddress isPrimary switchWallet (fst r) (snd r)))"

section \<open>The client's composition\<close>

text \<open>
  How the providers of the client put these together: the session starts once the account is ready
  and its wallet metadata is loaded, its verified wallet is the recorded one, and the recovery is
  derived from both.
\<close>

definition session_inputs ::
  "bool \<Rightarrow> AccountState \<Rightarrow> WalletSessionControl \<Rightarrow> ProviderObservation \<Rightarrow> WalletRuntimeObservation \<Rightarrow> WalletRpcHealthState \<Rightarrow> WalletSessionInputs" where
  "session_inputs clientReady account control provider runtime health =
     \<lparr>wi_initialized = (clientReady \<and> as_status account = SIGNED_IN_READY \<and> fm_status (as_financialWallet account) \<noteq> META_LOADING),
      wi_verifiedFinancialWallet = fm_address (as_financialWallet account), wi_control = control, wi_provider = provider,
      wi_runtime = runtime, wi_networkHealth = health\<rparr>"

definition client_recovery ::
  "AccountState \<Rightarrow> WalletSessionSnapshot \<Rightarrow> bool \<Rightarrow> IntegrityFieldStatus option \<Rightarrow> LeopoldRecoveryAction" where
  "client_recovery account session canConfirm integrity = deriveLeopoldRecovery
     \<lparr>ri_accountStatus = as_status account, ri_financialMetadataStatus = fm_status (as_financialWallet account),
      ri_walletSessionStatus = ws_status session, ri_walletSessionReason = ws_reason session,
      ri_networkHealth = ws_networkHealth session, ri_canConfirmFinancialWallet = canConfirm,
      ri_financialWalletIntegrity = integrity\<rparr>"

section \<open>Lemmas\<close>

lemma snapshot_status:
  "ws_status (deriveWalletSession v i) = fst (session_status v i (normalizeWalletAddress v (wi_verifiedFinancialWallet i))
      (normalizeWalletAddress v (po_activeAccount (wi_provider i))))"
  "ws_networkHealth (deriveWalletSession v i) = wi_networkHealth i"
  by (simp_all add: deriveWalletSession_def Let_def split: prod.splits)

lemma deriveAccountState_wallet:
  assumes "viem_ok v"
  shows "fm_status (as_financialWallet (deriveAccountState v nfkc i)) = META_PRESENT \<longleftrightarrow>
    fm_address (as_financialWallet (deriveAccountState v nfkc i)) \<noteq> None"
  by (auto simp: deriveAccountState_def walletMetadataOf_def Let_def split: option.splits meta_value.splits)

lemma account_ready:
  "as_status (deriveAccountState v nfkc i) = SIGNED_IN_READY \<longleftrightarrow>
    ac_clientReady i \<and> (\<exists>u. ac_completedUser i = Some u \<and> (\<exists>n. usernameOf nfkc u = Some n \<and> n \<noteq> []) \<and>
      (\<exists>cs. dp_verifiedCredentials u = Some cs \<and> Some ''email'' \<in> set cs))"
  by (auto simp: deriveAccountState_def Let_def truthy_def list_ex_iff split: option.splits)

lemma gate_application:
  "deriveWalletGateMode a m = APPLICATION \<longleftrightarrow> a = SIGNED_IN_READY \<and> m \<in> {META_NONE, META_PRESENT}"
  by (cases a; cases m) (simp_all add: deriveWalletGateMode_def)

lemma connected_session_can_act:
  assumes "viem_ok v" and "session_inv (wi_control i)" and "ws_status (deriveWalletSession v i) = WS_CONNECTED"
    and "\<And>d. ro_dynamicWalletObject (wi_runtime i) = Some d \<Longrightarrow> vm_isAddress v (dw_address d)"
    and "wi_networkHealth i = HEALTHY"
  shows "ws_canUseFinancialActions (deriveWalletSession v i)"
proof -
  have c: "fst (session_status v i (normalizeWalletAddress v (wi_verifiedFinancialWallet i))
      (normalizeWalletAddress v (po_activeAccount (wi_provider i)))) = WS_CONNECTED"
    using assms(3) by (simp add: snapshot_status)
  with session_connected [OF assms(1,2)] obtain a where
    a: "wi_verifiedFinancialWallet i = Some a" "vm_isAddress v a" "po_chainId (wi_provider i) = Some LEOPOLD_CHAIN_ID"
    and al: "runtimeAlignment v (normalizeWalletAddress v (Some a)) (normalizeWalletAddress v (po_activeAccount (wi_provider i)))
          (po_chainId (wi_provider i)) (wi_runtime i) = None"
    by auto
  obtain n where n: "normalizeWalletAddress v (Some a) = Some n"
    using normalize_address [OF assms(1) a(2)] by blast
  from al have al': "names_wallet v a (po_activeAccount (wi_provider i)) \<and> ro_dynamicWalletObject (wi_runtime i) \<noteq> None \<and>
    names_wallet v a (ro_dynamicPrimaryWallet (wi_runtime i)) \<and> names_wallet v a (ro_wagmiAccount (wi_runtime i)) \<and>
    names_wallet v a (ro_walletClientAccount (wi_runtime i)) \<and> ro_walletClientChainId (wi_runtime i) = po_chainId (wi_provider i)"
    unfolding n runtimeAlignment_None [OF assms(1) n] .
  moreover have "normalizeDescriptor v (ro_dynamicWalletObject (wi_runtime i)) \<noteq> None"
    using al' assms(4) unfolding normalizeDescriptor_known [OF assms(1)] by auto
  ultimately show ?thesis
    unfolding canUse_unfold using c a assms(5) n by (simp add: runtimeAlignment_None [OF assms(1) n] assms(1))
qed

section \<open>Properties\<close>

text \<open>
  The client never leaves the user at a silent dead end: once the application is open, either
  financial actions are enabled, or a recovery action is shown, or something is still loading (the
  session, the health check, the integrity policy); and while actions are enabled no recovery is
  shown.
\<close>

theorem no_silent_dead_end:
  assumes "viem_ok v" and "control = run_session es initialWalletSessionControl"
    and "\<And>d. ro_dynamicWalletObject runtime = Some d \<Longrightarrow> vm_isAddress v (dw_address d)"
    and "account = deriveAccountState v nfkc inputs"
    and "session = deriveWalletSession v (session_inputs (ac_clientReady inputs) account control provider runtime health)"
    and "deriveWalletGateMode (as_status account) (fm_status (as_financialWallet account)) = APPLICATION"
  shows "(client_recovery account session canConfirm integrity \<noteq> RECOVERY_NONE \<or> ws_canUseFinancialActions session \<or>
      health \<in> {NOT_CHECKED, CHECKING} \<or> integrity = Some INTEGRITY_LOADING) \<and>
    (ws_canUseFinancialActions session \<longrightarrow> client_recovery account session canConfirm integrity = RECOVERY_NONE)"
proof -
  let ?i = "session_inputs (ac_clientReady inputs) account control provider runtime health"
  have inv: "session_inv (wi_control ?i)"
    by (simp add: session_inputs_def assms(2) session_inv_run session_inv_initial)
  from assms(6) have rdy: "as_status account = SIGNED_IN_READY"
    and meta: "fm_status (as_financialWallet account) \<in> {META_NONE, META_PRESENT}"
    by (auto simp: gate_application)
  have init: "wi_initialized ?i"
    using rdy meta account_ready [of v nfkc inputs] by (auto simp: session_inputs_def assms(4))
  have health: "ws_networkHealth session = health" by (simp add: assms(5) snapshot_status session_inputs_def)
  have boot: "ws_status session \<noteq> WS_BOOTSTRAPPING"
    using init inv
    by (auto simp: assms(5) snapshot_status session_status_def Let_def session_inv_def
        split: option.splits WalletSessionIntent.splits prod.splits if_splits)
  have act: "ws_canUseFinancialActions session" if "ws_status session = WS_CONNECTED" "health = HEALTHY"
    unfolding assms(5) by (rule connected_session_can_act [OF assms(1) inv]) (use assms(3,5) that in \<open>auto simp: session_inputs_def\<close>)
  have can: "ws_status session = WS_CONNECTED \<and> health = HEALTHY \<and> fm_address (as_financialWallet account) \<noteq> None"
    if "ws_canUseFinancialActions session"
    using that session_connected [OF assms(1) inv] unfolding assms(5) canUse_unfold snapshot_status
    by (auto simp: session_inputs_def)
  have none: "client_recovery account session canConfirm integrity = RECOVERY_NONE \<longleftrightarrow> integrity = Some INTEGRITY_LOADING"
    if "fm_status (as_financialWallet account) = META_NONE"
    using that rdy by (simp add: client_recovery_def deriveLeopoldRecovery_def)
  have present: "client_recovery account session canConfirm integrity = RECOVERY_NONE \<longleftrightarrow>
      ws_status session = WS_CONNECTED \<and> health \<notin> {WALLET_RPC_UNAVAILABLE, APP_RPC_UNAVAILABLE, UNKNOWN_HEALTH}"
    if "fm_status (as_financialWallet account) = META_PRESENT"
    using that rdy boot by (cases "ws_status session") (simp_all add: client_recovery_def deriveLeopoldRecovery_def health)
  have addr: "fm_status (as_financialWallet account) = META_PRESENT \<longleftrightarrow> fm_address (as_financialWallet account) \<noteq> None"
    using deriveAccountState_wallet [OF assms(1)] by (simp add: assms(4))
  show ?thesis
  proof (cases "fm_status (as_financialWallet account) = META_PRESENT")
    case True
    have "health = HEALTHY" if "health \<notin> {NOT_CHECKED, CHECKING}" "health \<notin> {WALLET_RPC_UNAVAILABLE, APP_RPC_UNAVAILABLE, UNKNOWN_HEALTH}"
      using that by (cases health) simp_all
    with present [OF True] act can show ?thesis by blast
  next
    case False
    then have "fm_status (as_financialWallet account) = META_NONE" using meta by simp
    with none can addr False show ?thesis by blast
  qed
qed

definition demo_profile :: DynamicAccountProfile where
  "demo_profile = \<lparr>dp_email = Some ''a@b.c'',
     dp_metadata = Some [LEOPOLD_USERNAME_METADATA_KEY \<mapsto> MetaString ''leo_1'', FINANCIAL_WALLET_METADATA_KEY \<mapsto> MetaString demo_address],
     dp_userId = Some ''u'', dp_verifiedCredentials = Some [Some ''email'']\<rparr>"

definition demo_account :: AccountState where
  "demo_account = deriveAccountState demo_viem id
     \<lparr>ac_clientReady = True, ac_completedUser = Some demo_profile, ac_incompleteUser = None\<rparr>"

lemma demo_account_open:
  "deriveWalletGateMode (as_status demo_account) (fm_status (as_financialWallet demo_account)) = APPLICATION"
proof -
  have "canonicalizeUsername id ''leo_1'' = Inr ''leo_1''" by code_simp
  then have "usernameOf id demo_profile = Some ''leo_1''"
    by (simp add: usernameOf_def metadataOf_def demo_profile_def LEOPOLD_USERNAME_METADATA_KEY_def FINANCIAL_WALLET_METADATA_KEY_def)
  then have "as_status demo_account = SIGNED_IN_READY"
    unfolding demo_account_def account_ready by (simp add: demo_profile_def)
  moreover obtain n where "normalizeWalletAddress demo_viem (Some demo_address) = Some n" "n \<noteq> []"
    using normalize_address [OF demo_viem_ok demo_address_ok] by blast
  then have "fm_status (as_financialWallet demo_account) = META_PRESENT"
    by (simp add: demo_account_def deriveAccountState_def walletMetadataOf_def metadataOf_def demo_profile_def
        FINANCIAL_WALLET_METADATA_KEY_def LEOPOLD_USERNAME_METADATA_KEY_def Let_def)
  ultimately show ?thesis by (simp add: gate_application)
qed

theorem no_silent_dead_end_witness:
  "let session = deriveWalletSession demo_viem (session_inputs True demo_account initialWalletSessionControl
       (wi_provider (demo_inputs initialWalletSessionControl)) (wi_runtime (demo_inputs initialWalletSessionControl)) HEALTHY)
   in client_recovery demo_account session False None \<noteq> RECOVERY_NONE \<or> ws_canUseFinancialActions session"
  using no_silent_dead_end [OF demo_viem_ok, where es = "[]" and control = initialWalletSessionControl
      and runtime = "wi_runtime (demo_inputs initialWalletSessionControl)" and account = demo_account and nfkc = id
      and inputs = "\<lparr>ac_clientReady = True, ac_completedUser = Some demo_profile, ac_incompleteUser = None\<rparr>"
      and provider = "wi_provider (demo_inputs initialWalletSessionControl)" and health = HEALTHY
      and integrity = None and canConfirm = False, OF _ _ _ refl demo_account_open]
  by (simp add: demo_account_def) (simp add: demo_inputs_def)

text \<open>
  Reading the provider's account reports it.
\<close>

lemma read_active_Inr:
  "read_active v wallet s = (Inr a, s') \<Longrightarrow> snd s' = snd s @ [a] \<and> (\<exists>x. a = normalizeWalletAddress v x)"
  by (auto simp: read_active_def bind_eff_Inr withWalletSessionTimeout_def onProviderAccount_def Let_def
      split: prod.splits option.splits if_splits sum.splits)

lemma timeout_reports: "withWalletSessionTimeout op ms reason s = (r, s') \<Longrightarrow> snd s' = snd s"
  by (auto simp: withWalletSessionTimeout_def split: prod.splits option.splits)

lemma wake_wallet_Inr:
  assumes "wake_wallet v wallet s = (Inr (a, synced), s')"
  shows "snd s' = snd s @ [a] \<and> (\<exists>x. a = normalizeWalletAddress v x)"
  using assms
  by (auto simp: wake_wallet_def bind_eff_Inr dest!: timeout_reports read_active_Inr split: if_splits)

text \<open>
  Reconnecting never adopts another wallet: whatever the provider answers, a reconnection that
  reports success has just read the verified wallet as the active account, one that does not
  succeed says why, and the client was told of every account read, at most three, the last being
  the one in the result.
\<close>

theorem reconnect_only_verified_wallet:
  assumes "viem_ok v" and "vm_isAddress v verified"
    and "reconnectExistingWallet v wallet verified isPrimary switchWallet s = (Inr r, s')"
  shows "(er_connected r \<longleftrightarrow> er_reason r = VERIFIED_ACCOUNT) \<and>
    (er_connected r \<longrightarrow> names_wallet v verified (er_activeAddress r)) \<and>
    (\<not> er_connected r \<longrightarrow> \<not> names_wallet v verified (er_activeAddress r)) \<and>
    (\<exists>reports. snd s' = snd s @ reports \<and> reports \<noteq> [] \<and> length reports \<le> 3 \<and> last reports = er_activeAddress r)"
proof -
  have m: "walletsMatch v x (Some verified) \<longleftrightarrow> names_wallet v verified x" for x
    by (rule walletsMatch_names(1) [OF assms(1,2)])
  have known: "truthy a" if "names_wallet v verified a" for a
    using that assms(1) by (auto simp: names_wallet_def truthy_def viem_ok_def)
  from assms(3) obtain first s1 where f: "read_active v wallet s = (Inr first, s1)"
    by (auto simp: reconnectExistingWallet_def bind_eff_Inr)
  note f' = read_active_Inr [OF f]
  show ?thesis
  proof (cases "truthy first \<and> \<not> names_wallet v verified first")
    case True
    with assms(3) f f' show ?thesis by (auto simp: reconnectExistingWallet_def bind_eff_apply m)
  next
    case go: False
    with assms(3) f obtain a synced s2 where
      w: "(if \<not> truthy first then wake_wallet v wallet else ret (first, False)) s1 = (Inr (a, synced), s2)"
      and e: "finish_reconnect v wallet verified isPrimary switchWallet a synced s2 = (Inr r, s')"
      unfolding reconnectExistingWallet_def bind_eff_apply [of "read_active v wallet"] m
      by (simp only: bind_eff_Inr if_False prod.case sum.case) auto
    have rep: "\<exists>rs. snd s2 = snd s @ rs \<and> rs \<noteq> [] \<and> length rs \<le> 2 \<and> last rs = a"
      using w f' by (cases "truthy first") (auto dest: wake_wallet_Inr)
    have none: "a = None" if "\<not> truthy a"
    proof (cases "truthy first")
      case True
      with w that show ?thesis by auto
    next
      case False
      with w have "\<exists>x. a = normalizeWalletAddress v x" by (auto dest: wake_wallet_Inr)
      with that truthy_normalize [OF assms(1)] show ?thesis by blast
    qed
    show ?thesis
    proof (cases "truthy a \<and> names_wallet v verified a")
      case True
      with e obtain fin s3 s4 where sw: "snd s3 = snd s2" and r4: "read_active v wallet s3 = (Inr fin, s4)"
        and r: "s' = s4" "er_activeAddress r = fin" "er_connected r = names_wallet v verified fin"
          "er_reason r = (if names_wallet v verified fin then VERIFIED_ACCOUNT else SELECTION_REQUIRED)"
        by (auto simp: finish_reconnect_def bind_eff_Inr m dest: timeout_reports split: if_splits)
      with rep read_active_Inr [OF r4] show ?thesis by auto
    next
      case False
      then show ?thesis using e rep none known by (auto simp: finish_reconnect_def m split: if_splits)
    qed
  qed
qed

definition demo_wallet :: "nat ExistingWalletConnection" where
  "demo_wallet = \<lparr>ew_isConnected = (\<lambda>n. (Some (5, Inr False), n)), ew_sync = (\<lambda>n. (Some (5, Inr ()), n + 1)),
       ew_getConnectedAccounts = (\<lambda>n. (Some (5, Inr (if n = 0 then [] else [demo_address])), n))\<rparr>"

theorem reconnect_only_verified_wallet_witness:
  "\<exists>r s'. reconnectExistingWallet demo_viem demo_wallet
      demo_address True (\<lambda>n. (None, n)) (0, []) = (Inr r, s') \<and> er_synced r \<and> er_connected r \<and> length (snd s') \<le> 3"
proof -
  obtain n where n: "normalizeWalletAddress demo_viem (Some demo_address) = Some n" "n \<noteq> []"
    using normalize_address [OF demo_viem_ok demo_address_ok] by blast
  have m: "walletsMatch demo_viem (Some n) (Some demo_address)"
    using walletsMatch_normalize(1) [OF demo_viem_ok, of "Some demo_address" "Some demo_address"]
      walletsMatch_names(1) [OF demo_viem_ok demo_address_ok, of "Some demo_address"] n
    by (simp add: names_wallet_def)
  have sel: "ew_isConnected demo_wallet k = (Some (5, Inr False), k)" "ew_sync demo_wallet k = (Some (5, Inr ()), k + 1)"
      "ew_getConnectedAccounts demo_wallet k = (Some (5, Inr (if k = 0 then [] else [demo_address])), k)" for k
    by (simp_all add: demo_wallet_def)
  note defs = sel bind_eff_apply withWalletSessionTimeout_def onProviderAccount_def WALLET_SESSION_TIMEOUT_MS_def
  have ra: "read_active demo_viem demo_wallet (k, t) = (if k = 0 then (Inr None, (k, t @ [None])) else (Inr (Some n), (k, t @ [Some n])))" for k t
    using n by (auto simp: read_active_def defs Let_def normalizeWalletAddress_def [of _ None])
  have wk: "wake_wallet demo_viem demo_wallet (0, t) = (Inr (Some n, True), (1, t @ [Some n]))" for t
    by (simp add: wake_wallet_def defs ra)
  have fin: "finish_reconnect demo_viem demo_wallet demo_address True sw (Some n) True (1, t) =
      (Inr \<lparr>er_connected = True, er_activeAddress = Some n, er_reason = VERIFIED_ACCOUNT, er_synced = True\<rparr>, (1, t @ [Some n]))" for t sw
    using n m by (simp add: finish_reconnect_def truthy_def defs ra)
  have r: "reconnectExistingWallet demo_viem demo_wallet demo_address True (\<lambda>n. (None, n)) (0, []) =
      (Inr \<lparr>er_connected = True, er_activeAddress = Some n, er_reason = VERIFIED_ACCOUNT, er_synced = True\<rparr>,
       (1, [None, Some n, Some n]))"
    using fin by (simp add: reconnectExistingWallet_def bind_eff_apply ra wk truthy_def)
  from reconnect_only_verified_wallet [OF demo_viem_ok demo_address_ok r] show ?thesis unfolding r by auto
qed

end
