(* ===== verification/Client_Reads.thy ===== *)
theory Client_Reads
  imports Wallet_Session Complex_Main
begin

text \<open>
  How the web client reads the network: failure classification, bounded retries and timeouts
  (\<open>ops/reliability.ts\<close>) with their metrics (\<open>ops/metrics.ts\<close>), and the preflight that decides
  whether financial writes are allowed (\<open>leopold/network.ts\<close>).  Diagnostic texts are left out.

  A read settles after some milliseconds, or never.  The state is the outer world, the metrics, and
  a record of what the client waited for.  Milliseconds of the back-off and the jitter are
  rationals, where the source has floating point numbers.
\<close>

section \<open>Metrics\<close>

datatype MetricOperation =
    RPC_HEALTH | DEPLOYMENT_HEALTH | ZAMA_HEALTH | DYNAMIC_HEALTH | HEALTH_CHECK | NETWORK_PREFLIGHT
  | PUBLIC_BALANCE_READ | VAULT_READ | DEPLOYMENT_READ | PRIVATE_HANDLE_READ | FINANCIAL_WRITE_SUBMISSION

datatype MetricOutcome = SUCCESS | FAILURE

datatype MetricFailureCategory =
    NO_FAILURE | TIMEOUT | NETWORK | RATE_LIMIT | SERVER | INVALID_RESPONSE | CONFIGURATION | UNKNOWN_FAILURE

record MetricAggregate =
  ma_count :: int
  ma_totalDurationMs :: int
  ma_maximumDurationMs :: int

type_synonym metric_key = "MetricOperation \<times> MetricOutcome \<times> MetricFailureCategory"

type_synonym MetricsState = "metric_key \<rightharpoonup> MetricAggregate"

definition recordMetric ::
  "MetricOperation \<Rightarrow> MetricOutcome \<Rightarrow> int \<Rightarrow> MetricFailureCategory \<Rightarrow> MetricsState \<Rightarrow> MetricsState" where
  "recordMetric operation outcome durationMs failureCategory st =
     (let boundedDuration = max 0 (min 300000 durationMs);
          category = (if outcome = SUCCESS then NO_FAILURE else failureCategory);
          key = (operation, outcome, category)
      in st(key \<mapsto> (case st key of
           None \<Rightarrow> \<lparr>ma_count = 1, ma_totalDurationMs = boundedDuration, ma_maximumDurationMs = max 0 boundedDuration\<rparr>
         | Some c \<Rightarrow> \<lparr>ma_count = ma_count c + 1, ma_totalDurationMs = ma_totalDurationMs c + boundedDuration,
             ma_maximumDurationMs = max (ma_maximumDurationMs c) boundedDuration\<rparr>)))"

section \<open>Failure classification\<close>

text \<open>
  A thrown value: the two error classes of the module, any other error with its name and message,
  or a value that is no error, with its text.
\<close>

datatype js_error = ReadTimeoutError int | HttpReadError int | JsError string string | JsValue string

text \<open>The regular expressions of the classifier: letters, character classes, and optional items.\<close>

datatype pattern_item = Chr char | Cls string | OptCls string | OptAny | Dig

fun match_here :: "pattern_item list \<Rightarrow> string \<Rightarrow> bool" where
  "match_here [] s = True"
| "match_here (OptCls cs # ps) s = (match_here ps s \<or> (case s of [] \<Rightarrow> False | c # r \<Rightarrow> c \<in> set cs \<and> match_here ps r))"
| "match_here (OptAny # ps) s = (match_here ps s \<or> (case s of [] \<Rightarrow> False | c # r \<Rightarrow> c \<noteq> CHR 0x0A \<and> match_here ps r))"
| "match_here (Chr x # ps) s = (case s of [] \<Rightarrow> False | c # r \<Rightarrow> c = x \<and> match_here ps r)"
| "match_here (Cls cs # ps) s = (case s of [] \<Rightarrow> False | c # r \<Rightarrow> c \<in> set cs \<and> match_here ps r)"
| "match_here (Dig # ps) s = (case s of [] \<Rightarrow> False | c # r \<Rightarrow> is_digit c \<and> match_here ps r)"

fun match_anywhere :: "pattern_item list \<Rightarrow> string \<Rightarrow> bool" where
  "match_anywhere ps [] = match_here ps []"
| "match_anywhere ps (c # r) = (match_here ps (c # r) \<or> match_anywhere ps r)"

definition lit :: "string \<Rightarrow> pattern_item list" where
  "lit s = map Chr s"

definition matches :: "pattern_item list list \<Rightarrow> string \<Rightarrow> bool" where
  "matches alternatives s = list_ex (\<lambda>ps. match_anywhere ps (toLowerCase s)) alternatives"

definition configuration_patterns :: "pattern_item list list" where
  "configuration_patterns = [lit ''configuration'', lit ''wrong'' @ [Cls ''_ ''] @ lit ''network'',
     lit ''chain'' @ [OptCls ''_ -''] @ lit ''id'', lit ''manifest'', lit ''invalid address'']"

definition invalid_patterns :: "pattern_item list list" where
  "invalid_patterns = [lit ''invalid'', lit ''malformed'', lit ''unexpected response'', lit ''json'']"

definition timeout_patterns :: "pattern_item list list" where
  "timeout_patterns = [lit ''timeout'', lit ''timed out'', lit ''aborterror'']"

definition rate_limit_patterns :: "pattern_item list list" where
  "rate_limit_patterns = [lit ''429'', lit ''rate'' @ [OptAny] @ lit ''limit'', lit ''too many requests'']"

definition server_patterns :: "pattern_item list list" where
  "server_patterns = [[Chr (CHR ''5''), Dig, Dig], lit ''server error'', lit ''bad gateway'', lit ''service unavailable'', lit ''gateway timeout'']"

definition network_patterns :: "pattern_item list list" where
  "network_patterns = map lit [''fetch'', ''network'', ''socket'', ''econn'', ''enotfound'', ''connection'', ''http request failed'',
     ''request failed'', ''connection refused'', ''connection reset'', ''temporarily unavailable'']"

definition error_message :: "js_error \<Rightarrow> string" where
  "error_message e = (case e of
     ReadTimeoutError ms \<Rightarrow> ''ReadTimeoutError:READ_TIMEOUT:'' @ int_to_string ms
   | HttpReadError st \<Rightarrow> ''HttpReadError:HTTP_READ_ERROR:'' @ int_to_string st
   | JsError name message \<Rightarrow> name @ CHR '':'' # message
   | JsValue s \<Rightarrow> s)"

definition classifyReadFailure :: "js_error \<Rightarrow> MetricFailureCategory" where
  "classifyReadFailure e = (case e of
     ReadTimeoutError _ \<Rightarrow> TIMEOUT
   | HttpReadError st \<Rightarrow>
       (if st = 408 then TIMEOUT else if st = 429 then RATE_LIMIT else if st \<ge> 500 then SERVER else CONFIGURATION)
   | _ \<Rightarrow>
       (let message = error_message e in
        if matches configuration_patterns message then CONFIGURATION
        else if matches invalid_patterns message then INVALID_RESPONSE
        else if matches timeout_patterns message then TIMEOUT
        else if matches rate_limit_patterns message then RATE_LIMIT
        else if matches server_patterns message then SERVER
        else if matches network_patterns message then NETWORK
        else UNKNOWN_FAILURE))"

definition isTransientReadFailure :: "js_error \<Rightarrow> bool" where
  "isTransientReadFailure e = (classifyReadFailure e \<in> {TIMEOUT, NETWORK, RATE_LIMIT, SERVER})"

section \<open>Bounded retries\<close>

definition DEFAULT_READ_TIMEOUT_MS :: int where "DEFAULT_READ_TIMEOUT_MS = 8000"

definition DEFAULT_READ_MAX_ATTEMPTS :: int where "DEFAULT_READ_MAX_ATTEMPTS = 3"

definition DEFAULT_READ_BACKOFF_MS :: rat where "DEFAULT_READ_BACKOFF_MS = 200"

text \<open>\<open>Math.round\<close> rounds halves up.\<close>

definition js_round :: "rat \<Rightarrow> int" where
  "js_round x = \<lfloor>x + 1 / 2\<rfloor>"

definition exponentialBackoffMs :: "nat \<Rightarrow> rat \<Rightarrow> rat \<Rightarrow> rat \<Rightarrow> int" where
  "exponentialBackoffMs failedAttempt baseDelayMs jitterRatio random =
     (let exponential = baseDelayMs * 2 ^ (failedAttempt - 1);
          jitter = exponential * jitterRatio * (random * 2 - 1)
      in max 0 (js_round (exponential + jitter)))"

datatype wait_event = WaitedRead int "js_error option" | Slept int

record 'w client_world =
  cw_world :: 'w
  cw_metrics :: MetricsState
  cw_waits :: "wait_event list"

type_synonym ('w, 'a) timed_read = "'w \<Rightarrow> (int \<times> (js_error, 'a) result) option \<times> 'w"

text \<open>The options of a read; \<open>random\<close> and \<open>sleep\<close> act on the outer world.\<close>

record 'w ReadReliabilityOptions =
  rr_operation :: MetricOperation
  rr_timeoutMs :: int
  rr_maxAttempts :: js_number
  rr_baseDelayMs :: rat
  rr_jitterRatio :: rat
  rr_random :: "'w \<Rightarrow> rat \<times> 'w"
  rr_sleep :: "int \<Rightarrow> 'w \<Rightarrow> 'w"
  rr_shouldRetry :: "js_error \<Rightarrow> bool"

type_synonym ('w, 'a) client_read = "(js_error, 'w client_world, 'a) eff"

text \<open>One attempt: the read raced against its timeout, with its metric.\<close>

definition race :: "int \<Rightarrow> (int \<times> (js_error, 'a) result) option \<Rightarrow> int \<times> (js_error, 'a) result" where
  "race timeoutMs outcome = (case outcome of
     Some (t, r) \<Rightarrow> if t < timeoutMs then (max 0 t, r) else (timeoutMs, Inl (ReadTimeoutError timeoutMs))
   | None \<Rightarrow> (timeoutMs, Inl (ReadTimeoutError timeoutMs)))"

definition attempt_read :: "'w ReadReliabilityOptions \<Rightarrow> ('w, 'a) timed_read \<Rightarrow> ('w, 'a) client_read" where
  "attempt_read opts read s = (case read (cw_world s) of (outcome, w) \<Rightarrow>
     (case race (rr_timeoutMs opts) outcome of
        (elapsed, Inr a) \<Rightarrow> (Inr a, s\<lparr>cw_world := w, cw_metrics := recordMetric (rr_operation opts) SUCCESS elapsed NO_FAILURE (cw_metrics s),
             cw_waits := cw_waits s @ [WaitedRead elapsed None]\<rparr>)
      | (elapsed, Inl e) \<Rightarrow> (Inl e, s\<lparr>cw_world := w,
             cw_metrics := recordMetric (rr_operation opts) FAILURE elapsed (classifyReadFailure e) (cw_metrics s),
             cw_waits := cw_waits s @ [WaitedRead elapsed (Some e)]\<rparr>)))"

definition back_off :: "'w ReadReliabilityOptions \<Rightarrow> nat \<Rightarrow> 'w client_world \<Rightarrow> 'w client_world" where
  "back_off opts failed s = (case rr_random opts (cw_world s) of (random, w) \<Rightarrow>
     let ms = exponentialBackoffMs failed (rr_baseDelayMs opts) (rr_jitterRatio opts) random in
     s\<lparr>cw_world := rr_sleep opts ms w, cw_waits := cw_waits s @ [Slept ms]\<rparr>)"

fun read_loop :: "'w ReadReliabilityOptions \<Rightarrow> (nat \<Rightarrow> ('w, 'a) timed_read) \<Rightarrow> nat \<Rightarrow> nat \<Rightarrow> ('w, 'a) client_read" where
  "read_loop opts read n 0 s = (Inl (JsError ''Error'' ''READ_RETRY_EXHAUSTED''), s)"
| "read_loop opts read n (Suc left) s = (case attempt_read opts (read n) s of
     (Inr a, s') \<Rightarrow> (Inr a, s')
   | (Inl e, s') \<Rightarrow> if left = 0 \<or> \<not> rr_shouldRetry opts e then (Inl e, s')
       else read_loop opts read (n + 1) left (back_off opts n s'))"

definition withReadReliability :: "(nat \<Rightarrow> ('w, 'a) timed_read) \<Rightarrow> 'w ReadReliabilityOptions \<Rightarrow> ('w, 'a) client_read" where
  "withReadReliability read opts s = (case rr_maxAttempts opts of
     JInt m \<Rightarrow> if m < 1 \<or> m > DEFAULT_READ_MAX_ATTEMPTS then (Inl (JsError ''Error'' ''INVALID_READ_ATTEMPT_LIMIT''), s)
       else read_loop opts read 1 (nat m) s
   | JNonInt \<Rightarrow> (Inl (JsError ''Error'' ''INVALID_READ_ATTEMPT_LIMIT''), s))"

text \<open>A submission is not repeated and not cut off by a timeout; \<open>write\<close> says how long it took.\<close>

definition submitFinancialWriteOnce ::
  "('w \<Rightarrow> (int \<times> (js_error, 'a) result) \<times> 'w) \<Rightarrow> ('w, 'a) client_read" where
  "submitFinancialWriteOnce write_once s = (case write_once (cw_world s) of
     ((t, Inr a), w) \<Rightarrow> (Inr a, s\<lparr>cw_world := w, cw_metrics := recordMetric FINANCIAL_WRITE_SUBMISSION SUCCESS t NO_FAILURE (cw_metrics s)\<rparr>)
   | ((t, Inl e), w) \<Rightarrow> (Inl e, s\<lparr>cw_world := w,
       cw_metrics := recordMetric FINANCIAL_WRITE_SUBMISSION FAILURE t (classifyReadFailure e) (cw_metrics s)\<rparr>))"

section \<open>Bounds of a read\<close>

fun wait_ms :: "wait_event \<Rightarrow> int" where
  "wait_ms (WaitedRead ms _) = ms"
| "wait_ms (Slept ms) = ms"

fun read_outcomes :: "wait_event list \<Rightarrow> js_error option list" where
  "read_outcomes [] = []"
| "read_outcomes (WaitedRead _ e # ws) = e # read_outcomes ws"
| "read_outcomes (Slept _ # ws) = read_outcomes ws"

definition longest_back_off :: "'w ReadReliabilityOptions \<Rightarrow> nat \<Rightarrow> int" where
  "longest_back_off opts k = js_round (rr_baseDelayMs opts * 2 ^ (k - 1) * (1 + rr_jitterRatio opts))"

text \<open>Sensible options: no negative times, and a random number in the unit interval.\<close>

definition options_sane :: "'w ReadReliabilityOptions \<Rightarrow> bool" where
  "options_sane opts \<longleftrightarrow> 0 \<le> rr_timeoutMs opts \<and> 0 \<le> rr_baseDelayMs opts \<and> 0 \<le> rr_jitterRatio opts \<and>
     (\<forall>w. 0 \<le> fst (rr_random opts w) \<and> fst (rr_random opts w) < 1)"

lemma js_round_of_int: "js_round (of_int n) = n"
  unfolding js_round_def by (rule floor_unique) auto

lemma js_round_numeral [simp]: "js_round (numeral k) = numeral k"
  using js_round_of_int [of "numeral k"] by simp

lemma js_round_mono: "x \<le> y \<Longrightarrow> js_round x \<le> js_round y"
  by (auto simp: js_round_def intro: floor_mono)

lemma longest_back_off_nonneg: "options_sane opts \<Longrightarrow> 0 \<le> longest_back_off opts k"
  by (simp add: longest_back_off_def js_round_def options_sane_def)

lemma back_off_bound:
  assumes "options_sane opts"
  shows "exponentialBackoffMs k (rr_baseDelayMs opts) (rr_jitterRatio opts) (fst (rr_random opts w)) \<le> longest_back_off opts k"
proof -
  let ?e = "rr_baseDelayMs opts * 2 ^ (k - 1)" and ?j = "rr_jitterRatio opts" and ?r = "fst (rr_random opts w)"
  have e: "0 \<le> ?e * ?j" using assms by (simp add: options_sane_def)
  have "?r < 1" using assms by (simp add: options_sane_def)
  then have "?r * 2 - 1 \<le> 1" by simp
  with e have "?e * ?j * (?r * 2 - 1) \<le> ?e * ?j * 1" by (rule mult_left_mono [rotated])
  then have "?e + ?e * ?j * (?r * 2 - 1) \<le> ?e * (1 + ?j)" by (simp add: algebra_simps)
  then have "js_round (?e + ?e * ?j * (?r * 2 - 1)) \<le> longest_back_off opts k"
    unfolding longest_back_off_def by (rule js_round_mono)
  with longest_back_off_nonneg [OF assms] show ?thesis by (simp add: exponentialBackoffMs_def Let_def)
qed

lemma attempt_read_waits:
  assumes "attempt_read opts rd s = (r, s')" and "0 \<le> rr_timeoutMs opts"
  shows "\<exists>ms. cw_waits s' = cw_waits s @ [WaitedRead ms (case r of Inl e \<Rightarrow> Some e | Inr _ \<Rightarrow> None)] \<and> ms \<le> rr_timeoutMs opts"
  using assms by (auto simp: attempt_read_def race_def split: prod.splits sum.splits option.splits if_splits)

lemma read_loop_waits:
  assumes "options_sane opts" and "read_loop opts rd n (Suc left) s = (r, s')"
  shows "\<exists>ws es last. cw_waits s' = cw_waits s @ ws \<and> read_outcomes ws = map Some es @ [last] \<and> length es \<le> left \<and>
    list_all (rr_shouldRetry opts) es \<and>
    (case r of Inr _ \<Rightarrow> last = None | Inl e \<Rightarrow> last = Some e \<and> (length es = left \<or> \<not> rr_shouldRetry opts e)) \<and>
    sum_list (map wait_ms ws) \<le> (int (length es) + 1) * rr_timeoutMs opts + (\<Sum>k \<leftarrow> [n..<n + length es]. longest_back_off opts k)"
  using assms(2)
proof (induction left arbitrary: n s)
  case (0 n s)
  obtain x s1 where x: "attempt_read opts (rd n) s = (x, s1)" by fastforce
  with 0 have rs: "r = x" "s' = s1" by (auto split: sum.splits)
  from attempt_read_waits [OF x] assms(1) obtain ms where
    ms: "cw_waits s1 = cw_waits s @ [WaitedRead ms (case x of Inl e \<Rightarrow> Some e | Inr _ \<Rightarrow> None)]" "ms \<le> rr_timeoutMs opts"
    by (auto simp: options_sane_def)
  then show ?case
    unfolding rs by (intro exI [of _ "[WaitedRead ms (case x of Inl e \<Rightarrow> Some e | Inr _ \<Rightarrow> None)]"] exI [of _ "[]"]) (auto split: sum.splits)
next
  case (Suc left n s)
  obtain x s1 where x: "attempt_read opts (rd n) s = (x, s1)" by fastforce
  from attempt_read_waits [OF x] assms(1) obtain ms where
    ms: "cw_waits s1 = cw_waits s @ [WaitedRead ms (case x of Inl e \<Rightarrow> Some e | Inr _ \<Rightarrow> None)]" "ms \<le> rr_timeoutMs opts"
    by (auto simp: options_sane_def)
  show ?case
  proof (cases "\<exists>e. x = Inl e \<and> rr_shouldRetry opts e")
    case False
    with Suc.prems x have "r = x" "s' = s1" by (auto split: sum.splits if_splits)
    with False ms show ?thesis
      by (intro exI [of _ "[WaitedRead ms (case x of Inl e \<Rightarrow> Some e | Inr _ \<Rightarrow> None)]"] exI [of _ "[]"]) (auto split: sum.splits)
  next
    case True
    then obtain e where e: "x = Inl e" "rr_shouldRetry opts e" by blast
    let ?b = "exponentialBackoffMs n (rr_baseDelayMs opts) (rr_jitterRatio opts) (fst (rr_random opts (cw_world s1)))"
    from Suc.prems x e have l: "read_loop opts rd (n + 1) (Suc left) (back_off opts n s1) = (r, s')" by simp
    have b: "cw_waits (back_off opts n s1) = cw_waits s1 @ [Slept ?b]"
      by (simp add: back_off_def Let_def split: prod.splits)
    from Suc.IH [OF l] obtain ws es last where
      ih: "cw_waits s' = cw_waits (back_off opts n s1) @ ws" "read_outcomes ws = map Some es @ [last]" "length es \<le> left"
        "list_all (rr_shouldRetry opts) es"
        "case r of Inr _ \<Rightarrow> last = None | Inl e \<Rightarrow> last = Some e \<and> (length es = left \<or> \<not> rr_shouldRetry opts e)"
        "sum_list (map wait_ms ws) \<le> (int (length es) + 1) * rr_timeoutMs opts
           + (\<Sum>k \<leftarrow> [n + 1..<n + 1 + length es]. longest_back_off opts k)"
      by blast
    have up: "[n..<n + length (e # es)] = n # [n + 1..<n + 1 + length es]"
      by (subst upt_conv_Cons) simp_all
    have "sum_list (map wait_ms (WaitedRead ms (Some e) # Slept ?b # ws)) \<le> (int (length (e # es)) + 1) * rr_timeoutMs opts
        + (\<Sum>k \<leftarrow> [n..<n + length (e # es)]. longest_back_off opts k)"
      unfolding up using ih(6) ms(2) back_off_bound [OF assms(1), of n "cw_world s1"] by (simp add: algebra_simps)
    moreover have "read_outcomes (WaitedRead ms (Some e) # Slept ?b # ws) = map Some (e # es) @ [last]" using ih(2) by simp
    moreover have "cw_waits s' = cw_waits s @ WaitedRead ms (Some e) # Slept ?b # ws" using ih(1) b ms(1) e by simp
    moreover have "case r of Inr _ \<Rightarrow> last = None | Inl x \<Rightarrow> last = Some x \<and> (length (e # es) = Suc left \<or> \<not> rr_shouldRetry opts x)"
      using ih(5) by (simp split: sum.splits)
    moreover have "length (e # es) \<le> Suc left" "list_all (rr_shouldRetry opts) (e # es)" using ih(3,4) e by simp_all
    ultimately show ?thesis by blast
  qed
qed

text \<open>
  A read ends in bounded time and never hides its outcome: it makes at most the configured one
  to three attempts, repeats only after failures it may retry, returns the value of the last
  attempt or throws that attempt's own error (after the last allowed attempt or a failure that is
  not retried), and waits at most one timeout per attempt plus the largest back-offs between them.
\<close>

theorem reads_are_bounded:
  assumes "withReadReliability rd opts s = (r, s')" and "options_sane opts"
    and "rr_maxAttempts opts = JInt m" and "1 \<le> m" and "m \<le> 3"
  shows "\<exists>ws es last. cw_waits s' = cw_waits s @ ws \<and> read_outcomes ws = map Some es @ [last] \<and> int (length es) < m \<and>
    list_all (rr_shouldRetry opts) es \<and>
    (case r of Inr _ \<Rightarrow> last = None | Inl e \<Rightarrow> last = Some e \<and> (int (length es) + 1 = m \<or> \<not> rr_shouldRetry opts e)) \<and>
    sum_list (map wait_ms ws) \<le> m * rr_timeoutMs opts + (\<Sum>k \<leftarrow> [1..<nat m]. longest_back_off opts k)"
proof -
  obtain left where left: "nat m = Suc left" using assms(4) by (cases "nat m") auto
  have "read_loop opts rd 1 (Suc left) s = (r, s')"
    using assms(1,3,4,5) left by (simp add: withReadReliability_def DEFAULT_READ_MAX_ATTEMPTS_def)
  from read_loop_waits [OF assms(2) this] obtain ws es last where
    w: "cw_waits s' = cw_waits s @ ws" "read_outcomes ws = map Some es @ [last]" "length es \<le> left"
      "list_all (rr_shouldRetry opts) es"
      "case r of Inr _ \<Rightarrow> last = None | Inl e \<Rightarrow> last = Some e \<and> (length es = left \<or> \<not> rr_shouldRetry opts e)"
      "sum_list (map wait_ms ws) \<le> (int (length es) + 1) * rr_timeoutMs opts + (\<Sum>k \<leftarrow> [1..<1 + length es]. longest_back_off opts k)"
    by blast
  have m: "m = int left + 1" using left assms(4) by linarith
  have "(int (length es) + 1) * rr_timeoutMs opts \<le> m * rr_timeoutMs opts"
    using w(3) assms(2) by (intro mult_right_mono) (auto simp: m options_sane_def)
  moreover have "(\<Sum>k \<leftarrow> [1..<1 + length es]. longest_back_off opts k) \<le> (\<Sum>k \<leftarrow> [1..<nat m]. longest_back_off opts k)"
  proof -
    obtain k where "nat m = 1 + length es + k" using w(3) left by (metis Suc_le_mono le_Suc_ex plus_1_eq_Suc)
    then have "[1..<nat m] = [1..<1 + length es] @ [1 + length es..<nat m]"
      by (metis le_add1 upt_add_eq_append)
    moreover have "0 \<le> (\<Sum>k \<leftarrow> [1 + length es..<nat m]. longest_back_off opts k)"
      by (rule sum_list_nonneg) (auto simp: longest_back_off_nonneg [OF assms(2)])
    ultimately show ?thesis by (simp only: map_append sum_list_append)
  qed
  ultimately have "sum_list (map wait_ms ws) \<le> m * rr_timeoutMs opts + (\<Sum>k \<leftarrow> [1..<nat m]. longest_back_off opts k)"
    using w(6) by linarith
  moreover have "int (length es) < m" using w(3) m by simp
  moreover have "case r of Inr _ \<Rightarrow> last = None | Inl e \<Rightarrow> last = Some e \<and> (int (length es) + 1 = m \<or> \<not> rr_shouldRetry opts e)"
    using w(5) by (auto simp: m split: sum.splits)
  ultimately show ?thesis using w(1,2,4) by blast
qed

text \<open>The default options of a read.\<close>

definition default_options :: "MetricOperation \<Rightarrow> nat ReadReliabilityOptions" where
  "default_options operation = \<lparr>rr_operation = operation, rr_timeoutMs = DEFAULT_READ_TIMEOUT_MS,
     rr_maxAttempts = JInt DEFAULT_READ_MAX_ATTEMPTS, rr_baseDelayMs = DEFAULT_READ_BACKOFF_MS, rr_jitterRatio = 1 / 5,
     rr_random = (\<lambda>w. (1 / 2, w)), rr_sleep = (\<lambda>_ w. w), rr_shouldRetry = isTransientReadFailure\<rparr>"

lemma default_options_sane: "options_sane (default_options operation)"
  by (simp add: options_sane_def default_options_def DEFAULT_READ_TIMEOUT_MS_def DEFAULT_READ_BACKOFF_MS_def)

theorem reads_are_bounded_witness:
  "\<exists>r s'. withReadReliability (\<lambda>n w. (if n < 3 then None else Some (5, Inr n), w)) (default_options VAULT_READ)
      \<lparr>cw_world = (0 :: nat), cw_metrics = Map.empty, cw_waits = []\<rparr> = (r, s') \<and>
     sum_list (map wait_ms (cw_waits s')) \<le> 24720"
proof -
  let ?s = "\<lparr>cw_world = (0 :: nat), cw_metrics = Map.empty, cw_waits = []\<rparr>"
  let ?opts = "default_options VAULT_READ"
  obtain r s' where r: "withReadReliability (\<lambda>n w. (if n < 3 then None else Some (5, Inr n), w)) ?opts ?s = (r, s')" by fastforce
  have o: "rr_maxAttempts ?opts = JInt 3" "rr_timeoutMs ?opts = 8000"
    by (simp_all add: default_options_def DEFAULT_READ_MAX_ATTEMPTS_def DEFAULT_READ_TIMEOUT_MS_def)
  have l: "[1..<nat 3] = [1, 2]" by (simp add: upt_rec)
  have b: "longest_back_off ?opts 1 = 240" "longest_back_off ?opts 2 = 480"
    by (simp_all add: longest_back_off_def default_options_def DEFAULT_READ_BACKOFF_MS_def)
  from reads_are_bounded [OF r default_options_sane o(1)] have "sum_list (map wait_ms (cw_waits s')) \<le> 24720"
    unfolding l o(2) by (auto simp: b [simplified])
  with r show ?thesis by blast
qed

section \<open>The network preflight\<close>

datatype FinancialNetworkHealthState =
    NET_IDLE | NET_CHECKING | NET_HEALTHY | NET_WRONG_NETWORK | NET_APP_RPC_UNAVAILABLE | NET_WALLET_RPC_UNAVAILABLE
  | NET_WALLET_DISCONNECTED | NET_WALLET_MISMATCH | NET_UNKNOWN

datatype rpc_json = RpcText string | RpcNumber js_number | RpcBigint int | RpcElse

text \<open>A client answers a method with parameters.\<close>

type_synonym 'w RpcRequester = "string \<Rightarrow> string list \<Rightarrow> ('w, rpc_json) timed_read"

record FinancialNetworkHealth =
  nh_state :: FinancialNetworkHealthState
  nh_backgroundChecking :: bool
  nh_checkedAt :: "int option"
  nh_dynamicWalletChainId :: "int option"
  nh_walletClientChainId :: "int option"
  nh_appChainId :: "int option"

record 'w FinancialNetworkPreflightInput =
  np_activeAccount :: "string option"
  np_financialWallet :: "string option"
  np_connectedWallet :: "string option"
  np_activeWallet :: "string option"
  np_walletClientAccount :: "string option"
  np_walletClient :: "'w RpcRequester option"
  np_publicClient :: "'w RpcRequester option"
  np_dynamicWalletChainId :: "int option"
  np_now :: int

definition getPublicReadAccount :: "string option \<Rightarrow> string option \<Rightarrow> string option" where
  "getPublicReadAccount financialWallet connectedWallet = (case financialWallet of None \<Rightarrow> connectedWallet | Some a \<Rightarrow> Some a)"

definition hex_value :: "string \<Rightarrow> nat" where
  "hex_value s = foldl (\<lambda>acc c. acc * 16 + (if is_digit c then of_char c - 48 else of_char (lower_char c) - 87)) 0 s"

definition isRpcQuantity :: "rpc_json \<Rightarrow> bool" where
  "isRpcQuantity x = (case x of
     RpcText s \<Rightarrow> (toLowerCase (take 2 s) = ''0x'' \<and> drop 2 s \<noteq> [] \<and> list_all is_hex_digit (drop 2 s))
   | _ \<Rightarrow> False)"

definition safe_positive :: "int \<Rightarrow> int option" where
  "safe_positive n = (if 0 < n \<and> n \<le> MAX_SAFE_INTEGER then Some n else None)"

definition normalizeNetworkChainId :: "rpc_json \<Rightarrow> int option" where
  "normalizeNetworkChainId x = (case x of
     RpcNumber (JInt n) \<Rightarrow> safe_positive n
   | RpcNumber JNonInt \<Rightarrow> None
   | RpcBigint n \<Rightarrow> safe_positive n
   | RpcText s \<Rightarrow> (if decimal_string s then safe_positive (int (digits_value s))
       else if isRpcQuantity x then safe_positive (int (hex_value (drop 2 s))) else None)
   | RpcElse \<Rightarrow> None)"

definition addressesMatch :: "string option list \<Rightarrow> bool" where
  "addressesMatch addresses = list_all (\<lambda>a. a \<noteq> None \<and> map_option toLowerCase a = map_option toLowerCase (hd addresses)) addresses"

definition health_result ::
  "FinancialNetworkHealthState \<Rightarrow> 'w FinancialNetworkPreflightInput \<Rightarrow> int option \<Rightarrow> int option \<Rightarrow> FinancialNetworkHealth" where
  "health_result state input walletClientChainId appChainId =
     \<lparr>nh_state = state, nh_backgroundChecking = False, nh_checkedAt = Some (np_now input),
      nh_dynamicWalletChainId = np_dynamicWalletChainId input, nh_walletClientChainId = walletClientChainId,
      nh_appChainId = appChainId\<rparr>"

text \<open>
  A request of the preflight: three attempts, a base delay of 100 ms; the remaining options are
  the caller's.
\<close>

definition rpc_request :: "'w ReadReliabilityOptions \<Rightarrow> 'w RpcRequester \<Rightarrow> string \<Rightarrow> string list \<Rightarrow> ('w, rpc_json) client_read" where
  "rpc_request opts client method params = withReadReliability (\<lambda>_. client method params)
     (opts\<lparr>rr_operation := NETWORK_PREFLIGHT, rr_maxAttempts := JInt DEFAULT_READ_MAX_ATTEMPTS, rr_baseDelayMs := 100,
           rr_shouldRetry := isTransientReadFailure\<rparr>)"

definition app_probe :: "'w ReadReliabilityOptions \<Rightarrow> 'w RpcRequester option \<Rightarrow> ('w, int) client_read" where
  "app_probe opts publicClient = (case publicClient of
     None \<Rightarrow> throw (JsError ''Error'' ''APP_RPC_UNAVAILABLE:public-client-missing'')
   | Some client \<Rightarrow>
       bind_eff (rpc_request opts client ''eth_chainId'' []) (\<lambda>c.
       case normalizeNetworkChainId c of
         Some n \<Rightarrow> if n \<noteq> LEOPOLD_CHAIN_ID then throw (JsError ''Error'' (''APP_RPC_UNAVAILABLE:chain-'' @ int_to_string n))
           else bind_eff (rpc_request opts client ''eth_blockNumber'' []) (\<lambda>b.
             if \<not> isRpcQuantity b then throw (JsError ''Error'' ''APP_RPC_UNAVAILABLE:invalid-block-number'') else ret n)
       | None \<Rightarrow> throw (JsError ''Error'' ''APP_RPC_UNAVAILABLE:chain-unknown'')))"

definition wallet_probe :: "'w ReadReliabilityOptions \<Rightarrow> 'w RpcRequester \<Rightarrow> string option \<Rightarrow> ('w, unit) client_read" where
  "wallet_probe opts client financialWallet =
     bind_eff (rpc_request opts client ''eth_getTransactionCount'' [or_empty financialWallet, ''latest'']) (\<lambda>nonce.
     if \<not> isRpcQuantity nonce then throw (JsError ''Error'' ''WALLET_RPC_UNAVAILABLE:invalid-nonce'') else ret ())"

text \<open>The two probes of the settled pair, one after the other.\<close>

definition probe_both ::
  "'w ReadReliabilityOptions \<Rightarrow> 'w FinancialNetworkPreflightInput \<Rightarrow> 'w RpcRequester \<Rightarrow> int \<Rightarrow> 'w client_world
     \<Rightarrow> FinancialNetworkHealth \<times> 'w client_world" where
  "probe_both opts input walletClient walletClientChainId s =
     (case app_probe opts (np_publicClient input) s of (app, s1) \<Rightarrow>
      case wallet_probe opts walletClient (np_financialWallet input) s1 of (wallet, s2) \<Rightarrow>
        (case wallet of
           Inl _ \<Rightarrow> health_result NET_WALLET_RPC_UNAVAILABLE input (Some walletClientChainId) None
         | Inr _ \<Rightarrow> (case app of
             Inl _ \<Rightarrow> health_result NET_APP_RPC_UNAVAILABLE input (Some walletClientChainId) None
           | Inr appChainId \<Rightarrow> health_result NET_HEALTHY input (Some walletClientChainId) (Some appChainId)), s2))"

definition runFinancialNetworkPreflight ::
  "'w ReadReliabilityOptions \<Rightarrow> 'w FinancialNetworkPreflightInput \<Rightarrow> 'w client_world \<Rightarrow> FinancialNetworkHealth \<times> 'w client_world" where
  "runFinancialNetworkPreflight opts input s =
     (if \<not> truthy (np_activeAccount input) then (health_result NET_WALLET_DISCONNECTED input None None, s)
      else if \<not> addressesMatch [np_financialWallet input, np_connectedWallet input, np_activeWallet input,
           np_activeAccount input, np_walletClientAccount input]
      then (health_result NET_WALLET_MISMATCH input None None, s)
      else if np_dynamicWalletChainId input \<noteq> None \<and> np_dynamicWalletChainId input \<noteq> Some LEOPOLD_CHAIN_ID
      then (health_result NET_WRONG_NETWORK input (np_dynamicWalletChainId input) None, s)
      else case np_walletClient input of
        None \<Rightarrow> (health_result NET_WALLET_DISCONNECTED input None None, s)
      | Some walletClient \<Rightarrow>
          if \<not> truthy (np_walletClientAccount input) then (health_result NET_WALLET_DISCONNECTED input None None, s)
          else case rpc_request opts walletClient ''eth_chainId'' [] s of
            (Inl _, s1) \<Rightarrow> (health_result NET_WALLET_RPC_UNAVAILABLE input None None, s1)
          | (Inr c, s1) \<Rightarrow>
              (case normalizeNetworkChainId c of
                 None \<Rightarrow> (health_result NET_UNKNOWN input None None, s1)
               | Some n \<Rightarrow> if n \<noteq> LEOPOLD_CHAIN_ID then (health_result NET_WRONG_NETWORK input (Some n) None, s1)
                   else probe_both opts input walletClient n s1))"

definition createIdleFinancialNetworkHealth :: FinancialNetworkHealth where
  "createIdleFinancialNetworkHealth = \<lparr>nh_state = NET_IDLE, nh_backgroundChecking = False, nh_checkedAt = None,
     nh_dynamicWalletChainId = None, nh_walletClientChainId = None, nh_appChainId = None\<rparr>"

definition FINANCIAL_NETWORK_HEALTH_CACHE_TTL_MS :: int where
  "FINANCIAL_NETWORK_HEALTH_CACHE_TTL_MS = 5000"

definition isFinancialNetworkHealthFresh :: "(string \<times> FinancialNetworkHealth) option \<Rightarrow> string \<Rightarrow> int \<Rightarrow> bool" where
  "isFinancialNetworkHealthFresh cached key now = (case cached of
     None \<Rightarrow> False
   | Some (k, h) \<Rightarrow> k = key \<and> (case nh_checkedAt h of None \<Rightarrow> False | Some t \<Rightarrow> now - t < FINANCIAL_NETWORK_HEALTH_CACHE_TTL_MS))"

datatype FinancialNetworkCheckMode = Auto | Background | Write | Retry

definition beginFinancialNetworkCheck :: "FinancialNetworkHealth \<Rightarrow> FinancialNetworkCheckMode \<Rightarrow> FinancialNetworkHealth" where
  "beginFinancialNetworkCheck current mode =
     (let preserveHealthy = (nh_state current = NET_HEALTHY \<and> (mode = Background \<or> mode = Write)) in
      current\<lparr>nh_state := (if preserveHealthy then NET_HEALTHY else NET_CHECKING), nh_backgroundChecking := preserveHealthy\<rparr>)"

definition financialWritesAllowed :: "FinancialNetworkHealth \<Rightarrow> bool" where
  "financialWritesAllowed h = (nh_state h = NET_HEALTHY)"

definition getFinancialNetworkStatus :: "bool \<Rightarrow> int option \<Rightarrow> int option \<Rightarrow> FinancialNetworkHealthState" where
  "getFinancialNetworkStatus is_connected dynamicWalletChainId walletClientChainId =
     (if \<not> is_connected then NET_WALLET_DISCONNECTED
      else let actual = List.map_filter id [dynamicWalletChainId, walletClientChainId] in
        if actual = [] then NET_CHECKING
        else if list_ex (\<lambda>n. n \<noteq> LEOPOLD_CHAIN_ID) actual then NET_WRONG_NETWORK
        else if length (remdups actual) > 1 then NET_WALLET_MISMATCH
        else NET_HEALTHY)"

text \<open>Addresses that match are all the same up to case.\<close>

lemma addressesMatch_iff:
  "addressesMatch (Some a # xs) \<longleftrightarrow> (\<forall>x \<in> set xs. \<exists>b. x = Some b \<and> toLowerCase b = toLowerCase a)"
  by (auto simp: addressesMatch_def list_all_iff)

lemma app_probe_Inr:
  assumes "app_probe opts pc s = (Inr n, s')"
  shows "n = LEOPOLD_CHAIN_ID \<and> (\<exists>client c b s1 s2. pc = Some client \<and>
    rpc_request opts client ''eth_chainId'' [] s = (Inr c, s1) \<and> normalizeNetworkChainId c = Some LEOPOLD_CHAIN_ID \<and>
    rpc_request opts client ''eth_blockNumber'' [] s1 = (Inr b, s2) \<and> isRpcQuantity b)"
  using assms
  by (auto simp: app_probe_def bind_eff_Inr split: option.splits if_splits)

lemma wallet_probe_Inr:
  "wallet_probe opts client fw s = (Inr u, s') \<Longrightarrow>
    \<exists>b s1. rpc_request opts client ''eth_getTransactionCount'' [or_empty fw, ''latest''] s = (Inr b, s1) \<and> isRpcQuantity b"
  by (auto simp: wallet_probe_def bind_eff_Inr split: if_splits)

text \<open>
  C12. Writes are allowed only on evidence: when a preflight reports a network on which financial
  writes are allowed, the verified, connected, active and signing accounts are all one address, no
  chain other than Sepolia was reported by the account service, and during this preflight the
  wallet's own client named Sepolia and returned a nonce, and the application's client named
  Sepolia and returned a block number.  Starting a check never turns an unhealthy state healthy.
\<close>

theorem writes_need_a_healthy_preflight:
  assumes "runFinancialNetworkPreflight opts input s = (h, s')" and "financialWritesAllowed h"
  shows "(\<exists>a. np_financialWallet input = Some a \<and>
      (\<forall>x \<in> {np_connectedWallet input, np_activeWallet input, np_activeAccount input, np_walletClientAccount input}.
         \<exists>b. x = Some b \<and> toLowerCase b = toLowerCase a)) \<and>
    np_dynamicWalletChainId input \<in> {None, Some LEOPOLD_CHAIN_ID} \<and>
    nh_walletClientChainId h = Some LEOPOLD_CHAIN_ID \<and> nh_appChainId h = Some LEOPOLD_CHAIN_ID \<and>
    nh_checkedAt h = Some (np_now input) \<and>
    (\<exists>wallet public. np_walletClient input = Some wallet \<and> np_publicClient input = Some public \<and>
      (\<exists>c t t'. rpc_request opts wallet ''eth_chainId'' [] t = (Inr c, t') \<and> normalizeNetworkChainId c = Some LEOPOLD_CHAIN_ID) \<and>
      (\<exists>c t t'. rpc_request opts wallet ''eth_getTransactionCount'' [or_empty (np_financialWallet input), ''latest''] t = (Inr c, t') \<and> isRpcQuantity c) \<and>
      (\<exists>c t t'. rpc_request opts public ''eth_chainId'' [] t = (Inr c, t') \<and> normalizeNetworkChainId c = Some LEOPOLD_CHAIN_ID) \<and>
      (\<exists>c t t'. rpc_request opts public ''eth_blockNumber'' [] t = (Inr c, t') \<and> isRpcQuantity c)) \<and>
    (financialWritesAllowed (beginFinancialNetworkCheck h' mode) \<longrightarrow> financialWritesAllowed h')"
proof -
  have st: "nh_state h = NET_HEALTHY" using assms(2) by (simp add: financialWritesAllowed_def)
  obtain wallet c s1 where
    am: "addressesMatch [np_financialWallet input, np_connectedWallet input, np_activeWallet input,
           np_activeAccount input, np_walletClientAccount input]"
    and dyn: "np_dynamicWalletChainId input \<in> {None, Some LEOPOLD_CHAIN_ID}"
    and wc: "np_walletClient input = Some wallet"
    and rq: "rpc_request opts wallet ''eth_chainId'' [] s = (Inr c, s1)" "normalizeNetworkChainId c = Some LEOPOLD_CHAIN_ID"
    and pb: "probe_both opts input wallet LEOPOLD_CHAIN_ID s1 = (h, s')"
    using assms(1) st
    by (auto simp: runFinancialNetworkPreflight_def health_result_def split: if_splits option.splits prod.splits sum.splits)
  obtain app s2 where ap: "app_probe opts (np_publicClient input) s1 = (app, s2)" by fastforce
  obtain wl s3 where wp: "wallet_probe opts wallet (np_financialWallet input) s2 = (wl, s3)" by fastforce
  from pb st ap wp obtain n where "app = Inr n" "\<exists>u. wl = Inr u" and h: "h = health_result NET_HEALTHY input (Some LEOPOLD_CHAIN_ID) (Some n)"
    by (auto simp: probe_both_def health_result_def split: sum.splits)
  then have app: "app_probe opts (np_publicClient input) s1 = (Inr n, s2)" and wl: "\<exists>u. wallet_probe opts wallet (np_financialWallet input) s2 = (Inr u, s3)"
    using ap wp by auto
  have n: "n = LEOPOLD_CHAIN_ID" using app_probe_Inr [OF app] by simp
  obtain a where a: "np_financialWallet input = Some a" using am by (auto simp: addressesMatch_def)
  have same: "\<forall>x \<in> {np_connectedWallet input, np_activeWallet input, np_activeAccount input, np_walletClientAccount input}.
         \<exists>b. x = Some b \<and> toLowerCase b = toLowerCase a"
    using am unfolding a addressesMatch_iff by simp
  have begin_check: "financialWritesAllowed (beginFinancialNetworkCheck h' mode) \<longrightarrow> financialWritesAllowed h'"
    by (simp add: financialWritesAllowed_def beginFinancialNetworkCheck_def Let_def)
  show ?thesis
    using same dyn wc rq app_probe_Inr [OF app] wl wallet_probe_Inr begin_check
    unfolding h n a by (simp add: health_result_def) blast
qed

definition demo_rpc :: "nat RpcRequester" where
  "demo_rpc method params w = (Some (5, Inr (if method = ''eth_chainId'' then RpcNumber (JInt 11155111) else RpcText ''0x1f'')), w)"

definition demo_preflight :: "nat FinancialNetworkPreflightInput" where
  "demo_preflight = \<lparr>np_activeAccount = Some ''0xA'', np_financialWallet = Some ''0xa'', np_connectedWallet = Some ''0xa'',
     np_activeWallet = Some ''0xa'', np_walletClientAccount = Some ''0xA'', np_walletClient = Some demo_rpc,
     np_publicClient = Some demo_rpc, np_dynamicWalletChainId = None, np_now = 17\<rparr>"

lemma demo_rpc_request:
  "\<exists>s'. rpc_request (default_options op) demo_rpc method params s =
     (Inr (if method = ''eth_chainId'' then RpcNumber (JInt 11155111) else RpcText ''0x1f''), s')"
  by (simp add: rpc_request_def withReadReliability_def default_options_def DEFAULT_READ_MAX_ATTEMPTS_def numeral_3_eq_3
      attempt_read_def demo_rpc_def race_def DEFAULT_READ_TIMEOUT_MS_def)

theorem writes_need_a_healthy_preflight_witness:
  "\<exists>h s'. runFinancialNetworkPreflight (default_options NETWORK_PREFLIGHT) demo_preflight
      \<lparr>cw_world = 0, cw_metrics = Map.empty, cw_waits = []\<rparr> = (h, s') \<and> financialWritesAllowed h \<and>
     nh_walletClientChainId h = Some LEOPOLD_CHAIN_ID \<and> nh_checkedAt h = Some 17"
proof -
  let ?o = "default_options NETWORK_PREFLIGHT" and ?s = "\<lparr>cw_world = 0, cw_metrics = Map.empty, cw_waits = []\<rparr> :: nat client_world"
  have q: "isRpcQuantity (RpcText ''0x1f'')" by code_simp
  have c: "normalizeNetworkChainId (RpcNumber (JInt 11155111)) = Some LEOPOLD_CHAIN_ID"
    by (simp add: normalizeNetworkChainId_def safe_positive_def MAX_SAFE_INTEGER_def LEOPOLD_CHAIN_ID_def)
  have m: "addressesMatch [Some ''0xa'', Some ''0xa'', Some ''0xa'', Some ''0xA'', Some ''0xA'']" by code_simp
  obtain s1 where r1: "rpc_request ?o demo_rpc ''eth_chainId'' [] ?s = (Inr (RpcNumber (JInt 11155111)), s1)"
    using demo_rpc_request [of NETWORK_PREFLIGHT "''eth_chainId''"] by fastforce
  obtain s2 where r2: "rpc_request ?o demo_rpc ''eth_chainId'' [] s1 = (Inr (RpcNumber (JInt 11155111)), s2)"
    using demo_rpc_request [of NETWORK_PREFLIGHT "''eth_chainId''"] by fastforce
  obtain s3 where r3: "rpc_request ?o demo_rpc ''eth_blockNumber'' [] s2 = (Inr (RpcText ''0x1f''), s3)"
    using demo_rpc_request [of NETWORK_PREFLIGHT "''eth_blockNumber''"] by fastforce
  obtain s4 where r4: "rpc_request ?o demo_rpc ''eth_getTransactionCount'' [''0xa'', ''latest''] s3 = (Inr (RpcText ''0x1f''), s4)"
    using demo_rpc_request [of NETWORK_PREFLIGHT "''eth_getTransactionCount''"] by fastforce
  have ap: "app_probe ?o (Some demo_rpc) s1 = (Inr LEOPOLD_CHAIN_ID, s3)"
    by (simp add: app_probe_def bind_eff_apply r2 r3 c q)
  have wp: "wallet_probe ?o demo_rpc (Some ''0xa'') s3 = (Inr (), s4)"
    by (simp add: wallet_probe_def bind_eff_apply or_empty_def r4 q)
  have run: "runFinancialNetworkPreflight ?o demo_preflight ?s =
      (health_result NET_HEALTHY demo_preflight (Some LEOPOLD_CHAIN_ID) (Some LEOPOLD_CHAIN_ID), s4)"
    by (simp add: runFinancialNetworkPreflight_def probe_both_def truthy_def demo_preflight_def m r1 c ap wp)
  have "financialWritesAllowed (health_result NET_HEALTHY demo_preflight (Some LEOPOLD_CHAIN_ID) (Some LEOPOLD_CHAIN_ID))"
    by (simp add: financialWritesAllowed_def health_result_def)
  from writes_need_a_healthy_preflight [OF run this] this show ?thesis unfolding run by (simp add: demo_preflight_def)
qed

end
