(* ===== verification/Client_Money.thy ===== *)
theory Client_Money
  imports Client_Reads
begin

text \<open>
  What the web client does around the user's money: amounts (\<open>leopold/amounts.ts\<close>), transaction
  stages, the locally stored transaction records and the resumable deposit found in them
  (\<open>leopold/transactions.ts\<close>), the preparation of a withdrawal (\<open>leopold/withdrawal.ts\<close>), revealing
  the private balance (\<open>leopold/private-balance.ts\<close>), and how the interface shows stages
  (\<open>ui/controller.ts\<close>).
\<close>

section \<open>Amounts\<close>

text \<open>
  \<open>parseUnits\<close> and \<open>formatUnits\<close> of viem are parameters.  The pattern: an integer without leading
  zeros, optionally a point and one to six digits.
\<close>

definition USDC_DECIMALS :: nat where "USDC_DECIMALS = 6"

definition integer_part :: "string \<Rightarrow> bool" where
  "integer_part s = (s = ''0'' \<or> (decimal_string s \<and> hd s \<noteq> CHR ''0''))"

definition usdc_pattern :: "string \<Rightarrow> bool" where
  "usdc_pattern s = (let i = takeWhile (\<lambda>c. c \<noteq> CHR ''.'') s; r = dropWhile (\<lambda>c. c \<noteq> CHR ''.'') s in
     integer_part i \<and> (r = [] \<or> (1 \<le> length (tl r) \<and> length (tl r) \<le> 6 \<and> list_all is_digit (tl r))))"

datatype amount_error = INVALID_USDC_AMOUNT | AMOUNT_MUST_BE_POSITIVE | AMOUNT_EXCEEDS_PRIVATE_USDC_LIMIT | INSUFFICIENT_USDC

definition parseUsdcAmount :: "(string \<Rightarrow> nat \<Rightarrow> int) \<Rightarrow> string \<Rightarrow> (amount_error, int) result" where
  "parseUsdcAmount parseUnits s =
     (let normalized = trim s in
      if \<not> usdc_pattern normalized then Inl INVALID_USDC_AMOUNT
      else let amount = parseUnits normalized USDC_DECIMALS in
        if amount \<le> 0 then Inl AMOUNT_MUST_BE_POSITIVE
        else if amount > 0xffffffffffffffff then Inl AMOUNT_EXCEEDS_PRIVATE_USDC_LIMIT
        else Inr amount)"

definition formatUsdcAmount :: "(int \<Rightarrow> nat \<Rightarrow> string) \<Rightarrow> int \<Rightarrow> string" where
  "formatUsdcAmount formatUnits n = formatUnits n USDC_DECIMALS"

definition parseUsdcAmountWithinBalance :: "(string \<Rightarrow> nat \<Rightarrow> int) \<Rightarrow> string \<Rightarrow> int \<Rightarrow> (amount_error, int) result" where
  "parseUsdcAmountWithinBalance parseUnits s balance =
     bind_result (parseUsdcAmount parseUnits s) (\<lambda>amount. if amount > balance then Inl INSUFFICIENT_USDC else Inr amount)"

section \<open>Transaction stages\<close>

datatype TransactionStage =
    ST_READY
  | ST_WALLET
  | ST_SUBMITTED
  | ST_CONFIRMING
  | ST_APPROVAL_SIMULATING
  | ST_APPROVAL_SIGNATURE
  | ST_APPROVAL_SUBMITTED
  | ST_APPROVAL_CONFIRMING
  | ST_ALLOWANCE_REFRESH
  | ST_WRAP_SIMULATING
  | ST_WRAP_SIGNATURE
  | ST_WRAP_SUBMITTED
  | ST_WRAP_CONFIRMING
  | ST_SAVE_ENCRYPTING
  | ST_SAVE_SIMULATING
  | ST_SAVE_SIGNATURE
  | ST_SAVE_SUBMITTED
  | ST_SAVE_CONFIRMING
  | ST_SAVE_RECEIPT
  | ST_SAVE_POST_REFRESH
  | ST_WITHDRAW_ROUND_CHECK
  | ST_WITHDRAW_ROUND_ADVANCE_SIMULATING
  | ST_WITHDRAW_ROUND_ADVANCE_SIGNATURE
  | ST_WITHDRAW_ROUND_ADVANCE_SUBMITTED
  | ST_WITHDRAW_ROUND_ADVANCE_CONFIRMING
  | ST_WITHDRAW_REFRESH
  | ST_WITHDRAW_SIMULATING
  | ST_WITHDRAW_SIGNATURE
  | ST_WITHDRAW_SUBMITTED
  | ST_WITHDRAW_CONFIRMING
  | ST_WITHDRAW_RECEIPT
  | ST_PRIVATE
  | ST_COMPLETE
  | ST_FAILED

fun transactionStageLabel :: "TransactionStage \<Rightarrow> string" where
  "transactionStageLabel ST_READY = ''Ready''"
| "transactionStageLabel ST_WALLET = ''Waiting for wallet''"
| "transactionStageLabel ST_SUBMITTED = ''Submitted''"
| "transactionStageLabel ST_CONFIRMING = ''Confirming''"
| "transactionStageLabel ST_APPROVAL_SIMULATING = ''Simulating approval''"
| "transactionStageLabel ST_APPROVAL_SIGNATURE = ''Waiting for approval signature''"
| "transactionStageLabel ST_APPROVAL_SUBMITTED = ''Approval submitted''"
| "transactionStageLabel ST_APPROVAL_CONFIRMING = ''Confirming approval''"
| "transactionStageLabel ST_ALLOWANCE_REFRESH = ''Refreshing USDC allowance''"
| "transactionStageLabel ST_WRAP_SIMULATING = ''Simulating private conversion''"
| "transactionStageLabel ST_WRAP_SIGNATURE = ''Waiting for private conversion signature''"
| "transactionStageLabel ST_WRAP_SUBMITTED = ''Private conversion submitted''"
| "transactionStageLabel ST_WRAP_CONFIRMING = ''Confirming private conversion''"
| "transactionStageLabel ST_SAVE_ENCRYPTING = ''Encrypting private deposit''"
| "transactionStageLabel ST_SAVE_SIMULATING = ''Simulating vault deposit''"
| "transactionStageLabel ST_SAVE_SIGNATURE = ''Waiting for vault deposit signature''"
| "transactionStageLabel ST_SAVE_SUBMITTED = ''Vault deposit submitted''"
| "transactionStageLabel ST_SAVE_CONFIRMING = ''Confirming vault deposit''"
| "transactionStageLabel ST_SAVE_RECEIPT = ''Vault deposit receipt confirmed''"
| "transactionStageLabel ST_SAVE_POST_REFRESH = ''Refreshing vault state''"
| "transactionStageLabel ST_WITHDRAW_ROUND_CHECK = ''Checking withdrawal eligibility''"
| "transactionStageLabel ST_WITHDRAW_ROUND_ADVANCE_SIMULATING = ''Preparing withdrawal''"
| "transactionStageLabel ST_WITHDRAW_ROUND_ADVANCE_SIGNATURE = ''Confirm preparation''"
| "transactionStageLabel ST_WITHDRAW_ROUND_ADVANCE_SUBMITTED = ''Withdrawal preparation submitted''"
| "transactionStageLabel ST_WITHDRAW_ROUND_ADVANCE_CONFIRMING = ''Confirming withdrawal preparation''"
| "transactionStageLabel ST_WITHDRAW_REFRESH = ''Refreshing round state''"
| "transactionStageLabel ST_WITHDRAW_SIMULATING = ''Simulating withdrawal''"
| "transactionStageLabel ST_WITHDRAW_SIGNATURE = ''Waiting for withdrawal signature''"
| "transactionStageLabel ST_WITHDRAW_SUBMITTED = ''Withdrawal submitted''"
| "transactionStageLabel ST_WITHDRAW_CONFIRMING = ''Confirming withdrawal''"
| "transactionStageLabel ST_WITHDRAW_RECEIPT = ''Withdrawal receipt confirmed''"
| "transactionStageLabel ST_PRIVATE = ''Private processing''"
| "transactionStageLabel ST_COMPLETE = ''Complete''"
| "transactionStageLabel ST_FAILED = ''Failed''"

definition busyStages :: "TransactionStage list" where
  "busyStages = [ST_WALLET, ST_SUBMITTED, ST_CONFIRMING, ST_APPROVAL_SIMULATING, ST_APPROVAL_SIGNATURE, 
     ST_APPROVAL_SUBMITTED, ST_APPROVAL_CONFIRMING, ST_ALLOWANCE_REFRESH, ST_WRAP_SIMULATING, 
     ST_WRAP_SIGNATURE, ST_WRAP_SUBMITTED, ST_WRAP_CONFIRMING, ST_SAVE_ENCRYPTING, 
     ST_SAVE_SIMULATING, ST_SAVE_SIGNATURE, ST_SAVE_SUBMITTED, ST_SAVE_CONFIRMING, ST_SAVE_RECEIPT, 
     ST_SAVE_POST_REFRESH, ST_WITHDRAW_ROUND_CHECK, ST_WITHDRAW_ROUND_ADVANCE_SIMULATING, 
     ST_WITHDRAW_ROUND_ADVANCE_SIGNATURE, ST_WITHDRAW_ROUND_ADVANCE_SUBMITTED, 
     ST_WITHDRAW_ROUND_ADVANCE_CONFIRMING, ST_WITHDRAW_REFRESH, ST_WITHDRAW_SIMULATING, 
     ST_WITHDRAW_SIGNATURE, ST_WITHDRAW_SUBMITTED, ST_WITHDRAW_CONFIRMING, ST_WITHDRAW_RECEIPT, 
     ST_PRIVATE]"

definition transactionIsBusy :: "TransactionStage \<Rightarrow> bool" where
  "transactionIsBusy stage = (stage \<in> set busyStages)"

datatype UiTransactionState =
    UI_IDLE | UI_AWAITING_SIGNATURE | UI_SUBMITTED | UI_CONFIRMING | UI_PRIVATE_PROCESSING | UI_SUCCESS | UI_FAILURE

definition SIGNATURE_STAGES :: "TransactionStage list" where
  "SIGNATURE_STAGES = [ST_WALLET, ST_APPROVAL_SIGNATURE, ST_WRAP_SIGNATURE, ST_SAVE_SIGNATURE, ST_WITHDRAW_ROUND_ADVANCE_SIGNATURE, ST_WITHDRAW_SIGNATURE]"

definition SUBMITTED_STAGES :: "TransactionStage list" where
  "SUBMITTED_STAGES = [ST_SUBMITTED, ST_APPROVAL_SUBMITTED, ST_WRAP_SUBMITTED, ST_SAVE_SUBMITTED, ST_WITHDRAW_ROUND_ADVANCE_SUBMITTED, ST_WITHDRAW_SUBMITTED]"

definition mapTransactionState :: "TransactionStage \<Rightarrow> UiTransactionState" where
  "mapTransactionState stage =
     (if stage = ST_READY then UI_IDLE
      else if stage = ST_COMPLETE then UI_SUCCESS
      else if stage = ST_FAILED then UI_FAILURE
      else if stage = ST_PRIVATE \<or> stage = ST_SAVE_ENCRYPTING then UI_PRIVATE_PROCESSING
      else if stage \<in> set SIGNATURE_STAGES then UI_AWAITING_SIGNATURE
      else if stage \<in> set SUBMITTED_STAGES then UI_SUBMITTED
      else UI_CONFIRMING)"

section \<open>Stored transaction records\<close>

datatype operation_stage = StageApproval | StageWrap | StageSave

record SafeTransactionRecord =
  sr_id :: string
  sr_kind :: string
  sr_operationId :: "string option"
  sr_operationStage :: "operation_stage option"
  sr_hash :: "string option"
  sr_chainId :: int
  sr_account :: string
  sr_stage :: TransactionStage
  sr_errorStage :: "TransactionStage option"
  sr_updatedAt :: int

text \<open>The browser's storage under the one key: nothing, a text that is no list of records, or records.\<close>

datatype transaction_storage = NoItem | Unreadable | Records "SafeTransactionRecord list"

definition loadSafeTransactions :: "string \<Rightarrow> transaction_storage \<Rightarrow> SafeTransactionRecord list" where
  "loadSafeTransactions account storage = (case storage of
     Records rs \<Rightarrow> take 20 (filter (\<lambda>r. toLowerCase (sr_account r) = toLowerCase account) rs)
   | _ \<Rightarrow> [])"

definition persistSafeTransaction :: "SafeTransactionRecord \<Rightarrow> transaction_storage \<Rightarrow> transaction_storage" where
  "persistSafeTransaction r storage =
     (let existing = filter (\<lambda>item. sr_id item \<noteq> sr_id r) (loadSafeTransactions (sr_account r) storage)
      in Records (take 20 (r # existing)))"

definition isUnresolvedV2Transaction :: "SafeTransactionRecord \<Rightarrow> bool" where
  "isUnresolvedV2Transaction r = (take 3 (sr_kind r) = ''v2-'' \<and> truthy (sr_hash r) \<and>
     (sr_stage r = ST_SUBMITTED \<or> sr_stage r = ST_CONFIRMING))"

text \<open>The deposits among the records, grouped by operation in the order of their first record.\<close>

definition add_money_record :: "SafeTransactionRecord \<Rightarrow> bool" where
  "add_money_record r = (sr_kind r = ''v2-add-money'' \<and> truthy (sr_operationId r))"

fun push_group :: "string \<Rightarrow> 'a \<Rightarrow> (string \<times> 'a list) list \<Rightarrow> (string \<times> 'a list) list" where
  "push_group k x [] = [(k, [x])]"
| "push_group k x ((k', xs) # gs) = (if k = k' then (k', xs @ [x]) # gs else (k', xs) # push_group k x gs)"

fun group_records :: "SafeTransactionRecord list \<Rightarrow> (string \<times> SafeTransactionRecord list) list \<Rightarrow> (string \<times> SafeTransactionRecord list) list" where
  "group_records [] gs = gs"
| "group_records (r # rs) gs =
     group_records rs (if add_money_record r then push_group (or_empty (sr_operationId r)) r gs else gs)"

definition newest_first :: "SafeTransactionRecord list \<Rightarrow> SafeTransactionRecord list" where
  "newest_first rs = sort_key (\<lambda>r. - sr_updatedAt r) rs"

record V2AddMoneyCheckpoint =
  cp_operationId :: string
  cp_records :: "SafeTransactionRecord list"
  cp_approval :: "SafeTransactionRecord option"
  cp_wrap :: "SafeTransactionRecord option"
  cp_save :: "SafeTransactionRecord option"

definition latestForStage :: "SafeTransactionRecord list \<Rightarrow> operation_stage \<Rightarrow> SafeTransactionRecord option" where
  "latestForStage operation stage =
     (case find (\<lambda>r. sr_operationStage r = Some stage \<and> truthy (sr_hash r)) operation of
        Some r \<Rightarrow> Some r
      | None \<Rightarrow> find (\<lambda>r. sr_operationStage r = Some stage) operation)"

definition head_time :: "SafeTransactionRecord list \<Rightarrow> int" where
  "head_time rs = (case rs of [] \<Rightarrow> 0 | r # _ \<Rightarrow> sr_updatedAt r)"

definition findLatestV2AddMoneyCheckpoint :: "SafeTransactionRecord list \<Rightarrow> V2AddMoneyCheckpoint option" where
  "findLatestV2AddMoneyCheckpoint records =
     (case sort_key (\<lambda>rs. - head_time rs) (map (newest_first \<circ> snd) (group_records records [])) of
        (r # rest) # _ \<Rightarrow>
          (if \<not> truthy (sr_operationId r) then None
           else Some \<lparr>cp_operationId = or_empty (sr_operationId r), cp_records = r # rest,
             cp_approval = latestForStage (r # rest) StageApproval, cp_wrap = latestForStage (r # rest) StageWrap,
             cp_save = latestForStage (r # rest) StageSave\<rparr>)
      | _ \<Rightarrow> None)"

section \<open>Preparing a withdrawal\<close>

record WithdrawalRoundSnapshot =
  wr_canWithdrawNow :: bool
  wr_canPrepareWithdrawal :: bool
  wr_reason :: "string option"

text \<open>
  Errors are kept as what happened: a failed read of a stage, or the error of the advance itself.
  The state is the chain and the calls made of it; \<open>callback\<close> is the caller's \<open>onStage\<close>.
\<close>

datatype 'e withdrawal_error =
    RoundCheckFailed 'e
  | WithdrawalUnavailable string
  | AdvanceFailed 'e
  | RefreshFailed 'e
  | RoundNotOpen

datatype withdrawal_event = StageShown TransactionStage | ReadRound "WithdrawalRoundSnapshot option" | AdvancedRound bool

type_synonym ('e, 'w, 'a) withdrawal_op = "('e withdrawal_error, 'w \<times> withdrawal_event list, 'a) eff"

definition onStage :: "(TransactionStage \<Rightarrow> 'w \<Rightarrow> 'w) \<Rightarrow> TransactionStage \<Rightarrow> ('e, 'w, unit) withdrawal_op" where
  "onStage callback stage s = (Inr (), (callback stage (fst s), snd s @ [StageShown stage]))"

definition read_round_state ::
  "('e, 'w, WithdrawalRoundSnapshot) eff \<Rightarrow> ('e \<Rightarrow> 'e withdrawal_error) \<Rightarrow> ('e, 'w, WithdrawalRoundSnapshot) withdrawal_op" where
  "read_round_state readRound wrap s = (case readRound (fst s) of
     (Inl e, w) \<Rightarrow> (Inl (wrap e), (w, snd s @ [ReadRound None]))
   | (Inr r, w) \<Rightarrow> (Inr r, (w, snd s @ [ReadRound (Some r)])))"

definition advance_round :: "('e, 'w, unit) eff \<Rightarrow> ('e, 'w, unit) withdrawal_op" where
  "advance_round advanceRound s = (case advanceRound (fst s) of
     (Inl e, w) \<Rightarrow> (Inl (AdvanceFailed e), (w, snd s @ [AdvancedRound False]))
   | (Inr _, w) \<Rightarrow> (Inr (), (w, snd s @ [AdvancedRound True])))"

text \<open>After the advance: a failure is a race won by somebody else only when a fresh read says so.\<close>

definition after_advance ::
  "('e, 'w, WithdrawalRoundSnapshot) eff \<Rightarrow> (TransactionStage \<Rightarrow> 'w \<Rightarrow> 'w) \<Rightarrow> ('e withdrawal_error, unit) result \<Rightarrow>
   ('e, 'w, WithdrawalRoundSnapshot) withdrawal_op" where
  "after_advance readRound callback outcome = (case outcome of
     Inl err \<Rightarrow> catch_eff
       (bind_eff (read_round_state readRound RefreshFailed) (\<lambda>raced. if wr_canWithdrawNow raced then ret raced else throw err))
       (\<lambda>_. throw err)
   | Inr _ \<Rightarrow>
       bind_eff (onStage callback ST_WITHDRAW_REFRESH) (\<lambda>_.
       bind_eff (read_round_state readRound RefreshFailed) (\<lambda>refreshed.
       if \<not> wr_canWithdrawNow refreshed then throw RoundNotOpen else ret refreshed)))"

definition prepareWithdrawalRound ::
  "('e, 'w, WithdrawalRoundSnapshot) eff \<Rightarrow> ('e, 'w, unit) eff \<Rightarrow> (TransactionStage \<Rightarrow> 'w \<Rightarrow> 'w) \<Rightarrow>
   ('e, 'w, WithdrawalRoundSnapshot) withdrawal_op" where
  "prepareWithdrawalRound readRound advanceRound callback =
     bind_eff (onStage callback ST_WITHDRAW_ROUND_CHECK) (\<lambda>_.
     bind_eff (read_round_state readRound RoundCheckFailed) (\<lambda>current.
     if \<not> wr_canPrepareWithdrawal current 
     then throw (WithdrawalUnavailable (case wr_reason current of None \<Rightarrow> ''withdrawal unavailable'' | Some reason \<Rightarrow> reason))
     else if wr_canWithdrawNow current then ret current
     else (\<lambda>s. case advance_round advanceRound s of (outcome, s') \<Rightarrow> after_advance readRound callback outcome s')))"

section \<open>Revealing the private balance\<close>

record PrivateBalanceIdentity =
  pb_chainId :: int
  pb_account :: string
  pb_token :: string
  pb_handle :: string

text \<open>
  The clients of a wallet.  \<open>official\<close> is the configured token, nothing when it is missing;
  \<open>readContract\<close> includes its retries; decryption belongs to the relayer SDK.
\<close>

record 'w PrivateBalanceClients =
  pc_account :: string
  pc_signer :: "string option"
  pc_walletChainId :: "(js_error, 'w, int) eff"
  pc_publicChainId :: "(js_error, 'w, int) eff"
  pc_confidentialBalanceOf :: "string \<Rightarrow> string \<Rightarrow> (js_error, 'w, string) eff"
  pc_decryptPrivateValue :: "string \<Rightarrow> string \<Rightarrow> string \<Rightarrow> (js_error, 'w, int) eff"

datatype private_balance_error =
    TokenNotConfigured | WrongToken | WrongAccount | WrongNetworkOf int | IdentityChanged | StaleHandle | PrivateExternal js_error

type_synonym ('w, 'a) reveal_op = "(private_balance_error, 'w, 'a) eff"

definition external :: "(js_error, 'w, 'a) eff \<Rightarrow> ('w, 'a) reveal_op" where
  "external m w = (case m w of (Inl e, w') \<Rightarrow> (Inl (PrivateExternal e), w') | (Inr a, w') \<Rightarrow> (Inr a, w'))"

definition ZERO_BALANCE_HANDLE :: string where
  "ZERO_BALANCE_HANDLE = ''0x'' @ replicate 64 (CHR ''0'')"

definition isZeroBalanceHandle :: "string \<Rightarrow> bool" where
  "isZeroBalanceHandle handle = (toLowerCase handle = ZERO_BALANCE_HANDLE)"

definition assertConfiguredIdentity :: "string option \<Rightarrow> 'w PrivateBalanceClients \<Rightarrow> string \<Rightarrow> ('w, string) reveal_op" where
  "assertConfiguredIdentity official clients token = (case official of
     None \<Rightarrow> throw TokenNotConfigured
   | Some officialToken \<Rightarrow>
       if toLowerCase token \<noteq> toLowerCase officialToken then throw WrongToken
       else if \<not> truthy (pc_signer clients) \<or> toLowerCase (or_empty (pc_signer clients)) \<noteq> toLowerCase (pc_account clients)
       then throw WrongAccount
       else ret officialToken)"

definition assertSepoliaClients :: "'w PrivateBalanceClients \<Rightarrow> ('w, int) reveal_op" where
  "assertSepoliaClients clients =
     bind_eff (external (pc_walletChainId clients)) (\<lambda>signerChainId.
     if signerChainId \<noteq> LEOPOLD_CHAIN_ID then throw (WrongNetworkOf signerChainId)
     else bind_eff (external (pc_publicChainId clients)) (\<lambda>publicChainId.
     if publicChainId \<noteq> LEOPOLD_CHAIN_ID then throw (WrongNetworkOf publicChainId) else ret signerChainId))"

definition readCurrentPrivateBalanceHandle ::
  "string option \<Rightarrow> 'w PrivateBalanceClients \<Rightarrow> string \<Rightarrow> ('w, PrivateBalanceIdentity) reveal_op" where
  "readCurrentPrivateBalanceHandle official clients token =
     bind_eff (assertConfiguredIdentity official clients token) (\<lambda>officialToken.
     bind_eff (assertSepoliaClients clients) (\<lambda>chainId.
     bind_eff (external (pc_confidentialBalanceOf clients officialToken (pc_account clients))) (\<lambda>handle.
     ret \<lparr>pb_chainId = chainId, pb_account = pc_account clients, pb_token = officialToken, pb_handle = handle\<rparr>)))"

definition decryptCurrentPrivateBalance ::
  "string option \<Rightarrow> 'w PrivateBalanceClients \<Rightarrow> PrivateBalanceIdentity \<Rightarrow> ('w, int) reveal_op" where
  "decryptCurrentPrivateBalance official clients identity =
     bind_eff (assertConfiguredIdentity official clients (pb_token identity)) (\<lambda>officialToken.
     bind_eff (assertSepoliaClients clients) (\<lambda>chainId.
     if chainId \<noteq> pb_chainId identity \<or> toLowerCase (pc_account clients) \<noteq> toLowerCase (pb_account identity) \<or>
        toLowerCase officialToken \<noteq> toLowerCase (pb_token identity)
     then throw IdentityChanged
     else external (pc_decryptPrivateValue clients (pc_account clients) officialToken (pb_handle identity))))"

definition samePrivateBalanceIdentity :: "PrivateBalanceIdentity \<Rightarrow> PrivateBalanceIdentity \<Rightarrow> bool" where
  "samePrivateBalanceIdentity l r = (pb_chainId l = pb_chainId r \<and> toLowerCase (pb_account l) = toLowerCase (pb_account r) \<and>
     toLowerCase (pb_token l) = toLowerCase (pb_token r) \<and> toLowerCase (pb_handle l) = toLowerCase (pb_handle r))"

text \<open>\<open>getCurrentClients\<close> returns the clients of the moment, a function of the world.\<close>

definition revalidated ::
  "string option \<Rightarrow> ('w \<Rightarrow> 'w PrivateBalanceClients) \<Rightarrow> string \<Rightarrow> PrivateBalanceIdentity \<Rightarrow> int \<Rightarrow> ('w, PrivateBalanceIdentity \<times> int) reveal_op" where
  "revalidated official getCurrentClients token requestedIdentity v w =
     bind_eff (readCurrentPrivateBalanceHandle official (getCurrentClients w) token) (\<lambda>currentIdentity.
     if \<not> samePrivateBalanceIdentity requestedIdentity currentIdentity then throw StaleHandle
     else ret (currentIdentity, v)) w"

definition revealPrivateBalanceFromCurrentHandle ::
  "string option \<Rightarrow> 'w PrivateBalanceClients \<Rightarrow> ('w \<Rightarrow> 'w PrivateBalanceClients) \<Rightarrow> string \<Rightarrow> ('w, PrivateBalanceIdentity \<times> int) reveal_op" where
  "revealPrivateBalanceFromCurrentHandle official clients getCurrentClients token =
     bind_eff (readCurrentPrivateBalanceHandle official clients token) (\<lambda>requestedIdentity.
     if isZeroBalanceHandle (pb_handle requestedIdentity)
     then revalidated official getCurrentClients token requestedIdentity 0
     else bind_eff (decryptCurrentPrivateBalance official clients requestedIdentity) (\<lambda>v.
       revalidated official getCurrentClients token requestedIdentity v))"

section \<open>Vocabulary of the properties\<close>

definition operation_records :: "SafeTransactionRecord list \<Rightarrow> string \<Rightarrow> SafeTransactionRecord list" where
  "operation_records rs k = filter (\<lambda>r. add_money_record r \<and> or_empty (sr_operationId r) = k) rs"

definition advances :: "withdrawal_event list \<Rightarrow> bool list" where
  "advances evs = List.map_filter (\<lambda>ev. case ev of AdvancedRound ok \<Rightarrow> Some ok | _ \<Rightarrow> None) evs"

section \<open>Lemmas on grouping, rounds and handles\<close>

lemma filter_same_key:
  assumes "\<And>q. q \<in> set xs \<Longrightarrow> f q = a"
  shows "filter (\<lambda>q. f q = b) xs = (if b = a then xs else [])"
  using assms by (induction xs) auto

lemma push_group_map_of:
  "map_of (push_group k x gs) = (map_of gs)(k \<mapsto> (case map_of gs k of None \<Rightarrow> [] | Some xs \<Rightarrow> xs) @ [x])"
  by (induction k x gs rule: push_group.induct) (auto simp: fun_upd_twist split: option.splits)

lemma push_group_keys: "fst ` set (push_group k x gs) = insert k (fst ` set gs)"
  by (induction k x gs rule: push_group.induct) auto

lemma push_group_distinct: "distinct (map fst gs) \<Longrightarrow> distinct (map fst (push_group k x gs))"
  by (induction k x gs rule: push_group.induct) (auto simp: push_group_keys)

lemma group_records_map_of:
  "map_of (group_records rs gs) k = (case map_of gs k of
     None \<Rightarrow> (if operation_records rs k = [] then None else Some (operation_records rs k))
   | Some xs \<Rightarrow> Some (xs @ operation_records rs k))"
  by (induction rs arbitrary: gs) (auto simp: operation_records_def push_group_map_of split: option.splits)

lemma group_records_distinct: "distinct (map fst gs) \<Longrightarrow> distinct (map fst (group_records rs gs))"
  by (induction rs arbitrary: gs) (auto simp: push_group_distinct)

lemma in_group_records:
  "(k, xs) \<in> set (group_records rs []) \<longleftrightarrow> xs = operation_records rs k \<and> xs \<noteq> []"
proof -
  have "(k, xs) \<in> set (group_records rs []) \<longleftrightarrow> map_of (group_records rs []) k = Some xs"
    using group_records_distinct [of "[]" rs] by (simp add: map_of_eq_Some_iff)
  also have "\<dots> \<longleftrightarrow> (if operation_records rs k = [] then None else Some (operation_records rs k)) = Some xs"
    by (simp add: group_records_map_of)
  also have "\<dots> \<longleftrightarrow> xs = operation_records rs k \<and> xs \<noteq> []" by auto
  finally show ?thesis .
qed

lemma newest_first_facts:
  "set (newest_first rs) = set rs" "length (newest_first rs) = length rs"
  "r \<in> set (newest_first rs) \<Longrightarrow> sr_updatedAt r \<le> head_time (newest_first rs)"
proof -
  show "set (newest_first rs) = set rs" "length (newest_first rs) = length rs" by (simp_all add: newest_first_def)
  have "sorted (map (\<lambda>r. - sr_updatedAt r) (newest_first rs))" by (simp add: newest_first_def)
  then show "r \<in> set (newest_first rs) \<Longrightarrow> sr_updatedAt r \<le> head_time (newest_first rs)"
    by (cases "newest_first rs") (auto simp: head_time_def)
qed

lemma read_round_state_ok:
  "read_round_state readRound wrap s = (Inr r, s') \<longleftrightarrow> (\<exists>w. readRound (fst s) = (Inr r, w) \<and> s' = (w, snd s @ [ReadRound (Some r)]))"
  by (auto simp: read_round_state_def split: prod.splits sum.splits)

lemma external_Inr: "external m w = (Inr a, w') \<longleftrightarrow> m w = (Inr a, w')"
  by (auto simp: external_def split: prod.splits sum.splits)

lemma readHandle_Inr:
  assumes "readCurrentPrivateBalanceHandle official clients token w = (Inr i, w')"
  shows "official = Some (pb_token i) \<and> toLowerCase token = toLowerCase (pb_token i) \<and> pb_chainId i = LEOPOLD_CHAIN_ID \<and>
    pb_account i = pc_account clients \<and> (\<exists>a. pc_signer clients = Some a \<and> toLowerCase a = toLowerCase (pb_account i)) \<and>
    (\<exists>t t'. pc_confidentialBalanceOf clients (pb_token i) (pb_account i) t = (Inr (pb_handle i), t'))"
  using assms
  by (auto simp: readCurrentPrivateBalanceHandle_def assertConfiguredIdentity_def assertSepoliaClients_def bind_eff_Inr
      external_Inr truthy_def or_empty_def split: option.splits if_splits) blast

section \<open>Properties\<close>

text \<open>
  The resumable deposit is the newest one, whole: a checkpoint is found exactly when some
  deposit is recorded; it holds all records of one operation, newest first, no deposit record is
  newer than its first, and for each stage it names a record with a transaction hash whenever the
  operation has one.
\<close>

theorem latest_checkpoint_is_newest:
  "case findLatestV2AddMoneyCheckpoint records of
     None \<Rightarrow> filter add_money_record records = []
   | Some c \<Rightarrow> cp_records c = newest_first (operation_records records (cp_operationId c)) \<and> cp_records c \<noteq> [] \<and>
      list_all (\<lambda>r. sr_updatedAt r \<le> sr_updatedAt (hd (cp_records c))) (filter add_money_record records) \<and>
      list_all (\<lambda>(stage, found). (case found of
            None \<Rightarrow> filter (\<lambda>r. sr_operationStage r = Some stage) (cp_records c) = []
          | Some r \<Rightarrow> r \<in> set (cp_records c) \<and> sr_operationStage r = Some stage \<and>
              (if filter (\<lambda>q. sr_operationStage q = Some stage \<and> truthy (sr_hash q)) (cp_records c) = [] then True
               else truthy (sr_hash r))))
        [(StageApproval, cp_approval c), (StageWrap, cp_wrap c), (StageSave, cp_save c)]"
proof -
  let ?gs = "group_records records []"
  let ?sorted = "sort_key (\<lambda>rs. - head_time rs) (map (newest_first \<circ> snd) ?gs)"
  have stage: "case latestForStage op st of
            None \<Rightarrow> filter (\<lambda>r. sr_operationStage r = Some st) op = []
          | Some r \<Rightarrow> r \<in> set op \<and> sr_operationStage r = Some st \<and>
              (if filter (\<lambda>q. sr_operationStage q = Some st \<and> truthy (sr_hash q)) op = [] then True
               else truthy (sr_hash r))" for op st
    by (auto simp: latestForStage_def find_None_iff filter_empty_conv dest: find_SomeD split: option.splits)
  have elem: "\<exists>k. op = newest_first (operation_records records k) \<and> op \<noteq> []" if "op \<in> set ?sorted" for op
  proof -
    from that obtain k xs where g: "(k, xs) \<in> set ?gs" "op = newest_first xs" by auto
    from g(1) have xs: "xs = operation_records records k" "xs \<noteq> []" by (auto simp: in_group_records)
    then have "op \<noteq> []" using newest_first_facts(2) [of xs] g(2) by (metis length_0_conv)
    with xs g(2) show ?thesis by blast
  qed
  have grp: "newest_first (operation_records records (or_empty (sr_operationId r))) \<in> set ?sorted"
    if "r \<in> set records" "add_money_record r" for r
  proof -
    have "r \<in> set (operation_records records (or_empty (sr_operationId r)))" using that by (simp add: operation_records_def)
    then have "operation_records records (or_empty (sr_operationId r)) \<noteq> []" by auto
    then have "(or_empty (sr_operationId r), operation_records records (or_empty (sr_operationId r))) \<in> set ?gs"
      by (simp add: in_group_records)
    then show ?thesis by force
  qed
  show ?thesis
  proof (cases "?sorted")
    case Nil
    then have "filter add_money_record records = []" using grp by (auto simp: filter_empty_conv)
    with Nil show ?thesis by (simp add: findLatestV2AddMoneyCheckpoint_def)
  next
    case (Cons op rest)
    then have "op \<in> set ?sorted" by simp
    from elem [OF this] obtain k where op: "op = newest_first (operation_records records k)" "op \<noteq> []" by blast
    obtain r tail where rt: "op = r # tail" using op(2) by (meson neq_Nil_conv)
    have all: "add_money_record q \<and> or_empty (sr_operationId q) = k \<and> q \<in> set records" if "q \<in> set op" for q
      using that op(1) newest_first_facts(1) by (auto simp: operation_records_def)
    then have r: "add_money_record r" "or_empty (sr_operationId r) = k" "r \<in> set records" using rt by auto
    have t: "truthy (sr_operationId r)" using r(1) by (simp add: add_money_record_def)
    have srt: "sorted (map (\<lambda>rs. - head_time rs) ?sorted)" by simp
    have best: "sr_updatedAt q \<le> sr_updatedAt r" if q: "q \<in> set records" "add_money_record q" for q
    proof -
      let ?o = "newest_first (operation_records records (or_empty (sr_operationId q)))"
      have "q \<in> set ?o" using q by (simp add: newest_first_facts(1) operation_records_def)
      then have "sr_updatedAt q \<le> head_time ?o" by (rule newest_first_facts(3))
      moreover have "head_time ?o \<le> head_time op"
        using grp [OF q] srt unfolding Cons by (auto)
      ultimately show ?thesis by (simp add: rt head_time_def)
    qed
    have f: "findLatestV2AddMoneyCheckpoint records = Some \<lparr>cp_operationId = k, cp_records = op,
             cp_approval = latestForStage op StageApproval, cp_wrap = latestForStage op StageWrap,
             cp_save = latestForStage op StageSave\<rparr>"
      unfolding findLatestV2AddMoneyCheckpoint_def Cons rt using t r(2) by simp
    have b: "list_all (\<lambda>q. sr_updatedAt q \<le> sr_updatedAt (hd op)) (filter add_money_record records)"
      using best rt by (simp add: list_all_iff)
    show ?thesis
      unfolding f using b op(2) stage [of StageApproval op] stage [of StageWrap op] stage [of StageSave op]
      by (simp add: op(1) [symmetric] del: filter_False filter.simps)
  qed
qed

text \<open>
  Recording a transaction keeps the account's own records but forgets everyone else's: after
  it, the account has the new record first, then its other records in their order, twenty in all,
  and every other account has none.
\<close>

theorem recording_forgets_other_accounts:
  "loadSafeTransactions b (persistSafeTransaction r storage) =
     (if toLowerCase b = toLowerCase (sr_account r)
      then take 20 (r # filter (\<lambda>item. sr_id item \<noteq> sr_id r) (loadSafeTransactions b storage))
      else [])"
proof -
  let ?mine = "loadSafeTransactions (sr_account r) storage"
  have mine: "q \<in> set ?mine \<Longrightarrow> toLowerCase (sr_account q) = toLowerCase (sr_account r)" for q
    by (auto simp: loadSafeTransactions_def dest: in_set_takeD split: transaction_storage.splits)
  let ?all = "take 20 (r # filter (\<lambda>item. sr_id item \<noteq> sr_id r) ?mine)"
  have all: "toLowerCase (sr_account q) = toLowerCase (sr_account r)" if "q \<in> set ?all" for q
    using that mine by (auto dest: in_set_takeD)
  have same: "loadSafeTransactions b storage = ?mine" if "toLowerCase b = toLowerCase (sr_account r)"
    using that by (cases storage) (simp_all add: loadSafeTransactions_def)
  have "loadSafeTransactions b (persistSafeTransaction r storage) = take 20 (filter (\<lambda>q. toLowerCase (sr_account q) = toLowerCase b) ?all)"
    by (simp add: persistSafeTransaction_def loadSafeTransactions_def [of _ "Records _"] Let_def)
  also have "filter (\<lambda>q. toLowerCase (sr_account q) = toLowerCase b) ?all = (if toLowerCase b = toLowerCase (sr_account r) then ?all else [])"
    by (rule filter_same_key [OF all])
  finally show ?thesis by (simp add: same)
qed

text \<open>
  The interface never looks idle or finished while a transaction is under way, and never busy
  when none is: a stage is busy exactly when it is shown as awaiting, submitted, confirming or
  processing.
\<close>

theorem busy_is_what_is_shown:
  "transactionIsBusy stage = (mapTransactionState stage \<notin> {UI_IDLE, UI_SUCCESS, UI_FAILURE})"
  by (cases stage) (simp_all add: transactionIsBusy_def busyStages_def mapTransactionState_def
      SIGNATURE_STAGES_def SUBMITTED_STAGES_def)

text \<open>
  A withdrawal goes on only from a withdrawable round: a preparation that succeeds returns a
  round that was read as withdrawable by its last read; the round is advanced at most once, and
  only after a read that allowed preparing but not withdrawing; a failed advance is passed over
  only when a fresh read shows the round withdrawable, and otherwise reported.
\<close>

theorem withdrawal_only_from_open_round:
  assumes "prepareWithdrawalRound readRound advanceRound callback s = (Inr r, s')"
  shows "wr_canWithdrawNow r \<and> (\<exists>evs. snd s' = snd s @ evs \<and> last evs = ReadRound (Some r) \<and>
    (advances evs = [] \<or>
     (\<exists>ok first rest. advances evs = [ok] \<and> wr_canPrepareWithdrawal first \<and> \<not> wr_canWithdrawNow first \<and>
        evs = [StageShown ST_WITHDRAW_ROUND_CHECK, ReadRound (Some first), AdvancedRound ok] @ rest)))"
proof -
  from assms obtain first s1 where c: "read_round_state readRound RoundCheckFailed (callback ST_WITHDRAW_ROUND_CHECK (fst s), snd s @ [StageShown ST_WITHDRAW_ROUND_CHECK]) = (Inr first, s1)"
    and p: "wr_canPrepareWithdrawal first"
    and k: "(if wr_canWithdrawNow first then ret first
       else (\<lambda>s. case advance_round advanceRound s of (outcome, s') \<Rightarrow> after_advance readRound callback outcome s')) s1 = (Inr r, s')"
    by (auto simp: prepareWithdrawalRound_def bind_eff_Inr onStage_def split: if_splits)
  have s1: "snd s1 = snd s @ [StageShown ST_WITHDRAW_ROUND_CHECK, ReadRound (Some first)]"
    using c by (auto simp: read_round_state_ok)
  show ?thesis
  proof (cases "wr_canWithdrawNow first")
    case True
    with k s1 show ?thesis by (auto simp: advances_def List.map_filter_def)
  next
    case False
    obtain outcome s2 where a: "advance_round advanceRound s1 = (outcome, s2)" by (cases "advance_round advanceRound s1")
    have s2: "snd s2 = snd s1 @ [AdvancedRound (is_ok outcome)]"
      using a by (auto simp: advance_round_def split: prod.splits sum.splits)
    from k False a have af: "after_advance readRound callback outcome s2 = (Inr r, s')" by simp
    then obtain mid where s3: "snd s' = snd s2 @ mid @ [ReadRound (Some r)]" "advances mid = []" "wr_canWithdrawNow r"
    proof (cases outcome)
      case (Inl err)
      with af that [of "[]"] show ?thesis
        by (auto simp: after_advance_def catch_eff_apply bind_eff_Inr bind_eff_apply read_round_state_ok advances_def
            List.map_filter_def read_round_state_def split: prod.splits sum.splits if_splits)
    next
      case (Inr u)
      with af that [of "[StageShown ST_WITHDRAW_REFRESH]"] show ?thesis
        by (auto simp: after_advance_def bind_eff_Inr read_round_state_ok onStage_def advances_def List.map_filter_def split: if_splits)
    qed
    let ?evs = "[StageShown ST_WITHDRAW_ROUND_CHECK, ReadRound (Some first), AdvancedRound (is_ok outcome)] @ mid @ [ReadRound (Some r)]"
    have "advances ?evs = [is_ok outcome]" using s3(2) by (simp add: advances_def List.map_filter_def)
    moreover have "snd s' = snd s @ ?evs" using s1 s2 s3 by simp
    ultimately show ?thesis using s3(3) p False
      by (intro conjI exI [of _ ?evs] disjI2 exI [of _ "is_ok outcome"] exI [of _ first] exI [of _ "mid @ [ReadRound (Some r)]"]) auto
  qed
qed

text \<open>An open round after one advance, and a wallet whose balance handle decrypts to seven.\<close>

definition demo_round :: "(js_error, nat, WithdrawalRoundSnapshot) eff" where
  "demo_round n = (Inr \<lparr>wr_canWithdrawNow = (0 < n), wr_canPrepareWithdrawal = True, wr_reason = None\<rparr>, n)"

definition demo_advance :: "(js_error, nat, unit) eff" where
  "demo_advance n = (Inr (), Suc n)"

definition demo_open :: WithdrawalRoundSnapshot where
  "demo_open = \<lparr>wr_canWithdrawNow = True, wr_canPrepareWithdrawal = True, wr_reason = None\<rparr>"

lemma demo_withdrawal:
  "\<exists>s'. prepareWithdrawalRound demo_round demo_advance (\<lambda>_ n. n) (0, []) = (Inr demo_open, s')"
  by (simp add: prepareWithdrawalRound_def demo_round_def demo_advance_def demo_open_def bind_eff_apply onStage_def
      read_round_state_def advance_round_def after_advance_def)

theorem withdrawal_only_from_open_round_witness:
  "\<exists>s' evs. prepareWithdrawalRound demo_round demo_advance (\<lambda>_ n. n) (0, []) = (Inr demo_open, s') \<and>
     snd s' = evs \<and> last evs = ReadRound (Some demo_open) \<and> length (advances evs) \<le> 1"
proof -
  obtain s' where d: "prepareWithdrawalRound demo_round demo_advance (\<lambda>_ n. n) (0, []) = (Inr demo_open, s')"
    using demo_withdrawal by blast
  from withdrawal_only_from_open_round [OF d] show ?thesis using d by auto
qed

text \<open>
  A revealed balance belongs to the present handle of the present account: the reveal returns a
  value only if the token is the configured one, the signing account is the requested account on
  Sepolia at both reads, the handle read after decryption is the handle that was decrypted, and
  the value is the decryption of that handle, or zero for the zero handle.
\<close>

theorem revealed_balance_is_current:
  assumes "revealPrivateBalanceFromCurrentHandle official clients getCurrentClients token w = (Inr (identity, v), w')"
  shows "official = Some (pb_token identity) \<and> toLowerCase token = toLowerCase (pb_token identity) \<and>
    pb_chainId identity = LEOPOLD_CHAIN_ID \<and> toLowerCase (pb_account identity) = toLowerCase (pc_account clients) \<and>
    (\<exists>a. pc_signer clients = Some a \<and> toLowerCase a = toLowerCase (pc_account clients)) \<and>
    (\<exists>t handle. toLowerCase handle = toLowerCase (pb_handle identity) \<and>
      (\<exists>t1 t1'. pc_confidentialBalanceOf clients (pb_token identity) (pc_account clients) t1 = (Inr handle, t1')) \<and>
      (\<exists>t2 t2'. pc_confidentialBalanceOf (getCurrentClients t) (pb_token identity) (pb_account identity) t2 = (Inr (pb_handle identity), t2')) \<and>
      (if isZeroBalanceHandle handle then v = 0
       else \<exists>t3 t3'. pc_decryptPrivateValue clients (pc_account clients) (pb_token identity) handle t3 = (Inr v, t3')))"
proof -
  from assms obtain i w1 where i: "readCurrentPrivateBalanceHandle official clients token w = (Inr i, w1)"
    and k: "(if isZeroBalanceHandle (pb_handle i) then revalidated official getCurrentClients token i 0
     else bind_eff (decryptCurrentPrivateBalance official clients i) (\<lambda>v. revalidated official getCurrentClients token i v)) w1 = (Inr (identity, v), w')"
    by (auto simp: revealPrivateBalanceFromCurrentHandle_def bind_eff_Inr)
  note i' = readHandle_Inr [OF i]
  obtain t where rv: "revalidated official getCurrentClients token i v t = (Inr (identity, v), w')"
    and val: "if isZeroBalanceHandle (pb_handle i) then v = 0
       else \<exists>t3 t3'. pc_decryptPrivateValue clients (pc_account clients) (pb_token i) (pb_handle i) t3 = (Inr v, t3')"
  proof (cases "isZeroBalanceHandle (pb_handle i)")
    case True
    with k have "revalidated official getCurrentClients token i 0 w1 = (Inr (identity, v), w')" by simp
    moreover from this have "v = 0" by (auto simp: revalidated_def bind_eff_Inr split: if_splits)
    ultimately show ?thesis using that True by auto
  next
    case False
    with k obtain x w2 where d: "decryptCurrentPrivateBalance official clients i w1 = (Inr x, w2)"
      and r: "revalidated official getCurrentClients token i x w2 = (Inr (identity, v), w')"
      by (auto simp: bind_eff_Inr)
    from r have x: "x = v" by (auto simp: revalidated_def bind_eff_Inr split: if_splits)
    have "\<exists>t3 t3'. pc_decryptPrivateValue clients (pc_account clients) (pb_token i) (pb_handle i) t3 = (Inr v, t3')"
      using d i' unfolding x
      by (auto simp: decryptCurrentPrivateBalance_def assertConfiguredIdentity_def bind_eff_Inr external_Inr split: if_splits)
    with that r x False show ?thesis by auto
  qed
  from rv have cur: "\<exists>t'. readCurrentPrivateBalanceHandle official (getCurrentClients t) token t = (Inr identity, t')"
    and same: "samePrivateBalanceIdentity i identity"
    by (auto simp: revalidated_def bind_eff_Inr split: if_splits)
  then obtain t' where c: "readCurrentPrivateBalanceHandle official (getCurrentClients t) token t = (Inr identity, t')" by blast
  note c' = readHandle_Inr [OF c]
  have tok: "pb_token i = pb_token identity" using i' c' by simp
  have acc: "toLowerCase (pb_account identity) = toLowerCase (pc_account clients)"
    and hdl: "toLowerCase (pb_handle i) = toLowerCase (pb_handle identity)"
    using i' same by (simp_all add: samePrivateBalanceIdentity_def)
  have signed: "\<exists>a. pc_signer clients = Some a \<and> toLowerCase a = toLowerCase (pc_account clients)"
    and before: "\<exists>t1 t1'. pc_confidentialBalanceOf clients (pb_token identity) (pc_account clients) t1 = (Inr (pb_handle i), t1')"
    using i' [unfolded tok] by (metis+)
  have after: "\<exists>t2 t2'. pc_confidentialBalanceOf (getCurrentClients t) (pb_token identity) (pb_account identity) t2 = (Inr (pb_handle identity), t2')"
    and cfg: "official = Some (pb_token identity)" "toLowerCase token = toLowerCase (pb_token identity)" "pb_chainId identity = LEOPOLD_CHAIN_ID"
    using c' by blast+
  show ?thesis
    using cfg acc signed hdl before after val [unfolded tok] by blast
qed

definition demo_clients :: "nat PrivateBalanceClients" where
  "demo_clients = \<lparr>pc_account = ''0xa'', pc_signer = Some ''0xA'', pc_walletChainId = (\<lambda>n. (Inr LEOPOLD_CHAIN_ID, n)),
     pc_publicChainId = (\<lambda>n. (Inr LEOPOLD_CHAIN_ID, n)), pc_confidentialBalanceOf = (\<lambda>_ _ n. (Inr ''0x1'', n)),
     pc_decryptPrivateValue = (\<lambda>_ _ _ n. (Inr 7, Suc n))\<rparr>"

definition demo_identity :: PrivateBalanceIdentity where
  "demo_identity = \<lparr>pb_chainId = LEOPOLD_CHAIN_ID, pb_account = ''0xa'', pb_token = ''0xt'', pb_handle = ''0x1''\<rparr>"

lemma demo_reveal:
  "revealPrivateBalanceFromCurrentHandle (Some ''0xt'') demo_clients (\<lambda>_. demo_clients) ''0xT'' 0 = (Inr (demo_identity, 7), 1)"
  by code_simp

theorem revealed_balance_is_current_witness:
  "\<exists>handle. toLowerCase handle = toLowerCase (pb_handle demo_identity) \<and>
     (if isZeroBalanceHandle handle then (7::int) = 0
      else \<exists>t t'. pc_decryptPrivateValue demo_clients (pc_account demo_clients) (pb_token demo_identity) handle t = (Inr 7, t'))"
  using revealed_balance_is_current [OF demo_reveal] by blast

end
