(* ===== verification/Client_Actions.thy ===== *)
theory Client_Actions
  imports Client_Money Lifecycle
begin

text \<open>
  The transactions of the client (\<open>frontend/lib/leopold/v2-actions.ts\<close>, the faucet of
  \<open>actions.ts\<close>): every operation as an effect on the chain and on the list of what the client did.
  The contract calls, the wallet and the private-value service belong to the clients, a parameter.
  Reads that the code starts together run in the order they are written.
\<close>

section \<open>Clients, errors and events\<close>

text \<open>Arguments and results of contract calls.\<close>

datatype chain_value = VText string | VInt int | VBool bool | VTuple "chain_value list"

record contract_call =
  cc_address :: string
  cc_functionName :: string
  cc_args :: "chain_value list"
  cc_value :: "int option"

type_synonym V2AddMoneyStage = operation_stage

datatype V2ActionStage =
    PRECONDITION_READ | APPROVAL | PREPARING_FUNDS | ADDING_TO_SAVINGS | ENTRY_BALANCE | PRIZE_SAVINGS
  | WITHDRAWAL | UNWRAPPING | REVEAL | CLAIM | RECONCILE

datatype V2ActionStep_label = Approve_USDC | Make_savings_private | Add_to_Leopold_savings

record V2ActionStep =
  st_current :: nat
  st_total :: nat
  st_label :: V2ActionStep_label

text \<open>A receipt, with the identifiers of the unwrap requests among its logs.\<close>

record transaction_receipt =
  rc_success :: bool
  rc_unwrapRequestIds :: "string list"

text \<open>A transaction, with its input decoded as a function of two arguments where it is one.\<close>

record chain_transaction =
  ct_to :: "string option"
  ct_from :: string
  ct_input :: string

text \<open>
  The clients of an action.  \<open>vc_delay\<close> is how long a read started now takes, nothing when it never
  settles; \<open>vc_environment\<close> supplies randomness and sleep to the retries.
\<close>

record 'w V2ActionClients =
  vc_account :: string
  vc_signer :: "string option"
  vc_walletChainId :: "(js_error, 'w, int) eff"
  vc_publicChainId :: "(js_error, 'w, int) eff"
  vc_readText :: "string \<Rightarrow> string \<Rightarrow> chain_value list \<Rightarrow> (js_error, 'w, string) eff"
  vc_readUint :: "string \<Rightarrow> string \<Rightarrow> chain_value list \<Rightarrow> (js_error, 'w, int) eff"
  vc_readBool :: "string \<Rightarrow> string \<Rightarrow> chain_value list \<Rightarrow> (js_error, 'w, bool) eff"
  vc_readTuple :: "string \<Rightarrow> string \<Rightarrow> chain_value list \<Rightarrow> (js_error, 'w, chain_value) eff"
  vc_delay :: "'w \<Rightarrow> int option"
  vc_environment :: "'w ReadReliabilityOptions"
  vc_simulateContract :: "contract_call \<Rightarrow> (js_error, 'w, int option) eff"
  vc_writeContract :: "contract_call \<Rightarrow> int option \<Rightarrow> 'w \<Rightarrow> (int \<times> (js_error, string) result) \<times> 'w"
  vc_waitForTransactionReceipt :: "string \<Rightarrow> (js_error, 'w, transaction_receipt) eff"
  vc_getTransactionReceipt :: "string \<Rightarrow> (js_error, 'w, transaction_receipt) eff"
  vc_getTransaction :: "string \<Rightarrow> (js_error, 'w, chain_transaction) eff"
  vc_call :: "string \<Rightarrow> string \<Rightarrow> (js_error, 'w, unit) eff"
  vc_sendTransaction :: "string \<Rightarrow> string \<Rightarrow> 'w \<Rightarrow> (int \<times> (js_error, string) result) \<times> 'w"
  vc_encryptPrivateAmount :: "string \<Rightarrow> int \<Rightarrow> (js_error, 'w, string \<times> string) eff"
  vc_decryptPrivateValue :: "string \<Rightarrow> string \<Rightarrow> (js_error, 'w, int) eff"
  vc_decryptPublicValue :: "string \<Rightarrow> (js_error, 'w, int \<times> string) eff"

text \<open>An error with a cause, and the error that keeps a submitted hash pending.\<close>

datatype v2_error =
    Plain js_error
  | Wrapped string js_error
  | ReconciliationPending string string bool "V2AddMoneyStage option" js_error

text \<open>
  What the client did: its notifications, the simulations that passed, and the submissions, with
  the hash the wallet returned or nothing when it failed.  The earlier actions notify of the
  stages of a transaction; a receipt they do not announce is noted all the same.
\<close>

datatype action_event =
    OnStage V2ActionStage
  | OnTransactionStage TransactionStage
  | OnStep V2ActionStep
  | OnHash string "V2AddMoneyStage option"
  | OnReceipt string "V2AddMoneyStage option"
  | Simulated contract_call
  | Submitted contract_call "string option"

type_synonym ('w, 'a) v2_op = "(v2_error, 'w client_world \<times> action_event list, 'a) eff"

definition notify :: "action_event \<Rightarrow> ('w, unit) v2_op" where
  "notify ev s = (Inr (), (fst s, snd s @ [ev]))"

definition client_call :: "(js_error, 'w, 'a) eff \<Rightarrow> (js_error \<Rightarrow> v2_error) \<Rightarrow> ('w, 'a) v2_op" where
  "client_call m err s = (case m (cw_world (fst s)) of
     (Inl e, w) \<Rightarrow> (Inl (err e), ((fst s)\<lparr>cw_world := w\<rparr>, snd s))
   | (Inr a, w) \<Rightarrow> (Inr a, ((fst s)\<lparr>cw_world := w\<rparr>, snd s)))"

definition client_read :: "('w, 'a) client_read \<Rightarrow> (js_error \<Rightarrow> v2_error) \<Rightarrow> ('w, 'a) v2_op" where
  "client_read m err s = (case m (fst s) of
     (Inl e, c) \<Rightarrow> (Inl (err e), (c, snd s))
   | (Inr a, c) \<Rightarrow> (Inr a, (c, snd s)))"

definition fail :: "string \<Rightarrow> ('w, 'a) v2_op" where
  "fail message = throw (Plain (JsError ''Error'' message))"

text \<open>A read of the clients under the default retries of a vault read.\<close>

definition vault_read_options :: "'w V2ActionClients \<Rightarrow> 'w ReadReliabilityOptions" where
  "vault_read_options clients = (vc_environment clients)\<lparr>rr_operation := VAULT_READ,
     rr_timeoutMs := DEFAULT_READ_TIMEOUT_MS, rr_maxAttempts := JInt DEFAULT_READ_MAX_ATTEMPTS,
     rr_baseDelayMs := DEFAULT_READ_BACKOFF_MS, rr_jitterRatio := 1 / 5, rr_shouldRetry := isTransientReadFailure\<rparr>"

definition timed :: "'w V2ActionClients \<Rightarrow> (js_error, 'w, 'a) eff \<Rightarrow> ('w, 'a) timed_read" where
  "timed clients m w = (case m w of (r, w') \<Rightarrow> (map_option (\<lambda>t. (t, r)) (vc_delay clients w), w'))"

definition reliable_read :: "'w V2ActionClients \<Rightarrow> (js_error, 'w, 'a) eff \<Rightarrow> (js_error \<Rightarrow> v2_error) \<Rightarrow> ('w, 'a) v2_op" where
  "reliable_read clients m err = client_read (withReadReliability (\<lambda>_. timed clients m) (vault_read_options clients)) err"

section \<open>Configuration and error texts\<close>

definition V2_PREVIEW_CHAIN_ID :: int where "V2_PREVIEW_CHAIN_ID = 11155111"

record V2_addresses =
  a_wrapper :: string
  a_vault :: string
  a_adapter :: string
  a_escrow :: string
  a_usdc :: string
  a_comet :: string

definition V2_PREVIEW_ADDRESSES :: V2_addresses where
  "V2_PREVIEW_ADDRESSES = \<lparr>a_wrapper = ''0x3AD7490852eA0cf16F654Ce854B87227b4369b91'',
     a_vault = ''0x511c8ac93BC285662B9dbDF65a0a9E2Fb11e8c86'', a_adapter = ''0xaF86E3a111DEE690Fa37b986D5F777689488938d'',
     a_escrow = ''0x18F5C545D7f18350BEf44aC5C34D55B7C3b95E80'', a_usdc = ''0x1c7D4B196Cb0C7B01d743Fbc6116a902379C7238'',
     a_comet = ''0xAec1F48e02Cfb822Be958B68C7957156EB3F0b6e''\<rparr>"

definition js_message :: "js_error \<Rightarrow> string" where
  "js_message e = (case e of
     ReadTimeoutError ms \<Rightarrow> ''READ_TIMEOUT:'' @ int_to_string ms
   | HttpReadError st \<Rightarrow> ''HTTP_READ_ERROR:'' @ int_to_string st
   | JsError name message \<Rightarrow> message
   | JsValue s \<Rightarrow> s)"

fun category_string :: "MetricFailureCategory \<Rightarrow> string" where
  "category_string NO_FAILURE = ''NONE''"
| "category_string TIMEOUT = ''TIMEOUT''"
| "category_string NETWORK = ''NETWORK''"
| "category_string RATE_LIMIT = ''RATE_LIMIT''"
| "category_string SERVER = ''SERVER''"
| "category_string INVALID_RESPONSE = ''INVALID_RESPONSE''"
| "category_string CONFIGURATION = ''CONFIGURATION''"
| "category_string UNKNOWN_FAILURE = ''UNKNOWN''"

definition actionError :: "string \<Rightarrow> js_error \<Rightarrow> v2_error" where
  "actionError stage e = Wrapped (''V2_ACTION:'' @ stage @ '': '' @ js_message e) e"

definition simulationError :: "string \<Rightarrow> js_error \<Rightarrow> v2_error" where
  "simulationError stage e = actionError (stage @ '':simulation:'' @
     (if isTransientReadFailure e then ''transient'' else ''deterministic'') @ '':'' @ category_string (classifyReadFailure e)) e"

definition pendingError :: "string \<Rightarrow> string \<Rightarrow> V2AddMoneyStage option \<Rightarrow> js_error \<Rightarrow> v2_error" where
  "pendingError stage hash transactionStage e =
     ReconciliationPending (''V2_ACTION:'' @ stage @ '':reconciliation-pending:'' @ hash) hash (isTransientReadFailure e) transactionStage e"

fun isV2TransactionReconciliationPendingError :: "v2_error \<Rightarrow> bool" where
  "isV2TransactionReconciliationPendingError (ReconciliationPending _ _ _ _ _) = True"
| "isV2TransactionReconciliationPendingError _ = False"

definition addMoneyStageForWrite :: "string \<Rightarrow> V2AddMoneyStage option" where
  "addMoneyStageForWrite stage =
     (if stage = ''add-money-approval'' then Some StageApproval
      else if stage = ''add-money-wrap'' then Some StageWrap
      else if stage = ''add-money-save'' then Some StageSave
      else None)"

definition isZeroHandle :: "string \<Rightarrow> bool" where
  "isZeroHandle handle = isZeroBalanceHandle handle"

definition equalAddress :: "string \<Rightarrow> string \<Rightarrow> bool" where
  "equalAddress l r = (toLowerCase l = toLowerCase r)"

section \<open>Guards and one transaction\<close>

definition assertV2Wallet :: "'w V2ActionClients \<Rightarrow> string \<Rightarrow> ('w, unit) v2_op" where
  "assertV2Wallet clients stage =
     (if \<not> truthy (vc_signer clients) \<or> toLowerCase (or_empty (vc_signer clients)) \<noteq> toLowerCase (vc_account clients)
      then fail (''WALLET_SIGNER_MISMATCH:'' @ stage)
      else bind_eff (client_call (vc_walletChainId clients) Plain) (\<lambda>walletChainId.
        bind_eff (client_call (vc_publicChainId clients) Plain) (\<lambda>publicChainId.
        if walletChainId \<noteq> V2_PREVIEW_CHAIN_ID \<or> publicChainId \<noteq> V2_PREVIEW_CHAIN_ID
        then fail (''WRONG_NETWORK:'' @ stage) else ret ())))"

definition topology_read :: "'w V2ActionClients \<Rightarrow> string \<Rightarrow> string \<Rightarrow> ('w, string) v2_op" where
  "topology_read clients target f = client_call (vc_readText clients target f []) Plain"

definition readV2Topology :: "'w V2ActionClients \<Rightarrow> ('w, unit) v2_op" where
  "readV2Topology clients =
     (let a = V2_PREVIEW_ADDRESSES in
      bind_eff (topology_read clients (a_vault a) ''ASSET'') (\<lambda>asset.
      bind_eff (topology_read clients (a_vault a) ''UNDERLYING'') (\<lambda>underlying.
      bind_eff (topology_read clients (a_wrapper a) ''underlying'') (\<lambda>wrapperUnderlying.
      bind_eff (topology_read clients (a_adapter a) ''vault'') (\<lambda>adapterVault.
      bind_eff (topology_read clients (a_adapter a) ''asset'') (\<lambda>adapterAsset.
      bind_eff (topology_read clients (a_adapter a) ''COMET'') (\<lambda>adapterComet.
      if \<not> equalAddress asset (a_wrapper a) then fail ''V2_TOPOLOGY:ASSET''
      else if \<not> equalAddress underlying (a_usdc a) then fail ''V2_TOPOLOGY:UNDERLYING''
      else if \<not> equalAddress wrapperUnderlying (a_usdc a) then fail ''V2_TOPOLOGY:WRAPPER_UNDERLYING''
      else if \<not> equalAddress adapterVault (a_vault a) then fail ''V2_TOPOLOGY:ADAPTER_VAULT''
      else if \<not> equalAddress adapterAsset (a_usdc a) then fail ''V2_TOPOLOGY:ADAPTER_ASSET''
      else if \<not> equalAddress adapterComet (a_comet a) then fail ''V2_TOPOLOGY:ADAPTER_COMET''
      else ret ())))))))"

text \<open>The signature: one request to the wallet, noted with its hash.\<close>

definition submit_call :: "'w V2ActionClients \<Rightarrow> contract_call \<Rightarrow> int option \<Rightarrow> string \<Rightarrow> ('w, string) v2_op" where
  "submit_call clients request gas stage s =
     (case submitFinancialWriteOnce (vc_writeContract clients request gas) (fst s) of
        (Inl e, c) \<Rightarrow> (Inl (actionError (stage @ '':signature'') e), (c, snd s @ [Submitted request None]))
      | (Inr hash, c) \<Rightarrow> (Inr hash, (c, snd s @ [Submitted request (Some hash)])))"

definition writeV2 :: "'w V2ActionClients \<Rightarrow> contract_call \<Rightarrow> string \<Rightarrow> ('w, string) v2_op" where
  "writeV2 clients request stage =
     bind_eff (assertV2Wallet clients stage) (\<lambda>_.
     bind_eff (notify (OnStage PRECONDITION_READ)) (\<lambda>_.
     bind_eff (reliable_read clients (vc_simulateContract clients request) (simulationError stage)) (\<lambda>gas.
     bind_eff (notify (Simulated request)) (\<lambda>_.
     bind_eff (assertV2Wallet clients stage) (\<lambda>_.
     bind_eff (submit_call clients request gas stage) (\<lambda>hash.
     bind_eff (notify (OnHash hash (addMoneyStageForWrite stage))) (\<lambda>_.
     bind_eff (notify (OnStage RECONCILE)) (\<lambda>_.
     bind_eff (client_call (vc_waitForTransactionReceipt clients hash)
        (pendingError (stage @ '':reconcile'') hash (addMoneyStageForWrite stage))) (\<lambda>receipt.
     if \<not> rc_success receipt then fail (''V2_ACTION:'' @ stage @ '':reverted:'' @ hash)
     else bind_eff (notify (OnReceipt hash (addMoneyStageForWrite stage))) (\<lambda>_. ret hash))))))))))"

datatype reconciliation_status = Confirmed | RevertedOnChain | StillPending

definition reconcileV2Transaction :: "'w V2ActionClients \<Rightarrow> string \<Rightarrow> ('w, string \<times> reconciliation_status) v2_op" where
  "reconcileV2Transaction clients hash = catch_eff
     (bind_eff (client_call (vc_getTransactionReceipt clients hash) Plain) (\<lambda>receipt.
      ret (hash, if rc_success receipt then Confirmed else RevertedOnChain)))
     (\<lambda>_. ret (hash, StillPending))"

definition contract_request :: "string \<Rightarrow> string \<Rightarrow> chain_value list \<Rightarrow> contract_call" where
  "contract_request target f args = \<lparr>cc_address = target, cc_functionName = f, cc_args = args, cc_value = None\<rparr>"

section \<open>Revealing\<close>

definition readV2PrincipalHandle :: "'w V2ActionClients \<Rightarrow> ('w, string) v2_op" where
  "readV2PrincipalHandle clients =
     bind_eff (assertV2Wallet clients ''read-principal'') (\<lambda>_.
     client_call (vc_readText clients (a_vault V2_PREVIEW_ADDRESSES) ''principalOf'' [VText (vc_account clients)]) Plain)"

definition revealV2Savings :: "'w V2ActionClients \<Rightarrow> ('w, int) v2_op" where
  "revealV2Savings clients =
     bind_eff (readV2PrincipalHandle clients) (\<lambda>handle.
     if isZeroHandle handle then ret 0
     else bind_eff (notify (OnStage REVEAL)) (\<lambda>_.
       bind_eff (client_call (vc_decryptPrivateValue clients (a_vault V2_PREVIEW_ADDRESSES) handle) Plain) (\<lambda>v.
       bind_eff (assertV2Wallet clients ''savings-reveal-revalidate'') (\<lambda>_.
       bind_eff (readV2PrincipalHandle clients) (\<lambda>handleAfter.
       if handleAfter \<noteq> handle then fail ''V2_ACTION:SAVINGS_REVEAL:STALE_HANDLE'' else ret v)))))"

section \<open>Test money\<close>

definition COMPOUND_FAUCET :: string where
  "COMPOUND_FAUCET = ''0x68793eA49297eB75DFB4610B68e076D2A5c7646C''"

definition PROVEN_FAUCET_TRANSACTION :: string where
  "PROVEN_FAUCET_TRANSACTION = ''0x63829c8633304e200a62bdd0af068374687b8163afc6673988fbe8f4426357da''"

definition faucet_call :: "string \<Rightarrow> contract_call" where
  "faucet_call input = contract_request COMPOUND_FAUCET [] [VText input]"

definition send_faucet :: "'w V2ActionClients \<Rightarrow> string \<Rightarrow> ('w, string) v2_op" where
  "send_faucet clients input s =
     (case submitFinancialWriteOnce (vc_sendTransaction clients COMPOUND_FAUCET input) (fst s) of
        (Inl e, c) \<Rightarrow> (Inl (Plain e), (c, snd s @ [Submitted (faucet_call input) None]))
      | (Inr hash, c) \<Rightarrow> (Inr hash, (c, snd s @ [Submitted (faucet_call input) (Some hash)])))"

definition getTestUsdc :: "'w V2ActionClients \<Rightarrow> ('w, string) v2_op" where
  "getTestUsdc clients =
     bind_eff (client_call (vc_getTransaction clients PROVEN_FAUCET_TRANSACTION) Plain) (\<lambda>proven.
     if map_option toLowerCase (ct_to proven) \<noteq> Some (toLowerCase COMPOUND_FAUCET) \<or> ct_input proven = [] \<or> ct_input proven = ''0x''
     then fail ''CANONICAL_FAUCET_EVIDENCE_UNAVAILABLE''
     else if truthy (vc_signer clients) \<and> toLowerCase (or_empty (vc_signer clients)) \<noteq> toLowerCase (vc_account clients)
     then fail (''WALLET_SIGNER_MISMATCH:'' @ or_empty (vc_signer clients) @ '':'' @ vc_account clients)
     else bind_eff (client_call (vc_walletChainId clients) Plain) (\<lambda>walletChainId.
     if walletChainId \<noteq> V2_PREVIEW_CHAIN_ID then fail (''WRONG_NETWORK:wallet-client-'' @ int_to_string walletChainId)
     else bind_eff (client_call (vc_call clients COMPOUND_FAUCET (ct_input proven)) Plain) (\<lambda>_.
     bind_eff (notify (Simulated (faucet_call (ct_input proven)))) (\<lambda>_.
     bind_eff (send_faucet clients (ct_input proven)) (\<lambda>hash.
     bind_eff (notify (OnHash hash None)) (\<lambda>_.
     bind_eff (client_call (vc_waitForTransactionReceipt clients hash) Plain) (\<lambda>receipt.
     if \<not> rc_success receipt then fail ''CANONICAL_FAUCET_TRANSACTION_FAILED'' else ret hash)))))))"

definition getV2TestUsdc :: "'w V2ActionClients \<Rightarrow> ('w, string option) v2_op" where
  "getV2TestUsdc clients =
     bind_eff (assertV2Wallet clients ''get-test-usdc'') (\<lambda>_.
     bind_eff (client_call (vc_readUint clients (a_usdc V2_PREVIEW_ADDRESSES) ''balanceOf'' [VText (vc_account clients)]) Plain) (\<lambda>balance.
     if balance > 0 then ret None
     else bind_eff (getTestUsdc clients) (\<lambda>hash. ret (Some hash))))"

section \<open>Adding money\<close>

definition approve_call :: "int \<Rightarrow> contract_call" where
  "approve_call amount = contract_request (a_usdc V2_PREVIEW_ADDRESSES) ''approve'' [VText (a_wrapper V2_PREVIEW_ADDRESSES), VInt amount]"

definition wrap_call :: "string \<Rightarrow> int \<Rightarrow> contract_call" where
  "wrap_call account amount = contract_request (a_wrapper V2_PREVIEW_ADDRESSES) ''wrap'' [VText account, VInt amount]"

definition save_call :: "string \<times> string \<Rightarrow> contract_call" where
  "save_call encrypted = contract_request (a_wrapper V2_PREVIEW_ADDRESSES) ''confidentialTransferAndCall''
     [VText (a_vault V2_PREVIEW_ADDRESSES), VText (fst encrypted), VText (snd encrypted), VText ''0x'']"

definition show_step :: "nat \<Rightarrow> nat \<Rightarrow> V2ActionStep_label \<Rightarrow> ('w, unit) v2_op" where
  "show_step current all label = notify (OnStep \<lparr>st_current = current, st_total = all, st_label = label\<rparr>)"

definition saveV2Money :: "'w V2ActionClients \<Rightarrow> int \<Rightarrow> ('w, string) v2_op" where
  "saveV2Money clients amount =
     bind_eff (notify (OnStage ADDING_TO_SAVINGS)) (\<lambda>_.
     bind_eff (client_call (vc_encryptPrivateAmount clients (a_wrapper V2_PREVIEW_ADDRESSES) amount) (actionError ''add-money:input'')) (\<lambda>encrypted.
     writeV2 clients (save_call encrypted) ''add-money-save''))"

definition read_allowance :: "'w V2ActionClients \<Rightarrow> (js_error, 'w, int) eff" where
  "read_allowance clients = vc_readUint clients (a_usdc V2_PREVIEW_ADDRESSES) ''allowance''
     [VText (vc_account clients), VText (a_wrapper V2_PREVIEW_ADDRESSES)]"

definition approve_if_required :: "'w V2ActionClients \<Rightarrow> int \<Rightarrow> bool \<Rightarrow> nat \<Rightarrow> ('w, string list) v2_op" where
  "approve_if_required clients amount required totalSteps =
     (if \<not> required then ret []
      else bind_eff (show_step 1 totalSteps Approve_USDC) (\<lambda>_.
        bind_eff (notify (OnStage APPROVAL)) (\<lambda>_.
        bind_eff (writeV2 clients (approve_call amount) ''add-money-approval'') (\<lambda>hash.
        bind_eff (reliable_read clients (read_allowance clients) Plain) (\<lambda>allowanceAfter.
        if allowanceAfter < amount then fail ''V2_ACTION:ADD_MONEY:allowance-not-confirmed'' else ret [hash])))))"

definition addV2Money :: "'w V2ActionClients \<Rightarrow> int \<Rightarrow> ('w, string list) v2_op" where
  "addV2Money clients amount =
     (if amount \<le> 0 then fail ''V2_ACTION:ADD_MONEY:amount-must-be-positive''
      else bind_eff (assertV2Wallet clients ''add-money'') (\<lambda>_.
      bind_eff (readV2Topology clients) (\<lambda>_.
      bind_eff (notify (OnStage PREPARING_FUNDS)) (\<lambda>_.
      bind_eff (client_call (vc_readUint clients (a_usdc V2_PREVIEW_ADDRESSES) ''balanceOf'' [VText (vc_account clients)]) Plain) (\<lambda>balance.
      bind_eff (client_call (read_allowance clients) Plain) (\<lambda>allowance.
      if balance < amount then fail ''INSUFFICIENT_USDC''
      else let approvalRequired = allowance < amount; totalSteps = (if approvalRequired then 3 else 2) in
        bind_eff (approve_if_required clients amount approvalRequired totalSteps) (\<lambda>approvals.
        bind_eff (show_step (if approvalRequired then 2 else 1) totalSteps Make_savings_private) (\<lambda>_.
        bind_eff (writeV2 clients (wrap_call (vc_account clients) amount) ''add-money-wrap'') (\<lambda>wrapHash.
        bind_eff (show_step (if approvalRequired then 3 else 2) totalSteps Add_to_Leopold_savings) (\<lambda>_.
        bind_eff (saveV2Money clients amount) (\<lambda>saveHash.
        ret (approvals @ [wrapHash, saveHash]))))))))))))"

definition resumeV2AddMoneySave :: "'w V2ActionClients \<Rightarrow> int \<Rightarrow> ('w, string list) v2_op" where
  "resumeV2AddMoneySave clients amount =
     (if amount \<le> 0 then fail ''V2_ACTION:ADD_MONEY:amount-must-be-positive''
      else bind_eff (assertV2Wallet clients ''add-money-resume-save'') (\<lambda>_.
      bind_eff (readV2Topology clients) (\<lambda>_.
      bind_eff (show_step 2 2 Add_to_Leopold_savings) (\<lambda>_.
      bind_eff (saveV2Money clients amount) (\<lambda>hash. ret [hash])))))"

definition resumeV2AddMoneyAfterApproval :: "'w V2ActionClients \<Rightarrow> int \<Rightarrow> ('w, string list) v2_op" where
  "resumeV2AddMoneyAfterApproval clients amount =
     (if amount \<le> 0 then fail ''V2_ACTION:ADD_MONEY:amount-must-be-positive''
      else bind_eff (assertV2Wallet clients ''add-money-resume-approval'') (\<lambda>_.
      bind_eff (readV2Topology clients) (\<lambda>_.
      bind_eff (reliable_read clients (read_allowance clients) Plain) (\<lambda>allowance.
      if allowance < amount then addV2Money clients amount
      else bind_eff (show_step 1 2 Make_savings_private) (\<lambda>_.
        bind_eff (writeV2 clients (wrap_call (vc_account clients) amount) ''add-money-wrap'') (\<lambda>wrapHash.
        bind_eff (show_step 2 2 Add_to_Leopold_savings) (\<lambda>_.
        bind_eff (saveV2Money clients amount) (\<lambda>saveHash. ret [wrapHash, saveHash]))))))))"

section \<open>Recovering a confirmed step\<close>

text \<open>
  \<open>decode\<close> reads the input of a transaction with the interface of the contract: the function, and
  its arguments where it has an address and an amount.
\<close>

type_synonym decoder = "string \<Rightarrow> (js_error, string \<times> (string \<times> int) option) result"

definition recovered_call ::
  "decoder \<Rightarrow> string \<Rightarrow> string \<Rightarrow> string \<Rightarrow> chain_transaction \<Rightarrow> ('w, string \<times> int) v2_op" where
  "recovered_call decode account functionName wrongCall transaction =
     (if \<not> equalAddress (ct_from transaction) account then fail ''V2_RECOVERY:WRONG_SENDER''
      else case decode (ct_input transaction) of
        Inl e \<Rightarrow> throw (Plain e)
      | Inr (f, args) \<Rightarrow> (case args of
          Some (party, amount) \<Rightarrow> if f \<noteq> functionName then fail wrongCall else ret (party, amount)
        | None \<Rightarrow> fail wrongCall))"

definition recoverConfirmedV2Wrap ::
  "decoder \<Rightarrow> 'w V2ActionClients \<Rightarrow> string \<Rightarrow> string \<Rightarrow> ('w, string \<times> int) v2_op" where
  "recoverConfirmedV2Wrap decode clients account hash =
     bind_eff (client_call (vc_publicChainId clients) Plain) (\<lambda>chainId.
     bind_eff (client_call (vc_getTransaction clients hash) Plain) (\<lambda>transaction.
     bind_eff (client_call (vc_getTransactionReceipt clients hash) Plain) (\<lambda>receipt.
     if chainId \<noteq> V2_PREVIEW_CHAIN_ID then fail ''V2_RECOVERY:WRONG_NETWORK''
     else if \<not> rc_success receipt then fail ''V2_RECOVERY:WRAP_NOT_CONFIRMED''
     else if \<not> truthy (ct_to transaction) \<or> \<not> equalAddress (or_empty (ct_to transaction)) (a_wrapper V2_PREVIEW_ADDRESSES)
     then fail ''V2_RECOVERY:WRONG_WRAPPER''
     else bind_eff (recovered_call decode account ''wrap'' ''V2_RECOVERY:WRONG_CALL'' transaction) (\<lambda>(recipient, amount).
     if \<not> equalAddress recipient account then fail ''V2_RECOVERY:WRONG_RECIPIENT''
     else if amount \<le> 0 then fail ''V2_RECOVERY:INVALID_AMOUNT''
     else ret (hash, amount)))))"

definition recoverConfirmedV2Approval ::
  "decoder \<Rightarrow> 'w V2ActionClients \<Rightarrow> string \<Rightarrow> string \<Rightarrow> ('w, string \<times> int) v2_op" where
  "recoverConfirmedV2Approval decode clients account hash =
     bind_eff (client_call (vc_publicChainId clients) Plain) (\<lambda>chainId.
     bind_eff (client_call (vc_getTransaction clients hash) Plain) (\<lambda>transaction.
     bind_eff (client_call (vc_getTransactionReceipt clients hash) Plain) (\<lambda>receipt.
     if chainId \<noteq> V2_PREVIEW_CHAIN_ID then fail ''V2_RECOVERY:WRONG_NETWORK''
     else if \<not> rc_success receipt then fail ''V2_RECOVERY:APPROVAL_NOT_CONFIRMED''
     else if \<not> truthy (ct_to transaction) \<or> \<not> equalAddress (or_empty (ct_to transaction)) (a_usdc V2_PREVIEW_ADDRESSES)
     then fail ''V2_RECOVERY:WRONG_USDC''
     else bind_eff (recovered_call decode account ''approve'' ''V2_RECOVERY:WRONG_APPROVAL_CALL'' transaction) (\<lambda>(spender, amount).
     if \<not> equalAddress spender (a_wrapper V2_PREVIEW_ADDRESSES) then fail ''V2_RECOVERY:WRONG_SPENDER''
     else if amount \<le> 0 then fail ''V2_RECOVERY:INVALID_AMOUNT''
     else ret (hash, amount)))))"

section \<open>Prize savings and the entry balance\<close>

definition tupleValue :: "chain_value \<Rightarrow> nat \<Rightarrow> ('w, chain_value option) v2_op" where
  "tupleValue v index = (case v of
     VTuple vs \<Rightarrow> ret (if index < length vs then Some (vs ! index) else None)
   | _ \<Rightarrow> fail ''V2_ACTION:MALFORMED_TUPLE'')"

text \<open>A component used as a condition, as JavaScript reads it.\<close>

definition truthy_value :: "chain_value option \<Rightarrow> bool" where
  "truthy_value v = (case v of None \<Rightarrow> False | Some (VBool b) \<Rightarrow> b | Some (VInt n) \<Rightarrow> n \<noteq> 0 | Some (VText t) \<Rightarrow> t \<noteq> [] | Some (VTuple _) \<Rightarrow> True)"

definition read_preference :: "'w V2ActionClients \<Rightarrow> ('w, chain_value) v2_op" where
  "read_preference clients = client_call
     (vc_readTuple clients (a_escrow V2_PREVIEW_ADDRESSES) ''autoEntryPreference'' [VText (vc_account clients)]) Plain"

definition read_credit :: "'w V2ActionClients \<Rightarrow> ('w, int) v2_op" where
  "read_credit clients = client_call
     (vc_readUint clients (a_escrow V2_PREVIEW_ADDRESSES) ''automationBondCredit'' [VText (vc_account clients)]) Plain"

definition deposit_call :: "int \<Rightarrow> contract_call" where
  "deposit_call amount = \<lparr>cc_address = a_escrow V2_PREVIEW_ADDRESSES, cc_functionName = ''depositAutomationBondCredit'',
     cc_args = [], cc_value = Some amount\<rparr>"

definition auto_entry_call :: "bool \<Rightarrow> contract_call" where
  "auto_entry_call on = contract_request (a_escrow V2_PREVIEW_ADDRESSES) ''setAutoEntry'' [VBool on]"

definition top_up_credit :: "'w V2ActionClients \<Rightarrow> int \<Rightarrow> int \<Rightarrow> ('w, string list) v2_op" where
  "top_up_credit clients credit targetCredit =
     (if credit < targetCredit
      then bind_eff (notify (OnStage ENTRY_BALANCE)) (\<lambda>_.
        bind_eff (writeV2 clients (deposit_call (targetCredit - credit)) ''prize-savings-entry-balance'') (\<lambda>hash. ret [hash]))
      else ret [])"

definition enableV2PrizeSavings :: "'w V2ActionClients \<Rightarrow> int \<Rightarrow> ('w, string list \<times> bool) v2_op" where
  "enableV2PrizeSavings clients draws =
     (if draws < 1 \<or> draws > 30 then fail ''V2_ACTION:PRIZE_SAVINGS:invalid-draw-count''
      else bind_eff (assertV2Wallet clients ''prize-savings-enable'') (\<lambda>_.
      bind_eff (client_call (vc_readUint clients (a_escrow V2_PREVIEW_ADDRESSES) ''BOND_AMOUNT'' []) Plain) (\<lambda>bondAmount.
      bind_eff (read_credit clients) (\<lambda>credit.
      bind_eff (read_preference clients) (\<lambda>preference.
      bind_eff (tupleValue preference 1) (\<lambda>scheduled.
      if truthy_value scheduled then ret ([], True)
      else bind_eff (top_up_credit clients credit (bondAmount * draws)) (\<lambda>hashes.
        bind_eff (notify (OnStage PRIZE_SAVINGS)) (\<lambda>_.
        bind_eff (writeV2 clients (auto_entry_call True) ''prize-savings-enable'') (\<lambda>hash.
        bind_eff (read_preference clients) (\<lambda>after.
        bind_eff (tupleValue after 1) (\<lambda>enabled.
        if \<not> truthy_value enabled then fail ''V2_ACTION:PRIZE_SAVINGS:state-not-confirmed''
        else ret (hashes @ [hash], False))))))))))))"

definition topUpV2EntryBalance :: "'w V2ActionClients \<Rightarrow> int \<Rightarrow> ('w, string) v2_op" where
  "topUpV2EntryBalance clients amount =
     (if amount \<le> 0 then fail ''V2_ACTION:ENTRY_BALANCE:amount-must-be-positive''
      else bind_eff (assertV2Wallet clients ''entry-balance-top-up'') (\<lambda>_.
      bind_eff (writeV2 clients (deposit_call amount) ''entry-balance-top-up'') (\<lambda>hash.
      bind_eff (read_credit clients) (\<lambda>credit.
      if credit < amount then fail ''V2_ACTION:ENTRY_BALANCE:state-not-confirmed'' else ret hash))))"

definition withdrawV2EntryBalance :: "'w V2ActionClients \<Rightarrow> int \<Rightarrow> ('w, string) v2_op" where
  "withdrawV2EntryBalance clients amount =
     (if amount \<le> 0 then fail ''V2_ACTION:ENTRY_BALANCE:amount-must-be-positive''
      else bind_eff (assertV2Wallet clients ''entry-balance-withdraw'') (\<lambda>_.
      bind_eff (read_credit clients) (\<lambda>credit.
      if amount > credit then fail ''INSUFFICIENT_ENTRY_BALANCE''
      else writeV2 clients (contract_request (a_escrow V2_PREVIEW_ADDRESSES) ''withdrawAutomationBondCredit'' [VInt amount])
        ''entry-balance-withdraw'')))"

definition disableV2PrizeSavings :: "'w V2ActionClients \<Rightarrow> ('w, string option \<times> bool) v2_op" where
  "disableV2PrizeSavings clients =
     bind_eff (assertV2Wallet clients ''prize-savings-disable'') (\<lambda>_.
     bind_eff (client_call (vc_readUint clients (a_vault V2_PREVIEW_ADDRESSES) ''activeRoundId'' []) Plain) (\<lambda>activeRound.
     bind_eff (read_preference clients) (\<lambda>preference.
     bind_eff (client_call (vc_readBool clients (a_escrow V2_PREVIEW_ADDRESSES) ''isAutoEntryEnabled''
        [VText (vc_account clients), VInt activeRound]) Plain) (\<lambda>currentEnabled.
     bind_eff (tupleValue preference 1) (\<lambda>scheduled.
     bind_eff (tupleValue preference 0) (\<lambda>enabledBefore.
     if \<not> truthy_value scheduled \<and> \<not> (currentEnabled \<or> truthy_value enabledBefore) then ret (None, True)
     else bind_eff (writeV2 clients (auto_entry_call False) ''prize-savings-disable'') (\<lambda>hash.
       bind_eff (read_preference clients) (\<lambda>after.
       bind_eff (tupleValue after 1) (\<lambda>stillScheduled.
       if truthy_value stillScheduled then fail (''V2_ACTION:PRIZE_SAVINGS:disable-not-confirmed:'' @ int_to_string activeRound)
       else ret (Some hash, False))))))))))"

section \<open>Withdrawing, results and claims\<close>

definition unwrap_call :: "string \<Rightarrow> string \<times> string \<Rightarrow> contract_call" where
  "unwrap_call account encrypted = contract_request (a_wrapper V2_PREVIEW_ADDRESSES) ''unwrap''
     [VText account, VText account, VText (fst encrypted), VText (snd encrypted)]"

definition finalize_call :: "string \<Rightarrow> int \<times> string \<Rightarrow> contract_call" where
  "finalize_call requestId publicResult = contract_request (a_wrapper V2_PREVIEW_ADDRESSES) ''finalizeUnwrap''
     [VText requestId, VInt (fst publicResult), VText (snd publicResult)]"

definition withdraw_call :: "string \<Rightarrow> string \<times> string \<Rightarrow> contract_call" where
  "withdraw_call f encrypted = contract_request (a_vault V2_PREVIEW_ADDRESSES) f [VText (fst encrypted), VText (snd encrypted)]"

definition unwrapToUsdc :: "'w V2ActionClients \<Rightarrow> int \<Rightarrow> string \<Rightarrow> ('w, string list) v2_op" where
  "unwrapToUsdc clients amount stage =
     bind_eff (notify (OnStage UNWRAPPING)) (\<lambda>_.
     bind_eff (client_call (vc_encryptPrivateAmount clients (a_wrapper V2_PREVIEW_ADDRESSES) amount) Plain) (\<lambda>encrypted.
     bind_eff (writeV2 clients (unwrap_call (vc_account clients) encrypted) (stage @ ''-request'')) (\<lambda>requestHash.
     bind_eff (client_call (vc_getTransactionReceipt clients requestHash) Plain) (\<lambda>receipt.
     case rc_unwrapRequestIds receipt of
       [] \<Rightarrow> fail ''V2_ACTION:UNWRAP_REQUEST_ID_MISSING''
     | requestId # _ \<Rightarrow>
       if requestId = [] then fail ''V2_ACTION:UNWRAP_REQUEST_ID_MISSING''
       else bind_eff (client_call (vc_decryptPublicValue clients requestId) Plain) (\<lambda>publicResult.
         if fst publicResult \<noteq> amount then fail ''V2_ACTION:UNWRAP_AMOUNT_MISMATCH''
         else bind_eff (writeV2 clients (finalize_call requestId publicResult) (stage @ ''-finalize'')) (\<lambda>finalizeHash.
           ret [requestHash, finalizeHash]))))))"

definition withdrawV2Asset :: "'w V2ActionClients \<Rightarrow> int \<Rightarrow> string \<Rightarrow> string \<Rightarrow> string \<Rightarrow> ('w, string list) v2_op" where
  "withdrawV2Asset clients amount assetFunctionName handleFunctionName stage =
     (let read_handle = client_call (vc_readText clients (a_vault V2_PREVIEW_ADDRESSES) handleFunctionName [VText (vc_account clients)]) Plain in
      if amount \<le> 0 then fail ''V2_ACTION:WITHDRAW:amount-must-be-positive''
      else bind_eff (assertV2Wallet clients stage) (\<lambda>_.
      bind_eff (readV2Topology clients) (\<lambda>_.
      bind_eff read_handle (\<lambda>handle.
      if isZeroHandle handle then fail ''INSUFFICIENT_USDC''
      else bind_eff (client_call (vc_decryptPrivateValue clients (a_vault V2_PREVIEW_ADDRESSES) handle) Plain) (\<lambda>available.
      if amount > available then fail ''INSUFFICIENT_USDC''
      else bind_eff (client_call (vc_encryptPrivateAmount clients (a_vault V2_PREVIEW_ADDRESSES) amount) Plain) (\<lambda>encrypted.
      bind_eff (writeV2 clients (withdraw_call assetFunctionName encrypted) stage) (\<lambda>withdrawalHash.
      bind_eff read_handle (\<lambda>currentHandle.
      if currentHandle = handle then fail (''V2_ACTION:'' @ stage @ '':state-not-changed'')
      else bind_eff (unwrapToUsdc clients amount stage) (\<lambda>hashes. ret (withdrawalHash # hashes))))))))))"

definition withdrawV2Savings :: "'w V2ActionClients \<Rightarrow> int \<Rightarrow> ('w, string list) v2_op" where
  "withdrawV2Savings clients amount = withdrawV2Asset clients amount ''withdraw'' ''principalOf'' ''withdraw-savings''"

definition withdrawV2Winnings :: "'w V2ActionClients \<Rightarrow> int \<Rightarrow> ('w, string list) v2_op" where
  "withdrawV2Winnings clients amount = withdrawV2Asset clients amount ''withdrawWinnings'' ''winningsOf'' ''withdraw-winnings''"

definition read_winnings :: "'w V2ActionClients \<Rightarrow> ('w, string) v2_op" where
  "read_winnings clients = client_call (vc_readText clients (a_vault V2_PREVIEW_ADDRESSES) ''winningsOf'' [VText (vc_account clients)]) Plain"

definition reveal_winnings :: "'w V2ActionClients \<Rightarrow> string \<Rightarrow> ('w, int) v2_op" where
  "reveal_winnings clients handle =
     (if isZeroHandle handle then ret 0
      else bind_eff (notify (OnStage REVEAL)) (\<lambda>_.
        bind_eff (client_call (vc_decryptPrivateValue clients (a_vault V2_PREVIEW_ADDRESSES) handle) Plain) (\<lambda>result.
        bind_eff (assertV2Wallet clients ''result-reveal-revalidate'') (\<lambda>_.
        bind_eff (read_winnings clients) (\<lambda>handleAfter.
        if handleAfter \<noteq> handle then fail ''V2_ACTION:RESULT_REVEAL:STALE_HANDLE'' else ret result)))))"

definition revealLatestV2Result :: "'w V2ActionClients \<Rightarrow> ('w, int) v2_op" where
  "revealLatestV2Result clients =
     bind_eff (assertV2Wallet clients ''result-reveal'') (\<lambda>_.
     bind_eff (client_call (vc_readUint clients (a_vault V2_PREVIEW_ADDRESSES) ''activeRoundId'' []) Plain) (\<lambda>activeRound.
     if activeRound \<le> 1 then fail ''RESULT_NOT_READY''
     else bind_eff (client_call (vc_readTuple clients (a_vault V2_PREVIEW_ADDRESSES) ''roundInfo'' [VInt (activeRound - 1)]) Plain) (\<lambda>round.
     bind_eff (client_call (vc_readBool clients (a_escrow V2_PREVIEW_ADDRESSES) ''isRegistered'' [VInt (activeRound - 1), VText (vc_account clients)]) Plain) (\<lambda>registered.
     bind_eff (read_winnings clients) (\<lambda>handle.
     bind_eff (tupleValue round 2) (\<lambda>state.
     if state \<noteq> Some (VInt 10) \<or> \<not> registered then fail ''RESULT_NOT_READY''
     else reveal_winnings clients handle))))))"

definition claimV2Refund :: "'w V2ActionClients \<Rightarrow> int \<Rightarrow> ('w, string) v2_op" where
  "claimV2Refund clients roundId =
     bind_eff (assertV2Wallet clients ''claim-refund'') (\<lambda>_.
     bind_eff (client_call (vc_readBool clients (a_escrow V2_PREVIEW_ADDRESSES) ''isRegistered'' [VInt roundId, VText (vc_account clients)]) Plain) (\<lambda>registered.
     bind_eff (client_call (vc_readBool clients (a_escrow V2_PREVIEW_ADDRESSES) ''refundClaimed'' [VInt roundId, VText (vc_account clients)]) Plain) (\<lambda>claimed.
     if \<not> registered \<or> claimed then fail ''REFUND_UNAVAILABLE''
     else writeV2 clients (contract_request (a_escrow V2_PREVIEW_ADDRESSES) ''claimBondRefund'' [VInt roundId]) ''claim-refund'')))"

definition claimV2Reward :: "'w V2ActionClients \<Rightarrow> ('w, string) v2_op" where
  "claimV2Reward clients =
     bind_eff (assertV2Wallet clients ''claim-reward'') (\<lambda>_.
     bind_eff (client_call (vc_readUint clients (a_escrow V2_PREVIEW_ADDRESSES) ''settlementRewardCredit'' [VText (vc_account clients)]) Plain) (\<lambda>credit.
     if credit = 0 then fail ''REWARD_UNAVAILABLE''
     else writeV2 clients (contract_request (a_escrow V2_PREVIEW_ADDRESSES) ''withdrawSettlementRewards'' []) ''claim-reward''))"

end
