(* ===== verification/Client_View.thy ===== *)
theory Client_View
  imports Client_Actions Client_Account Planner Eff_Logic
begin

text \<open>
  What the web client knows of the deployment and shows of it: the configuration
  (\<open>leopold/config.ts\<close>), the public reads of a vault and the validation of the deployment
  (\<open>leopold/reads.ts\<close>), the mapping of protocol states to what is displayed
  (\<open>ui/controller.ts\<close>, \<open>ui/v2-entry-status.ts\<close>) and the gate before the browser state is known
  (\<open>auth/hydration.ts\<close>).
\<close>

section \<open>Configuration\<close>

datatype AddressStatus = AddrConfigured | AddrMissing | AddrInvalid | AddrWrongChain

fun address_status_string :: "AddressStatus \<Rightarrow> string" where
  "address_status_string AddrConfigured = ''configured''"
| "address_status_string AddrMissing = ''missing''"
| "address_status_string AddrInvalid = ''invalid''"
| "address_status_string AddrWrongChain = ''wrong-chain''"

record CheckedAddress =
  ca_status :: AddressStatus
  ca_address :: "string option"

record LeopoldVaultConfig =
  lv_id :: int
  lv_slug :: string
  lv_type :: string
  lv_name :: string
  lv_roundDurationSeconds :: int
  lv_vault :: CheckedAddress
  lv_adapter :: CheckedAddress
  lv_bondEscrow :: CheckedAddress

record LeopoldConfig =
  lc_chainId :: int
  lc_networkName :: string
  lc_deploymentStatus :: string
  lc_canonicalUsdc :: CheckedAddress
  lc_lcUsdc :: CheckedAddress
  lc_registry :: CheckedAddress
  lc_compoundComet :: CheckedAddress
  lc_vaults :: "LeopoldVaultConfig list"
  lc_ready :: bool
  lc_issues :: "string list"

record raw_vault =
  rv_id :: int
  rv_type :: string
  rv_name :: string
  rv_roundDurationSeconds :: int
  rv_vault :: "string option"
  rv_adapter :: "string option"
  rv_bondEscrow :: "string option"

record RawLeopoldManifest =
  rm_networkName :: string
  rm_chainId :: int
  rm_deploymentStatus :: string
  rm_canonicalCircleUsdc :: "string option"
  rm_lcUsdc :: "string option"
  rm_registry :: "string option"
  rm_compoundComet :: "string option"
  rm_officialVaults :: "raw_vault list"

definition CANONICAL_USDC :: "viem \<Rightarrow> string" where
  "CANONICAL_USDC v = vm_getAddress v ''0x1c7D4B196Cb0C7B01d743Fbc6116a902379C7238''"

definition classifyAddress :: "viem \<Rightarrow> string option \<Rightarrow> int \<Rightarrow> CheckedAddress" where
  "classifyAddress v a chainId =
     (if chainId \<noteq> LEOPOLD_CHAIN_ID then \<lparr>ca_status = AddrWrongChain, ca_address = None\<rparr>
      else case a of
        None \<Rightarrow> \<lparr>ca_status = AddrMissing, ca_address = None\<rparr>
      | Some s \<Rightarrow>
          if trim s = [] then \<lparr>ca_status = AddrMissing, ca_address = None\<rparr>
          else if \<not> vm_isAddress v s then \<lparr>ca_status = AddrInvalid, ca_address = None\<rparr>
          else \<lparr>ca_status = AddrConfigured, ca_address = Some (vm_getAddress v s)\<rparr>)"

definition load_vault :: "viem \<Rightarrow> int \<Rightarrow> raw_vault \<Rightarrow> LeopoldVaultConfig" where
  "load_vault v chainId raw = \<lparr>lv_id = rv_id raw, lv_slug = toLowerCase (rv_type raw), lv_type = rv_type raw,
     lv_name = rv_name raw, lv_roundDurationSeconds = rv_roundDurationSeconds raw,
     lv_vault = classifyAddress v (rv_vault raw) chainId, lv_adapter = classifyAddress v (rv_adapter raw) chainId,
     lv_bondEscrow = classifyAddress v (rv_bondEscrow raw) chainId\<rparr>"

definition address_issue :: "string \<times> CheckedAddress \<Rightarrow> string list" where
  "address_issue item = (case item of (name, a) \<Rightarrow>
     if ca_status a \<noteq> AddrConfigured then [name @ '': '' @ address_status_string (ca_status a) @ ''.''] else [])"

definition vault_addresses :: "LeopoldVaultConfig \<Rightarrow> (string \<times> CheckedAddress) list" where
  "vault_addresses vault = [(lv_name vault @ '' vault'', lv_vault vault), (lv_name vault @ '' adapter'', lv_adapter vault),
     (lv_name vault @ '' bond escrow'', lv_bondEscrow vault)]"

definition loadLeopoldConfig :: "viem \<Rightarrow> RawLeopoldManifest \<Rightarrow> LeopoldConfig" where
  "loadLeopoldConfig v source =
     (let chainId = rm_chainId source;
          vaults = map (load_vault v chainId) (rm_officialVaults source);
          canonicalUsdc = classifyAddress v (rm_canonicalCircleUsdc source) chainId;
          lcUsdc = classifyAddress v (rm_lcUsdc source) chainId;
          registry = classifyAddress v (rm_registry source) chainId;
          compoundComet = classifyAddress v (rm_compoundComet source) chainId;
          issues =
            (if chainId \<noteq> LEOPOLD_CHAIN_ID then [''Contract manifest targets the wrong chain.''] else [])
            @ (if ca_address canonicalUsdc \<noteq> Some (CANONICAL_USDC v)
               then [''Canonical Circle Sepolia USDC does not match the frozen address.''] else [])
            @ concat (map address_issue [(''Private USDC'', lcUsdc), (''Registry'', registry), (''Compound Comet'', compoundComet)])
            @ concat (map (\<lambda>vault. concat (map address_issue (vault_addresses vault))) vaults)
      in \<lparr>lc_chainId = chainId, lc_networkName = rm_networkName source, lc_deploymentStatus = rm_deploymentStatus source,
          lc_canonicalUsdc = canonicalUsdc, lc_lcUsdc = lcUsdc, lc_registry = registry, lc_compoundComet = compoundComet,
          lc_vaults = vaults, lc_ready = (issues = []), lc_issues = issues\<rparr>)"

definition requireConfiguredAddress :: "CheckedAddress \<Rightarrow> string \<Rightarrow> (js_error, string) result" where
  "requireConfiguredAddress item label =
     (if ca_status item \<noteq> AddrConfigured then Inl (JsError ''Error'' (''CONFIGURATION_MISSING:'' @ label))
      else case ca_address item of
        None \<Rightarrow> Inl (JsError ''Error'' (''CONFIGURATION_MISSING:'' @ label))
      | Some a \<Rightarrow> Inr a)"

definition getVaultConfig :: "LeopoldConfig \<Rightarrow> string \<Rightarrow> LeopoldVaultConfig option" where
  "getVaultConfig config slug = List.find (\<lambda>vault. lv_slug vault = slug) (lc_vaults config)"

section \<open>Public reads\<close>

definition ROUND_STATE_LABELS :: "string list" where
  "ROUND_STATE_LABELS = [''Unavailable'', ''Open'', ''Preparing draw'', ''No eligible savings'', ''Draw ready'',
     ''Checking ticket'', ''Checking ticket'', ''Finalizing private draw'', ''Finalizing private draw'',
     ''Finalizing private draw'', ''Finalizing private draw'', ''Finalizing private draw'', ''Finalizing private draw'',
     ''Finalizing private draw'', ''Settled'']"

definition state_label :: "int \<Rightarrow> string" where
  "state_label state = (if 0 \<le> state \<and> nat state < length ROUND_STATE_LABELS then ROUND_STATE_LABELS ! nat state
     else ''Finalizing private draw'')"

record VaultPublicState =
  vp_roundId :: int
  vp_opensAt :: int
  vp_closesAt :: int
  vp_state :: int
  vp_stateLabel :: string
  vp_publicPrize :: int
  vp_participantCount :: int
  vp_selectionCursor :: int
  vp_allocationCursor :: int
  vp_entered :: bool
  vp_eligibilityStart :: int
  vp_bondAmount :: int
  vp_refundAmount :: int
  vp_refundClaimed :: bool
  vp_settlementReward :: int

datatype round_code = RC_OPEN | RC_NOT_STARTED | RC_ENDED | RC_SETTLEMENT | RC_UNAVAILABLE

record EffectiveVaultRoundStatus =
  er_code :: round_code
  er_label :: string
  er_depositOpen :: bool

definition getEffectiveVaultRoundStatus :: "VaultPublicState option \<Rightarrow> int option \<Rightarrow> EffectiveVaultRoundStatus" where
  "getEffectiveVaultRoundStatus state blockTimestamp = (case state of
     None \<Rightarrow> \<lparr>er_code = RC_UNAVAILABLE, er_label = ''Round unavailable'', er_depositOpen = False\<rparr>
   | Some st \<Rightarrow>
       if vp_state st \<noteq> 1 then \<lparr>er_code = RC_SETTLEMENT, er_label = vp_stateLabel st, er_depositOpen = False\<rparr>
       else case blockTimestamp of
         None \<Rightarrow> \<lparr>er_code = RC_UNAVAILABLE, er_label = ''Checking round'', er_depositOpen = False\<rparr>
       | Some now \<Rightarrow>
           if now < vp_opensAt st then \<lparr>er_code = RC_NOT_STARTED, er_label = ''Round not started'', er_depositOpen = False\<rparr>
           else if now \<ge> vp_closesAt st then \<lparr>er_code = RC_ENDED, er_label = ''Round ended'', er_depositOpen = False\<rparr>
           else \<lparr>er_code = RC_OPEN, er_label = ''Open'', er_depositOpen = True\<rparr>)"

definition isVaultRoundOpen :: "VaultPublicState \<Rightarrow> int \<Rightarrow> bool" where
  "isVaultRoundOpen state blockTimestamp =
     er_depositOpen (getEffectiveVaultRoundStatus (Some (state\<lparr>vp_stateLabel := []\<rparr>)) (Some blockTimestamp))"

definition canPrepareVaultWithdrawal :: "VaultPublicState option \<Rightarrow> int option \<Rightarrow> bool" where
  "canPrepareVaultWithdrawal state blockTimestamp =
     (let status = getEffectiveVaultRoundStatus state blockTimestamp in er_code status = RC_OPEN \<or> er_code status = RC_ENDED)"

text \<open>
  The public client, with results as the ABI types them; the optional number pins a read to a
  block.  \<open>pu_delay\<close> and \<open>pu_environment\<close> are how long a read takes and what the retries use.
\<close>

record round_info =
  ri_opensAt :: int
  ri_closesAt :: int
  ri_state :: int
  ri_aggregate :: int
  ri_prize :: int
  ri_participantCount :: int
  ri_selectionCursor :: int
  ri_allocationCursor :: int

record official_vault =
  ov_vault :: string
  ov_asset :: string
  ov_strategy :: string
  ov_comet :: string
  ov_bondEscrow :: string
  ov_vaultType :: int
  ov_roundDuration :: int
  ov_active :: bool

record chain_block =
  cb_number :: int
  cb_timestamp :: int

record 'w PublicClient =
  pu_getChainId :: "(js_error, 'w, int) eff"
  pu_getCode :: "string \<Rightarrow> (js_error, 'w, string option) eff"
  pu_getBlock :: "(js_error, 'w, chain_block) eff"
  pu_readAddress :: "string \<Rightarrow> string \<Rightarrow> chain_value list \<Rightarrow> int option \<Rightarrow> (js_error, 'w, string) eff"
  pu_readUint :: "string \<Rightarrow> string \<Rightarrow> chain_value list \<Rightarrow> int option \<Rightarrow> (js_error, 'w, int) eff"
  pu_readBool :: "string \<Rightarrow> string \<Rightarrow> chain_value list \<Rightarrow> int option \<Rightarrow> (js_error, 'w, bool) eff"
  pu_roundInfo :: "string \<Rightarrow> int \<Rightarrow> int option \<Rightarrow> (js_error, 'w, round_info) eff"
  pu_officialVault :: "string \<Rightarrow> int \<Rightarrow> (js_error, 'w, official_vault) eff"
  pu_delay :: "'w \<Rightarrow> int option"
  pu_environment :: "'w ReadReliabilityOptions"

definition reliably :: "'w PublicClient \<Rightarrow> MetricOperation \<Rightarrow> (js_error, 'w, 'a) eff \<Rightarrow> ('w, 'a) client_read" where
  "reliably client operation m = withReadReliability
     (\<lambda>_ w. case m w of (r, w') \<Rightarrow> (map_option (\<lambda>t. (t, r)) (pu_delay client w), w'))
     ((pu_environment client)\<lparr>rr_operation := operation, rr_timeoutMs := DEFAULT_READ_TIMEOUT_MS,
       rr_maxAttempts := JInt DEFAULT_READ_MAX_ATTEMPTS, rr_baseDelayMs := DEFAULT_READ_BACKOFF_MS,
       rr_jitterRatio := 1 / 5, rr_shouldRetry := isTransientReadFailure\<rparr>)"

definition readUsdcBalance :: "'w PublicClient \<Rightarrow> string \<Rightarrow> string \<Rightarrow> ('w, int) client_read" where
  "readUsdcBalance client token account =
     reliably client PUBLIC_BALANCE_READ (pu_readUint client token ''balanceOf'' [VText account] None)"

definition readPrivateHandle :: "'w PublicClient \<Rightarrow> string \<Rightarrow> string \<Rightarrow> bool \<Rightarrow> ('w, string) client_read" where
  "readPrivateHandle client vault account for_principal = reliably client PRIVATE_HANDLE_READ
     (pu_readAddress client vault (if for_principal then ''principalOf'' else ''winningsOf'') [VText account] None)"

definition readLatestBlock :: "'w PublicClient \<Rightarrow> ('w, chain_block) client_read" where
  "readLatestBlock client = reliably client VAULT_READ (pu_getBlock client)"

definition readVaultPublicStateOnce ::
  "'w PublicClient \<Rightarrow> LeopoldVaultConfig \<Rightarrow> string \<Rightarrow> int option \<Rightarrow> (js_error, 'w, VaultPublicState) eff" where
  "readVaultPublicStateOnce client vaultConfig account blockNumber =
     bind_eff (lift_result (requireConfiguredAddress (lv_vault vaultConfig) (lv_name vaultConfig @ '' vault''))) (\<lambda>vault.
     bind_eff (lift_result (requireConfiguredAddress (lv_bondEscrow vaultConfig) (lv_name vaultConfig @ '' bond escrow''))) (\<lambda>escrow.
     bind_eff (pu_readUint client vault ''activeRoundId'' [] blockNumber) (\<lambda>roundId.
     bind_eff (pu_roundInfo client vault roundId blockNumber) (\<lambda>round.
     bind_eff (pu_readBool client escrow ''isRegistered'' [VInt roundId, VText account] blockNumber) (\<lambda>entered.
     bind_eff (pu_readUint client vault ''eligibilityStart'' [VInt roundId, VText account] blockNumber) (\<lambda>eligibilityStart.
     bind_eff (pu_readUint client escrow ''BOND_AMOUNT'' [] blockNumber) (\<lambda>bondAmount.
     bind_eff (pu_readUint client escrow ''REFUND_PER_COMPLETED_PARTICIPANT'' [] blockNumber) (\<lambda>refundAmount.
     bind_eff (pu_readBool client escrow ''refundClaimed'' [VInt roundId, VText account] blockNumber) (\<lambda>refundClaimed.
     bind_eff (pu_readUint client escrow ''settlementRewardCredit'' [VText account] blockNumber) (\<lambda>settlementReward.
     ret \<lparr>vp_roundId = roundId, vp_opensAt = ri_opensAt round, vp_closesAt = ri_closesAt round, vp_state = ri_state round,
          vp_stateLabel = state_label (ri_state round), vp_publicPrize = ri_prize round,
          vp_participantCount = ri_participantCount round, vp_selectionCursor = ri_selectionCursor round,
          vp_allocationCursor = ri_allocationCursor round, vp_entered = entered, vp_eligibilityStart = eligibilityStart,
          vp_bondAmount = bondAmount, vp_refundAmount = refundAmount, vp_refundClaimed = refundClaimed,
          vp_settlementReward = settlementReward\<rparr>))))))))))"

definition readVaultPublicState ::
  "'w PublicClient \<Rightarrow> LeopoldVaultConfig \<Rightarrow> string \<Rightarrow> int option \<Rightarrow> ('w, VaultPublicState) client_read" where
  "readVaultPublicState client vaultConfig account blockNumber =
     reliably client VAULT_READ (readVaultPublicStateOnce client vaultConfig account blockNumber)"

section \<open>Validation of the deployment\<close>

definition configuration_missing :: "string \<Rightarrow> js_error" where
  "configuration_missing what = JsError ''Error'' (''CONFIGURATION_MISSING:'' @ what)"

definition vault_targets :: "LeopoldVaultConfig \<Rightarrow> (js_error, string list) result" where
  "vault_targets vault =
     bind_result (requireConfiguredAddress (lv_vault vault) (lv_name vault @ '' vault'')) (\<lambda>a.
     bind_result (requireConfiguredAddress (lv_adapter vault) (lv_name vault @ '' adapter'')) (\<lambda>b.
     bind_result (requireConfiguredAddress (lv_bondEscrow vault) (lv_name vault @ '' escrow'')) (\<lambda>c. Inr [a, b, c])))"

definition no_bytecode :: "string option \<Rightarrow> bool" where
  "no_bytecode code = (case code of None \<Rightarrow> True | Some c \<Rightarrow> c = [] \<or> c = ''0x'')"

definition validate_vault ::
  "viem \<Rightarrow> 'w PublicClient \<Rightarrow> LeopoldConfig \<Rightarrow> string \<Rightarrow> string \<Rightarrow> LeopoldVaultConfig \<Rightarrow> (js_error, 'w, unit) eff" where
  "validate_vault v client config registry lcUsdc vaultConfig =
     bind_eff (lift_result (requireConfiguredAddress (lv_vault vaultConfig) (lv_name vaultConfig @ '' vault''))) (\<lambda>vault.
     bind_eff (lift_result (requireConfiguredAddress (lv_adapter vaultConfig) (lv_name vaultConfig @ '' adapter''))) (\<lambda>adapter.
     bind_eff (lift_result (requireConfiguredAddress (lv_bondEscrow vaultConfig) (lv_name vaultConfig @ '' escrow''))) (\<lambda>escrow.
     bind_eff (pu_officialVault client registry (lv_id vaultConfig)) (\<lambda>official.
     bind_eff (pu_readAddress client vault ''ASSET'' [] None) (\<lambda>asset.
     bind_eff (pu_readAddress client vault ''UNDERLYING'' [] None) (\<lambda>vaultUnderlying.
     bind_eff (pu_readAddress client vault ''STRATEGY'' [] None) (\<lambda>strategy.
     bind_eff (pu_readAddress client vault ''SETTLEMENT_BOND_ESCROW'' [] None) (\<lambda>vaultEscrow.
     bind_eff (pu_readUint client vault ''ROUND_DURATION'' [] None) (\<lambda>duration.
     bind_eff (pu_readAddress client adapter ''vault'' [] None) (\<lambda>adapterVault.
     bind_eff (pu_readAddress client adapter ''asset'' [] None) (\<lambda>adapterAsset.
     bind_eff (pu_readAddress client adapter ''COMET'' [] None) (\<lambda>comet.
     bind_eff (lift_result (requireConfiguredAddress (lc_compoundComet config) ''Compound Comet'')) (\<lambda>expectedComet.
     let values = map toLowerCase [ov_vault official, ov_asset official, ov_strategy official, ov_comet official,
           ov_bondEscrow official, asset, vaultUnderlying, strategy, vaultEscrow, adapterVault, adapterAsset, comet];
         expected = map toLowerCase [vault, lcUsdc, adapter, expectedComet, escrow, lcUsdc, CANONICAL_USDC v, adapter,
           escrow, vault, CANONICAL_USDC v, expectedComet]
     in if \<not> ov_active official \<or> ov_vaultType official \<noteq> lv_id vaultConfig - 1 \<or>
           ov_roundDuration official \<noteq> lv_roundDurationSeconds vaultConfig \<or>
           duration \<noteq> lv_roundDurationSeconds vaultConfig \<or> values \<noteq> expected
        then throw (configuration_missing (lv_name vaultConfig @ '' deployment integrity mismatch'')) else ret ())))))))))))))"

definition validateConfiguredDeploymentOnce :: "viem \<Rightarrow> 'w PublicClient \<Rightarrow> LeopoldConfig \<Rightarrow> (js_error, 'w, unit) eff" where
  "validateConfiguredDeploymentOnce v client config =
     (if \<not> lc_ready config then throw (configuration_missing ''manifest'')
      else bind_eff (pu_getChainId client) (\<lambda>chainId.
        if chainId \<noteq> LEOPOLD_CHAIN_ID then throw (JsError ''Error'' ''WRONG_NETWORK:rpc'')
        else bind_eff (lift_result (requireConfiguredAddress (lc_registry config) ''Registry'')) (\<lambda>registry.
        bind_eff (lift_result (requireConfiguredAddress (lc_lcUsdc config) ''Private USDC'')) (\<lambda>lcUsdc.
        bind_eff (lift_result (map_result vault_targets (lc_vaults config))) (\<lambda>targets.
        bind_eff (map_eff (pu_getCode client) (registry # lcUsdc # concat targets)) (\<lambda>code.
        if list_ex no_bytecode code then throw (configuration_missing ''contract bytecode'')
        else bind_eff (pu_readAddress client lcUsdc ''underlying'' [] None) (\<lambda>underlying.
        if toLowerCase underlying \<noteq> toLowerCase (CANONICAL_USDC v)
        then throw (configuration_missing ''wrapper underlying mismatch'')
        else bind_eff (map_eff (validate_vault v client config registry lcUsdc) (lc_vaults config)) (\<lambda>_. ret ()))))))))"

definition validateConfiguredDeployment :: "viem \<Rightarrow> 'w PublicClient \<Rightarrow> LeopoldConfig \<Rightarrow> ('w, unit) client_read" where
  "validateConfiguredDeployment v client config =
     reliably client DEPLOYMENT_READ (validateConfiguredDeploymentOnce v client config)"

section \<open>What is displayed\<close>

datatype UiAccountState = UiAccountLoading | UiSignedOut | UiProfileIncomplete | UiReady

datatype UiWalletState = UiDisconnected | UiConnecting | UiConnected | UiWrongNetwork | UiError

datatype UiPrivateValueState = UiHidden | UiRevealing | UiRevealed | UiRevealFailed

datatype UiVaultState = UiOpen | UiEntered | UiClosed | UiSettling | UiSettled | UiUnavailable

datatype PrivateBalanceStatus =
    PB_UNREAD | PB_READING_HANDLE | PB_NOT_REVEALED | PB_AWAITING_DECRYPT_AUTHORIZATION | PB_DECRYPTING | PB_REVEALED | PB_REVEAL_FAILED

definition mapAccountState :: "AccountStatus \<Rightarrow> UiAccountState" where
  "mapAccountState status =
     (if status = AUTH_LOADING then UiAccountLoading
      else if status = SIGNED_OUT then UiSignedOut
      else if status = SIGNED_IN_PROFILE_INCOMPLETE then UiProfileIncomplete
      else UiReady)"

definition mapWalletState :: "WalletSessionState \<Rightarrow> UiWalletState" where
  "mapWalletState status =
     (if status = WS_BOOTSTRAPPING \<or> status = WS_CONNECTING then UiConnecting
      else if status = WS_CONNECTED then UiConnected
      else if status = WS_WRONG_NETWORK then UiWrongNetwork
      else if status = WS_ERROR then UiError
      else UiDisconnected)"

definition mapPrivateValueState :: "PrivateBalanceStatus \<Rightarrow> bool \<Rightarrow> UiPrivateValueState" where
  "mapPrivateValueState status revealed =
     (if status = PB_READING_HANDLE \<or> status = PB_AWAITING_DECRYPT_AUTHORIZATION \<or> status = PB_DECRYPTING then UiRevealing
      else if status = PB_REVEAL_FAILED then UiRevealFailed
      else if status = PB_REVEALED \<and> revealed then UiRevealed
      else UiHidden)"

definition mapVaultState :: "int option \<Rightarrow> bool \<Rightarrow> bool \<Rightarrow> UiVaultState" where
  "mapVaultState contractState depositOpen entered = (case contractState of
     None \<Rightarrow> UiUnavailable
   | Some st \<Rightarrow>
       if st = 14 then UiSettled
       else if st \<ge> 2 \<and> st < 14 then UiSettling
       else if st = 1 \<and> depositOpen then (if entered then UiEntered else UiOpen)
       else UiClosed)"

definition LEOPOLD_RECOMMENDED_VAULT :: string where "LEOPOLD_RECOMMENDED_VAULT = ''weekly''"

definition isRecommendedVault :: "string \<Rightarrow> bool" where
  "isRecommendedVault vault = (vault = LEOPOLD_RECOMMENDED_VAULT)"

datatype V2EntryStatusKind = EntryRegistered | EntryScheduled | EntryOff | EntryUnknown

text \<open>Nothing stands for both \<open>null\<close> and \<open>undefined\<close>.\<close>

definition getV2EntryStatus :: "bool option \<Rightarrow> bool option \<Rightarrow> V2EntryStatusKind" where
  "getV2EntryStatus registered autoEntryEnabled =
     (if registered = Some True then EntryRegistered
      else if registered = Some False \<and> autoEntryEnabled = Some True then EntryScheduled
      else if registered = Some False \<and> autoEntryEnabled = Some False then EntryOff
      else EntryUnknown)"

datatype AuthHydrationPhase = AUTH_INITIALIZING | HYDRATION_READY

definition getAuthHydrationPhase :: "bool \<Rightarrow> AuthHydrationPhase" where
  "getAuthHydrationPhase clientReady = (if clientReady then HYDRATION_READY else AUTH_INITIALIZING)"

definition financialControlsEnabled :: "bool \<Rightarrow> bool \<Rightarrow> bool" where
  "financialControlsEnabled clientReady authorized = (clientReady \<and> authorized)"

definition addMoneyButtonDisabled :: "bool \<Rightarrow> bool \<Rightarrow> bool \<Rightarrow> bool" where
  "addMoneyButtonDisabled clientReady accountReady fixture = (\<not> clientReady \<or> (\<not> accountReady \<and> \<not> fixture))"

text \<open>The summary of one vault; the callbacks of the object are left out.\<close>

record provider_view =
  pv_publicVaultState :: "string \<rightharpoonup> VaultPublicState"
  pv_latestBlockTimestamp :: "int option"
  pv_enteredVaults :: "string set"
  pv_revealedVaults :: "string set"
  pv_revealedResults :: "string set"
  pv_vaultPositions :: "string \<rightharpoonup> int"
  pv_privateResults :: "string \<rightharpoonup> int"

record RevealStateRecord =
  rr_identityKey :: string
  rr_values :: "string \<rightharpoonup> UiPrivateValueState"

record UiVaultSummary =
  us_id :: string
  us_name :: string
  us_recommended :: bool
  us_durationSeconds :: int
  us_address :: "string option"
  us_state :: UiVaultState
  us_roundId :: "int option"
  us_opensAt :: "int option"
  us_closesAt :: "int option"
  us_label :: string
  us_publicPrizeReserve :: "int option"
  us_entered :: bool
  us_participantCount :: "int option"
  us_settlementProgress :: "(int \<times> int) option"
  us_savingsState :: UiPrivateValueState
  us_savingsValue :: "int option"
  us_resultState :: UiPrivateValueState
  us_resultValue :: "int option"
  us_resultAvailable :: bool
  us_bondRefund :: "int option"
  us_bondRefundClaimed :: bool
  us_settlementReward :: "int option"

definition updateRevealState :: "string \<Rightarrow> string \<Rightarrow> UiPrivateValueState \<Rightarrow> RevealStateRecord \<Rightarrow> RevealStateRecord" where
  "updateRevealState identityKey vault state current = \<lparr>rr_identityKey = identityKey,
     rr_values = (if rr_identityKey current = identityKey then rr_values current else Map.empty)(vault \<mapsto> state)\<rparr>"

definition reveal_values :: "string \<Rightarrow> RevealStateRecord \<Rightarrow> (string \<rightharpoonup> UiPrivateValueState)" where
  "reveal_values identityKey r = (if rr_identityKey r = identityKey then rr_values r else Map.empty)"

definition or_zero :: "int option \<Rightarrow> int" where
  "or_zero x = (case x of None \<Rightarrow> 0 | Some n \<Rightarrow> n)"

definition vault_summary ::
  "string \<Rightarrow> provider_view \<Rightarrow> RevealStateRecord \<Rightarrow> RevealStateRecord \<Rightarrow> LeopoldVaultConfig \<Rightarrow> UiVaultSummary" where
  "vault_summary identityKey financial savingsReveal resultReveal vault =
     (let slug = lv_slug vault;
          publicState = pv_publicVaultState financial slug;
          effectiveRound = getEffectiveVaultRoundStatus publicState (pv_latestBlockTimestamp financial);
          entered = (slug \<in> pv_enteredVaults financial);
          savingsRevealed = (slug \<in> pv_revealedVaults financial);
          resultRevealed = (slug \<in> pv_revealedResults financial);
          shown = (\<lambda>revealed (r :: RevealStateRecord). if revealed then UiRevealed else
            (case reveal_values identityKey r slug of None \<Rightarrow> UiHidden | Some st \<Rightarrow> st))
      in \<lparr>us_id = slug, us_name = lv_name vault, us_recommended = isRecommendedVault slug,
          us_durationSeconds = lv_roundDurationSeconds vault, us_address = ca_address (lv_vault vault),
          us_state = mapVaultState (map_option vp_state publicState) (er_depositOpen effectiveRound) entered,
          us_roundId = map_option vp_roundId publicState, us_opensAt = map_option vp_opensAt publicState,
          us_closesAt = map_option vp_closesAt publicState, us_label = er_label effectiveRound,
          us_publicPrizeReserve = map_option vp_publicPrize publicState, us_entered = entered,
          us_participantCount = map_option vp_participantCount publicState,
          us_settlementProgress = map_option (\<lambda>st. (vp_selectionCursor st, vp_allocationCursor st)) publicState,
          us_savingsState = shown savingsRevealed savingsReveal,
          us_savingsValue = (if savingsRevealed then Some (or_zero (pv_vaultPositions financial slug)) else None),
          us_resultState = shown resultRevealed resultReveal,
          us_resultValue = (if resultRevealed then Some (or_zero (pv_privateResults financial slug)) else None),
          us_resultAvailable = (entered \<and> map_option vp_state publicState = Some 14),
          us_bondRefund = map_option vp_refundAmount publicState,
          us_bondRefundClaimed = (case publicState of None \<Rightarrow> False | Some st \<Rightarrow> vp_refundClaimed st),
          us_settlementReward = map_option vp_settlementReward publicState\<rparr>)"

section \<open>The display boundary\<close>

text \<open>A JavaScript value as the boundary check sees it; fields in the order of \<open>Object.entries\<close>.\<close>

datatype ui_value = UiPrimitive | UiFunction | UiArray "ui_value list" | UiObject "(string \<times> ui_value) list"

definition INTERNAL_ONLY_UI_KEYS :: "string list" where
  "INTERNAL_ONLY_UI_KEYS = [''authToken'', ''accessToken'', ''refreshToken'', ''ciphertext'', ''ciphertextHandle'', ''decryptionKey'',
     ''decryptionMaterial'', ''dynamicConnector'', ''dynamicUser'', ''encryptedHandle'', ''fheProof'', ''privateBalanceDiagnostic'',
     ''privateBalanceHandle'', ''privateEligibility'', ''providerUserId'', ''rawProof'', ''technicalDetail'', ''wagmiConnector'']"

fun assertUiControllerSafety :: "ui_value \<Rightarrow> string \<Rightarrow> (string, unit) result"
  and assert_items :: "ui_value list \<Rightarrow> string \<Rightarrow> nat \<Rightarrow> (string, unit) result"
  and assert_fields :: "(string \<times> ui_value) list \<Rightarrow> string \<Rightarrow> (string, unit) result" where
  "assertUiControllerSafety UiPrimitive path = Inr ()"
| "assertUiControllerSafety UiFunction path = Inr ()"
| "assertUiControllerSafety (UiArray items) path = assert_items items path 0"
| "assertUiControllerSafety (UiObject entries) path = assert_fields entries path"
| "assert_items [] path index = Inr ()"
| "assert_items (item # items) path index =
     bind_result (assertUiControllerSafety item (path @ ''['' @ nat_digits index @ '']'')) (\<lambda>_. assert_items items path (Suc index))"
| "assert_fields [] path = Inr ()"
| "assert_fields ((key, item) # entries) path =
     (if key \<in> set INTERNAL_ONLY_UI_KEYS then Inl (''INTERNAL_ONLY_UI_FIELD:'' @ path @ ''.'' @ key)
      else bind_result (if item \<noteq> UiFunction then assertUiControllerSafety item (path @ ''.'' @ key) else Inr ())
        (\<lambda>_. assert_fields entries path))"


text \<open>The object the controller returns: \<open>progress\<close> says which vaults have a public state.\<close>

definition plain_fields :: "string list \<Rightarrow> (string \<times> ui_value) list" where
  "plain_fields keys = map (\<lambda>key. (key, UiPrimitive)) keys"

definition call_fields :: "string list \<Rightarrow> (string \<times> ui_value) list" where
  "call_fields keys = map (\<lambda>key. (key, UiFunction)) keys"

definition vault_tree :: "bool \<Rightarrow> ui_value" where
  "vault_tree progress = UiObject (plain_fields [''id'', ''name'', ''recommended'', ''durationSeconds'', ''address'', ''state''] @
     [(''round'', UiObject (plain_fields [''id'', ''opensAt'', ''closesAt'', ''label'', ''publicPrizeReserve'', ''entered'', ''participantCount''] @
        [(''settlementProgress'', if progress then UiObject (plain_fields [''selectionCursor'', ''allocationCursor'']) else UiPrimitive)])),
      (''privateSavings'', UiObject (plain_fields [''state'', ''value''])),
      (''privateResult'', UiObject (plain_fields [''state'', ''value'', ''available''])),
      (''rewards'', UiObject (plain_fields [''bondRefund'', ''bondRefundClaimed'', ''settlementReward''])),
      (''actions'', UiObject (call_fields [''revealSavings'', ''hideSavings'', ''save'', ''withdraw'', ''enterPrizeRound'', ''revealResult'',
         ''claimBondRefund'', ''claimSettlementRewards'']))])"

definition controller_tree :: "bool list \<Rightarrow> nat \<Rightarrow> bool \<Rightarrow> ui_value" where
  "controller_tree progress history has_error = UiObject
     [(''account'', UiObject (plain_fields [''state'', ''email'', ''emailVerified'', ''username'', ''xAvailable'', ''xLinked'', ''error''] @
        [(''actions'', UiObject (call_fields [''requestEmailOtp'', ''verifyEmailOtp'', ''resendEmailOtp'', ''completeProfile'', ''saveUsername'',
           ''linkX'', ''unlinkX'', ''signOut'']))])),
      (''wallet'', UiObject (plain_fields [''state'', ''financialWalletStatus'', ''address'', ''connectedAddress'', ''chainId'', ''canUseFinancialActions''] @
        [(''recovery'', UiObject (plain_fields [''visible'', ''action'', ''message'', ''detail''])),
         (''actions'', UiObject (call_fields [''linkFinancialWallet'', ''confirmFinancialWallet'', ''connect'', ''disconnect'', ''switchToSepolia'',
           ''retryNetworkHealth'']))])),
      (''balances'', UiObject [(''publicUsdc'', UiObject (plain_fields [''state'', ''value''])), (''privateUsdc'', UiObject (plain_fields [''state'', ''value''])),
         (''actions'', UiObject (call_fields [''revealPrivateUsdc'', ''hidePrivateUsdc'']))]),
      (''vaults'', UiArray (map vault_tree progress)),
      (''transactions'', UiObject
        [(''current'', UiObject (plain_fields [''state'', ''label'', ''hash'', ''recoverable''] @
           [(''error'', if has_error then UiObject (plain_fields [''code'', ''message'']) else UiPrimitive)])),
         (''history'', UiArray (replicate history (UiObject (plain_fields [''id'', ''kind'', ''state'', ''label'', ''hash'', ''updatedAt'']))))]),
      (''moneyMovement'', UiObject (call_fields [''getTestUsdc'', ''makePrivate'', ''save'', ''withdraw'', ''makePublic''])),
      (''ops'', UiObject (call_fields [''readHealth''])),
      (''refresh'', UiFunction)]"

end
