(* ===== verification/Client_View_Safety.thy ===== *)
theory Client_View_Safety
  imports Client_View
begin

text \<open>
  What the client knows and shows is right: a ready configuration is complete, a validated
  deployment is consistent with it, the displayed round agrees with the keeper's view of it, and
  nothing internal crosses the display boundary.
\<close>

section \<open>Lemmas: the configuration\<close>

lemma requireConfigured_Inr [result_simps]:
  "requireConfiguredAddress item label = Inr a \<longleftrightarrow> ca_status item = AddrConfigured \<and> ca_address item = Some a"
  by (auto simp: requireConfiguredAddress_def split: option.splits)

definition configured :: "CheckedAddress \<Rightarrow> bool" where
  "configured a \<longleftrightarrow> ca_status a = AddrConfigured"

lemma configured_classify: "configured (classifyAddress v a c) \<Longrightarrow> \<exists>x. requireConfiguredAddress (classifyAddress v a c) label = Inr x"
  by (auto simp: configured_def requireConfiguredAddress_def classifyAddress_def split: option.splits if_splits)

lemma address_issue_Nil [simp]: "address_issue (name, a) = [] \<longleftrightarrow> configured a"
  by (simp add: address_issue_def configured_def)

lemma ready_iff:
  "lc_ready (loadLeopoldConfig v source) \<longleftrightarrow> rm_chainId source = LEOPOLD_CHAIN_ID \<and>
     ca_address (lc_canonicalUsdc (loadLeopoldConfig v source)) = Some (CANONICAL_USDC v) \<and>
     list_all configured [lc_lcUsdc (loadLeopoldConfig v source), lc_registry (loadLeopoldConfig v source), lc_compoundComet (loadLeopoldConfig v source)] \<and>
     list_all (\<lambda>vault. list_all configured [lv_vault vault, lv_adapter vault, lv_bondEscrow vault]) (lc_vaults (loadLeopoldConfig v source))"
  by (auto simp: loadLeopoldConfig_def Let_def vault_addresses_def list_all_iff)

text \<open>
  A configuration is ready exactly when the manifest is for Sepolia, names the frozen USDC and has a
  well-formed address for every contract; then no address of it is ever reported as missing.
\<close>

theorem ready_config_is_complete:
  assumes "config = loadLeopoldConfig v source"
  shows "lc_ready config \<longleftrightarrow> rm_chainId source = LEOPOLD_CHAIN_ID \<and> ca_address (lc_canonicalUsdc config) = Some (CANONICAL_USDC v) \<and>
    (\<forall>a \<in> {lc_lcUsdc config, lc_registry config, lc_compoundComet config} \<union>
       (\<Union>vault \<in> set (lc_vaults config). {lv_vault vault, lv_adapter vault, lv_bondEscrow vault}).
       \<forall>label. is_ok (requireConfiguredAddress a label))"
proof -
  have ok: "(\<forall>label. is_ok (requireConfiguredAddress (classifyAddress v a c) label)) \<longleftrightarrow> configured (classifyAddress v a c)" for a c
    using configured_classify [of v a c] by (auto simp: is_ok_iff configured_def requireConfigured_Inr)
  have "configured (lc_lcUsdc config) \<longleftrightarrow> (\<forall>label. is_ok (requireConfiguredAddress (lc_lcUsdc config) label))"
    "configured (lc_registry config) \<longleftrightarrow> (\<forall>label. is_ok (requireConfiguredAddress (lc_registry config) label))"
    "configured (lc_compoundComet config) \<longleftrightarrow> (\<forall>label. is_ok (requireConfiguredAddress (lc_compoundComet config) label))"
    unfolding assms by (simp_all add: ok loadLeopoldConfig_def Let_def)
  moreover have "\<forall>vault \<in> set (lc_vaults config). \<forall>a \<in> {lv_vault vault, lv_adapter vault, lv_bondEscrow vault}.
      configured a \<longleftrightarrow> (\<forall>label. is_ok (requireConfiguredAddress a label))"
    unfolding assms by (auto simp: ok loadLeopoldConfig_def Let_def load_vault_def)
  ultimately show ?thesis
    using ready_iff [of v source] unfolding assms [symmetric] by (auto simp: list_all_iff)
qed


section \<open>Lemmas: reads\<close>

text \<open>What a reliable read returns, one of its attempts returned.\<close>

lemma attempt_read_Inr:
  assumes "attempt_read opts rd s = (Inr a, s')"
  obtains t w w' where "rd w = (Some (t, Inr a), w')"
  using assms by (auto simp: attempt_read_def race_def split: prod.splits sum.splits option.splits if_splits)

lemma read_loop_Inr:
  assumes "read_loop opts rd n left s = (Inr a, s')"
  obtains k t w w' where "rd k w = (Some (t, Inr a), w')"
  using assms
proof (induction opts rd n left s arbitrary: thesis rule: read_loop.induct)
  case (1 opts read n s)
  then show ?case by simp
next
  case (2 opts read n left s)
  obtain r s1 where at: "attempt_read opts (read n) s = (r, s1)" by fastforce
  show ?case
  proof (cases r)
    case (Inl e)
    with 2 at show ?thesis by (auto split: if_splits)
  next
    case (Inr b)
    with 2 at show ?thesis by (auto elim: attempt_read_Inr)
  qed
qed

lemma reliably_yields:
  assumes "reliably client operation m s = (Inr a, s')"
  shows "a \<in> yields m"
  using assms by (auto simp: reliably_def withReadReliability_def yields_def elim!: read_loop_Inr split: js_number.splits if_splits prod.splits) blast

text \<open>A configuration error is never retried.\<close>

lemma configuration_text:
  "toLowerCase (error_message (configuration_missing what)) = ''error:configuration_missing:'' @ toLowerCase what"
proof -
  have "toLowerCase ''Error:CONFIGURATION_MISSING:'' = ''error:configuration_missing:''" by code_simp
  then show ?thesis by (simp add: configuration_missing_def error_message_def toLowerCase_def)
qed

lemma configuration_missing_permanent: "\<not> isTransientReadFailure (configuration_missing what)"
proof -
  have "match_anywhere (lit ''configuration'') (''error:configuration_missing:'' @ toLowerCase what)" by (simp add: lit_def)
  then have "matches configuration_patterns (error_message (configuration_missing what))"
    by (simp add: matches_def configuration_text configuration_patterns_def del: match_anywhere.simps append.simps)
  then show ?thesis
    by (simp add: isTransientReadFailure_def classifyReadFailure_def configuration_missing_def)
qed

lemma wrong_network_permanent: "\<not> isTransientReadFailure (JsError ''Error'' ''WRONG_NETWORK:rpc'')"
  by code_simp

text \<open>
  One read of an address that agrees with what the configuration expects, and the reads of a vault
  that the validation compares.
\<close>

definition names :: "(js_error, 'w, string) eff \<Rightarrow> string \<Rightarrow> bool" where
  "names m expected \<longleftrightarrow> (\<exists>a \<in> yields m. toLowerCase a = toLowerCase expected)"

definition vault_consistent ::
  "viem \<Rightarrow> 'w PublicClient \<Rightarrow> string \<Rightarrow> string \<Rightarrow> string \<Rightarrow> LeopoldVaultConfig \<Rightarrow> string \<Rightarrow> string \<Rightarrow> string \<Rightarrow> bool" where
  "vault_consistent v client registry lcUsdc comet vc vault adapter escrow \<longleftrightarrow>
     (\<exists>official \<in> yields (pu_officialVault client registry (lv_id vc)). ov_active official \<and> ov_vaultType official = lv_id vc - 1 \<and>
        ov_roundDuration official = lv_roundDurationSeconds vc \<and>
        map toLowerCase [ov_vault official, ov_asset official, ov_strategy official, ov_comet official, ov_bondEscrow official] =
        map toLowerCase [vault, lcUsdc, adapter, comet, escrow]) \<and>
     names (pu_readAddress client vault ''ASSET'' [] None) lcUsdc \<and>
     names (pu_readAddress client vault ''UNDERLYING'' [] None) (CANONICAL_USDC v) \<and>
     names (pu_readAddress client vault ''STRATEGY'' [] None) adapter \<and>
     names (pu_readAddress client vault ''SETTLEMENT_BOND_ESCROW'' [] None) escrow \<and>
     lv_roundDurationSeconds vc \<in> yields (pu_readUint client vault ''ROUND_DURATION'' [] None) \<and>
     names (pu_readAddress client adapter ''vault'' [] None) vault \<and>
     names (pu_readAddress client adapter ''asset'' [] None) (CANONICAL_USDC v) \<and>
     names (pu_readAddress client adapter ''COMET'' [] None) comet"

lemma validate_vault_consistent:
  assumes "validate_vault v client config registry lcUsdc vc s = (Inr (), s')"
  shows "\<exists>vault adapter escrow comet. ca_address (lv_vault vc) = Some vault \<and> ca_address (lv_adapter vc) = Some adapter \<and>
    ca_address (lv_bondEscrow vc) = Some escrow \<and> ca_address (lc_compoundComet config) = Some comet \<and>
    vault_consistent v client registry lcUsdc comet vc vault adapter escrow"
  using assms
  by (auto simp: validate_vault_def bind_eff_Inr lift_result_Inr requireConfigured_Inr Let_def vault_consistent_def names_def
      split: if_splits dest!: yieldsI)

lemma vault_targets_Inr:
  "vault_targets vc = Inr ts \<Longrightarrow> ts = map (\<lambda>a. the (ca_address a)) [lv_vault vc, lv_adapter vc, lv_bondEscrow vc]"
  by (auto simp: vault_targets_def bind_result_Inr requireConfigured_Inr)



section \<open>The round as client and keeper see it\<close>

lemmas round_view_defs = getEffectiveVaultRoundStatus_def canPrepareVaultWithdrawal_def dueClosure_def entryAction_def

lemma state_number_open: "round_state_number st = 1 \<longleftrightarrow> st = OPEN"
  by (cases st) simp_all

text \<open>
  C32. Client and keeper agree on the active round.  Where the client's view is that of the keeper's
  snapshot at the same block time: the client shows the round as ended exactly when it started and
  the keeper would close it, offers deposits only while the keeper does not close it, offers them
  whenever the keeper registers entries into a started round, and prepares withdrawals exactly for
  a started round that the contract holds open.
\<close>

theorem client_and_keeper_agree_on_the_round:
  assumes "findRound vault (vs_activeRoundId vault) = Some r" and "vp_state st = round_state_number (rs_state r)"
    and "vp_opensAt st = rs_opensAt r" and "vp_closesAt st = rs_closesAt r"
  shows "(er_code (getEffectiveVaultRoundStatus (Some st) (Some now)) = RC_ENDED \<longleftrightarrow> rs_opensAt r \<le> now \<and> dueClosure now vault \<noteq> None) \<and>
    (er_depositOpen (getEffectiveVaultRoundStatus (Some st) (Some now)) \<longrightarrow> dueClosure now vault = None) \<and>
    (entryAction now vault \<noteq> None \<longrightarrow> rs_opensAt r \<le> now \<longrightarrow> er_depositOpen (getEffectiveVaultRoundStatus (Some st) (Some now))) \<and>
    (canPrepareVaultWithdrawal (Some st) (Some now) \<longleftrightarrow> rs_state r = OPEN \<and> rs_opensAt r \<le> now)"
  using assms by (auto simp: round_view_defs state_number_open Let_def split: if_splits option.splits)

text \<open>
  What is displayed of a round's state.  The vault is shown as settled exactly while its winnings
  are being allocated, and a settled round is shown as still settling: the display counts the
  states as if settlement were the last number, which in the contract belongs to the allocation.
\<close>

theorem settled_is_shown_while_allocating:
  "(mapVaultState (Some (round_state_number st)) depositOpen entered = UiSettled \<longleftrightarrow> st = ALLOCATION_PROCESSING) \<and>
   (state_label (round_state_number st) = ''Settled'' \<longleftrightarrow> st = ALLOCATION_PROCESSING) \<and>
   mapVaultState (Some (round_state_number SETTLED)) depositOpen entered = UiSettling"
  by (cases st; simp add: mapVaultState_def state_label_def ROUND_STATE_LABELS_def)


section \<open>The display boundary\<close>

text \<open>Every key of a value, at any depth, functions excepted.\<close>

fun ui_keys :: "ui_value \<Rightarrow> string list" where
  "ui_keys UiPrimitive = []"
| "ui_keys UiFunction = []"
| "ui_keys (UiArray items) = concat (map ui_keys items)"
| "ui_keys (UiObject entries) = concat (map (\<lambda>(key, item). key # ui_keys item) entries)"

definition boundary_verdict :: "string list \<Rightarrow> (string, unit) result \<Rightarrow> bool" where
  "boundary_verdict keys r \<longleftrightarrow> (case r of
     Inr _ \<Rightarrow> set keys \<inter> set INTERNAL_ONLY_UI_KEYS = {}
   | Inl e \<Rightarrow> \<exists>path. \<exists>key \<in> set keys \<inter> set INTERNAL_ONLY_UI_KEYS. e = ''INTERNAL_ONLY_UI_FIELD:'' @ path @ ''.'' @ key)"

lemma boundary_verdict_bind:
  assumes "boundary_verdict keys r" and "boundary_verdict keys' r'"
  shows "boundary_verdict (keys @ keys') (bind_result r (\<lambda>_. r'))"
  using assms by (cases r; cases r') (auto simp: boundary_verdict_def)

lemma boundary_verdicts:
  "boundary_verdict (ui_keys v) (assertUiControllerSafety v path)"
  "boundary_verdict (concat (map ui_keys items)) (assert_items items path index)"
  "boundary_verdict (concat (map (\<lambda>(key, item). key # ui_keys item) entries)) (assert_fields entries path)"
proof (induction v path and items path index and entries path rule: assertUiControllerSafety_assert_items_assert_fields.induct)
  case (6 item items path index)
  then show ?case by (simp add: boundary_verdict_bind)
next
  case (8 key item entries path)
  show ?case
  proof (cases "key \<in> set INTERNAL_ONLY_UI_KEYS")
    case True
    then show ?thesis by (auto simp: boundary_verdict_def)
  next
    case False
    have "boundary_verdict (key # ui_keys item)
        (if item \<noteq> UiFunction then assertUiControllerSafety item (path @ ''.'' @ key) else Inr ())"
      using 8(1) [OF False] False by (auto simp: boundary_verdict_def split: sum.splits)
    from boundary_verdict_bind [OF this 8(2) [OF False]] False show ?thesis by simp
  qed
qed (simp_all add: boundary_verdict_def)

lemma vault_tree_keys: "set (ui_keys (vault_tree progress)) \<inter> set INTERNAL_ONLY_UI_KEYS = {}"
proof -
  have "set (ui_keys (vault_tree True)) \<inter> set INTERNAL_ONLY_UI_KEYS = {}" by code_simp
  moreover have "set (ui_keys (vault_tree False)) \<inter> set INTERNAL_ONLY_UI_KEYS = {}" by code_simp
  ultimately show ?thesis by (cases progress) simp_all
qed

lemma controller_tree_keys: "set (ui_keys (controller_tree progress history has_error)) \<inter> set INTERNAL_ONLY_UI_KEYS = {}"
  using vault_tree_keys
  by (auto simp: controller_tree_def plain_fields_def call_fields_def INTERNAL_ONLY_UI_KEYS_def split: if_splits)

text \<open>
  Nothing internal is displayed.  The boundary check accepts a value exactly when no key of it, at
  any depth, is reserved for internal use, and otherwise names such a key; the object that the
  controller hands to the views passes the check whatever vaults, records and errors it shows.
\<close>

theorem ui_boundary_is_exact:
  "(assertUiControllerSafety v path = Inr () \<longleftrightarrow> set (ui_keys v) \<inter> set INTERNAL_ONLY_UI_KEYS = {}) \<and>
   boundary_verdict (ui_keys v) (assertUiControllerSafety v path) \<and>
   assertUiControllerSafety (controller_tree progress history has_error) ''controller'' = Inr ()"
proof -
  have iff: "assertUiControllerSafety w p = Inr () \<longleftrightarrow> set (ui_keys w) \<inter> set INTERNAL_ONLY_UI_KEYS = {}" for w p
    using boundary_verdicts(1) [of w p] by (cases "assertUiControllerSafety w p") (auto simp: boundary_verdict_def)
  show ?thesis using boundary_verdicts(1) iff controller_tree_keys by blast
qed


section \<open>Witnesses\<close>

definition sample_contract :: "char \<Rightarrow> string" where
  "sample_contract c = ''0x'' @ replicate 40 c"

definition sample_manifest :: RawLeopoldManifest where
  "sample_manifest = \<lparr>rm_networkName = ''Sepolia'', rm_chainId = 11155111, rm_deploymentStatus = ''live'',
     rm_canonicalCircleUsdc = Some ''0x1c7D4B196Cb0C7B01d743Fbc6116a902379C7238'', rm_lcUsdc = Some (sample_contract (CHR ''a'')), rm_registry = Some (sample_contract (CHR ''b'')),
     rm_compoundComet = Some (sample_contract (CHR ''c'')), rm_officialVaults = [\<lparr>rv_id = 1, rv_type = ''DAILY'', rv_name = ''Daily'', rv_roundDurationSeconds = 86400,
       rv_vault = Some (sample_contract (CHR ''d'')), rv_adapter = Some (sample_contract (CHR ''e'')), rv_bondEscrow = Some (sample_contract (CHR ''f''))\<rparr>]\<rparr>"

definition sample_config :: LeopoldConfig where
  "sample_config = loadLeopoldConfig demo_viem sample_manifest"

definition sample_address :: "string \<Rightarrow> string \<Rightarrow> string" where
  "sample_address target f =
     (if f = ''ASSET'' then (sample_contract (CHR ''a'')) else if f = ''STRATEGY'' then (sample_contract (CHR ''e'')) else if f = ''SETTLEMENT_BOND_ESCROW'' then (sample_contract (CHR ''f''))
      else if f = ''vault'' then (sample_contract (CHR ''d'')) else if f = ''COMET'' then (sample_contract (CHR ''c'')) else CANONICAL_USDC demo_viem)"

definition sample_client :: "nat PublicClient" where
  "sample_client = \<lparr>pu_getChainId = ret LEOPOLD_CHAIN_ID, pu_getCode = (\<lambda>_. ret (Some ''0x60'')),
     pu_getBlock = ret \<lparr>cb_number = 5, cb_timestamp = 150\<rparr>,
     pu_readAddress = (\<lambda>target f _ _. ret (sample_address target f)), pu_readUint = (\<lambda>_ _ _ _. ret 86400), pu_readBool = (\<lambda>_ _ _ _. ret True),
     pu_roundInfo = (\<lambda>_ _ _. ret \<lparr>ri_opensAt = 0, ri_closesAt = 200, ri_state = 1, ri_aggregate = 0, ri_prize = 7, ri_participantCount = 2,
       ri_selectionCursor = 0, ri_allocationCursor = 0\<rparr>),
     pu_officialVault = (\<lambda>_ _. ret \<lparr>ov_vault = (sample_contract (CHR ''d'')), ov_asset = (sample_contract (CHR ''a'')), ov_strategy = (sample_contract (CHR ''e'')), ov_comet = (sample_contract (CHR ''c'')), ov_bondEscrow = (sample_contract (CHR ''f'')),
       ov_vaultType = 0, ov_roundDuration = 86400, ov_active = True\<rparr>),
     pu_delay = (\<lambda>_. Some 20),
     pu_environment = \<lparr>rr_operation = VAULT_READ, rr_timeoutMs = 8000, rr_maxAttempts = JInt 3, rr_baseDelayMs = 200, rr_jitterRatio = 1 / 5,
       rr_random = (\<lambda>w. (0, w)), rr_sleep = (\<lambda>_ w. w), rr_shouldRetry = isTransientReadFailure\<rparr>\<rparr>"

definition sample_world :: "nat client_world" where
  "sample_world = \<lparr>cw_world = 0, cw_metrics = Map.empty, cw_waits = []\<rparr>"

lemma reliably_first:
  assumes "m (cw_world s) = (Inr a, w)" and "pu_delay client (cw_world s) = Some t" and "t < 8000"
  shows "\<exists>s'. reliably client operation m s = (Inr a, s')"
  using assms by (auto simp: reliably_def withReadReliability_def DEFAULT_READ_MAX_ATTEMPTS_def DEFAULT_READ_TIMEOUT_MS_def
      numeral_3_eq_3 attempt_read_def race_def)

lemma trim_nonempty: "c \<in> set s \<Longrightarrow> \<not> is_space c \<Longrightarrow> trim s \<noteq> []"
  by (auto simp: trim_def dropWhile_eq_Nil_conv) (metis dropWhile_eq_Nil_conv set_dropWhileD set_takeWhileD takeWhile_dropWhile_id Un_iff set_append)

lemma sample_classify:
  assumes "hex_string 40 s"
  shows "classifyAddress demo_viem (Some s) 11155111 = \<lparr>ca_status = AddrConfigured, ca_address = Some s\<rparr>"
proof -
  from assms have "CHR ''0'' \<in> set s" by (auto simp: hex_string_def dest!: arg_cong [where f = set] intro: in_set_takeD)
  then have "trim s \<noteq> []" by (rule trim_nonempty) (simp add: is_space_def)
  with assms show ?thesis by (simp add: classifyAddress_def LEOPOLD_CHAIN_ID_def demo_viem_def)
qed

lemma sample_contract_hex: "is_hex_digit c \<Longrightarrow> hex_string 40 (sample_contract c)"
  by (simp add: sample_contract_def hex_string_def list_all_iff)

lemma sample_hex_digits: "list_all is_hex_digit ''abcdef''"
  by code_simp

lemma sample_config_eq:
  "sample_config = \<lparr>lc_chainId = 11155111, lc_networkName = ''Sepolia'', lc_deploymentStatus = ''live'',
     lc_canonicalUsdc = \<lparr>ca_status = AddrConfigured, ca_address = Some (CANONICAL_USDC demo_viem)\<rparr>,
     lc_lcUsdc = \<lparr>ca_status = AddrConfigured, ca_address = Some (sample_contract (CHR ''a''))\<rparr>,
     lc_registry = \<lparr>ca_status = AddrConfigured, ca_address = Some (sample_contract (CHR ''b''))\<rparr>,
     lc_compoundComet = \<lparr>ca_status = AddrConfigured, ca_address = Some (sample_contract (CHR ''c''))\<rparr>,
     lc_vaults = [\<lparr>lv_id = 1, lv_slug = toLowerCase ''DAILY'', lv_type = ''DAILY'', lv_name = ''Daily'', lv_roundDurationSeconds = 86400,
       lv_vault = \<lparr>ca_status = AddrConfigured, ca_address = Some (sample_contract (CHR ''d''))\<rparr>,
       lv_adapter = \<lparr>ca_status = AddrConfigured, ca_address = Some (sample_contract (CHR ''e''))\<rparr>,
       lv_bondEscrow = \<lparr>ca_status = AddrConfigured, ca_address = Some (sample_contract (CHR ''f''))\<rparr>\<rparr>],
     lc_ready = True, lc_issues = []\<rparr>"
proof -
  have usdc: "hex_string 40 ''0x1c7D4B196Cb0C7B01d743Fbc6116a902379C7238''" by code_simp
  then show ?thesis
    using sample_hex_digits
    by (simp add: sample_config_def sample_manifest_def loadLeopoldConfig_def load_vault_def sample_classify sample_contract_hex CANONICAL_USDC_def
        address_issue_def vault_addresses_def LEOPOLD_CHAIN_ID_def) (simp add: demo_viem_def)
qed

lemma sample_ready: "lc_ready sample_config"
  by (simp add: sample_config_eq)

lemma sample_valid: "fst (validateConfiguredDeploymentOnce demo_viem sample_client sample_config 0) = Inr ()"
  by (simp add: sample_config_eq validateConfiguredDeploymentOnce_def validate_vault_def bind_eff_apply sample_client_def vault_targets_def
      requireConfiguredAddress_def no_bytecode_def sample_address_def LEOPOLD_CHAIN_ID_def)

theorem client_and_keeper_agree_on_the_round_witness:
  "\<exists>vault st. dueClosure 250 vault \<noteq> None \<and> er_code (getEffectiveVaultRoundStatus (Some st) (Some 250)) = RC_ENDED \<and>
     er_depositOpen (getEffectiveVaultRoundStatus (Some st) (Some 150)) \<and> dueClosure 150 vault = None"
proof -
  let ?vault = "hd (ps_vaults (demo_snapshot 250))"
  let ?st = "fst (readVaultPublicStateOnce sample_client (hd (lc_vaults sample_config)) [] None 0)"
  obtain st where st: "?st = Inr st" "vp_state st = 1" "vp_opensAt st = 0" "vp_closesAt st = 200"
    by (simp add: readVaultPublicStateOnce_def bind_eff_apply sample_client_def sample_config_eq requireConfiguredAddress_def)
  have r: "findRound ?vault (vs_activeRoundId ?vault) = Some (demo_round 3 OPEN 200)"
    by (simp add: demo_planner_defs findRound_def)
  note agree = client_and_keeper_agree_on_the_round [OF r, of st]
  have "dueClosure 250 ?vault \<noteq> None" by (simp add: dueClosure_def r demo_round_def)
  moreover have "er_depositOpen (getEffectiveVaultRoundStatus (Some st) (Some 150))" using st by (simp add: getEffectiveVaultRoundStatus_def)
  ultimately show ?thesis using agree [of 250] agree [of 150] st by (auto simp: demo_round_def)
qed

theorem ready_config_is_complete_witness:
  "lc_ready sample_config \<and> is_ok (requireConfiguredAddress (lc_registry sample_config) ''Registry'')"
  using ready_config_is_complete [OF sample_config_def] sample_ready by blast



end
