(* ===== verification/Client_Actions_Safety.thy ===== *)
theory Client_Actions_Safety
  imports Client_Actions Eff_Logic "HOL-Library.Sublist"
begin

text \<open>
  What the actions of the client do to the wallet: the events every operation adds, composed along
  its steps.  From them, every action submits its transactions one at a time, adding money and
  withdrawing follow their plans, and an interrupted deposit is finished without repeating a step.
\<close>

named_theorems trace_rules \<open>the events that single operations add\<close>

section \<open>Added events\<close>

type_synonym 'a trace_spec = "(v2_error, 'a) result \<Rightarrow> action_event list \<Rightarrow> bool"

definition traces :: "'a trace_spec \<Rightarrow> ('w, 'a) v2_op \<Rightarrow> bool" where
  "traces R m \<longleftrightarrow> (\<forall>s r s'. m s = (r, s') \<longrightarrow> (\<exists>new. snd s' = snd s @ new \<and> R r new))"

definition silent :: "'a trace_spec" where
  "silent r new \<longleftrightarrow> new = [] \<and> (\<forall>e. r = Inl e \<longrightarrow> \<not> isV2TransactionReconciliationPendingError e)"

lemma tracesI: "(\<And>s r s'. m s = (r, s') \<Longrightarrow> \<exists>new. snd s' = snd s @ new \<and> R r new) \<Longrightarrow> traces R m"
  unfolding traces_def by blast

lemma tracesD: "traces R m \<Longrightarrow> m s = (r, s') \<Longrightarrow> \<exists>new. snd s' = snd s @ new \<and> R r new"
  unfolding traces_def by blast

lemma traces_weaken: "traces R m \<Longrightarrow> (\<And>r new. R r new \<Longrightarrow> T r new) \<Longrightarrow> traces T m"
  unfolding traces_def by blast

lemma traces_bind:
  assumes "traces R m" and "\<And>a. traces (S a) (f a)"
    and "\<And>e new. R (Inl e) new \<Longrightarrow> T (Inl e) new"
    and "\<And>a r new1 new2. R (Inr a) new1 \<Longrightarrow> S a r new2 \<Longrightarrow> T r (new1 @ new2)"
  shows "traces T (bind_eff m f)"
proof (rule tracesI)
  fix s r s'
  assume b: "bind_eff m f s = (r, s')"
  obtain r1 s1 where m: "m s = (r1, s1)" by (cases "m s")
  from tracesD [OF assms(1) m] obtain new1 where n1: "snd s1 = snd s @ new1" "R r1 new1" by blast
  show "\<exists>new. snd s' = snd s @ new \<and> T r new"
  proof (cases r1)
    case (Inl e)
    with b m n1 assms(3) show ?thesis by (auto simp: bind_eff_apply)
  next
    case (Inr a)
    with b m have "f a s1 = (r, s')" by (simp add: bind_eff_apply)
    from tracesD [OF assms(2) this] obtain new2 where "snd s' = snd s1 @ new2" "S a r new2" by blast
    with n1 Inr assms(4) show ?thesis by auto
  qed
qed

lemma traces_if: "(b \<Longrightarrow> traces R m) \<Longrightarrow> (\<not> b \<Longrightarrow> traces R m') \<Longrightarrow> traces R (if b then m else m')"
  by simp

lemma silent_bind:
  assumes "traces silent m" and "\<And>a. traces silent (f a)"
  shows "traces silent (bind_eff m f)"
  by (rule traces_bind [OF assms]) (simp_all add: silent_def)

lemma silent_ops [trace_rules]:
  "traces silent (ret a)" "traces silent (throw (Plain j))" "traces silent (fail message)" "traces silent (client_call m Plain)"
  "traces silent (client_call m (actionError stage))"
  "traces silent (reliable_read clients m Plain)" "traces silent (reliable_read clients m (simulationError stage))"
  by (auto simp: silent_def fail_def client_call_def client_read_def reliable_read_def simulationError_def actionError_def
      split: prod.splits sum.splits intro!: tracesI)

lemmas silent_intros = silent_bind traces_if silent_ops

lemma silent_guards [trace_rules]:
  "traces silent (assertV2Wallet clients stage)" "traces silent (readV2Topology clients)"
  by (auto simp: assertV2Wallet_def readV2Topology_def topology_read_def Let_def intro!: silent_intros)

lemma silent_reads [trace_rules]:
  "traces silent (tupleValue v n)" "traces silent (read_preference clients)" "traces silent (read_credit clients)"
  "traces silent (readV2PrincipalHandle clients)" "traces silent (reconcileV2Transaction clients hash)"
proof -
  show "traces silent (tupleValue v n)" by (cases v) (auto simp: tupleValue_def intro!: silent_intros)
  show "traces silent (read_preference clients)" "traces silent (read_credit clients)"
    by (auto simp: read_preference_def read_credit_def intro!: silent_intros)
  show "traces silent (readV2PrincipalHandle clients)"
    unfolding readV2PrincipalHandle_def by (intro silent_intros silent_guards)
  show "traces silent (reconcileV2Transaction clients hash)"
    by (rule tracesI) (auto simp: silent_def reconcileV2Transaction_def catch_eff_apply bind_eff_apply client_call_def split: prod.splits sum.splits)
qed

lemma notify_trace [trace_rules]: "traces (\<lambda>r new. new = [ev] \<and> r = Inr ()) (notify ev)"
  by (rule tracesI) (simp add: notify_def)

section \<open>One transaction\<close>

text \<open>
  What a transaction may have done: nothing was signed; or the wallet returned a hash, and then
  the call reports that hash as reverted or pending, or returns it confirmed.
\<close>

definition write_outcome :: "contract_call \<Rightarrow> string \<Rightarrow> (v2_error, string) result \<Rightarrow> action_event list \<Rightarrow> bool" where
  "write_outcome request stage r new =
     (let mark = addMoneyStageForWrite stage; simulated = [OnStage PRECONDITION_READ, Simulated request] in
      (\<exists>e. r = Inl e \<and> \<not> isV2TransactionReconciliationPendingError e \<and>
         (prefix new simulated \<or> new = simulated @ [Submitted request None])) \<or>
      (\<exists>h. new = simulated @ [Submitted request (Some h), OnHash h mark, OnStage RECONCILE] \<and>
         (r = Inl (Plain (JsError ''Error'' (''V2_ACTION:'' @ stage @ '':reverted:'' @ h))) \<or>
          (\<exists>e. r = Inl (pendingError (stage @ '':reconcile'') h mark e)))) \<or>
      (\<exists>h. r = Inr h \<and> new = simulated @ [Submitted request (Some h), OnHash h mark, OnStage RECONCILE, OnReceipt h mark]))"

lemma submit_call_trace [trace_rules]:
  "traces (\<lambda>r new. (\<exists>e. r = Inl (actionError (stage @ '':signature'') e) \<and> new = [Submitted request None]) \<or>
     (\<exists>h. r = Inr h \<and> new = [Submitted request (Some h)])) (submit_call clients request gas stage)"
  by (rule tracesI) (auto simp: submit_call_def split: prod.splits sum.splits)

lemma receipt_trace:
  "traces (\<lambda>r new. (new = [OnStage RECONCILE] \<and> (r = Inl (Plain (JsError ''Error'' (''V2_ACTION:'' @ stage @ '':reverted:'' @ h))) \<or>
       (\<exists>e. r = Inl (pendingError (stage @ '':reconcile'') h mark e)))) \<or> (r = Inr h \<and> new = [OnStage RECONCILE, OnReceipt h mark]))
     (bind_eff (notify (OnStage RECONCILE)) (\<lambda>_.
      bind_eff (client_call (vc_waitForTransactionReceipt clients h) (pendingError (stage @ '':reconcile'') h mark)) (\<lambda>receipt.
      if \<not> rc_success receipt then fail (''V2_ACTION:'' @ stage @ '':reverted:'' @ h)
      else bind_eff (notify (OnReceipt h mark)) (\<lambda>_. ret h))))"
  by (rule tracesI) (auto simp: bind_eff_apply notify_def fail_def client_call_def split: prod.splits sum.splits if_splits)

lemma writeV2_trace: "traces (write_outcome request stage) (writeV2 clients request stage)"
  unfolding writeV2_def
  apply (rule traces_bind [OF silent_guards(1)])
    apply (rule traces_bind [OF notify_trace])
     apply (rule traces_bind [OF silent_ops(7)])
      apply (rule traces_bind [OF notify_trace])
       apply (rule traces_bind [OF silent_guards(1)])
        apply (rule traces_bind [OF submit_call_trace])
         apply (rule traces_bind [OF notify_trace])
          apply (rule receipt_trace)
  by (auto simp: write_outcome_def silent_def Let_def actionError_def)

section \<open>What a transaction needs\<close>

text \<open>The calls submitted, the hashes confirmed, and the wallet every submission needs.\<close>

definition submitted :: "action_event list \<Rightarrow> contract_call list" where
  "submitted evs = List.map_filter (\<lambda>ev. case ev of Submitted c _ \<Rightarrow> Some c | _ \<Rightarrow> None) evs"

definition confirmed :: "action_event list \<Rightarrow> string list" where
  "confirmed evs = List.map_filter (\<lambda>ev. case ev of OnReceipt h _ \<Rightarrow> Some h | _ \<Rightarrow> None) evs"

definition wallet_ready :: "'w V2ActionClients \<Rightarrow> bool" where
  "wallet_ready clients \<longleftrightarrow> (\<exists>a. vc_signer clients = Some a \<and> toLowerCase a = toLowerCase (vc_account clients)) \<and>
     (\<exists>t t'. vc_walletChainId clients t = (Inr V2_PREVIEW_CHAIN_ID, t')) \<and>
     (\<exists>t t'. vc_publicChainId clients t = (Inr V2_PREVIEW_CHAIN_ID, t'))"

definition write_spec :: "'w V2ActionClients \<Rightarrow> contract_call \<Rightarrow> string \<Rightarrow> string trace_spec" where
  "write_spec clients request stage r new \<longleftrightarrow>
     write_outcome request stage r new \<and> (submitted new \<noteq> [] \<longrightarrow> wallet_ready clients)"

lemma event_lists [simp]:
  "submitted [] = []" "submitted (xs @ ys) = submitted xs @ submitted ys"
  "submitted (Submitted c ho # evs) = c # submitted evs" "submitted (OnStage g # evs) = submitted evs"
  "submitted (OnTransactionStage ts # evs) = submitted evs"
  "submitted (OnStep p # evs) = submitted evs" "submitted (OnHash h mark # evs) = submitted evs"
  "submitted (OnReceipt h mark # evs) = submitted evs" "submitted (Simulated c # evs) = submitted evs"
  "confirmed [] = []" "confirmed (xs @ ys) = confirmed xs @ confirmed ys"
  "confirmed (Submitted c ho # evs) = confirmed evs" "confirmed (OnStage g # evs) = confirmed evs"
  "confirmed (OnTransactionStage ts # evs) = confirmed evs"
  "confirmed (OnStep p # evs) = confirmed evs" "confirmed (OnHash h mark # evs) = confirmed evs"
  "confirmed (OnReceipt h mark # evs) = h # confirmed evs" "confirmed (Simulated c # evs) = confirmed evs"
  by (simp_all add: submitted_def confirmed_def List.map_filter_def)

lemma client_call_Inr: "client_call m err s = (Inr a, s') \<longleftrightarrow> (\<exists>w. m (cw_world (fst s)) = (Inr a, w) \<and> s' = ((fst s)\<lparr>cw_world := w\<rparr>, snd s))"
  by (auto simp: client_call_def split: prod.splits sum.splits)

lemma fail_Inr [simp]: "fail message s = (Inr a, s') \<longleftrightarrow> False"
  by (simp add: fail_def)

lemma assertV2Wallet_ready:
  assumes "assertV2Wallet clients stage s = (Inr u, s')"
  shows "wallet_ready clients"
proof -
  from assms have "truthy (vc_signer clients)" "toLowerCase (or_empty (vc_signer clients)) = toLowerCase (vc_account clients)"
    by (auto simp: assertV2Wallet_def split: if_splits)
  then have "\<exists>a. vc_signer clients = Some a \<and> toLowerCase a = toLowerCase (vc_account clients)"
    by (auto simp: truthy_def or_empty_def split: option.splits)
  moreover from assms obtain t t' t1 t1' where "vc_walletChainId clients t = (Inr V2_PREVIEW_CHAIN_ID, t')"
      "vc_publicChainId clients t1 = (Inr V2_PREVIEW_CHAIN_ID, t1')"
    by (auto simp: assertV2Wallet_def bind_eff_Inr client_call_Inr split: if_splits)
  ultimately show ?thesis unfolding wallet_ready_def by blast
qed

lemma writeV2_spec: "traces (write_spec clients request stage) (writeV2 clients request stage)"
proof (rule tracesI)
  fix s r s'
  assume w: "writeV2 clients request stage s = (r, s')"
  from tracesD [OF writeV2_trace w] obtain new where new: "snd s' = snd s @ new" "write_outcome request stage r new" by blast
  obtain r1 s1 where a: "assertV2Wallet clients stage s = (r1, s1)" by (cases "assertV2Wallet clients stage s")
  have "wallet_ready clients" if "submitted new \<noteq> []"
  proof (cases r1)
    case (Inl e)
    with w a have "s' = s1" by (simp add: writeV2_def bind_eff_apply)
    moreover have "snd s1 = snd s" using tracesD [OF silent_guards(1) a] by (auto simp: silent_def)
    ultimately show ?thesis using new(1) that by simp
  next
    case (Inr u)
    with a show ?thesis using assertV2Wallet_ready by blast
  qed
  with new show "\<exists>new. snd s' = snd s @ new \<and> write_spec clients request stage r new" by (auto simp: write_spec_def)
qed

section \<open>Disciplines every action keeps\<close>

text \<open>
  A discipline judges the events of an operation, given whether it succeeded.  It must accept
  notifications, compose after a success, and accept what one transaction may have done.
\<close>

fun notification :: "action_event \<Rightarrow> bool" where
  "notification (OnStage _) = True"
| "notification (OnTransactionStage _) = True"
| "notification (OnStep _) = True"
| "notification _ = False"

text \<open>The actions a user can start, and a run of them, one after the other until one fails.\<close>

datatype v2_action =
    AddMoney int | ResumeSave int | ResumeAfterApproval int | EnablePrizeSavings int | DisablePrizeSavings
  | TopUpEntryBalance int | WithdrawEntryBalance int | WithdrawSavings int | WithdrawWinnings int
  | RevealSavings | RevealResult | ClaimRefund int | ClaimReward

definition discard :: "('w, 'a) v2_op \<Rightarrow> ('w, unit) v2_op" where
  "discard m = bind_eff m (\<lambda>_. ret ())"

fun run_v2_action :: "'w V2ActionClients \<Rightarrow> v2_action \<Rightarrow> ('w, unit) v2_op" where
  "run_v2_action clients (AddMoney amount) = discard (addV2Money clients amount)"
| "run_v2_action clients (ResumeSave amount) = discard (resumeV2AddMoneySave clients amount)"
| "run_v2_action clients (ResumeAfterApproval amount) = discard (resumeV2AddMoneyAfterApproval clients amount)"
| "run_v2_action clients (EnablePrizeSavings draws) = discard (enableV2PrizeSavings clients draws)"
| "run_v2_action clients DisablePrizeSavings = discard (disableV2PrizeSavings clients)"
| "run_v2_action clients (TopUpEntryBalance amount) = discard (topUpV2EntryBalance clients amount)"
| "run_v2_action clients (WithdrawEntryBalance amount) = discard (withdrawV2EntryBalance clients amount)"
| "run_v2_action clients (WithdrawSavings amount) = discard (withdrawV2Savings clients amount)"
| "run_v2_action clients (WithdrawWinnings amount) = discard (withdrawV2Winnings clients amount)"
| "run_v2_action clients RevealSavings = discard (revealV2Savings clients)"
| "run_v2_action clients RevealResult = discard (revealLatestV2Result clients)"
| "run_v2_action clients (ClaimRefund roundId) = discard (claimV2Refund clients roundId)"
| "run_v2_action clients ClaimReward = discard (claimV2Reward clients)"

locale event_discipline =
  fixes D :: "bool \<Rightarrow> action_event list \<Rightarrow> bool"
  assumes no_events: "D ok []"
    and notifies: "notification ev \<Longrightarrow> D ok [ev]"
    and compose: "D True xs \<Longrightarrow> D ok ys \<Longrightarrow> D ok (xs @ ys)"
begin

definition obeys :: "('w, 'a) v2_op \<Rightarrow> bool" where
  "obeys m \<longleftrightarrow> traces (\<lambda>r. D (is_ok r)) m"

lemma obeys_bind:
  assumes "obeys m" and "\<And>a. obeys (f a)"
  shows "obeys (bind_eff m f)"
  unfolding obeys_def by (rule traces_bind [OF assms [unfolded obeys_def]]) (auto intro: compose)

lemma obeys_silent: "traces silent m \<Longrightarrow> obeys m"
  unfolding obeys_def by (erule traces_weaken) (auto simp: silent_def intro: no_events)

lemma obeys_notify: "obeys (notify (OnStage g))" "obeys (notify (OnTransactionStage ts))" "obeys (notify (OnStep p))"
  "obeys (show_step i n label)"
  unfolding obeys_def show_step_def by (rule traces_weaken [OF notify_trace], simp add: notifies)+

lemma obeys_if: "(b \<Longrightarrow> obeys m) \<Longrightarrow> (\<not> b \<Longrightarrow> obeys m') \<Longrightarrow> obeys (if b then m else m')"
  by simp

lemma obeys_case_list:
  "(xs = [] \<Longrightarrow> obeys m) \<Longrightarrow> (\<And>y ys. xs = y # ys \<Longrightarrow> obeys (f y ys)) \<Longrightarrow> obeys (case xs of [] \<Rightarrow> m | y # ys \<Rightarrow> f y ys)"
  by (cases xs) auto

lemmas obeys_quietly = obeys_bind obeys_if obeys_case_list obeys_notify silent_ops [THEN obeys_silent]

end

text \<open>The transactions of the current actions.\<close>

locale action_discipline = event_discipline D for D :: "bool \<Rightarrow> action_event list \<Rightarrow> bool" +
  fixes clients :: "'w V2ActionClients"
  assumes transaction: "write_spec clients request stage r new \<Longrightarrow> D (is_ok r) new"
begin

lemma obeys_write: "obeys (writeV2 clients request stage)"
  unfolding obeys_def by (rule traces_weaken [OF writeV2_spec]) (rule transaction)

lemmas obeys_intros = obeys_quietly obeys_write silent_guards [THEN obeys_silent] silent_reads [THEN obeys_silent]

lemma obeys_save: "obeys (saveV2Money clients amount)"
  unfolding saveV2Money_def by (intro obeys_intros)

lemma obeys_add: "obeys (addV2Money clients amount)"
  unfolding addV2Money_def approve_if_required_def Let_def by (intro obeys_intros obeys_save)

lemma obeys_resume: "obeys (resumeV2AddMoneySave clients amount)" "obeys (resumeV2AddMoneyAfterApproval clients amount)"
  unfolding resumeV2AddMoneySave_def resumeV2AddMoneyAfterApproval_def by (intro obeys_intros obeys_save obeys_add)+

lemma obeys_prize_savings: "obeys (enableV2PrizeSavings clients draws)" "obeys (disableV2PrizeSavings clients)"
  unfolding enableV2PrizeSavings_def disableV2PrizeSavings_def top_up_credit_def by (intro obeys_intros)+

lemma obeys_entry_balance: "obeys (topUpV2EntryBalance clients amount)" "obeys (withdrawV2EntryBalance clients amount)"
  unfolding topUpV2EntryBalance_def withdrawV2EntryBalance_def by (intro obeys_intros)+

lemma obeys_withdraw: "obeys (withdrawV2Savings clients amount)" "obeys (withdrawV2Winnings clients amount)"
  unfolding withdrawV2Savings_def withdrawV2Winnings_def withdrawV2Asset_def unwrapToUsdc_def Let_def by (intro obeys_intros)+

lemma obeys_reveal: "obeys (revealV2Savings clients)" "obeys (revealLatestV2Result clients)"
  unfolding revealV2Savings_def revealLatestV2Result_def reveal_winnings_def read_winnings_def by (intro obeys_intros)+

lemma obeys_claim: "obeys (claimV2Refund clients roundId)" "obeys (claimV2Reward clients)"
  unfolding claimV2Refund_def claimV2Reward_def by (intro obeys_intros)+

lemma obeys_action: "obeys (run_v2_action clients action)"
  by (cases action) (auto simp: discard_def intro!: obeys_intros obeys_add obeys_resume obeys_prize_savings obeys_entry_balance
      obeys_withdraw obeys_reveal obeys_claim)

lemma obeys_run: "obeys (run_ops (run_v2_action clients) actions)"
proof (induction actions)
  case Nil
  show ?case unfolding run_ops.simps by (rule silent_ops(1) [THEN obeys_silent])
qed (auto intro!: obeys_intros obeys_action)

lemma run_discipline:
  assumes "run_ops (run_v2_action clients) actions s = (r, s')" and "snd s' = snd s @ new"
  shows "D (is_ok r) new"
  using tracesD [OF obeys_run [unfolded obeys_def] assms(1)] assms(2) by simp

end

section \<open>Three disciplines\<close>

text \<open>
  One at a time: a submission is allowed only while none is outstanding; a hash stays outstanding
  until its receipt is confirmed, and a failed signature ends the submissions.
\<close>

datatype submit_state = Ready | Waiting string | Stopped

fun scan :: "submit_state \<Rightarrow> action_event list \<Rightarrow> submit_state option" where
  "scan st [] = Some st"
| "scan st (Submitted c h # evs) =
     (if st = Ready then scan (case h of None \<Rightarrow> Stopped | Some hash \<Rightarrow> Waiting hash) evs else None)"
| "scan st (OnReceipt h mark # evs) = (if st = Waiting h then scan Ready evs else None)"
| "scan st (ev # evs) = scan st evs"

definition one_at_a_time :: "bool \<Rightarrow> action_event list \<Rightarrow> bool" where
  "one_at_a_time ok evs = (case scan Ready evs of None \<Rightarrow> False | Some st \<Rightarrow> ok \<longrightarrow> st = Ready)"

text \<open>Simulated first: the last simulation before a submission passed for the same call.\<close>

fun presimulated :: "contract_call option \<Rightarrow> action_event list \<Rightarrow> bool" where
  "presimulated c [] = True"
| "presimulated c (Simulated d # evs) = presimulated (Some d) evs"
| "presimulated c (Submitted d h # evs) = (c = Some d \<and> presimulated None evs)"
| "presimulated c (ev # evs) = presimulated c evs"

lemma scan_append: "scan st (xs @ ys) = Option.bind (scan st xs) (\<lambda>st'. scan st' ys)"
  by (induction st xs rule: scan.induct) auto

lemma presimulated_more: "presimulated None evs \<Longrightarrow> presimulated c evs"
proof (induction evs arbitrary: c)
  case (Cons ev evs)
  then show ?case by (cases ev) auto
qed simp

lemma presimulated_append: "presimulated c xs \<Longrightarrow> presimulated None ys \<Longrightarrow> presimulated c (xs @ ys)"
  by (induction c xs rule: presimulated.induct) (auto intro: presimulated_more)

lemmas write_outcomes = write_spec_def write_outcome_def Let_def prefix_def Cons_eq_append_conv append_eq_Cons_conv

interpretation ordered: action_discipline one_at_a_time clients for clients
proof
  show "one_at_a_time ok []" for ok by (simp add: one_at_a_time_def)
  show "notification ev \<Longrightarrow> one_at_a_time ok [ev]" for ok ev by (cases ev) (simp_all add: one_at_a_time_def)
  show "one_at_a_time True xs \<Longrightarrow> one_at_a_time ok ys \<Longrightarrow> one_at_a_time ok (xs @ ys)" for ok xs ys
    by (auto simp: one_at_a_time_def scan_append split: option.splits)
  show "write_spec clients request stage r new \<Longrightarrow> one_at_a_time (is_ok r) new" for request stage r new
    by (auto simp: write_outcomes one_at_a_time_def)
qed

interpretation simulated: action_discipline "\<lambda>_. presimulated None" clients for clients
proof
  show "notification ev \<Longrightarrow> presimulated None [ev]" for ev by (cases ev) simp_all
  show "write_spec clients request stage r new \<Longrightarrow> presimulated None new" for request stage r new
    by (auto simp: write_outcomes)
qed (simp_all add: presimulated_append)

interpretation walleted: action_discipline "\<lambda>_ evs. submitted evs = [] \<or> wallet_ready clients" clients for clients
proof
  show "notification ev \<Longrightarrow> submitted [ev] = [] \<or> wallet_ready clients" for ev by (cases ev) simp_all
qed (auto simp: write_spec_def)

section \<open>Following a plan\<close>

text \<open>
  What an operation submitted: one of \<open>P\<close> when it succeeds, where \<open>H\<close> relates its result to the
  hashes that were confirmed, and one of \<open>F\<close> when it fails.
\<close>

definition follows :: "contract_call list set \<Rightarrow> contract_call list set \<Rightarrow> ('a \<Rightarrow> string list \<Rightarrow> bool) \<Rightarrow> 'a trace_spec" where
  "follows P F H r new \<longleftrightarrow> (case r of
     Inl _ \<Rightarrow> submitted new \<in> F
   | Inr a \<Rightarrow> submitted new \<in> P \<and> H a (confirmed new))"

definition uneventful :: "'a trace_spec" where
  "uneventful r new \<longleftrightarrow> submitted new = [] \<and> confirmed new = []"

lemma client_call_yields: "client_call m err s = (Inr a, s') \<Longrightarrow> a \<in> yields m"
  by (auto simp: client_call_Inr yields_def)

lemma bind_InrE:
  assumes "bind_eff m f s = (Inr b, s'')"
  obtains a s' where "m s = (Inr a, s')" "f a s' = (Inr b, s'')"
  using assms by (auto simp: bind_eff_Inr)

lemma if_InrE:
  assumes "(if c then fail message else m) s = (Inr b, s')"
  obtains "\<not> c" "m s = (Inr b, s')"
  using assms by (auto split: if_splits)

lemma tupleValue_Inr:
  "tupleValue v n s = (Inr x, s') \<longleftrightarrow> s' = s \<and> (\<exists>vs. v = VTuple vs \<and> x = (if n < length vs then Some (vs ! n) else None))"
  by (auto simp: tupleValue_def split: chain_value.splits)

lemma reveal_winnings_value:
  assumes "reveal_winnings clients handle s = (Inr v, s')"
  shows "if isZeroHandle handle then v = 0 else v \<in> yields (vc_decryptPrivateValue clients (a_vault V2_PREVIEW_ADDRESSES) handle)"
  using assms unfolding reveal_winnings_def
  by (cases "isZeroHandle handle") (auto elim!: bind_InrE dest!: client_call_yields split: if_splits)

lemma quiet_silent: "traces silent m \<Longrightarrow> traces uneventful m"
  by (erule traces_weaken) (simp add: silent_def uneventful_def)

lemma quiet_notify: "traces uneventful (notify (OnStage g))" "traces uneventful (show_step i n label)"
  unfolding show_step_def by (rule traces_weaken [OF notify_trace], simp add: uneventful_def)+

lemmas quiet_ops = quiet_notify silent_ops [THEN quiet_silent] silent_guards [THEN quiet_silent]

lemma follows_quiet:
  assumes "traces uneventful m" and "\<And>a. traces (follows P F H) (f a)" and "[] \<in> F"
  shows "traces (follows P F H) (bind_eff m f)"
  by (rule traces_bind [OF assms(1,2)]) (auto simp: uneventful_def follows_def assms(3) split: sum.splits)

lemma follows_bind:
  assumes "traces (follows P F H) m" and "\<And>a. traces (follows Q G (K a)) (f a)"
    and "F \<subseteq> G'" and "\<And>p g. p \<in> P \<Longrightarrow> g \<in> G \<Longrightarrow> p @ g \<in> G'" and "\<And>p q. p \<in> P \<Longrightarrow> q \<in> Q \<Longrightarrow> p @ q \<in> Q'"
    and "\<And>a b c d. H a c \<Longrightarrow> K a b d \<Longrightarrow> L b (c @ d)"
  shows "traces (follows Q' G' L) (bind_eff m f)"
  by (rule traces_bind [OF assms(1,2)]) (use assms(3-6) in \<open>auto simp: follows_def split: sum.splits\<close>)

lemma follows_value:
  assumes "\<And>a. a \<in> yields m \<Longrightarrow> traces (follows P F H) (f a)" and "[] \<in> F"
  shows "traces (follows P F H) (bind_eff (client_call m err) f)"
proof (rule tracesI)
  fix s r s'
  assume b: "bind_eff (client_call m err) f s = (r, s')"
  obtain r1 s1 where c: "client_call m err s = (r1, s1)" by (cases "client_call m err s")
  have s1: "snd s1 = snd s" using c by (auto simp: client_call_def split: prod.splits sum.splits)
  show "\<exists>new. snd s' = snd s @ new \<and> follows P F H r new"
  proof (cases r1)
    case (Inl e)
    with b c s1 assms(2) show ?thesis by (auto simp: bind_eff_apply follows_def)
  next
    case (Inr a)
    with c have "a \<in> yields m" by (auto simp: client_call_Inr yields_def)
    moreover from b c Inr have "f a s1 = (r, s')" by (simp add: bind_eff_apply)
    ultimately show ?thesis using tracesD [OF assms(1)] s1 by metis
  qed
qed

lemma follows_if: "(b \<Longrightarrow> traces (follows P F H) m) \<Longrightarrow> (\<not> b \<Longrightarrow> traces (follows P F H) m') \<Longrightarrow> traces (follows P F H) (if b then m else m')"
  by simp

lemma follows_fail: "[] \<in> F \<Longrightarrow> traces (follows P F H) (fail message)"
  by (rule tracesI) (auto simp: fail_def follows_def)

lemma follows_ret: "[] \<in> P \<Longrightarrow> H a [] \<Longrightarrow> traces (follows P F H) (ret a)"
  by (rule tracesI) (auto simp: follows_def)

lemma follows_write: "traces (follows {[request]} {[], [request]} (\<lambda>h c. c = [h])) (writeV2 clients request stage)"
  by (rule traces_weaken [OF writeV2_trace]) (auto simp: write_outcomes follows_def)

lemma follows_weaken: "traces (follows P F H) m \<Longrightarrow> P \<subseteq> P' \<Longrightarrow> F \<subseteq> F' \<Longrightarrow> (\<And>a c. H a c \<Longrightarrow> H' a c) \<Longrightarrow> traces (follows P' F' H') m"
  by (erule traces_weaken) (auto simp: follows_def split: sum.splits)

text \<open>The plan of a deposit: the saves of encryptions of the amount, and the steps before them.\<close>

definition save_plans :: "'w V2ActionClients \<Rightarrow> int \<Rightarrow> contract_call list set" where
  "save_plans clients amount = (\<lambda>enc. [save_call enc]) ` yields (vc_encryptPrivateAmount clients (a_wrapper V2_PREVIEW_ADDRESSES) amount)"

definition deposit_plans :: "'w V2ActionClients \<Rightarrow> int \<Rightarrow> contract_call list set" where
  "deposit_plans clients amount =
     {first @ [wrap_call (vc_account clients) amount] @ plan | first plan. first \<in> {[], [approve_call amount]} \<and> plan \<in> save_plans clients amount}"

definition begun_deposits :: "'w V2ActionClients \<Rightarrow> int \<Rightarrow> contract_call list set" where
  "begun_deposits clients amount =
     {first @ rest | first rest. first \<in> {[], [approve_call amount]} \<and> rest \<in> {[], [wrap_call (vc_account clients) amount]}} \<union> deposit_plans clients amount"

lemma deposit_without_approval:
  assumes "plan \<in> save_plans clients amount"
  shows "wrap_call (vc_account clients) amount # plan \<in> deposit_plans clients amount"
    and "wrap_call (vc_account clients) amount # plan \<in> begun_deposits clients amount"
proof -
  show "wrap_call (vc_account clients) amount # plan \<in> deposit_plans clients amount"
    unfolding deposit_plans_def using assms by (intro CollectI exI [of _ "[]"] exI [of _ plan]) simp
  then show "wrap_call (vc_account clients) amount # plan \<in> begun_deposits clients amount" by (simp add: begun_deposits_def)
qed

lemma deposit_beginnings: "[] \<in> begun_deposits clients amount" "[wrap_call (vc_account clients) amount] \<in> begun_deposits clients amount"
  by (auto simp: begun_deposits_def)

lemma follows_save:
  "traces (follows (save_plans clients amount) (insert [] (save_plans clients amount)) (\<lambda>h c. c = [h])) (saveV2Money clients amount)"
  unfolding saveV2Money_def save_plans_def
  by (intro follows_quiet follows_value follows_weaken [OF follows_write] quiet_ops) auto

text \<open>The wrap and the save that end every deposit.\<close>

lemma follows_wrap_and_save:
  assumes "traces uneventful (m1 :: ('w, unit) v2_op)" and "traces uneventful (m2 :: ('w, unit) v2_op)"
  shows "traces (follows ((\<lambda>p. wrap_call (vc_account clients) amount # p) ` save_plans clients amount)
       ({[], [wrap_call (vc_account clients) amount]} \<union> (\<lambda>p. wrap_call (vc_account clients) amount # p) ` save_plans clients amount)
       (\<lambda>hs c. hs = acc @ c))
     (bind_eff m1 (\<lambda>_. bind_eff (writeV2 clients (wrap_call (vc_account clients) amount) stage) (\<lambda>wrapHash.
        bind_eff m2 (\<lambda>_. bind_eff (saveV2Money clients amount) (\<lambda>saveHash. ret (acc @ [wrapHash, saveHash]))))))"
proof (intro follows_quiet [OF assms(1)])
  have last: "traces (follows (save_plans clients amount) (insert [] (save_plans clients amount)) (\<lambda>hs c. hs = acc @ wrapHash # c))
      (bind_eff m2 (\<lambda>_. bind_eff (saveV2Money clients amount) (\<lambda>saveHash. ret (acc @ [wrapHash, saveHash]))))" for wrapHash
    by (intro follows_quiet [OF assms(2)] follows_bind [OF follows_save, where K = "\<lambda>h hs c. hs = acc @ [wrapHash, h] \<and> c = []" and Q = "{[]}" and G = "{}"])
      (auto intro: follows_ret)
  show "traces (follows ((\<lambda>p. wrap_call (vc_account clients) amount # p) ` save_plans clients amount)
       ({[], [wrap_call (vc_account clients) amount]} \<union> (\<lambda>p. wrap_call (vc_account clients) amount # p) ` save_plans clients amount)
       (\<lambda>hs c. hs = acc @ c))
     (bind_eff (writeV2 clients (wrap_call (vc_account clients) amount) stage) (\<lambda>wrapHash.
        bind_eff m2 (\<lambda>_. bind_eff (saveV2Money clients amount) (\<lambda>saveHash. ret (acc @ [wrapHash, saveHash])))))" for a
    by (rule follows_bind [OF follows_write last]) auto
qed simp

lemma follows_approve:
  "traces (follows {[], [approve_call amount]} {[], [approve_call amount]} (\<lambda>hs c. hs = c)) (approve_if_required clients amount required n)"
proof -
  have after: "traces (follows {[]} {[]} (\<lambda>hs c. hs = hash # c)) (bind_eff (reliable_read clients (read_allowance clients) Plain) (\<lambda>allowanceAfter.
      if allowanceAfter < amount then fail ''V2_ACTION:ADD_MONEY:allowance-not-confirmed'' else ret [hash]))" for hash
    by (intro follows_quiet follows_if follows_fail follows_ret quiet_ops) auto
  show ?thesis
    unfolding approve_if_required_def
    by (intro follows_if follows_ret follows_quiet quiet_ops follows_bind [OF follows_write after]) auto
qed

lemma follows_add_money: "traces (follows (deposit_plans clients amount) (begun_deposits clients amount) (\<lambda>hs c. hs = c)) (addV2Money clients amount)"
proof -
  let ?wrap = "wrap_call (vc_account clients) amount"
  have tail: "traces (follows (deposit_plans clients amount) (begun_deposits clients amount) (\<lambda>hs c. hs = c))
      (bind_eff (approve_if_required clients amount required n) (\<lambda>approvals.
       bind_eff (show_step i n Make_savings_private) (\<lambda>_.
       bind_eff (writeV2 clients ?wrap ''add-money-wrap'') (\<lambda>wrapHash.
       bind_eff (show_step j n Add_to_Leopold_savings) (\<lambda>_.
       bind_eff (saveV2Money clients amount) (\<lambda>saveHash. ret (approvals @ [wrapHash, saveHash])))))))" for required n i j
    by (rule follows_bind [OF follows_approve follows_wrap_and_save [OF quiet_notify(2) quiet_notify(2)]])
      (auto simp: deposit_plans_def begun_deposits_def)
  show ?thesis
    unfolding addV2Money_def Let_def
    by (intro follows_if follows_fail follows_quiet quiet_ops deposit_beginnings tail)
qed

lemma follows_resume_save:
  "traces (follows (save_plans clients amount) (insert [] (save_plans clients amount)) (\<lambda>hs c. hs = c)) (resumeV2AddMoneySave clients amount)"
proof -
  have last: "traces (follows (save_plans clients amount) (insert [] (save_plans clients amount)) (\<lambda>hs c. hs = c))
      (bind_eff (saveV2Money clients amount) (\<lambda>hash. ret [hash]))"
    by (rule follows_bind [OF follows_save, where K = "\<lambda>h hs c. hs = [h] \<and> c = []" and Q = "{[]}" and G = "{}"]) (auto intro: follows_ret)
  show ?thesis
    unfolding resumeV2AddMoneySave_def by (intro follows_if follows_fail follows_quiet quiet_ops last) auto
qed

lemma resume_one_hash: "resumeV2AddMoneySave clients amount s = (Inr hashes, s') \<Longrightarrow> length hashes = 1"
  by (auto simp: resumeV2AddMoneySave_def bind_eff_Inr split: if_splits)

lemma follows_resume_after_approval:
  "traces (follows (deposit_plans clients amount) (begun_deposits clients amount) (\<lambda>hs c. hs = c)) (resumeV2AddMoneyAfterApproval clients amount)"
proof -
  have rest: "traces (follows (deposit_plans clients amount) (begun_deposits clients amount) (\<lambda>hs c. hs = c))
     (bind_eff (show_step 1 2 Make_savings_private) (\<lambda>_.
        bind_eff (writeV2 clients (wrap_call (vc_account clients) amount) ''add-money-wrap'') (\<lambda>wrapHash.
        bind_eff (show_step 2 2 Add_to_Leopold_savings) (\<lambda>_.
        bind_eff (saveV2Money clients amount) (\<lambda>saveHash. ret [wrapHash, saveHash])))))"
    by (rule follows_weaken [OF follows_wrap_and_save [OF quiet_notify(2) quiet_notify(2), where acc = "[]", simplified]])
      (auto intro: deposit_without_approval deposit_beginnings)
  show ?thesis
    unfolding resumeV2AddMoneyAfterApproval_def
    by (intro follows_if follows_fail follows_quiet quiet_ops deposit_beginnings rest follows_add_money)
qed

text \<open>The plan of a withdrawal: take the amount out of the vault, ask to unwrap it, finish with that amount.\<close>

definition unwrap_plans :: "'w V2ActionClients \<Rightarrow> int \<Rightarrow> contract_call list set" where
  "unwrap_plans clients amount =
     {[unwrap_call (vc_account clients) enc, finalize_call requestId (amount, evidence)] | enc requestId evidence.
        enc \<in> yields (vc_encryptPrivateAmount clients (a_wrapper V2_PREVIEW_ADDRESSES) amount) \<and>
        (amount, evidence) \<in> yields (vc_decryptPublicValue clients requestId)}"

definition withdrawal_plans :: "'w V2ActionClients \<Rightarrow> int \<Rightarrow> string \<Rightarrow> contract_call list set" where
  "withdrawal_plans clients amount f =
     {withdraw_call f out # rest | out rest.
        out \<in> yields (vc_encryptPrivateAmount clients (a_vault V2_PREVIEW_ADDRESSES) amount) \<and> rest \<in> unwrap_plans clients amount}"

definition begun_unwraps :: "'w V2ActionClients \<Rightarrow> int \<Rightarrow> contract_call list set" where
  "begun_unwraps clients amount = {[]} \<union>
     (\<lambda>enc. [unwrap_call (vc_account clients) enc]) ` yields (vc_encryptPrivateAmount clients (a_wrapper V2_PREVIEW_ADDRESSES) amount) \<union>
     unwrap_plans clients amount"

definition begun_withdrawals :: "'w V2ActionClients \<Rightarrow> int \<Rightarrow> string \<Rightarrow> contract_call list set" where
  "begun_withdrawals clients amount f = {[]} \<union>
     {withdraw_call f out # rest | out rest.
        out \<in> yields (vc_encryptPrivateAmount clients (a_vault V2_PREVIEW_ADDRESSES) amount) \<and> rest \<in> begun_unwraps clients amount}"

lemma follows_finalize:
  assumes "enc \<in> yields (vc_encryptPrivateAmount clients (a_wrapper V2_PREVIEW_ADDRESSES) amount)"
  shows "traces (follows {[finalize_call requestId (amount, evidence)] | requestId evidence. (amount, evidence) \<in> yields (vc_decryptPublicValue clients requestId)}
      (insert [] {[finalize_call requestId (amount, evidence)] | requestId evidence. (amount, evidence) \<in> yields (vc_decryptPublicValue clients requestId)})
      (\<lambda>hs c. hs = requestHash # c))
    (bind_eff (client_call (vc_getTransactionReceipt clients requestHash) Plain) (\<lambda>receipt.
     case rc_unwrapRequestIds receipt of
       [] \<Rightarrow> fail ''V2_ACTION:UNWRAP_REQUEST_ID_MISSING''
     | requestId # _ \<Rightarrow>
       if requestId = [] then fail ''V2_ACTION:UNWRAP_REQUEST_ID_MISSING''
       else bind_eff (client_call (vc_decryptPublicValue clients requestId) Plain) (\<lambda>publicResult.
         if fst publicResult \<noteq> amount then fail ''V2_ACTION:UNWRAP_AMOUNT_MISMATCH''
         else bind_eff (writeV2 clients (finalize_call requestId publicResult) stage) (\<lambda>finalizeHash.
           ret [requestHash, finalizeHash]))))"
    (is "traces (follows ?P (insert [] ?P) ?H) _")
proof (intro follows_quiet quiet_ops)
  fix receipt :: transaction_receipt
  have write_it: "traces (follows ?P (insert [] ?P) ?H)
      (if fst publicResult \<noteq> amount then fail ''V2_ACTION:UNWRAP_AMOUNT_MISMATCH''
       else bind_eff (writeV2 clients (finalize_call requestId publicResult) stage) (\<lambda>finalizeHash. ret [requestHash, finalizeHash]))"
    if "publicResult \<in> yields (vc_decryptPublicValue clients requestId)" for requestId publicResult
  proof (intro follows_if follows_fail)
    assume "\<not> fst publicResult \<noteq> amount"
    then obtain evidence where e: "publicResult = (amount, evidence)" by (cases publicResult) auto
    show "traces (follows ?P (insert [] ?P) ?H)
       (bind_eff (writeV2 clients (finalize_call requestId publicResult) stage) (\<lambda>finalizeHash. ret [requestHash, finalizeHash]))"
      by (rule follows_bind [OF follows_write, where K = "\<lambda>h hs c. hs = [requestHash, h] \<and> c = []" and Q = "{[]}" and G = "{}"])
        (use that e in \<open>auto intro: follows_ret\<close>)
  qed simp
  show "traces (follows ?P (insert [] ?P) ?H) (case rc_unwrapRequestIds receipt of
       [] \<Rightarrow> fail ''V2_ACTION:UNWRAP_REQUEST_ID_MISSING''
     | requestId # _ \<Rightarrow>
       if requestId = [] then fail ''V2_ACTION:UNWRAP_REQUEST_ID_MISSING''
       else bind_eff (client_call (vc_decryptPublicValue clients requestId) Plain) (\<lambda>publicResult.
         if fst publicResult \<noteq> amount then fail ''V2_ACTION:UNWRAP_AMOUNT_MISMATCH''
         else bind_eff (writeV2 clients (finalize_call requestId publicResult) stage) (\<lambda>finalizeHash.
           ret [requestHash, finalizeHash])))"
    by (cases "rc_unwrapRequestIds receipt") (simp_all add: follows_fail follows_value [OF write_it])
qed simp

lemma follows_unwrap:
  "traces (follows (unwrap_plans clients amount) (begun_unwraps clients amount) (\<lambda>hs c. hs = c)) (unwrapToUsdc clients amount stage)"
  unfolding unwrapToUsdc_def
  by (intro follows_quiet quiet_notify follows_value follows_bind [OF follows_write follows_finalize])
    (auto simp: unwrap_plans_def begun_unwraps_def)

definition covered :: "'w V2ActionClients \<Rightarrow> int \<Rightarrow> string \<Rightarrow> bool" where
  "covered clients amount h \<longleftrightarrow> 0 < amount \<and>
     (\<exists>handle \<in> yields (vc_readText clients (a_vault V2_PREVIEW_ADDRESSES) h [VText (vc_account clients)]).
      \<exists>available \<in> yields (vc_decryptPrivateValue clients (a_vault V2_PREVIEW_ADDRESSES) handle). amount \<le> available)"

lemma coveredI:
  assumes "\<not> amount \<le> 0" and "handle \<in> yields (vc_readText clients (a_vault V2_PREVIEW_ADDRESSES) h [VText (vc_account clients)])"
    and "available \<in> yields (vc_decryptPrivateValue clients (a_vault V2_PREVIEW_ADDRESSES) handle)" and "\<not> amount > available"
  shows "covered clients amount h"
  unfolding covered_def using assms by (intro conjI bexI [of _ handle] bexI [of _ available]) auto

lemma follows_withdraw:
  "traces (follows {p \<in> withdrawal_plans clients amount f. covered clients amount h}
      (insert [] {p \<in> begun_withdrawals clients amount f. covered clients amount h}) (\<lambda>hs c. hs = c)) (withdrawV2Asset clients amount f h stage)"
proof -
  have rest: "traces (follows (unwrap_plans clients amount) (begun_unwraps clients amount) (\<lambda>hs c. hs = withdrawalHash # c))
     (bind_eff (client_call m Plain) (\<lambda>currentHandle.
      if currentHandle = handle then fail (''V2_ACTION:'' @ stage @ '':state-not-changed'')
      else bind_eff (unwrapToUsdc clients amount stage) (\<lambda>hashes. ret (withdrawalHash # hashes))))" for m handle withdrawalHash
    by (intro follows_quiet follows_if follows_fail quiet_ops
        follows_bind [OF follows_unwrap, where K = "\<lambda>hs' hs c. hs = withdrawalHash # hs' \<and> c = []" and Q = "{[]}" and G = "{}"])
      (auto intro: follows_ret simp: begun_unwraps_def)
  show ?thesis
    unfolding withdrawV2Asset_def Let_def
    by (intro follows_if follows_fail follows_quiet [OF silent_guards(1) [THEN quiet_silent]] follows_quiet [OF silent_guards(2) [THEN quiet_silent]]
        follows_value follows_bind [OF follows_write rest])
      (auto simp: withdrawal_plans_def begun_withdrawals_def begun_unwraps_def intro: coveredI)
qed

section \<open>Properties\<close>




text \<open>A wrap of the amount that the account made for itself and the chain confirmed.\<close>

definition wrapped_on_chain :: "decoder \<Rightarrow> 'w V2ActionClients \<Rightarrow> string \<Rightarrow> string \<Rightarrow> int \<Rightarrow> bool" where
  "wrapped_on_chain decode clients account hash amount \<longleftrightarrow> 0 < amount \<and>
     (\<exists>tx recipient. tx \<in> yields (vc_getTransaction clients hash) \<and> decode (ct_input tx) = Inr (''wrap'', Some (recipient, amount)) \<and>
        toLowerCase recipient = toLowerCase account \<and> toLowerCase (ct_from tx) = toLowerCase account \<and>
        map_option toLowerCase (ct_to tx) = Some (toLowerCase (a_wrapper V2_PREVIEW_ADDRESSES))) \<and>
     (\<exists>receipt \<in> yields (vc_getTransactionReceipt clients hash). rc_success receipt)"

lemma recovered_wrap:
  assumes "recoverConfirmedV2Wrap decode clients account hash s = (Inr (h, amount), s1)"
  shows "h = hash \<and> wrapped_on_chain decode clients account hash amount"
proof -
  from assms obtain tx receipt recipient t1 t1' t2 t2' where
    w: "vc_getTransaction clients hash t1 = (Inr tx, t1')" "vc_getTransactionReceipt clients hash t2 = (Inr receipt, t2')"
      "rc_success receipt" "truthy (ct_to tx)" "equalAddress (or_empty (ct_to tx)) (a_wrapper V2_PREVIEW_ADDRESSES)"
      "equalAddress (ct_from tx) account" "decode (ct_input tx) = Inr (''wrap'', Some (recipient, amount))"
      "equalAddress recipient account" "0 < amount" "h = hash"
    by (auto simp: recoverConfirmedV2Wrap_def recovered_call_def bind_eff_Inr client_call_Inr split: if_splits sum.splits option.splits)
  from w(4,5) have to: "map_option toLowerCase (ct_to tx) = Some (toLowerCase (a_wrapper V2_PREVIEW_ADDRESSES))"
    by (auto simp: truthy_def or_empty_def equalAddress_def split: option.splits)
  have "tx \<in> yields (vc_getTransaction clients hash)" "receipt \<in> yields (vc_getTransactionReceipt clients hash)"
    using w(1,2) by (auto simp: yields_def)
  with w(3,6-10) to show ?thesis unfolding wrapped_on_chain_def equalAddress_def by blast
qed

text \<open>
  An interrupted deposit is finished without repeating it: what is recovered from a confirmed wrap
  is the amount that very transaction of the account wrapped for the account, and the resumed
  deposit submits nothing but the save of an encryption of that amount.
\<close>

theorem resumed_deposit_only_saves:
  assumes "recoverConfirmedV2Wrap decode clients (vc_account clients) hash s = (Inr (h, amount), s1)"
    and "resumeV2AddMoneySave clients amount s2 = (r, s3)"
  shows "h = hash \<and> wrapped_on_chain decode clients (vc_account clients) hash amount \<and>
    (\<exists>new. snd s3 = snd s2 @ new \<and> submitted new \<in> insert [] (save_plans clients amount) \<and>
       (\<forall>hashes. r = Inr hashes \<longrightarrow> length hashes = 1 \<and> hashes = confirmed new))"
proof -
  from tracesD [OF follows_resume_save assms(2)] obtain new where
    new: "snd s3 = snd s2 @ new" "follows (save_plans clients amount) (insert [] (save_plans clients amount)) (\<lambda>hs c. hs = c) r new" by blast
  have "submitted new \<in> insert [] (save_plans clients amount)" using new(2) by (auto simp: follows_def split: sum.splits)
  moreover have "length hashes = 1 \<and> hashes = confirmed new" if "r = Inr hashes" for hashes
    using new(2) that resume_one_hash [of clients amount s2 hashes s3] assms(2) by (simp add: follows_def)
  ultimately show ?thesis using recovered_wrap [OF assms(1)] new(1) by blast
qed

text \<open>
  A withdrawal of savings follows its plan: the vault is asked for an encryption of the amount, the
  amount is unwrapped, and the unwrapping is finished with exactly that amount and its public
  decryption; it starts only when the decrypted balance covers the amount; a failed withdrawal
  stopped after a beginning of the plan.
\<close>

theorem withdrawal_follows_its_plan:
  assumes "withdrawV2Savings clients amount s = (r, s')"
  shows "\<exists>new. snd s' = snd s @ new \<and> (case r of
      Inr hashes \<Rightarrow> submitted new \<in> withdrawal_plans clients amount ''withdraw'' \<and> hashes = confirmed new
    | Inl _ \<Rightarrow> submitted new \<in> begun_withdrawals clients amount ''withdraw'') \<and>
    (submitted new = [] \<or> covered clients amount ''principalOf'')"
  using tracesD [OF follows_withdraw assms [unfolded withdrawV2Savings_def]] by (auto simp: follows_def begun_withdrawals_def split: sum.splits)

text \<open>
  A prize result is revealed only from the settled round before the active one, to a registered
  account, and only as the decryption of the account's winnings handle, or zero for the zero
  handle.
\<close>

theorem result_revealed_only_when_settled:
  fixes clients :: "'w V2ActionClients"
  assumes "revealLatestV2Result clients s = (Inr v, s')"
  shows "\<exists>active vs handle. active \<in> yields (vc_readUint clients (a_vault V2_PREVIEW_ADDRESSES) ''activeRoundId'' []) \<and> 1 < active \<and>
    VTuple vs \<in> yields (vc_readTuple clients (a_vault V2_PREVIEW_ADDRESSES) ''roundInfo'' [VInt (active - 1)]) \<and>
    2 < length vs \<and> vs ! 2 = VInt (round_state_number SETTLED) \<and>
    True \<in> yields (vc_readBool clients (a_escrow V2_PREVIEW_ADDRESSES) ''isRegistered'' [VInt (active - 1), VText (vc_account clients)]) \<and>
    handle \<in> yields (vc_readText clients (a_vault V2_PREVIEW_ADDRESSES) ''winningsOf'' [VText (vc_account clients)]) \<and>
    (if isZeroHandle handle then v = 0
     else v \<in> yields (vc_decryptPrivateValue clients (a_vault V2_PREVIEW_ADDRESSES) handle))"
proof -
  from assms obtain active round registered handle state c d and a b :: "'w client_world \<times> action_event list" where
    rd: "active \<in> yields (vc_readUint clients (a_vault V2_PREVIEW_ADDRESSES) ''activeRoundId'' [])" "\<not> active \<le> 1"
      "round \<in> yields (vc_readTuple clients (a_vault V2_PREVIEW_ADDRESSES) ''roundInfo'' [VInt (active - 1)])"
      "registered \<in> yields (vc_readBool clients (a_escrow V2_PREVIEW_ADDRESSES) ''isRegistered'' [VInt (active - 1), VText (vc_account clients)])"
      "handle \<in> yields (vc_readText clients (a_vault V2_PREVIEW_ADDRESSES) ''winningsOf'' [VText (vc_account clients)])"
      "tupleValue round 2 a = (Inr state, b)" "\<not> (state \<noteq> Some (VInt 10) \<or> \<not> registered)" "reveal_winnings clients handle c = (Inr v, d)"
    unfolding revealLatestV2Result_def read_winnings_def
    by (elim bind_InrE if_InrE) ((drule client_call_yields)+, rule that)
  from rd(6,7) obtain vs where "round = VTuple vs" "2 < length vs" "vs ! 2 = VInt 10" by (auto simp: tupleValue_Inr split: if_splits)
  moreover have "round_state_number SETTLED = 10" by simp
  moreover have "1 < active" "registered" using rd(2,7) by auto
  ultimately show ?thesis using rd(1,3-5) reveal_winnings_value [OF rd(8)] by metis
qed

section \<open>Witnesses\<close>

text \<open>A chain that counts the submissions: the first one raises the allowance and changes the balance handle.\<close>

definition demo_text :: "string \<Rightarrow> nat \<Rightarrow> string" where
  "demo_text f n =
     (if f = ''ASSET'' then a_wrapper V2_PREVIEW_ADDRESSES
      else if f = ''vault'' then a_vault V2_PREVIEW_ADDRESSES
      else if f = ''COMET'' then a_comet V2_PREVIEW_ADDRESSES
      else if f = ''principalOf'' then (if n = 0 then ''0x1'' else ''0x2'')
      else if f = ''winningsOf'' then ''0x7''
      else a_usdc V2_PREVIEW_ADDRESSES)"

definition demo_uint :: "string \<Rightarrow> nat \<Rightarrow> int" where
  "demo_uint f n = (if f = ''balanceOf'' then 100 else if f = ''allowance'' then (if n = 0 then 0 else 50) else 5)"

definition demo_v2_hash :: "nat \<Rightarrow> string" where
  "demo_v2_hash n = ''0x'' @ replicate (Suc n) (CHR ''a'')"

definition demo_v2_receipt :: transaction_receipt where
  "demo_v2_receipt = \<lparr>rc_success = True, rc_unwrapRequestIds = [''0x9'']\<rparr>"

definition reads_as :: "(nat \<Rightarrow> 'a) \<Rightarrow> (js_error, nat, 'a) eff" where
  "reads_as v n = (Inr (v n), n)"

definition demo_v2 :: "nat V2ActionClients" where
  "demo_v2 = \<lparr>vc_account = ''0xa'', vc_signer = Some ''0xA'', vc_walletChainId = reads_as (\<lambda>_. V2_PREVIEW_CHAIN_ID),
     vc_publicChainId = reads_as (\<lambda>_. V2_PREVIEW_CHAIN_ID), vc_readText = (\<lambda>_ f _. reads_as (demo_text f)),
     vc_readUint = (\<lambda>_ f _. reads_as (demo_uint f)), vc_readBool = (\<lambda>_ _ _. reads_as (\<lambda>_. True)),
     vc_readTuple = (\<lambda>_ _ _. reads_as (\<lambda>_. VTuple [VInt 0, VInt 0, VInt 10])), vc_delay = (\<lambda>_. Some 0),
     vc_environment = default_options VAULT_READ, vc_simulateContract = (\<lambda>_. reads_as (\<lambda>_. None)),
     vc_writeContract = (\<lambda>_ _ n. ((0, Inr (demo_v2_hash n)), Suc n)), vc_waitForTransactionReceipt = (\<lambda>_. reads_as (\<lambda>_. demo_v2_receipt)),
     vc_getTransactionReceipt = (\<lambda>_. reads_as (\<lambda>_. demo_v2_receipt)),
     vc_getTransaction = (\<lambda>_. reads_as (\<lambda>_. \<lparr>ct_to = Some (a_wrapper V2_PREVIEW_ADDRESSES), ct_from = ''0xA'', ct_input = ''w''\<rparr>)),
     vc_call = (\<lambda>_ _. reads_as (\<lambda>_. ())), vc_sendTransaction = (\<lambda>_ _ n. ((0, Inr (demo_v2_hash n)), Suc n)),
     vc_encryptPrivateAmount = (\<lambda>_ _. reads_as (\<lambda>_. (''e'', ''p''))), vc_decryptPrivateValue = (\<lambda>_ _. reads_as (\<lambda>_. 70)),
     vc_decryptPublicValue = (\<lambda>_. reads_as (\<lambda>_. (50, ''q'')))\<rparr>"

definition demo_start :: "nat client_world \<times> action_event list" where
  "demo_start = (\<lparr>cw_world = 0, cw_metrics = (\<lambda>_. None), cw_waits = []\<rparr>, [])"

definition demo_decode :: decoder where
  "demo_decode input = Inr (''wrap'', Some (''0xA'', 50))"

text \<open>Single steps on this chain; \<open>world\<close> reads the number of submissions.\<close>

abbreviation world :: "nat client_world \<times> action_event list \<Rightarrow> nat" where
  "world s \<equiv> cw_world (fst s)"

lemma demo_fields:
  "vc_account demo_v2 = ''0xa''" "vc_signer demo_v2 = Some ''0xA''" "vc_walletChainId demo_v2 = reads_as (\<lambda>_. V2_PREVIEW_CHAIN_ID)"
  "vc_publicChainId demo_v2 = reads_as (\<lambda>_. V2_PREVIEW_CHAIN_ID)" "vc_readText demo_v2 a f xs = reads_as (demo_text f)"
  "vc_readUint demo_v2 a f xs = reads_as (demo_uint f)" "vc_readBool demo_v2 a f xs = reads_as (\<lambda>_. True)"
  "vc_readTuple demo_v2 a f xs = reads_as (\<lambda>_. VTuple [VInt 0, VInt 0, VInt 10])" "vc_simulateContract demo_v2 c = reads_as (\<lambda>_. None)"
  "vc_waitForTransactionReceipt demo_v2 h = reads_as (\<lambda>_. demo_v2_receipt)" "vc_getTransactionReceipt demo_v2 h = reads_as (\<lambda>_. demo_v2_receipt)"
  "vc_getTransaction demo_v2 h = reads_as (\<lambda>_. \<lparr>ct_to = Some (a_wrapper V2_PREVIEW_ADDRESSES), ct_from = ''0xA'', ct_input = ''w''\<rparr>)"
  "vc_encryptPrivateAmount demo_v2 a i = reads_as (\<lambda>_. (''e'', ''p''))" "vc_decryptPrivateValue demo_v2 a h = reads_as (\<lambda>_. 70)"
  "vc_decryptPublicValue demo_v2 h = reads_as (\<lambda>_. (50, ''q''))"
  by (simp_all add: demo_v2_def)

lemma demo_call: "client_call (reads_as v) err s = (Inr (v (world s)), s)"
  by (cases s) (simp add: client_call_def reads_as_def)

lemma demo_notify: "notify ev s = (Inr (), (fst s, snd s @ [ev]))"
  by (simp add: notify_def)

lemma demo_reliable: "\<exists>s'. reliable_read demo_v2 (reads_as v) err s = (Inr (v (world s)), s') \<and> world s' = world s"
  by (simp add: reliable_read_def client_read_def withReadReliability_def vault_read_options_def demo_v2_def default_options_def
      DEFAULT_READ_MAX_ATTEMPTS_def DEFAULT_READ_TIMEOUT_MS_def numeral_3_eq_3 attempt_read_def timed_def race_def reads_as_def)

lemma demo_lower: "toLowerCase ''0xA'' = ''0xa''" "toLowerCase ''0xa'' = ''0xa''"
  by code_simp+

lemma demo_signer: "assertV2Wallet demo_v2 stage s = (Inr (), s)"
  by (simp add: assertV2Wallet_def demo_fields truthy_def or_empty_def demo_lower bind_eff_apply demo_call)

lemma demo_write: "\<exists>s'. writeV2 demo_v2 request stage s = (Inr (demo_v2_hash (world s)), s') \<and> world s' = Suc (world s)"
proof -
  obtain s1 where s1: "reliable_read demo_v2 (reads_as (\<lambda>_. None :: int option)) (simulationError stage) (fst s, snd s @ [OnStage PRECONDITION_READ])
      = (Inr None, s1)" "world s1 = world s"
    using demo_reliable [of "\<lambda>_. None" "simulationError stage" "(fst s, snd s @ [OnStage PRECONDITION_READ])"] by auto
  have "\<exists>s2. submit_call demo_v2 request gas stage s = (Inr (demo_v2_hash (world s)), s2) \<and> world s2 = Suc (world s)" for gas s
    by (simp add: submit_call_def submitFinancialWriteOnce_def demo_v2_def)
  then obtain s2 where "submit_call demo_v2 request None stage (fst s1, snd s1 @ [Simulated request]) = (Inr (demo_v2_hash (world s)), s2)"
    "world s2 = Suc (world s)" using s1(2) by (metis fst_conv)
  with s1 show ?thesis
    by (simp add: writeV2_def bind_eff_apply demo_signer demo_notify demo_fields demo_call demo_v2_receipt_def)
qed

lemma demo_topology: "readV2Topology demo_v2 s = (Inr (), s)"
  by (simp add: readV2Topology_def topology_read_def demo_fields Let_def bind_eff_apply demo_call demo_text_def equalAddress_def)

lemma demo_save: "\<exists>s'. saveV2Money demo_v2 amount s = (Inr (demo_v2_hash (world s)), s') \<and> world s' = Suc (world s)"
  using demo_write [of "save_call (''e'', ''p'')" "''add-money-save''" "(fst s, snd s @ [OnStage ADDING_TO_SAVINGS])"]
  by (simp add: saveV2Money_def bind_eff_apply demo_notify demo_fields demo_call)

lemma demo_resumed: "\<exists>s'. resumeV2AddMoneySave demo_v2 50 demo_start = (Inr [demo_v2_hash 0], s')"
  using demo_save [of 50 "(fst demo_start, snd demo_start @ [OnStep \<lparr>st_current = 2, st_total = 2, st_label = Add_to_Leopold_savings\<rparr>])"]
  by (auto simp: resumeV2AddMoneySave_def bind_eff_apply demo_signer demo_topology show_step_def demo_notify demo_start_def)

lemma demo_recovery: "\<exists>s'. recoverConfirmedV2Wrap demo_decode demo_v2 (vc_account demo_v2) ''0xh'' demo_start = (Inr (''0xh'', 50), s')"
proof -
  have "a_wrapper V2_PREVIEW_ADDRESSES \<noteq> []" by (simp add: V2_PREVIEW_ADDRESSES_def)
  then show ?thesis
    by (simp add: recoverConfirmedV2Wrap_def recovered_call_def demo_fields demo_decode_def bind_eff_apply demo_call demo_v2_receipt_def
      truthy_def or_empty_def equalAddress_def demo_lower)
qed

lemma demo_result: "\<exists>s'. revealLatestV2Result demo_v2 s = (Inr 70, s')"
proof -
  have "\<not> isZeroHandle ''0x7''" by code_simp
  then show ?thesis
    by (simp add: revealLatestV2Result_def reveal_winnings_def read_winnings_def bind_eff_apply demo_signer demo_notify
        demo_fields demo_call demo_uint_def demo_text_def tupleValue_def)
qed



theorem resumed_deposit_only_saves_witness:
  "\<exists>s2 s3 new. resumeV2AddMoneySave demo_v2 50 s2 = (Inr [demo_v2_hash 0], s3) \<and> snd s3 = snd s2 @ new \<and>
     submitted new \<in> insert [] (save_plans demo_v2 50) \<and> confirmed new = [demo_v2_hash 0]"
proof -
  obtain s1 where "recoverConfirmedV2Wrap demo_decode demo_v2 (vc_account demo_v2) ''0xh'' demo_start = (Inr (''0xh'', 50), s1)"
    using demo_recovery by blast
  moreover obtain s3 where "resumeV2AddMoneySave demo_v2 50 demo_start = (Inr [demo_v2_hash 0], s3)" using demo_resumed by blast
  ultimately show ?thesis using resumed_deposit_only_saves by (metis (no_types, lifting))
qed

theorem result_revealed_only_when_settled_witness:
  "\<exists>active. active \<in> yields (vc_readUint demo_v2 (a_vault V2_PREVIEW_ADDRESSES) ''activeRoundId'' []) \<and> 1 < active \<and>
     True \<in> yields (vc_readBool demo_v2 (a_escrow V2_PREVIEW_ADDRESSES) ''isRegistered'' [VInt (active - 1), VText (vc_account demo_v2)])"
proof -
  obtain s' where "revealLatestV2Result demo_v2 demo_start = (Inr 70, s')" using demo_result by blast
  from result_revealed_only_when_settled [OF this] show ?thesis by blast
qed

lemma demo_approve:
  "\<exists>s'. approve_if_required demo_v2 50 True n s = (Inr [demo_v2_hash (world s)], s') \<and> world s' = Suc (world s)"
proof -
  let ?s = "(fst s, snd s @ [OnStep \<lparr>st_current = 1, st_total = n, st_label = Approve_USDC\<rparr>, OnStage APPROVAL])"
  obtain s1 where s1: "writeV2 demo_v2 (approve_call 50) ''add-money-approval'' ?s = (Inr (demo_v2_hash (world s)), s1)" "world s1 = Suc (world s)"
    using demo_write [of "approve_call 50" "''add-money-approval''" ?s] by auto
  obtain s2 where "reliable_read demo_v2 (read_allowance demo_v2) Plain s1 = (Inr 50, s2)" "world s2 = world s1"
    using demo_reliable [of "demo_uint ''allowance''" Plain s1] s1(2) by (auto simp: read_allowance_def demo_fields demo_uint_def)
  with s1 show ?thesis by (simp add: approve_if_required_def show_step_def bind_eff_apply demo_notify)
qed

lemma demo_deposit: "\<exists>s'. addV2Money demo_v2 50 demo_start = (Inr [demo_v2_hash 0, demo_v2_hash 1, demo_v2_hash 2], s')"
proof -
  let ?step = "\<lambda>i l. OnStep \<lparr>st_current = i, st_total = 3, st_label = l\<rparr>"
  let ?s0 = "(fst demo_start, snd demo_start @ [OnStage PREPARING_FUNDS])"
  have w0: "world ?s0 = 0" by (simp add: demo_start_def)
  obtain s1 where s1: "approve_if_required demo_v2 50 True 3 ?s0 = (Inr [demo_v2_hash 0], s1)" "world s1 = 1"
    using demo_approve [of 3 ?s0] w0 by auto
  obtain s2 where s2: "writeV2 demo_v2 (wrap_call ''0xa'' 50) ''add-money-wrap'' (fst s1, snd s1 @ [?step 2 Make_savings_private]) = (Inr (demo_v2_hash 1), s2)" "world s2 = 2"
    using demo_write [of "wrap_call ''0xa'' 50" "''add-money-wrap''" "(fst s1, snd s1 @ [?step 2 Make_savings_private])"] s1(2) by auto
  obtain s3 where "saveV2Money demo_v2 50 (fst s2, snd s2 @ [?step 3 Add_to_Leopold_savings]) = (Inr (demo_v2_hash 2), s3)"
    using demo_save [of 50 "(fst s2, snd s2 @ [?step 3 Add_to_Leopold_savings])"] s2(2) by auto
  with s1 s2 show ?thesis
    by (simp add: addV2Money_def bind_eff_apply demo_signer demo_topology demo_notify read_allowance_def demo_fields demo_call
        demo_uint_def w0 Let_def show_step_def demo_start_def)
qed

lemma demo_v2_withdrawal: "\<exists>s'. withdrawV2Savings demo_v2 50 demo_start = (Inr [demo_v2_hash 0, demo_v2_hash 1, demo_v2_hash 2], s')"
proof -
  have z: "\<not> isZeroHandle ''0x1''" by code_simp
  obtain s1 where s1: "writeV2 demo_v2 (withdraw_call ''withdraw'' (''e'', ''p'')) ''withdraw-savings'' demo_start = (Inr (demo_v2_hash 0), s1)" "world s1 = 1"
    using demo_write [of "withdraw_call ''withdraw'' (''e'', ''p'')" "''withdraw-savings''" demo_start] by (auto simp: demo_start_def)
  obtain s2 where s2: "writeV2 demo_v2 (unwrap_call ''0xa'' (''e'', ''p'')) (''withdraw-savings'' @ ''-request'') (fst s1, snd s1 @ [OnStage UNWRAPPING])
      = (Inr (demo_v2_hash 1), s2)" "world s2 = 2"
    using demo_write [of "unwrap_call ''0xa'' (''e'', ''p'')" "''withdraw-savings'' @ ''-request''" "(fst s1, snd s1 @ [OnStage UNWRAPPING])"] s1(2) by auto
  obtain s3 where s3: "writeV2 demo_v2 (finalize_call ''0x9'' (50, ''q'')) (''withdraw-savings'' @ ''-finalize'') s2 = (Inr (demo_v2_hash 2), s3)"
    using demo_write [of "finalize_call ''0x9'' (50, ''q'')" "''withdraw-savings'' @ ''-finalize''" s2] s2(2) by auto
  have "unwrapToUsdc demo_v2 50 ''withdraw-savings'' s1 = (Inr [demo_v2_hash 1, demo_v2_hash 2], s3)"
    using s2 s3 unfolding unwrapToUsdc_def
    by (simp add: bind_eff_apply demo_notify demo_fields demo_call demo_v2_receipt_def del: append.simps)
  with s1 z show ?thesis
    by (simp add: withdrawV2Savings_def withdrawV2Asset_def bind_eff_apply demo_signer demo_topology demo_fields demo_call demo_text_def
        demo_start_def Let_def)
qed


theorem withdrawal_follows_its_plan_witness:
  "\<exists>new. submitted new \<in> withdrawal_plans demo_v2 50 ''withdraw'' \<and> confirmed new = [demo_v2_hash 0, demo_v2_hash 1, demo_v2_hash 2]"
proof -
  obtain s' where "withdrawV2Savings demo_v2 50 demo_start = (Inr [demo_v2_hash 0, demo_v2_hash 1, demo_v2_hash 2], s')" using demo_v2_withdrawal by blast
  from withdrawal_follows_its_plan [OF this] show ?thesis by auto
qed

end
