(* ===== verification/Client_Classic.thy ===== *)
theory Client_Classic
  imports Client_Actions_Safety Client_View
begin

text \<open>
  The earlier actions of the client (\<open>frontend/lib/leopold/actions.ts\<close>), on the vaults of the
  configuration: like the current ones effects on the chain and on what the client did.  A receipt
  is noted with its hash although these clients have no callback for it.
\<close>

section \<open>Clients and stages\<close>

text \<open>The clients of the earlier actions: those of the current ones, and reads pinned to a block.\<close>

record 'w ActionClients =
  ac_clients :: "'w V2ActionClients"
  ac_getBlockNumber :: "(js_error, 'w, int) eff"
  ac_readUintAt :: "string \<Rightarrow> string \<Rightarrow> chain_value list \<Rightarrow> int \<Rightarrow> (js_error, 'w, int) eff"

abbreviation ac_account :: "'w ActionClients \<Rightarrow> string" where
  "ac_account clients \<equiv> vc_account (ac_clients clients)"

datatype action_phase = PhSimulating | PhSignature | PhSubmitted | PhConfirming

fun approval_stage :: "action_phase \<Rightarrow> TransactionStage" where
  "approval_stage PhSimulating = ST_APPROVAL_SIMULATING"
| "approval_stage PhSignature = ST_APPROVAL_SIGNATURE"
| "approval_stage PhSubmitted = ST_APPROVAL_SUBMITTED"
| "approval_stage PhConfirming = ST_APPROVAL_CONFIRMING"

fun wrap_stage :: "action_phase \<Rightarrow> TransactionStage" where
  "wrap_stage PhSimulating = ST_WRAP_SIMULATING"
| "wrap_stage PhSignature = ST_WRAP_SIGNATURE"
| "wrap_stage PhSubmitted = ST_WRAP_SUBMITTED"
| "wrap_stage PhConfirming = ST_WRAP_CONFIRMING"

fun save_stage :: "action_phase \<Rightarrow> TransactionStage" where
  "save_stage PhSimulating = ST_SAVE_SIMULATING"
| "save_stage PhSignature = ST_SAVE_SIGNATURE"
| "save_stage PhSubmitted = ST_SAVE_SUBMITTED"
| "save_stage PhConfirming = ST_SAVE_CONFIRMING"

fun advance_stage :: "action_phase \<Rightarrow> TransactionStage" where
  "advance_stage PhSimulating = ST_WITHDRAW_ROUND_ADVANCE_SIMULATING"
| "advance_stage PhSignature = ST_WITHDRAW_ROUND_ADVANCE_SIGNATURE"
| "advance_stage PhSubmitted = ST_WITHDRAW_ROUND_ADVANCE_SUBMITTED"
| "advance_stage PhConfirming = ST_WITHDRAW_ROUND_ADVANCE_CONFIRMING"

fun withdraw_stage :: "action_phase \<Rightarrow> TransactionStage" where
  "withdraw_stage PhSimulating = ST_WITHDRAW_SIMULATING"
| "withdraw_stage PhSignature = ST_WITHDRAW_SIGNATURE"
| "withdraw_stage PhSubmitted = ST_WITHDRAW_SUBMITTED"
| "withdraw_stage PhConfirming = ST_WITHDRAW_CONFIRMING"

definition action_stage :: "string \<Rightarrow> action_phase \<Rightarrow> TransactionStage option" where
  "action_stage stage phase =
     (if stage = ''make-private-approval'' then Some (approval_stage phase)
      else if stage = ''make-private-wrap'' then Some (wrap_stage phase)
      else if stage = ''save-confidential-transfer'' then Some (save_stage phase)
      else if stage = ''withdraw-round-advance'' then Some (advance_stage phase)
      else if stage = ''withdraw'' then Some (withdraw_stage phase)
      else None)"

definition notifyActionStage :: "string \<Rightarrow> action_phase \<Rightarrow> ('w, unit) v2_op" where
  "notifyActionStage stage phase = (case action_stage stage phase of
     None \<Rightarrow> ret ()
   | Some st \<Rightarrow> notify (OnTransactionStage st))"

datatype failure_phase = FailSimulation | FailWalletSignature | FailReceipt

fun phase_name :: "failure_phase \<Rightarrow> string" where
  "phase_name FailSimulation = ''SIMULATION''"
| "phase_name FailWalletSignature = ''WALLET_SIGNATURE''"
| "phase_name FailReceipt = ''RECEIPT''"

fun generic_phase :: "failure_phase \<Rightarrow> string" where
  "generic_phase FailSimulation = ''ACTION_SIMULATION_FAILED''"
| "generic_phase FailWalletSignature = ''ACTION_SIGNING_FAILED''"
| "generic_phase FailReceipt = ''ACTION_CONFIRMATION_FAILED''"

definition actionFailurePrefix :: "string \<Rightarrow> failure_phase \<Rightarrow> string" where
  "actionFailurePrefix stage phase =
     (if stage = ''save-confidential-transfer'' then ''SAVE:'' @ phase_name phase
      else if stage = ''withdraw-round-advance'' then ''WITHDRAW:ROUND_ADVANCE_'' @ phase_name phase
      else if stage = ''withdraw'' then ''WITHDRAW:'' @ phase_name phase
      else generic_phase phase @ '':'' @ stage)"

definition classicError :: "string \<Rightarrow> js_error \<Rightarrow> v2_error" where
  "classicError what e = Wrapped (what @ '': '' @ js_message e) e"

definition reverted_message :: "string \<Rightarrow> string" where
  "reverted_message stage =
     (if stage = ''save-confidential-transfer'' then ''SAVE:RECEIPT:status=reverted''
      else if stage = ''withdraw-round-advance'' then ''WITHDRAW:ROUND_ADVANCE_RECEIPT:status=reverted''
      else if stage = ''withdraw'' then ''WITHDRAW:RECEIPT:status=reverted''
      else ''ACTION_REVERTED:'' @ stage)"

section \<open>One transaction\<close>

definition assertWalletClient :: "'w ActionClients \<Rightarrow> string \<Rightarrow> ('w, unit) v2_op" where
  "assertWalletClient clients stage =
     (let walletAccount = vc_signer (ac_clients clients) in
      if truthy walletAccount \<and> toLowerCase (or_empty walletAccount) \<noteq> toLowerCase (ac_account clients)
      then fail (''WALLET_SIGNER_MISMATCH:'' @ stage @ '':'' @ or_empty walletAccount @ '':'' @ ac_account clients)
      else bind_eff (client_call (vc_walletChainId (ac_clients clients)) Plain) (\<lambda>walletChainId.
        if walletChainId \<noteq> 11155111 then fail (''WRONG_NETWORK:'' @ stage @ '':wallet-client-'' @ int_to_string walletChainId)
        else ret ()))"

definition simulate_call :: "'w ActionClients \<Rightarrow> contract_call \<Rightarrow> string \<Rightarrow> ('w, int option) v2_op" where
  "simulate_call clients request stage =
     bind_eff (notifyActionStage stage PhSimulating) (\<lambda>_.
     bind_eff (client_call (vc_simulateContract (ac_clients clients) request)
        (classicError (actionFailurePrefix stage FailSimulation))) (\<lambda>gas.
     bind_eff (notify (Simulated request)) (\<lambda>_. ret gas)))"

definition sign_call :: "'w ActionClients \<Rightarrow> contract_call \<Rightarrow> int option \<Rightarrow> string \<Rightarrow> ('w, string) v2_op" where
  "sign_call clients request gas stage s =
     (case submitFinancialWriteOnce (vc_writeContract (ac_clients clients) request gas) (fst s) of
        (Inl e, c) \<Rightarrow> (Inl (classicError (actionFailurePrefix stage FailWalletSignature) e), (c, snd s @ [Submitted request None]))
      | (Inr hash, c) \<Rightarrow> (Inr hash, (c, snd s @ [Submitted request (Some hash)])))"

definition notify_receipt :: "string \<Rightarrow> ('w, unit) v2_op" where
  "notify_receipt stage =
     (if stage = ''save-confidential-transfer'' then notify (OnTransactionStage ST_SAVE_RECEIPT)
      else if stage = ''withdraw'' then notify (OnTransactionStage ST_WITHDRAW_RECEIPT)
      else ret ())"

definition writeAndConfirm :: "'w ActionClients \<Rightarrow> contract_call \<Rightarrow> string \<Rightarrow> bool \<Rightarrow> ('w, string) v2_op" where
  "writeAndConfirm clients request stage simulate =
     bind_eff (assertWalletClient clients stage) (\<lambda>_.
     bind_eff (if simulate then simulate_call clients request stage else ret None) (\<lambda>gas.
     bind_eff (assertWalletClient clients stage) (\<lambda>_.
     bind_eff (notifyActionStage stage PhSignature) (\<lambda>_.
     bind_eff (sign_call clients request gas stage) (\<lambda>hash.
     bind_eff (notify (OnHash hash None)) (\<lambda>_.
     bind_eff (notifyActionStage stage PhSubmitted) (\<lambda>_.
     bind_eff (notifyActionStage stage PhConfirming) (\<lambda>_.
     bind_eff (client_call (vc_waitForTransactionReceipt (ac_clients clients) hash)
        (classicError (actionFailurePrefix stage FailReceipt))) (\<lambda>receipt.
     if \<not> rc_success receipt then fail (reverted_message stage)
     else bind_eff (notify (OnReceipt hash None)) (\<lambda>_.
       bind_eff (notify_receipt stage) (\<lambda>_. ret hash)))))))))))"

section \<open>The actions\<close>

definition token_call :: "string \<Rightarrow> string \<Rightarrow> chain_value list \<Rightarrow> contract_call" where
  "token_call target f args = contract_request target f args"

definition readAllowance :: "viem \<Rightarrow> 'w ActionClients \<Rightarrow> string \<Rightarrow> bool \<Rightarrow> ('w, int) v2_op" where
  "readAllowance v clients lcUsdc fresh =
     (let args = [VText (ac_account clients), VText lcUsdc] in
      if fresh then bind_eff (client_call (ac_getBlockNumber clients) Plain) (\<lambda>blockNumber.
        client_call (ac_readUintAt clients (CANONICAL_USDC v) ''allowance'' args blockNumber) Plain)
      else client_call (vc_readUint (ac_clients clients) (CANONICAL_USDC v) ''allowance'' args) Plain)"

definition approve_lcUsdc :: "viem \<Rightarrow> 'w ActionClients \<Rightarrow> string \<Rightarrow> int \<Rightarrow> ('w, string list) v2_op" where
  "approve_lcUsdc v clients lcUsdc amount =
     bind_eff (writeAndConfirm clients (token_call (CANONICAL_USDC v) ''approve'' [VText lcUsdc, VInt amount]) ''make-private-approval'' True) (\<lambda>hash.
     bind_eff (assertWalletClient clients ''make-private-allowance-refresh'') (\<lambda>_.
     bind_eff (readAllowance v clients lcUsdc True) (\<lambda>allowanceAfterApproval.
     if allowanceAfterApproval < amount
     then fail (''ACTION_CONFIRMATION_FAILED:make-private-approval-allowance:'' @ int_to_string allowanceAfterApproval)
     else bind_eff (notify (OnTransactionStage ST_ALLOWANCE_REFRESH)) (\<lambda>_. ret [hash]))))"

definition makePrivate :: "viem \<Rightarrow> 'w ActionClients \<Rightarrow> string \<Rightarrow> int \<Rightarrow> ('w, string list) v2_op" where
  "makePrivate v clients lcUsdc amount =
     bind_eff (assertWalletClient clients ''make-private-start'') (\<lambda>_.
     bind_eff (readAllowance v clients lcUsdc False) (\<lambda>allowance.
     bind_eff (if allowance < amount then approve_lcUsdc v clients lcUsdc amount else ret []) (\<lambda>hashes.
     bind_eff (writeAndConfirm clients (token_call lcUsdc ''wrap'' [VText (ac_account clients), VInt amount]) ''make-private-wrap'' True) (\<lambda>hash.
     ret (hashes @ [hash])))))"

definition encrypt_for :: "'w ActionClients \<Rightarrow> string \<Rightarrow> int \<Rightarrow> (js_error \<Rightarrow> v2_error) \<Rightarrow> ('w, string \<times> string) v2_op" where
  "encrypt_for clients target amount err = client_call (vc_encryptPrivateAmount (ac_clients clients) target amount) err"

definition official_vault_target :: "LeopoldConfig \<Rightarrow> string \<Rightarrow> bool" where
  "official_vault_target config vault =
     list_ex (\<lambda>item. map_option toLowerCase (ca_address (lv_vault item)) = Some (toLowerCase vault)) (lc_vaults config)"

definition save_transfer :: "string \<Rightarrow> string \<Rightarrow> string \<times> string \<Rightarrow> contract_call" where
  "save_transfer lcUsdc vault encrypted =
     token_call lcUsdc ''confidentialTransferAndCall'' [VText vault, VText (fst encrypted), VText (snd encrypted), VText ''0x'']"

definition savePrivately :: "LeopoldConfig \<Rightarrow> 'w ActionClients \<Rightarrow> string \<Rightarrow> string \<Rightarrow> int \<Rightarrow> ('w, string) v2_op" where
  "savePrivately config clients lcUsdc vault amount =
     (if Some (toLowerCase lcUsdc) \<noteq> map_option toLowerCase (ca_address (lc_lcUsdc config))
      then fail ''CONFIGURATION_MISSING:private token target''
      else if \<not> official_vault_target config vault then fail ''CONFIGURATION_MISSING:official vault target''
      else bind_eff (notify (OnTransactionStage ST_SAVE_ENCRYPTING)) (\<lambda>_.
        bind_eff (encrypt_for clients lcUsdc amount (classicError ''SAVE:ENCRYPT_INPUT'')) (\<lambda>encrypted.
        writeAndConfirm clients (save_transfer lcUsdc vault encrypted) ''save-confidential-transfer'' True)))"

definition enterPrizeRound :: "'w ActionClients \<Rightarrow> string \<Rightarrow> int \<Rightarrow> int \<Rightarrow> ('w, string) v2_op" where
  "enterPrizeRound clients escrow roundId exactBond =
     writeAndConfirm clients ((token_call escrow ''registerForRound'' [VInt roundId])\<lparr>cc_value := Some exactBond\<rparr>) ''registerForRound'' False"

definition vault_withdrawal :: "string \<Rightarrow> string \<times> string \<Rightarrow> contract_call" where
  "vault_withdrawal vault encrypted = token_call vault ''withdraw'' [VText (fst encrypted), VText (snd encrypted)]"

definition withdrawSavings :: "'w ActionClients \<Rightarrow> string \<Rightarrow> int \<Rightarrow> ('w, string) v2_op" where
  "withdrawSavings clients vault amount =
     bind_eff (encrypt_for clients vault amount (classicError ''WITHDRAW:SIMULATION'')) (\<lambda>encrypted.
     writeAndConfirm clients (vault_withdrawal vault encrypted) ''withdraw'' True)"

definition closeExpiredRound :: "'w ActionClients \<Rightarrow> string \<Rightarrow> ('w, string) v2_op" where
  "closeExpiredRound clients vault = writeAndConfirm clients (token_call vault ''closeRound'' []) ''withdraw-round-advance'' True"

definition unwrap_request :: "'w ActionClients \<Rightarrow> string \<Rightarrow> string \<times> string \<Rightarrow> contract_call" where
  "unwrap_request clients lcUsdc encrypted = token_call lcUsdc ''unwrap''
     [VText (ac_account clients), VText (ac_account clients), VText (fst encrypted), VText (snd encrypted)]"

definition finalize_unwrap :: "string \<Rightarrow> string \<Rightarrow> int \<times> string \<Rightarrow> contract_call" where
  "finalize_unwrap lcUsdc requestId decryption =
     token_call lcUsdc ''finalizeUnwrap'' [VText requestId, VInt (fst decryption), VText (snd decryption)]"

definition requestMakePublic :: "'w ActionClients \<Rightarrow> string \<Rightarrow> int \<Rightarrow> ('w, string) v2_op" where
  "requestMakePublic clients lcUsdc amount =
     bind_eff (encrypt_for clients lcUsdc amount Plain) (\<lambda>encrypted.
     bind_eff (writeAndConfirm clients (unwrap_request clients lcUsdc encrypted) ''unwrap'' False) (\<lambda>requestHash.
     bind_eff (client_call (vc_getTransactionReceipt (ac_clients clients) requestHash) Plain) (\<lambda>receipt.
     case rc_unwrapRequestIds receipt of
       [] \<Rightarrow> fail ''UNWRAP_REQUEST_ID_UNAVAILABLE''
     | requestId # _ \<Rightarrow>
         bind_eff (client_call (vc_decryptPublicValue (ac_clients clients) requestId) Plain) (\<lambda>decryption.
         if fst decryption > 0xffffffffffffffff then fail ''RELAYER_PUBLIC_CLEAR_OUT_OF_RANGE''
         else writeAndConfirm clients (finalize_unwrap lcUsdc requestId decryption) ''finalizeUnwrap'' False))))"

definition claimBondRefund :: "'w ActionClients \<Rightarrow> string \<Rightarrow> int \<Rightarrow> ('w, string) v2_op" where
  "claimBondRefund clients escrow roundId = writeAndConfirm clients (token_call escrow ''claimBondRefund'' [VInt roundId]) ''claimBondRefund'' False"

definition claimSettlementRewards :: "'w ActionClients \<Rightarrow> string \<Rightarrow> ('w, string) v2_op" where
  "claimSettlementRewards clients escrow =
     writeAndConfirm clients (token_call escrow ''withdrawSettlementRewards'' []) ''withdrawSettlementRewards'' False"

definition materializeEligibility :: "'w ActionClients \<Rightarrow> string \<Rightarrow> int \<Rightarrow> ('w, string) v2_op" where
  "materializeEligibility clients vault roundId =
     writeAndConfirm clients (token_call vault ''materializeMyRoundWeight'' [VInt roundId]) ''materializeMyRoundWeight'' False"

end
