(* ===== verification/Client_Text.thy ===== *)
theory Client_Text
  imports Prelude
begin

text \<open>
  Searching texts the way the client's regular expressions do: an expression is a list of
  alternatives, an alternative a list of literals and gaps (\<open>.*\<close>, which stays on one line).
\<close>

datatype piece = Lit string | Gap

definition line_break :: "char \<Rightarrow> bool" where
  "line_break c = (c = CHR 0x0A \<or> c = CHR 0x0D)"

fun match_pieces :: "piece list \<Rightarrow> string \<Rightarrow> bool" where
  "match_pieces [] s = True"
| "match_pieces (Lit p # ps) s = (take (length p) s = p \<and> match_pieces ps (drop (length p) s))"
| "match_pieces (Gap # ps) [] = match_pieces ps []"
| "match_pieces (Gap # ps) (c # s) = (match_pieces ps (c # s) \<or> (\<not> line_break c \<and> match_pieces (Gap # ps) s))"

fun occurs :: "piece list \<Rightarrow> string \<Rightarrow> bool" where
  "occurs ps [] = match_pieces ps []"
| "occurs ps (c # s) = (match_pieces ps (c # s) \<or> occurs ps s)"

definition mentions :: "piece list list \<Rightarrow> string \<Rightarrow> bool" where
  "mentions alternatives s = list_ex (\<lambda>ps. occurs ps s) alternatives"

abbreviation words :: "string list \<Rightarrow> piece list list" where
  "words ws \<equiv> map (\<lambda>w. [Lit w]) ws"

text \<open>A literal occurs exactly when it is a part of the text.\<close>

lemma match_literal: "match_pieces [Lit p] s \<longleftrightarrow> (\<exists>r. s = p @ r)"
proof
  assume "match_pieces [Lit p] s"
  then have "s = p @ drop (length p) s" using append_take_drop_id [of "length p" s] by simp
  then show "\<exists>r. s = p @ r" ..
qed auto

lemma match_occurs: "match_pieces ps s \<Longrightarrow> occurs ps s"
  by (cases s) auto

lemma occurs_append: "occurs ps s \<Longrightarrow> occurs ps (r @ s)"
proof (induction r)
  case (Cons c r)
  then show ?case by simp
qed simp

lemma match_pieces_append: "match_pieces ps s \<Longrightarrow> match_pieces ps (s @ r)"
proof (induction ps s rule: match_pieces.induct)
  case (2 p ps s)
  then have "length (take (length p) s) = length p" by simp
  then have "length p \<le> length s" by simp
  with 2 show ?case by simp
next
  case (3 ps)
  then show ?case by (cases r) auto
qed auto

lemma occurs_append_left: "occurs ps s \<Longrightarrow> occurs ps (s @ r)"
proof (induction s)
  case Nil
  then show ?case using match_pieces_append [of ps "[]" r] by (cases r) auto
next
  case (Cons c s)
  then show ?case using match_pieces_append [of ps "c # s" r] by auto
qed

lemma occurs_literal: "occurs [Lit p] s \<longleftrightarrow> (\<exists>a b. s = a @ p @ b)"
proof
  assume "occurs [Lit p] s"
  then show "\<exists>a b. s = a @ p @ b"
  proof (induction s)
    case Nil
    then show ?case by (simp add: match_literal)
  next
    case (Cons c s)
    then consider "match_pieces [Lit p] (c # s)" | "occurs [Lit p] s" by auto
    then show ?case
    proof cases
      case 1
      then show ?thesis by (metis append_Nil match_literal)
    next
      case 2
      with Cons.IH show ?thesis by (metis append_Cons)
    qed
  qed
next
  assume "\<exists>a b. s = a @ p @ b"
  then obtain a b where s: "s = a @ p @ b" by blast
  have "occurs [Lit p] (p @ b)" by (rule match_occurs) simp
  then show "occurs [Lit p] s" unfolding s by (rule occurs_append)
qed

end
