(* ===== verification/Client_Errors.thy ===== *)
theory Client_Errors
  imports Client_Text "HOL-Library.Sublist"
begin

text \<open>
  The classification of thrown values (\<open>frontend/lib/leopold/errors.ts\<close>).  A thrown value may be any
  object, with its causes behind it: the objects live in a heap, where reading a property gives a
  value, so that shared and cyclic causes are walked as the code walks them.
\<close>

section \<open>Thrown values\<close>

datatype js_value = JsUndefined | JsNull | JsText string | JsNumber string | JsBool bool | JsOther | JsRef nat

type_synonym js_heap = "nat \<Rightarrow> string \<Rightarrow> js_value"

definition ERROR_TEXT_KEYS :: "string list" where
  "ERROR_TEXT_KEYS = [''name'', ''code'', ''shortMessage'', ''message'', ''details'', ''reason'', ''data'']"

type_synonym walk = "string list \<times> nat list"

text \<open>One key of an object, and the causes after all keys; \<open>rec\<close> walks a value one level deeper.\<close>

definition collect_nested :: "(js_value \<Rightarrow> nat list \<Rightarrow> walk) \<Rightarrow> js_value \<Rightarrow> walk \<Rightarrow> walk" where
  "collect_nested rec v st = (case st of (texts, seen) \<Rightarrow> case rec v seen of (more, seen') \<Rightarrow> (texts @ more, seen'))"

definition collect_key :: "(js_value \<Rightarrow> nat list \<Rightarrow> walk) \<Rightarrow> js_heap \<Rightarrow> nat \<Rightarrow> string \<Rightarrow> walk \<Rightarrow> walk" where
  "collect_key rec heap a key st = (case heap a key of
     JsText s \<Rightarrow> (fst st @ [key @ '': '' @ s], snd st)
   | JsNumber s \<Rightarrow> (fst st @ [key @ '': '' @ s], snd st)
   | v \<Rightarrow> if key = ''data'' \<or> key = ''reason'' then collect_nested rec v st else st)"

text \<open>The walk; \<open>levels\<close> is how many levels are left, five at the start.\<close>

primrec collectErrorText :: "js_heap \<Rightarrow> nat \<Rightarrow> js_value \<Rightarrow> nat list \<Rightarrow> walk" where
  "collectErrorText heap 0 v seen = ([], seen)"
| "collectErrorText heap (Suc levels) v seen = (case v of
     JsText s \<Rightarrow> ([s], seen)
   | JsNumber s \<Rightarrow> ([s], seen)
   | JsBool b \<Rightarrow> ([if b then ''true'' else ''false''], seen)
   | JsRef a \<Rightarrow>
       (if a \<in> set seen then ([], seen)
        else fold (\<lambda>key. collect_nested (collectErrorText heap levels) (heap a key)) [''cause'', ''error'']
          (fold (collect_key (collectErrorText heap levels) heap a) ERROR_TEXT_KEYS ([], a # seen)))
   | _ \<Rightarrow> ([], seen))"

fun join_bar :: "string list \<Rightarrow> string" where
  "join_bar [] = []"
| "join_bar [s] = s"
| "join_bar (s # ss) = s @ '' | '' @ join_bar ss"

definition errorDetail :: "js_heap \<Rightarrow> js_value \<Rightarrow> string" where
  "errorDetail heap v = take 3000 (join_bar (fst (collectErrorText heap 5 v [])))"

section \<open>Classification\<close>

datatype LeopoldErrorCode =
    LE_WRONG_NETWORK | LE_INSUFFICIENT_ETH | LE_INSUFFICIENT_USDC | LE_RELAYER_UNAVAILABLE | LE_CONFIGURATION_MISSING
  | LE_ROUND_CLOSED | LE_USER_REJECTED | LE_RPC_FAILURE | LE_RPC_CONFIGURATION_ERROR | LE_APP_RPC_UNAVAILABLE
  | LE_WALLET_RPC_UNAVAILABLE | LE_WALLET_DISCONNECTED | LE_TRANSACTION_SIMULATION_FAILED | LE_TRANSACTION_SIGNING_FAILED
  | LE_TRANSACTION_CONFIRMATION_FAILED | LE_TRANSACTION_REVERTED | LE_UNSUPPORTED_WALLET | LE_PRIVATE_LIQUIDITY_UNAVAILABLE
  | LE_AUTH_CONFIGURATION_REQUIRED | LE_AUTH_SESSION_EXPIRED | LE_AUTH_ACCOUNT_CONFLICT | LE_FINANCIAL_IDENTITY_REQUIRED
  | LE_FINANCIAL_WALLET_CHANGE_REQUIRES_REAUTH | LE_WALLET_SIGNATURE_REQUIRED | LE_WALLET_SIGNER_MISMATCH | LE_WALLET_MISMATCH
  | LE_NETWORK_SWITCH_UNAVAILABLE | LE_ZAMA_AUTHORIZATION_REQUIRED | LE_UNAUTHORIZED_CIPHERTEXT | LE_DECRYPTION_FAILED
  | LE_WRONG_HANDLE | LE_UNKNOWN

fun first_code :: "(bool \<times> LeopoldErrorCode) list \<Rightarrow> LeopoldErrorCode" where
  "first_code [] = LE_UNKNOWN"
| "first_code ((test, code) # rest) = (if test then code else first_code rest)"

definition starts_with :: "string \<Rightarrow> string \<Rightarrow> bool" where
  "starts_with p s = (take (length p) s = p)"

definition receipt_code :: "string \<Rightarrow> LeopoldErrorCode" where
  "receipt_code lower = (if mentions (words [''status=reverted'', ''reverted'']) lower then LE_TRANSACTION_REVERTED
     else LE_TRANSACTION_CONFIRMATION_FAILED)"

definition wallet_rules :: "string \<Rightarrow> string \<Rightarrow> (bool \<times> LeopoldErrorCode) list" where
  "wallet_rules detail lower =
    [(mentions (words [''wallet_session:user_disconnected'', ''wallet_session:account_changed'', ''wallet_session:provider_disconnected'',
        ''wallet_session:no_active_session'', ''wallet_session:connect_cancelled'']) lower, LE_WALLET_DISCONNECTED),
     (mentions (words [''wallet_session:wrong_network'']) lower, LE_WRONG_NETWORK),
     (mentions (words [''wallet_session:wallet_rpc_unavailable'']) lower, LE_WALLET_RPC_UNAVAILABLE),
     (mentions (words [''wallet_session:app_rpc_unavailable'']) lower, LE_APP_RPC_UNAVAILABLE),
     (mentions (words [''wallet_session:wagmi_'', ''wallet_session:walletclient_'', ''wallet_session:dynamic_'']) lower, LE_WALLET_SIGNER_MISMATCH),
     (mentions (words [''wallet_disconnected'']) lower, LE_WALLET_DISCONNECTED),
     (mentions (words [''wallet_mismatch'']) lower, LE_WALLET_MISMATCH),
     (mentions (words [''wallet_identity:provider_account_unavailable'']) lower, LE_WALLET_DISCONNECTED),
     (mentions (words [''wallet_identity:provider_account_mismatch'']) lower, LE_WALLET_MISMATCH),
     (mentions (words [''wallet_identity:wrong_network'', ''wallet_identity:provider_network_unavailable'']) lower, LE_WRONG_NETWORK),
     (mentions (words [''wallet_identity:wallet_rpc_unavailable'']) lower, LE_WALLET_RPC_UNAVAILABLE),
     (mentions (words [''wallet_identity:app_rpc_unavailable'']) lower, LE_APP_RPC_UNAVAILABLE),
     (mentions (words [''wallet_identity:unknown'']) lower, LE_RPC_FAILURE),
     (starts_with ''wallet_rpc_unavailable'' lower, LE_WALLET_RPC_UNAVAILABLE),
     (starts_with ''app_rpc_unavailable'' lower, LE_APP_RPC_UNAVAILABLE),
     (starts_with ''CONFIGURATION_MISSING'' detail, LE_CONFIGURATION_MISSING)]"

definition common_rules :: "string \<Rightarrow> (bool \<times> LeopoldErrorCode) list" where
  "common_rules lower =
    [(mentions (words [''user rejected'', ''rejected request'', ''4001'']) lower, LE_USER_REJECTED),
     (mentions (words [''wrong_network'', ''wrong chain'', ''chain mismatch'', ''unsupported chain'', ''wrong network'']) lower, LE_WRONG_NETWORK),
     (mentions (words [''private_balance:wrong_account'']) lower, LE_WALLET_SIGNER_MISMATCH),
     (mentions (words [''insufficient funds'', ''insufficient eth'']) lower, LE_INSUFFICIENT_ETH),
     (mentions (words [''insufficient_usdc'', ''insufficient usdc'']) lower, LE_INSUFFICIENT_USDC),
     (mentions (words [''round_closed'', ''roundnotopen'', ''round closed'']) lower, LE_ROUND_CLOSED),
     (mentions (words [''not_entitled'', ''unauthorized_ciphertext'', ''unauthorized ciphertext'', ''handleaccessmanagernotallowed''] @
        [[Lit ''ciphertext'', Gap, Lit ''not authorized'']]) lower, LE_UNAUTHORIZED_CIPHERTEXT),
     (mentions (words [''wrong_handle'', ''stale_handle'', ''no_ciphertext'', ''invalid_handle'']) lower, LE_WRONG_HANDLE),
     (mentions (words [''private_balance:identity_changed'', ''private_balance:stale_request'']) lower, LE_WALLET_SIGNER_MISMATCH),
     (mentions (words [''private_balance:sdk_not_ready'', ''private_balance:signer_not_ready'', ''private_balance:decrypt_request'',
        ''private_balance:result_missing'']) lower, LE_DECRYPTION_FAILED),
     (mentions (words [''decryption_failed'', ''relayer_invalid_decryption_result'']) lower, LE_DECRYPTION_FAILED),
     (mentions (words [''relayer_request_failed'', ''relayer'', ''kms'', ''timeout'', ''socket'']) lower, LE_RELAYER_UNAVAILABLE),
     (mentions (words [''liquid'', ''insufficientmanagedassets'']) lower, LE_PRIVATE_LIQUIDITY_UNAVAILABLE),
     (mentions (words [''auth_configuration_required'']) lower, LE_AUTH_CONFIGURATION_REQUIRED),
     (mentions (words [''auth_session_expired''] @ [[Lit ''session'', Gap, Lit ''expired''], [Lit ''jwt'', Gap, Lit ''expired'']]) lower, LE_AUTH_SESSION_EXPIRED),
     (mentions (words [''auth_account_conflict'']) lower, LE_AUTH_ACCOUNT_CONFLICT),
     (mentions (words [''financial_identity_required'']) lower, LE_FINANCIAL_IDENTITY_REQUIRED),
     (mentions (words [''financial_wallet_change_requires_reauth'']) lower, LE_FINANCIAL_WALLET_CHANGE_REQUIRES_REAUTH),
     (mentions (words [''wallet_signature_required'']) lower, LE_WALLET_SIGNATURE_REQUIRED),
     (mentions (words [''wallet_signer_mismatch'']) lower, LE_WALLET_SIGNER_MISMATCH),
     (mentions (words [''network_switch_unavailable'']) lower, LE_NETWORK_SWITCH_UNAVAILABLE),
     (mentions (words [''zama_authorization_required'']) lower, LE_ZAMA_AUTHORIZATION_REQUIRED)]"

definition transaction_rules :: "string \<Rightarrow> (bool \<times> LeopoldErrorCode) list" where
  "transaction_rules lower =
    [(mentions [[Lit ''withdraw:round_check'', Gap, Lit ''round ended''], [Lit ''withdraw:round_check'', Gap, Lit ''round closed'']] lower, LE_ROUND_CLOSED),
     (mentions (words [''withdraw:round_advance_simulation'', ''withdraw:simulation'', ''withdraw:refresh'']) lower, LE_TRANSACTION_SIMULATION_FAILED),
     (mentions (words [''withdraw:round_advance_wallet_signature'', ''withdraw:wallet_signature'']) lower, LE_TRANSACTION_SIGNING_FAILED),
     (mentions (words [''withdraw:round_advance_receipt'', ''withdraw:receipt'']) lower, receipt_code lower),
     (mentions (words [''save:simulation'']) lower, LE_TRANSACTION_SIMULATION_FAILED),
     (mentions (words [''save:wallet_signature'']) lower, LE_TRANSACTION_SIGNING_FAILED),
     (mentions (words [''save:receipt'']) lower, receipt_code lower),
     (mentions (words [''action_simulation_failed'']) lower, LE_TRANSACTION_SIMULATION_FAILED),
     (mentions (words [''action_signing_failed'']) lower, LE_TRANSACTION_SIGNING_FAILED),
     (mentions (words [''action_confirmation_failed'']) lower, LE_TRANSACTION_CONFIRMATION_FAILED),
     (mentions (words [''action_reverted'']) lower, LE_TRANSACTION_REVERTED),
     (mentions (words [''free plan'', ''upgrade to paid'', ''chain is not available'', ''sepolia.drpc.org'']) lower, LE_WALLET_RPC_UNAVAILABLE),
     (mentions (words [''rpc_configuration_error'']) lower, LE_RPC_CONFIGURATION_ERROR),
     (mentions (words [''rpc'', ''network'', ''fetch'']) lower, LE_RPC_FAILURE)]"

definition classifyLeopoldError :: "js_heap \<Rightarrow> js_value \<Rightarrow> LeopoldErrorCode" where
  "classifyLeopoldError heap v =
     (let detail = errorDetail heap v; lower = toLowerCase detail in
      first_code (wallet_rules detail lower @ common_rules lower @ transaction_rules lower))"

section \<open>What an error object can be\<close>

lemma collect_nested_grows: "prefix (fst st) (fst (collect_nested rec v st))"
  by (cases st) (auto simp: collect_nested_def split: prod.splits)

lemma collect_key_grows: "prefix (fst st) (fst (collect_key rec heap a key st))"
  using collect_nested_grows by (auto simp: collect_key_def split: js_value.splits)

lemma fold_grows:
  assumes "\<And>x st. prefix (fst st) (fst (f x st))"
  shows "prefix (fst st) (fst (fold f xs st))"
proof (induction xs arbitrary: st)
  case (Cons x xs)
  from prefix_order.trans [OF assms [of st x] Cons.IH [of "f x st"]] show ?case by simp
qed simp

text \<open>The text of an object starts with its name, when that is a text.\<close>

lemma name_first:
  assumes "heap a ''name'' = JsText n"
  shows "\<exists>rest. errorDetail heap (JsRef a) = take 3000 (''name: '' @ n @ rest)"
proof -
  let ?rec = "collectErrorText heap 4"
  let ?st = "collect_key ?rec heap a ''name'' ([], [a])"
  let ?walk = "collectErrorText heap 5 (JsRef a) []"
  have st: "fst ?st = [''name: '' @ n]" using assms by (simp add: collect_key_def)
  have walk: "?walk = fold (\<lambda>key. collect_nested ?rec (heap a key)) [''cause'', ''error''] (fold (collect_key ?rec heap a) (tl ERROR_TEXT_KEYS) ?st)"
    by (simp add: ERROR_TEXT_KEYS_def eval_nat_numeral)
  have "prefix (fst ?st) (fst ?walk)"
    unfolding walk by (rule prefix_order.trans [OF fold_grows fold_grows]) (rule collect_key_grows, rule collect_nested_grows)
  then obtain more where "fst ?walk = (''name: '' @ n) # more" unfolding st prefix_def by auto
  moreover have "\<exists>rest. join_bar ((''name: '' @ n) # more) = ''name: '' @ n @ rest" by (cases more) auto
  ultimately show ?thesis by (auto simp: errorDetail_def)
qed

lemma first_code_in: "first_code rules = code \<Longrightarrow> code \<noteq> LE_UNKNOWN \<Longrightarrow> (True, code) \<in> set rules"
  by (induction rules rule: first_code.induct) (auto split: if_splits)

text \<open>
  An error object never counts as missing configuration, although most errors of the client about
  the configuration are meant to: the test looks for the code at the start of the collected text,
  which for an object with a name starts with the name.  The same holds for the two tests that
  look for an unreachable endpoint at the start.
\<close>

theorem errors_never_count_as_configuration:
  assumes "heap a ''name'' = JsText n"
  shows "classifyLeopoldError heap (JsRef a) \<noteq> LE_CONFIGURATION_MISSING \<and>
    \<not> starts_with ''wallet_rpc_unavailable'' (toLowerCase (errorDetail heap (JsRef a))) \<and>
    \<not> starts_with ''app_rpc_unavailable'' (toLowerCase (errorDetail heap (JsRef a)))"
proof -
  let ?detail = "errorDetail heap (JsRef a)"
  obtain r where start: "?detail = CHR ''n'' # r" using name_first [of heap a n] assms by auto
  have "classifyLeopoldError heap (JsRef a) \<noteq> LE_CONFIGURATION_MISSING"
  proof
    assume "classifyLeopoldError heap (JsRef a) = LE_CONFIGURATION_MISSING"
    then have "(True, LE_CONFIGURATION_MISSING) \<in> set (wallet_rules ?detail (toLowerCase ?detail) @ common_rules (toLowerCase ?detail) @
        transaction_rules (toLowerCase ?detail))"
      by (intro first_code_in) (simp_all add: classifyLeopoldError_def Let_def)
    then have "starts_with ''CONFIGURATION_MISSING'' ?detail"
      by (auto simp: wallet_rules_def common_rules_def transaction_rules_def receipt_code_def split: if_splits)
    with start show False by (simp add: starts_with_def)
  qed
  moreover have "lower_char (CHR ''n'') = CHR ''n''" by code_simp
  ultimately show ?thesis using start by (simp add: starts_with_def toLowerCase_def)
qed


text \<open>The error that \<open>requireConfiguredAddress\<close> throws, as an object.\<close>

definition error_object :: "string \<Rightarrow> string \<Rightarrow> js_heap" where
  "error_object name message a key = (if key = ''name'' then JsText name else if key = ''message'' then JsText message else JsUndefined)"

theorem errors_never_count_as_configuration_witness:
  "classifyLeopoldError (error_object ''Error'' ''CONFIGURATION_MISSING:vault'') (JsRef 0) \<noteq> LE_CONFIGURATION_MISSING"
  using errors_never_count_as_configuration [of "error_object ''Error'' ''CONFIGURATION_MISSING:vault''" 0 "''Error''"]
  by (simp add: error_object_def)

end
