(* ===== verification/Client_Provider.thy ===== *)
theory Client_Provider
  imports Client_Classic Client_Errors
begin

text \<open>
  The provider behind the earlier interface (\<open>frontend/components/financial-provider.tsx\<close>): its
  state, the run of a transaction with its stages and record, and the operations it offers.  The
  state is passed along with the chain; an update that React would batch takes effect at once.  The
  callbacks of an action run after it in the order of its events, and the timer set with a hash
  fires before the wait for its receipt ends.  The fixture mode of development builds is left out.
\<close>

section \<open>State\<close>

datatype financial_error =
    Thrown v2_error
  | FromAmount amount_error
  | FromWithdrawal "financial_error withdrawal_error"
  | FromReveal private_balance_error
  | Enriched financial_error

text \<open>The variables of the transaction that runs.\<close>

record exec_vars =
  ex_id :: string
  ex_kind :: string
  ex_latestHash :: "string option"
  ex_activeStage :: TransactionStage
  ex_timer :: bool

record financial_state =
  fp_usdcBalance :: "int option"
  fp_privateBalance :: "int option"
  fp_privateBalanceRevealed :: bool
  fp_privateBalanceHandle :: "string option"
  fp_privateBalanceStatus :: PrivateBalanceStatus
  fp_vaultPositions :: "string \<rightharpoonup> int"
  fp_revealedVaults :: "string set"
  fp_enteredVaults :: "string set"
  fp_privateResults :: "string \<rightharpoonup> int"
  fp_revealedResults :: "string set"
  fp_privateEligibility :: "string \<rightharpoonup> int"
  fp_publicVaultState :: "string \<rightharpoonup> VaultPublicState"
  fp_latestBlockTimestamp :: "int option"
  fp_txStage :: TransactionStage
  fp_txErrorStage :: "TransactionStage option"
  fp_error :: "financial_error option"
  fp_activity :: "(string \<times> string option) list"
  fp_deploymentVerified :: bool
  fp_revealRun :: nat
  fp_storage :: transaction_storage
  fp_now :: int
  fp_exec :: exec_vars

text \<open>
  What surrounds the provider.  \<open>fe_meanwhile\<close> is what other handlers do to the state while a
  private read or reveal is awaited; \<open>fe_roundWeights\<close> are the weight events in a receipt, with
  round, account and handle.
\<close>

record 'w financial_env =
  fe_viem :: viem
  fe_config :: LeopoldConfig
  fe_account :: "string option"
  fe_publicReadAccount :: "string option"
  fe_verifiedAddress :: "string option"
  fe_publicClient :: "'w PublicClient option"
  fe_walletClients :: "'w ActionClients option"
  fe_ethereum :: bool
  fe_privateClients :: "'w \<Rightarrow> 'w PrivateBalanceClients"
  fe_session :: "('w, unit) client_read"
  fe_financialAuthorized :: bool
  fe_networkHealthy :: bool
  fe_ethBalance :: "int option"
  fe_randomUUID :: string
  fe_tick :: "int \<Rightarrow> int"
  fe_parseUnits :: "string \<Rightarrow> nat \<Rightarrow> int"
  fe_roundWeights :: "string \<Rightarrow> (js_error, 'w, (int \<times> string \<times> string) list) eff"
  fe_meanwhile :: "financial_state \<Rightarrow> financial_state"

type_synonym 'w provider = "('w client_world \<times> action_event list) \<times> financial_state"
type_synonym ('w, 'a) fin_op = "(financial_error, 'w provider, 'a) eff"

definition update_state :: "(financial_state \<Rightarrow> financial_state) \<Rightarrow> ('w, unit) fin_op" where
  "update_state f s = (Inr (), (fst s, f (snd s)))"

definition look :: "(financial_state \<Rightarrow> 'a) \<Rightarrow> ('w, 'a) fin_op" where
  "look f s = (Inr (f (snd s)), s)"

definition raise :: "string \<Rightarrow> ('w, 'a) fin_op" where
  "raise message = throw (Thrown (Plain (JsError ''Error'' message)))"

section \<open>Stages and records\<close>

definition persist_stage :: "'w financial_env \<Rightarrow> TransactionStage \<Rightarrow> string option \<Rightarrow> TransactionStage option \<Rightarrow> financial_state \<Rightarrow> financial_state" where
  "persist_stage env stage hash errorStage st = (case fe_account env of
     None \<Rightarrow> st
   | Some account \<Rightarrow>
       let latestHash = (if truthy hash then hash else ex_latestHash (fp_exec st)) in
       st\<lparr>fp_exec := (fp_exec st)\<lparr>ex_latestHash := latestHash\<rparr>,
          fp_storage := persistSafeTransaction \<lparr>sr_id = ex_id (fp_exec st), sr_kind = ex_kind (fp_exec st), sr_operationId = None,
            sr_operationStage = None, sr_hash = (case hash of Some h \<Rightarrow> Some h | None \<Rightarrow> latestHash), sr_chainId = LEOPOLD_CHAIN_ID,
            sr_account = account, sr_stage = stage, sr_errorStage = errorStage, sr_updatedAt = fp_now st\<rparr> (fp_storage st),
          fp_now := fe_tick env (fp_now st)\<rparr>)"

definition show_stage :: "TransactionStage \<Rightarrow> financial_state \<Rightarrow> financial_state" where
  "show_stage stage st = st\<lparr>fp_txStage := stage, fp_exec := (fp_exec st)\<lparr>ex_activeStage := stage\<rparr>\<rparr>"

definition fire_timer :: "financial_state \<Rightarrow> financial_state" where
  "fire_timer st = (if ex_timer (fp_exec st) then st\<lparr>fp_txStage := ST_CONFIRMING, fp_exec := (fp_exec st)\<lparr>ex_timer := False\<rparr>\<rparr> else st)"

fun handle_financial :: "'w financial_env \<Rightarrow> action_event \<Rightarrow> financial_state \<Rightarrow> financial_state" where
  "handle_financial env (OnHash hash mark) st =
     (let st1 = persist_stage env ST_SUBMITTED (Some hash) None (show_stage ST_SUBMITTED st)
      in st1\<lparr>fp_exec := (fp_exec st1)\<lparr>ex_timer := True\<rparr>\<rparr>)"
| "handle_financial env (OnTransactionStage stage) st = show_stage stage st"
| "handle_financial env (OnReceipt hash mark) st = fire_timer st"
| "handle_financial env ev st = st"

text \<open>
  An operation on the chain, with the callbacks its clients were made with: none, the one for hashes
  or the one for stages as well.
\<close>

datatype callbacks = NoCallbacks | HashOnly | HashAndStages

fun hears :: "callbacks \<Rightarrow> action_event \<Rightarrow> bool" where
  "hears NoCallbacks ev = False"
| "hears HashOnly (OnTransactionStage stage) = False"
| "hears cb ev = True"

definition hearing :: "'w financial_env \<Rightarrow> callbacks \<Rightarrow> ('w, 'a) v2_op \<Rightarrow> ('w, 'a) fin_op" where
  "hearing env cb m s = (case m (fst s) of (r, c) \<Rightarrow>
     let st = fire_timer (fold (handle_financial env) (filter (hears cb) (drop (length (snd (fst s))) (snd c))) (snd s)) in
     case r of Inl e \<Rightarrow> (Inl (Thrown e), (c, st)) | Inr a \<Rightarrow> (Inr a, (c, st)))"

abbreviation on_chain :: "'w financial_env \<Rightarrow> ('w, 'a) v2_op \<Rightarrow> ('w, 'a) fin_op" where
  "on_chain env \<equiv> hearing env HashAndStages"

definition on_read :: "'w financial_env \<Rightarrow> ('w, 'a) client_read \<Rightarrow> ('w, 'a) fin_op" where
  "on_read env m = on_chain env (client_read m Plain)"

definition on_reveal :: "('w, 'a) reveal_op \<Rightarrow> ('w, 'a) fin_op" where
  "on_reveal m s = (case m (cw_world (fst (fst s))) of
     (Inl e, w) \<Rightarrow> (Inl (FromReveal e), (((fst (fst s))\<lparr>cw_world := w\<rparr>, snd (fst s)), snd s))
   | (Inr a, w) \<Rightarrow> (Inr a, (((fst (fst s))\<lparr>cw_world := w\<rparr>, snd (fst s)), snd s)))"

section \<open>Guards and reads\<close>

definition ensureFinancialAccess :: "'w financial_env \<Rightarrow> ('w, unit) fin_op" where
  "ensureFinancialAccess env = catch_eff (on_read env (fe_session env))
     (\<lambda>e. bind_eff (update_state (\<lambda>st. st\<lparr>fp_error := Some e\<rparr>)) (\<lambda>_. throw e))"

text \<open>The clients of the wallet for the account, with the public client.\<close>

definition live_clients :: "'w financial_env \<Rightarrow> bool \<Rightarrow> ('w, 'w PublicClient \<times> 'w ActionClients) fin_op" where
  "live_clients env requireEthereum = (case (fe_publicClient env, fe_walletClients env, fe_account env) of
     (Some p, Some c, Some account) \<Rightarrow>
       (if requireEthereum \<and> \<not> fe_ethereum env then raise ''UNSUPPORTED_WALLET:ethereum-provider-required''
        else ret (p, c\<lparr>ac_clients := (ac_clients c)\<lparr>vc_account := account\<rparr>\<rparr>))
   | _ \<Rightarrow> raise ''UNSUPPORTED_WALLET'')"

definition configured_address :: "CheckedAddress \<Rightarrow> string \<Rightarrow> ('w, string) fin_op" where
  "configured_address item label = (case requireConfiguredAddress item label of Inl e \<Rightarrow> throw (Thrown (Plain e)) | Inr a \<Rightarrow> ret a)"

definition vault_of :: "'w financial_env \<Rightarrow> string \<Rightarrow> ('w, LeopoldVaultConfig) fin_op" where
  "vault_of env slug = (case getVaultConfig (fe_config env) slug of None \<Rightarrow> raise ''CONFIGURATION_MISSING:vault'' | Some vault \<Rightarrow> ret vault)"

definition readLiveVaultRound ::
  "'w financial_env \<Rightarrow> string \<Rightarrow> 'w PublicClient \<times> 'w ActionClients \<Rightarrow> ('w, LeopoldVaultConfig \<times> VaultPublicState \<times> int) fin_op" where
  "readLiveVaultRound env slug clients =
     bind_eff (vault_of env slug) (\<lambda>vault.
     bind_eff (on_read env (readLatestBlock (fst clients))) (\<lambda>latestBlock.
     bind_eff (on_read env (readVaultPublicState (fst clients) vault (ac_account (snd clients)) (Some (cb_number latestBlock)))) (\<lambda>liveState.
     bind_eff (update_state (\<lambda>st. st\<lparr>fp_publicVaultState := (fp_publicVaultState st)(slug \<mapsto> liveState),
        fp_latestBlockTimestamp := Some (cb_timestamp latestBlock)\<rparr>)) (\<lambda>_.
     ret (vault, liveState, cb_timestamp latestBlock)))))"

definition requireLiveOpenRound :: "'w financial_env \<Rightarrow> string \<Rightarrow> 'w PublicClient \<times> 'w ActionClients \<Rightarrow> ('w, VaultPublicState) fin_op" where
  "requireLiveOpenRound env slug clients =
     bind_eff (readLiveVaultRound env slug clients) (\<lambda>(vault, state, blockTimestamp).
     if \<not> er_depositOpen (getEffectiveVaultRoundStatus (Some state) (Some blockTimestamp))
     then raise (''ROUND_CLOSED:'' @ lv_name vault @ '':'' @ int_to_string (vp_roundId state)) else ret state)"

definition requireVerified :: "('w, unit) fin_op" where
  "requireVerified = bind_eff (look fp_deploymentVerified) (\<lambda>verified.
     if \<not> verified then raise ''CONFIGURATION_MISSING:deployment integrity not verified'' else ret ())"

definition hide_balance :: "PrivateBalanceStatus \<Rightarrow> financial_state \<Rightarrow> financial_state" where
  "hide_balance status st = st\<lparr>fp_privateBalanceHandle := None, fp_privateBalance := None, fp_privateBalanceRevealed := False,
     fp_privateBalanceStatus := status\<rparr>"

definition invalidatePrivateBalance :: "financial_state \<Rightarrow> financial_state" where
  "invalidatePrivateBalance st = hide_balance PB_UNREAD (st\<lparr>fp_revealRun := Suc (fp_revealRun st)\<rparr>)"

text \<open>The handle of the private balance, read anew; a run that was superseded changes nothing.\<close>

definition private_token :: "'w financial_env \<Rightarrow> string option" where
  "private_token env = ca_address (lc_lcUsdc (fe_config env))"

definition current_identity :: "'w financial_env \<Rightarrow> string \<Rightarrow> ('w, PrivateBalanceIdentity) reveal_op" where
  "current_identity env token w = readCurrentPrivateBalanceHandle (private_token env) (fe_privateClients env w) token w"

definition begin_reveal_run :: "('w, nat) fin_op" where
  "begin_reveal_run = bind_eff (update_state (\<lambda>st. st\<lparr>fp_revealRun := Suc (fp_revealRun st)\<rparr>)) (\<lambda>_. look fp_revealRun)"

definition awaited :: "'w financial_env \<Rightarrow> ('w, 'a) fin_op \<Rightarrow> ('w, 'a) fin_op" where
  "awaited env m s = (case m s of (r, s') \<Rightarrow> (r, (fst s', fe_meanwhile env (snd s'))))"

definition if_current :: "nat \<Rightarrow> (financial_state \<Rightarrow> financial_state) \<Rightarrow> ('w, unit) fin_op" where
  "if_current runId f = bind_eff (look fp_revealRun) (\<lambda>now. if runId \<noteq> now then ret () else update_state f)"

definition refreshPrivateBalanceHandle :: "'w financial_env \<Rightarrow> ('w, unit) fin_op" where
  "refreshPrivateBalanceHandle env =
     bind_eff begin_reveal_run (\<lambda>runId.
     if \<not> fe_financialAuthorized env \<or> fe_account env = None \<or> fe_publicClient env = None \<or> fe_walletClients env = None
     then update_state invalidatePrivateBalance
     else bind_eff (configured_address (lc_lcUsdc (fe_config env)) ''Private USDC'') (\<lambda>token.
       bind_eff (update_state (\<lambda>st. st\<lparr>fp_privateBalanceStatus := PB_READING_HANDLE\<rparr>)) (\<lambda>_.
       catch_eff
         (bind_eff (awaited env (on_reveal (current_identity env token))) (\<lambda>identity.
          if_current runId (\<lambda>st. (hide_balance PB_NOT_REVEALED st)\<lparr>fp_privateBalanceHandle := Some (pb_handle identity)\<rparr>)))
         (\<lambda>e. if_current runId (\<lambda>st. (hide_balance PB_REVEAL_FAILED st)\<lparr>fp_error := Some e\<rparr>)))))"

definition addActivity :: "string \<Rightarrow> string option \<Rightarrow> ('w, unit) fin_op" where
  "addActivity label vault = update_state (\<lambda>st. st\<lparr>fp_activity := take 12 ((label, vault) # fp_activity st)\<rparr>)"

section \<open>The run of a transaction\<close>

definition start_exec :: "'w financial_env \<Rightarrow> string \<Rightarrow> financial_state \<Rightarrow> financial_state" where
  "start_exec env kind st = st\<lparr>fp_error := None, fp_txErrorStage := None, fp_txStage := ST_WALLET,
     fp_exec := \<lparr>ex_id = fe_randomUUID env, ex_kind = kind, ex_latestHash = None, ex_activeStage = ST_WALLET, ex_timer = False\<rparr>\<rparr>"

definition fail_exec :: "'w financial_env \<Rightarrow> financial_error \<Rightarrow> financial_state \<Rightarrow> financial_state" where
  "fail_exec env e st =
     (let active = ex_activeStage (fp_exec st)
      in persist_stage env ST_FAILED None (Some active)
           (st\<lparr>fp_error := Some e, fp_txErrorStage := Some active, fp_txStage := ST_FAILED\<rparr>))"

definition finish_exec :: "'w financial_env \<Rightarrow> bool \<Rightarrow> financial_state \<Rightarrow> financial_state" where
  "finish_exec env completesAfterReceipt st =
     (let st1 = show_stage ST_PRIVATE st;
          st2 = (if completesAfterReceipt then st1\<lparr>fp_txStage := ST_COMPLETE\<rparr> else st1)
      in persist_stage env (if completesAfterReceipt then ST_COMPLETE else ST_PRIVATE) None None st2)"

definition execute_fin :: "'w financial_env \<Rightarrow> string \<Rightarrow> ('w, unit) fin_op \<Rightarrow> bool \<Rightarrow> ('w, unit) fin_op" where
  "execute_fin env kind action completesAfterReceipt =
     bind_eff (update_state (start_exec env kind)) (\<lambda>_.
     catch_eff
       (bind_eff (ensureFinancialAccess env) (\<lambda>_.
        bind_eff (update_state (persist_stage env ST_WALLET None None)) (\<lambda>_.
        bind_eff action (\<lambda>_.
        bind_eff (refreshPrivateBalanceHandle env) (\<lambda>_.
        update_state (finish_exec env completesAfterReceipt))))))
       (\<lambda>e. bind_eff (update_state (fail_exec env e)) (\<lambda>_. throw e)))"

definition txLabel :: "financial_state \<Rightarrow> string" where
  "txLabel st = (case fp_txErrorStage st of
     Some e \<Rightarrow> if fp_txStage st = ST_FAILED then ''Failed during '' @ transactionStageLabel e else transactionStageLabel (fp_txStage st)
   | None \<Rightarrow> transactionStageLabel (fp_txStage st))"

section \<open>Public state\<close>

definition read_states :: "'w financial_env \<Rightarrow> 'w PublicClient \<Rightarrow> string \<Rightarrow> int \<Rightarrow> ('w, (string \<times> VaultPublicState) list) fin_op" where
  "read_states env p account number = map_eff (\<lambda>vault.
     bind_eff (on_read env (readVaultPublicState p vault account (Some number))) (\<lambda>state. ret (lv_slug vault, state))) (lc_vaults (fe_config env))"

definition refresh_fin :: "'w financial_env \<Rightarrow> ('w, unit) fin_op" where
  "refresh_fin env = (case (fe_publicReadAccount env, fe_publicClient env) of
     (Some account, Some p) \<Rightarrow> catch_eff
       (bind_eff (on_read env (readLatestBlock p)) (\<lambda>latestBlock.
        bind_eff (on_read env (readUsdcBalance p (CANONICAL_USDC (fe_viem env)) account)) (\<lambda>balance.
        bind_eff (update_state (\<lambda>st. st\<lparr>fp_usdcBalance := Some balance\<rparr>)) (\<lambda>_.
        bind_eff
          (if lc_ready (fe_config env)
           then bind_eff (on_read env (validateConfiguredDeployment (fe_viem env) p (fe_config env))) (\<lambda>_.
             bind_eff (update_state (\<lambda>st. st\<lparr>fp_deploymentVerified := True\<rparr>)) (\<lambda>_.
             bind_eff (read_states env p account (cb_number latestBlock)) (\<lambda>states.
             update_state (\<lambda>st. st\<lparr>fp_publicVaultState := map_of (rev states),
               fp_enteredVaults := set (map fst (filter (\<lambda>(slug, state). vp_entered state) states))\<rparr>))))
           else ret ()) (\<lambda>_.
        update_state (\<lambda>st. st\<lparr>fp_latestBlockTimestamp := Some (cb_timestamp latestBlock)\<rparr>))))))
       (\<lambda>e. if fe_networkHealthy env \<and> fe_financialAuthorized env then update_state (\<lambda>st. st\<lparr>fp_error := Some e\<rparr>) else ret ())
   | _ \<Rightarrow> ret ())"

text \<open>A change of the identity, the session or the wallet forgets everything that was revealed.\<close>

definition activity_labels :: "(string \<times> string) list" where
  "activity_labels = [(''get-test-usdc'', ''Received test USDC''), (''make-private'', ''Made USDC private''), (''save'', ''Saved privately''),
     (''enter-round'', ''Entered prize round''), (''withdraw'', ''Withdrew savings''), (''make-public'', ''Requested public USDC''),
     (''claim-refund'', ''Claimed bond refund''), (''claim-reward'', ''Claimed settlement reward'')]"

definition activity_label :: "string \<Rightarrow> string" where
  "activity_label kind = (case map_of activity_labels kind of None \<Rightarrow> ''Leopold transaction'' | Some label \<Rightarrow> label)"

definition identity_changed :: "'w financial_env \<Rightarrow> financial_state \<Rightarrow> financial_state" where
  "identity_changed env st = (invalidatePrivateBalance st)\<lparr>fp_vaultPositions := Map.empty, fp_revealedVaults := {},
     fp_privateResults := Map.empty, fp_revealedResults := {}, fp_privateEligibility := Map.empty,
     fp_activity := (case fe_verifiedAddress env of
       None \<Rightarrow> []
     | Some a \<Rightarrow> map (\<lambda>item. (activity_label (sr_kind item), None)) (loadSafeTransactions a (fp_storage st)))\<rparr>"


section \<open>The operations\<close>

definition parsed_amount :: "'w financial_env \<Rightarrow> string \<Rightarrow> ('w, int) fin_op" where
  "parsed_amount env input = (case parseUsdcAmount (fe_parseUnits env) input of Inl e \<Rightarrow> throw (FromAmount e) | Inr n \<Rightarrow> ret n)"

definition done_with :: "'w financial_env \<Rightarrow> string \<Rightarrow> string option \<Rightarrow> ('w, unit) fin_op" where
  "done_with env label vault = bind_eff (addActivity label vault) (\<lambda>_. refresh_fin env)"

definition above :: "int \<Rightarrow> int option \<Rightarrow> bool" where
  "above n limit = (case limit of None \<Rightarrow> False | Some m \<Rightarrow> n > m)"

definition acquireUsdc_action :: "'w financial_env \<Rightarrow> ('w, unit) fin_op" where
  "acquireUsdc_action env =
     bind_eff (live_clients env False) (\<lambda>(p, c).
     bind_eff (hearing env HashOnly (getTestUsdc (ac_clients c))) (\<lambda>_.
     done_with env ''Received test USDC'' None))"

definition makePrivate_action :: "'w financial_env \<Rightarrow> string \<Rightarrow> ('w, unit) fin_op" where
  "makePrivate_action env input =
     bind_eff (parsed_amount env input) (\<lambda>amount.
     bind_eff (look fp_usdcBalance) (\<lambda>usdcBalance.
     if above amount usdcBalance then raise ''INSUFFICIENT_USDC''
     else bind_eff requireVerified (\<lambda>_.
       bind_eff (live_clients env False) (\<lambda>(p, c).
       bind_eff (configured_address (lc_lcUsdc (fe_config env)) ''Private USDC'') (\<lambda>lcUsdc.
       bind_eff (on_chain env (makePrivate (fe_viem env) c lcUsdc amount)) (\<lambda>_.
       bind_eff (update_state invalidatePrivateBalance) (\<lambda>_.
       done_with env ''Made USDC private'' None)))))))"

definition save_action :: "'w financial_env \<Rightarrow> string \<Rightarrow> string \<Rightarrow> ('w, unit) fin_op" where
  "save_action env slug input =
     bind_eff (parsed_amount env input) (\<lambda>amount.
     bind_eff (look fp_privateBalance) (\<lambda>privateBalance.
     if above amount privateBalance then raise ''INSUFFICIENT_USDC''
     else bind_eff (vault_of env slug) (\<lambda>vault.
       bind_eff requireVerified (\<lambda>_.
       bind_eff (live_clients env True) (\<lambda>clients.
       bind_eff (configured_address (lv_vault vault) (lv_name vault @ '' vault'')) (\<lambda>vaultAddress.
       bind_eff (requireLiveOpenRound env slug clients) (\<lambda>_.
       bind_eff (configured_address (lc_lcUsdc (fe_config env)) ''Private USDC'') (\<lambda>lcUsdc.
       bind_eff (on_chain env (savePrivately (fe_config env) (snd clients) lcUsdc vaultAddress amount)) (\<lambda>_.
       bind_eff (addActivity (''Saved to '' @ lv_name vault @ '' Vault'') (Some (lv_name vault))) (\<lambda>_.
       bind_eff (update_state (show_stage ST_SAVE_POST_REFRESH)) (\<lambda>_. refresh_fin env)))))))))))"

definition enterRound_action :: "'w financial_env \<Rightarrow> string \<Rightarrow> ('w, unit) fin_op" where
  "enterRound_action env slug =
     bind_eff (vault_of env slug) (\<lambda>vault.
     bind_eff requireVerified (\<lambda>_.
     bind_eff (live_clients env True) (\<lambda>clients.
     bind_eff (requireLiveOpenRound env slug clients) (\<lambda>state.
     if or_zero (fe_ethBalance env) < vp_bondAmount state then raise ''INSUFFICIENT_ETH''
     else bind_eff (configured_address (lv_bondEscrow vault) (lv_name vault @ '' escrow'')) (\<lambda>escrow.
       bind_eff (hearing env HashOnly (enterPrizeRound (snd clients) escrow (vp_roundId state) (vp_bondAmount state))) (\<lambda>_.
       done_with env (''Entered '' @ lv_name vault @ '' prize round'') (Some (lv_name vault))))))))"

text \<open>The preparation of a withdrawal on the provider's state, with its stages shown.\<close>

definition read_withdrawal_round ::
  "'w financial_env \<Rightarrow> string \<Rightarrow> 'w PublicClient \<times> 'w ActionClients \<Rightarrow> ('w, WithdrawalRoundSnapshot) fin_op" where
  "read_withdrawal_round env slug clients =
     bind_eff (readLiveVaultRound env slug clients) (\<lambda>(vault, state, blockTimestamp).
     let status = getEffectiveVaultRoundStatus (Some state) (Some blockTimestamp) in
     ret \<lparr>wr_canWithdrawNow = er_depositOpen status, wr_canPrepareWithdrawal = canPrepareVaultWithdrawal (Some state) (Some blockTimestamp),
          wr_reason = Some (er_label status)\<rparr>)"

definition prepare_withdrawal ::
  "'w financial_env \<Rightarrow> string \<Rightarrow> 'w PublicClient \<times> 'w ActionClients \<Rightarrow> string \<Rightarrow> ('w, WithdrawalRoundSnapshot) fin_op" where
  "prepare_withdrawal env slug clients vaultAddress s =
     (case prepareWithdrawalRound (read_withdrawal_round env slug clients)
        (bind_eff (on_chain env (closeExpiredRound (snd clients) vaultAddress)) (\<lambda>_. ret ()))
        (\<lambda>stage p. (fst p, show_stage stage (snd p))) (s, []) of
      (Inl e, (s', _)) \<Rightarrow> (Inl (FromWithdrawal e), s')
    | (Inr r, (s', _)) \<Rightarrow> (Inr r, s'))"

definition withdraw_action :: "'w financial_env \<Rightarrow> string \<Rightarrow> string \<Rightarrow> ('w, unit) fin_op" where
  "withdraw_action env slug input =
     bind_eff (parsed_amount env input) (\<lambda>amount.
     bind_eff (vault_of env slug) (\<lambda>vault.
     bind_eff (look (\<lambda>st. slug \<in> fp_revealedVaults st \<and> or_zero (fp_vaultPositions st slug) = 0)) (\<lambda>nothing_saved.
     if nothing_saved then raise ''INSUFFICIENT_USDC''
     else bind_eff requireVerified (\<lambda>_.
       bind_eff (live_clients env True) (\<lambda>clients.
       bind_eff (configured_address (lv_vault vault) (lv_name vault @ '' vault'')) (\<lambda>vaultAddress.
       bind_eff (prepare_withdrawal env slug clients vaultAddress) (\<lambda>_.
       bind_eff (configured_address (lv_vault vault) (lv_name vault @ '' vault'')) (\<lambda>target.
       bind_eff (on_chain env (withdrawSavings (snd clients) target amount)) (\<lambda>_.
       done_with env (''Withdrew from '' @ lv_name vault @ '' Vault'') (Some (lv_name vault)))))))))))"

definition makePublic_action :: "'w financial_env \<Rightarrow> string \<Rightarrow> ('w, unit) fin_op" where
  "makePublic_action env input =
     bind_eff (parsed_amount env input) (\<lambda>amount.
     bind_eff requireVerified (\<lambda>_.
     bind_eff (live_clients env True) (\<lambda>clients.
     bind_eff (configured_address (lc_lcUsdc (fe_config env)) ''Private USDC'') (\<lambda>lcUsdc.
     bind_eff (hearing env HashOnly (requestMakePublic (snd clients) lcUsdc amount)) (\<lambda>_.
     done_with env ''Requested public USDC'' None)))))"

definition claimRefund_action :: "'w financial_env \<Rightarrow> string \<Rightarrow> ('w, unit) fin_op" where
  "claimRefund_action env slug =
     bind_eff (look (\<lambda>st. fp_publicVaultState st slug)) (\<lambda>known.
     case (getVaultConfig (fe_config env) slug, known) of
       (Some vault, Some state) \<Rightarrow>
         bind_eff requireVerified (\<lambda>_.
         bind_eff (live_clients env True) (\<lambda>clients.
         bind_eff (configured_address (lv_bondEscrow vault) (lv_name vault @ '' escrow'')) (\<lambda>escrow.
         bind_eff (hearing env HashOnly (claimBondRefund (snd clients) escrow (vp_roundId state))) (\<lambda>_.
         done_with env ''Claimed bond refund'' (Some (lv_name vault))))))
     | _ \<Rightarrow> raise ''REFUND_UNAVAILABLE'')"

definition claimRewards_action :: "'w financial_env \<Rightarrow> string \<Rightarrow> ('w, unit) fin_op" where
  "claimRewards_action env slug =
     bind_eff (vault_of env slug) (\<lambda>vault.
     bind_eff requireVerified (\<lambda>_.
     bind_eff (live_clients env True) (\<lambda>clients.
     bind_eff (configured_address (lv_bondEscrow vault) (lv_name vault @ '' escrow'')) (\<lambda>escrow.
     bind_eff (hearing env HashOnly (claimSettlementRewards (snd clients) escrow)) (\<lambda>_.
     done_with env ''Claimed settlement reward'' (Some (lv_name vault)))))))"

text \<open>What the interface offers as a transaction.\<close>

datatype financial_action =
    AcquireUsdc | MakeUsdcPrivate string | SaveTo string string | EnterRound string | WithdrawFrom string string
  | MakeUsdcPublic string | ClaimRefund string | ClaimRewards string

fun financial_kind :: "financial_action \<Rightarrow> string" where
  "financial_kind AcquireUsdc = ''get-test-usdc''"
| "financial_kind (MakeUsdcPrivate input) = ''make-private''"
| "financial_kind (SaveTo slug input) = ''save''"
| "financial_kind (EnterRound slug) = ''enter-round''"
| "financial_kind (WithdrawFrom slug input) = ''withdraw''"
| "financial_kind (MakeUsdcPublic input) = ''make-public''"
| "financial_kind (ClaimRefund slug) = ''claim-refund''"
| "financial_kind (ClaimRewards slug) = ''claim-reward''"

fun financial_body :: "'w financial_env \<Rightarrow> financial_action \<Rightarrow> ('w, unit) fin_op" where
  "financial_body env AcquireUsdc = acquireUsdc_action env"
| "financial_body env (MakeUsdcPrivate input) = makePrivate_action env input"
| "financial_body env (SaveTo slug input) = save_action env slug input"
| "financial_body env (EnterRound slug) = enterRound_action env slug"
| "financial_body env (WithdrawFrom slug input) = withdraw_action env slug input"
| "financial_body env (MakeUsdcPublic input) = makePublic_action env input"
| "financial_body env (ClaimRefund slug) = claimRefund_action env slug"
| "financial_body env (ClaimRewards slug) = claimRewards_action env slug"

definition run_financial :: "'w financial_env \<Rightarrow> financial_action \<Rightarrow> ('w, unit) fin_op" where
  "run_financial env action = execute_fin env (financial_kind action) (financial_body env action) True"

section \<open>Revealing\<close>

definition ensurePrivateRevealAccess :: "'w financial_env \<Rightarrow> ('w, unit) fin_op" where
  "ensurePrivateRevealAccess env = ensureFinancialAccess env"

definition reveal_wanted :: "'w financial_env \<Rightarrow> ('w, PrivateBalanceIdentity \<times> int) fin_op" where
  "reveal_wanted env =
     bind_eff (ensurePrivateRevealAccess env) (\<lambda>_.
     bind_eff requireVerified (\<lambda>_.
     bind_eff (live_clients env False) (\<lambda>(p, c).
     bind_eff (configured_address (lc_lcUsdc (fe_config env)) ''Private USDC'') (\<lambda>token.
     bind_eff (on_chain env (client_call (vc_walletChainId (ac_clients c)) Plain)) (\<lambda>chainId.
     if map_option toLowerCase (fe_verifiedAddress env) \<noteq> Some (toLowerCase (ac_account c)) then raise ''PRIVATE_BALANCE:WRONG_ACCOUNT''
     else on_reveal (\<lambda>w. revealPrivateBalanceFromCurrentHandle (private_token env) (fe_privateClients env w) (fe_privateClients env) token w))))))"

text \<open>
  The reveal of the private balance.  The statuses shown in between are overwritten at its end and
  left out; a new read of the handle after a stale one runs in the background.
\<close>

definition show_revealed :: "PrivateBalanceIdentity \<times> int \<Rightarrow> financial_state \<Rightarrow> financial_state" where
  "show_revealed shown st = st\<lparr>fp_privateBalanceHandle := Some (pb_handle (fst shown)), fp_privateBalance := Some (snd shown),
     fp_privateBalanceRevealed := True, fp_privateBalanceStatus := PB_REVEALED\<rparr>"

definition show_reveal_failure :: "financial_error \<Rightarrow> financial_state \<Rightarrow> financial_state" where
  "show_reveal_failure e st = st\<lparr>fp_privateBalance := None, fp_privateBalanceRevealed := False,
     fp_privateBalanceStatus := PB_REVEAL_FAILED, fp_error := Some (Enriched e)\<rparr>"

definition revealPrivateBalance :: "'w financial_env \<Rightarrow> ('w, unit) fin_op" where
  "revealPrivateBalance env =
     bind_eff (update_state (\<lambda>st. st\<lparr>fp_error := None\<rparr>)) (\<lambda>_.
     bind_eff begin_reveal_run (\<lambda>runId.
     bind_eff (update_state (\<lambda>st. st\<lparr>fp_privateBalanceHandle := None, fp_privateBalanceStatus := PB_READING_HANDLE\<rparr>)) (\<lambda>_.
     catch_eff
       (bind_eff (awaited env (reveal_wanted env)) (\<lambda>shown.
        bind_eff (look fp_revealRun) (\<lambda>now.
        if runId \<noteq> now then raise ''PRIVATE_BALANCE:STALE_REQUEST'' else update_state (show_revealed shown))))
       (\<lambda>e. bind_eff (look fp_revealRun) (\<lambda>now.
        if runId \<noteq> now then throw e
        else bind_eff (update_state (show_reveal_failure e)) (\<lambda>_. throw (Enriched e)))))))"

definition hidePrivateBalance :: "financial_state \<Rightarrow> financial_state" where
  "hidePrivateBalance st = st\<lparr>fp_privateBalanceRevealed := False, fp_privateBalanceStatus := PB_NOT_REVEALED\<rparr>"

definition hideVault :: "string \<Rightarrow> financial_state \<Rightarrow> financial_state" where
  "hideVault slug st = st\<lparr>fp_revealedVaults := fp_revealedVaults st - {slug}\<rparr>"

text \<open>The decryption of a handle of the account in a vault.\<close>

definition reveal_handle :: "'w financial_env \<Rightarrow> LeopoldVaultConfig \<Rightarrow> bool \<Rightarrow> ('w, int) fin_op" where
  "reveal_handle env vault for_principal =
     bind_eff requireVerified (\<lambda>_.
     bind_eff (live_clients env True) (\<lambda>(p, c).
     bind_eff (configured_address (lv_vault vault) (lv_name vault @ '' vault'')) (\<lambda>vaultAddress.
     bind_eff (on_read env (readPrivateHandle p vaultAddress (ac_account c) for_principal)) (\<lambda>handle.
     on_chain env (client_call (vc_decryptPrivateValue (ac_clients c) vaultAddress handle) Plain)))))"

definition revealVault :: "'w financial_env \<Rightarrow> string \<Rightarrow> ('w, unit) fin_op" where
  "revealVault env slug =
     bind_eff (ensurePrivateRevealAccess env) (\<lambda>_.
     bind_eff (vault_of env slug) (\<lambda>vault.
     bind_eff (reveal_handle env vault True) (\<lambda>clear.
     update_state (\<lambda>st. st\<lparr>fp_vaultPositions := (fp_vaultPositions st)(slug \<mapsto> clear), fp_revealedVaults := insert slug (fp_revealedVaults st)\<rparr>))))"

definition revealResult_fin :: "'w financial_env \<Rightarrow> string \<Rightarrow> ('w, unit) fin_op" where
  "revealResult_fin env slug =
     bind_eff (ensurePrivateRevealAccess env) (\<lambda>_.
     bind_eff (look (\<lambda>st. (slug \<in> fp_enteredVaults st, map_option vp_state (fp_publicVaultState st slug)))) (\<lambda>(entered, state).
     if \<not> entered then raise ''NOT_ENTERED''
     else bind_eff (vault_of env slug) (\<lambda>vault.
       if state \<noteq> Some 14 then raise ''PRIVATE_RESULT_NOT_READY''
       else bind_eff (reveal_handle env vault False) (\<lambda>clear.
         update_state (\<lambda>st. st\<lparr>fp_privateResults := (fp_privateResults st)(slug \<mapsto> clear), fp_revealedResults := insert slug (fp_revealedResults st)\<rparr>)))))"

definition weight_handle :: "int \<Rightarrow> string \<Rightarrow> (int \<times> string \<times> string) list \<Rightarrow> string option" where
  "weight_handle roundId account logs =
     map_option (\<lambda>(_, _, handle). handle) (find (\<lambda>(r, a, _). r = roundId \<and> toLowerCase a = toLowerCase account) logs)"

definition revealEligibility :: "'w financial_env \<Rightarrow> string \<Rightarrow> ('w, unit) fin_op" where
  "revealEligibility env slug =
     bind_eff (ensurePrivateRevealAccess env) (\<lambda>_.
     bind_eff (look (\<lambda>st. (slug \<in> fp_enteredVaults st, fp_publicVaultState st slug))) (\<lambda>(entered, known).
     if \<not> entered then raise ''NOT_ENTERED''
     else case (getVaultConfig (fe_config env) slug, known) of
       (Some vault, Some state) \<Rightarrow>
         bind_eff requireVerified (\<lambda>_.
         bind_eff (live_clients env True) (\<lambda>(p, c).
         bind_eff (configured_address (lv_vault vault) (lv_name vault @ '' vault'')) (\<lambda>vaultAddress.
         bind_eff (hearing env NoCallbacks (materializeEligibility c vaultAddress (vp_roundId state))) (\<lambda>hash.
         bind_eff (on_chain env (client_call (fe_roundWeights env hash) Plain)) (\<lambda>logs.
         case weight_handle (vp_roundId state) (ac_account c) logs of
           None \<Rightarrow> raise ''PRIVATE_ELIGIBILITY_HANDLE_UNAVAILABLE''
         | Some handle \<Rightarrow>
             bind_eff (on_chain env (client_call (vc_decryptPrivateValue (ac_clients c) vaultAddress handle) Plain)) (\<lambda>clear.
             update_state (\<lambda>st. st\<lparr>fp_privateEligibility := (fp_privateEligibility st)(slug \<mapsto> clear)\<rparr>)))))))
     | _ \<Rightarrow> raise ''ROUND_STATE_UNAVAILABLE''))"


section \<open>Connecting\<close>

text \<open>What the button that connects a wallet opens, by the state of the account.\<close>

datatype wallet_prompt = OpenWalletAuthentication | OpenProfileCompletion | OpenWalletLink | ConnectVerifiedWallet

definition connect_prompt :: "bool \<Rightarrow> AccountStatus \<Rightarrow> FinancialWalletMetadataStatus \<Rightarrow> (string, wallet_prompt) result" where
  "connect_prompt configured accountStatus metadata =
     (if \<not> configured then Inl ''AUTH_CONFIGURATION_REQUIRED''
      else if accountStatus = AUTH_LOADING \<or> metadata = META_LOADING then Inl ''ACCOUNT_METADATA_LOADING''
      else if accountStatus = SIGNED_OUT then Inr OpenWalletAuthentication
      else if accountStatus = SIGNED_IN_PROFILE_INCOMPLETE then Inr OpenProfileCompletion
      else if metadata = META_NONE then Inr OpenWalletLink
      else if metadata = META_PRESENT then Inr ConnectVerifiedWallet
      else Inl ''FINANCIAL_WALLET_METADATA_UNAVAILABLE'')"

end
