(* ===== verification/Client_Driver.thy ===== *)
theory Client_Driver
  imports Client_Actions_Safety Client_Account Client_Text
begin

text \<open>
  The driver of the client's actions (\<open>components/final-ui/v2-functional-state.tsx\<close>): it runs an
  action, records every submitted transaction in the browser's storage, takes up pending ones, and
  finds the deposit that was left unfinished.  The React state is a record; an update that React
  would batch takes effect at once.  The callbacks of an action run in the order of its events, on
  a state that the action itself does not read.
\<close>

section \<open>State\<close>

datatype V2DialogKind = DlgAddMoney | DlgWithdraw | DlgEntryTopUp | DlgEntryWithdraw | DlgTurnOn | DlgTurnOff

datatype action_status = ActIdle | ActRunning | ActPending | ActSuccess | ActError

text \<open>The texts shown to the user.\<close>

datatype driver_message =
    MsgConfirming | MsgReverted | MsgNetworkSimulation | MsgApprovalSimulation | MsgWrapSimulation | MsgSaveSimulation
  | MsgSimulation | MsgNotSigned | MsgSignIn | MsgSwitchNetwork | MsgInsufficientUsdc | MsgEntryReserved | MsgResultNotReady
  | MsgUnsupportedWallet | MsgSepoliaUnavailable | MsgNotSubmitted | MsgResumeSave | MsgResumeWrap | MsgUnverifiedStep

record V2ActionState =
  va_status :: action_status
  va_kind :: "string option"
  va_stage :: "V2ActionStage option"
  va_error :: "driver_message option"
  va_hashes :: "string list"
  va_step :: "V2ActionStep option"
  va_recoveryRequired :: "bool option"

datatype resume_stage = ResumeWrap | ResumeSaving

record AddMoneyRecovery =
  ar_operationId :: string
  ar_resumeStage :: resume_stage
  ar_amount :: int
  ar_hashes :: "string list"
  ar_confirmedStages :: "V2AddMoneyStage list"

record RunActionOptions =
  ro_operationId :: "string option"
  ro_initialHashes :: "string list"
  ro_initialConfirmedStages :: "V2AddMoneyStage list"

record driver_state =
  ds_action :: V2ActionState
  ds_recovery :: "AddMoneyRecovery option"
  ds_blocked :: bool
  ds_dialog :: "V2DialogKind option"
  ds_amount :: string
  ds_draws :: string
  ds_storage :: transaction_storage
  ds_now :: int

record financial_session =
  fs_verifiedAddress :: "string option"
  fs_address :: "string option"

text \<open>
  What surrounds the driver: the account, the session check of the wallet provider, the clients, a
  fresh identifier, the clock (\<open>en_tick\<close> is the time after a time), and viem's decoding and units.
\<close>

record 'w driver_env =
  en_authenticated :: bool
  en_accountStatus :: AccountStatus
  en_session :: "('w, financial_session) client_read"
  en_readAccount :: "string option"
  en_address :: "string option"
  en_publicClient :: "'w V2ActionClients option"
  en_walletClient :: bool
  en_randomUUID :: string
  en_tick :: "int \<Rightarrow> int"
  en_decode :: decoder
  en_parseUnits :: "string \<Rightarrow> nat \<Rightarrow> (js_error, int) result"
  en_formatUnits :: "int \<Rightarrow> nat \<Rightarrow> string"
  en_BigInt :: "string \<Rightarrow> (js_error, int) result"

type_synonym 'w driver = "('w client_world \<times> action_event list) \<times> driver_state"

definition idle_action :: V2ActionState where
  "idle_action = \<lparr>va_status = ActIdle, va_kind = None, va_stage = None, va_error = None, va_hashes = [], va_step = None,
     va_recoveryRequired = None\<rparr>"

definition pending_action :: "string \<Rightarrow> string list \<Rightarrow> V2ActionState" where
  "pending_action kind hashes = \<lparr>va_status = ActPending, va_kind = Some kind, va_stage = Some RECONCILE, va_error = Some MsgConfirming,
     va_hashes = hashes, va_step = None, va_recoveryRequired = Some True\<rparr>"

definition error_action :: "string \<Rightarrow> driver_message \<Rightarrow> string list \<Rightarrow> bool option \<Rightarrow> V2ActionState" where
  "error_action kind message hashes recovery = \<lparr>va_status = ActError, va_kind = Some kind, va_stage = None, va_error = Some message,
     va_hashes = hashes, va_step = None, va_recoveryRequired = recovery\<rparr>"

section \<open>Texts and stages\<close>

definition v2_message :: "v2_error \<Rightarrow> string" where
  "v2_message e = (case e of Plain j \<Rightarrow> js_message j | Wrapped m _ \<Rightarrow> m | ReconciliationPending m _ _ _ _ \<Rightarrow> m)"

fun confirming_stage :: "V2AddMoneyStage \<Rightarrow> TransactionStage" where
  "confirming_stage StageApproval = ST_APPROVAL_CONFIRMING"
| "confirming_stage StageWrap = ST_WRAP_CONFIRMING"
| "confirming_stage StageSave = ST_SAVE_CONFIRMING"

definition pending_stage :: "V2AddMoneyStage option \<Rightarrow> TransactionStage" where
  "pending_stage stage = (case stage of None \<Rightarrow> ST_CONFIRMING | Some st \<Rightarrow> confirming_stage st)"

definition addMoneyStageFromError :: "v2_error \<Rightarrow> V2AddMoneyStage option" where
  "addMoneyStageFromError e =
     (let message = toLowerCase (v2_message e) in
      if mentions (words [''add-money-approval'']) message then Some StageApproval
      else if mentions (words [''add-money-wrap'']) message then Some StageWrap
      else if mentions (words [''add-money-save'']) message then Some StageSave
      else None)"

fun addMoneyRecoveryMessage :: "resume_stage \<Rightarrow> driver_message" where
  "addMoneyRecoveryMessage ResumeSaving = MsgResumeSave"
| "addMoneyRecoveryMessage ResumeWrap = MsgResumeWrap"

definition reverted_text :: "v2_error \<Rightarrow> bool" where
  "reverted_text e = mentions [[Lit ''v2_action:'', Gap, Lit '':reverted:'']] (toLowerCase (v2_message e))"

definition network_text :: "pattern_item list list" where
  "network_text = map lit [''rpc'', ''network'', ''timeout'', ''server'', ''fetch'', ''socket''] @ [lit ''rate'' @ [OptAny] @ lit ''limit'']"

definition friendlyActionError :: "v2_error \<Rightarrow> driver_message" where
  "friendlyActionError e =
     (let message = toLowerCase (v2_message e) in
      if mentions (words [''reconciliation-pending'']) message then MsgConfirming
      else if reverted_text e then MsgReverted
      else if mentions (words [''simulation:transient:timeout'', ''simulation:transient:network'', ''simulation:transient:rate_limit'',
             ''simulation:transient:server'']) message then MsgNetworkSimulation
      else if mentions (words [''v2_action:add-money-approval:simulation'']) message then MsgApprovalSimulation
      else if mentions (words [''v2_action:add-money-wrap:simulation'']) message then MsgWrapSimulation
      else if mentions (words [''v2_action:add-money-save:simulation'']) message then MsgSaveSimulation
      else if mentions (words [''simulation'']) message then MsgSimulation
      else if mentions (words [''signature'', ''user rejected'', ''rejected request'']) message then MsgNotSigned
      else if mentions (words [''auth_required'', ''account_not_ready'', ''financial session'']) message then MsgSignIn
      else if mentions (words [''wrong_network'', ''sepolia'', ''chain'']) message then MsgSwitchNetwork
      else if mentions (words [''insufficient_usdc'']) message then MsgInsufficientUsdc
      else if mentions (words [''insufficient_entry_balance'']) message then MsgEntryReserved
      else if mentions (words [''result_not_ready'']) message then MsgResultNotReady
      else if mentions (words [''unsupported_wallet'']) message then MsgUnsupportedWallet
      else if matches network_text message then MsgSepoliaUnavailable
      else MsgNotSubmitted)"

section \<open>Running an action\<close>

text \<open>What is fixed for one run, and its local variables with the driver's state.\<close>

record run_context =
  rx_kind :: string
  rx_operationId :: string
  rx_account :: string
  rx_tick :: "int \<Rightarrow> int"

record run_vars =
  ru_writeIndex :: nat
  ru_hashes :: "string list"
  ru_lastWriteStage :: "V2AddMoneyStage option"
  ru_confirmedStages :: "V2AddMoneyStage list"
  ru_driver :: driver_state

definition record_id :: "run_context \<Rightarrow> nat \<Rightarrow> string option \<Rightarrow> TransactionStage option \<Rightarrow> string" where
  "record_id cx index hash errorStage =
     (if errorStage \<noteq> None then rx_operationId cx @ '':failure''
      else if truthy hash then rx_operationId cx @ '':write:'' @ nat_digits index
      else rx_operationId cx)"

definition persistRecord ::
  "run_context \<Rightarrow> TransactionStage \<Rightarrow> string option \<Rightarrow> TransactionStage option \<Rightarrow> V2AddMoneyStage option \<Rightarrow> run_vars \<Rightarrow> run_vars" where
  "persistRecord cx stage hash errorStage operationStage v =
     (let d = ru_driver v in v\<lparr>ru_driver := d\<lparr>
        ds_storage := persistSafeTransaction \<lparr>sr_id = record_id cx (ru_writeIndex v) hash errorStage, sr_kind = rx_kind cx,
          sr_operationId = Some (rx_operationId cx), sr_operationStage = operationStage, sr_hash = hash,
          sr_chainId = V2_PREVIEW_CHAIN_ID, sr_account = rx_account cx, sr_stage = stage, sr_errorStage = errorStage,
          sr_updatedAt = ds_now d\<rparr> (ds_storage d),
        ds_now := rx_tick cx (ds_now d)\<rparr>\<rparr>)"

definition update_action :: "(V2ActionState \<Rightarrow> V2ActionState) \<Rightarrow> run_vars \<Rightarrow> run_vars" where
  "update_action f v = v\<lparr>ru_driver := (ru_driver v)\<lparr>ds_action := f (ds_action (ru_driver v))\<rparr>\<rparr>"

definition note_hash :: "string \<Rightarrow> V2AddMoneyStage option \<Rightarrow> run_vars \<Rightarrow> run_vars" where
  "note_hash hash stage v = v\<lparr>ru_writeIndex := ru_writeIndex v + 1, ru_hashes := ru_hashes v @ [hash], ru_lastWriteStage := stage\<rparr>"

definition note_receipt :: "V2AddMoneyStage option \<Rightarrow> run_vars \<Rightarrow> run_vars" where
  "note_receipt stage v = (case stage of
     None \<Rightarrow> v
   | Some st \<Rightarrow> v\<lparr>ru_lastWriteStage := Some st, ru_confirmedStages := List.insert st (ru_confirmedStages v)\<rparr>)"

text \<open>The callbacks of the clients; these clients are not told of stages of transactions.\<close>

fun handle_event :: "run_context \<Rightarrow> action_event \<Rightarrow> run_vars \<Rightarrow> run_vars" where
  "handle_event cx (OnStep step) v = update_action (\<lambda>a. a\<lparr>va_step := Some step\<rparr>) v"
| "handle_event cx (OnTransactionStage stage) v = v"
| "handle_event cx (OnStage stage) v = update_action (\<lambda>a. a\<lparr>va_stage := Some stage\<rparr>) v"
| "handle_event cx (OnHash hash stage) v =
     (let v1 = note_hash hash stage v in
      update_action (\<lambda>a. a\<lparr>va_hashes := ru_hashes v1, va_stage := Some RECONCILE\<rparr>)
        (persistRecord cx (pending_stage stage) (Some hash) None stage v1))"
| "handle_event cx (OnReceipt hash stage) v = persistRecord cx ST_COMPLETE (Some hash) None stage (note_receipt stage v)"
| "handle_event cx (Simulated call) v = v"
| "handle_event cx (Submitted call hash) v = v"

definition handle_events :: "run_context \<Rightarrow> action_event list \<Rightarrow> run_vars \<Rightarrow> run_vars" where
  "handle_events cx evs v = fold (handle_event cx) evs v"

text \<open>The account and session checks before the clients exist.\<close>

definition open_run :: "'w driver_env \<Rightarrow> ('w, string \<times> 'w V2ActionClients) v2_op" where
  "open_run env =
     (if \<not> en_authenticated env \<or> en_accountStatus env \<noteq> SIGNED_IN_READY then fail ''AUTH_REQUIRED''
      else bind_eff (client_read (en_session env) Plain) (\<lambda>session.
        let account = (case fs_verifiedAddress session of Some a \<Rightarrow> Some a | None \<Rightarrow> fs_address session) in
        case en_publicClient env of
          None \<Rightarrow> fail ''UNSUPPORTED_WALLET''
        | Some clients \<Rightarrow>
            if \<not> truthy account \<or> \<not> en_walletClient env then fail ''UNSUPPORTED_WALLET''
            else if map_option toLowerCase (fs_address session) \<noteq> map_option toLowerCase account then fail ''WALLET_IDENTITY_MISMATCH''
            else if truthy (en_address env) \<and> map_option toLowerCase (en_address env) \<noteq> map_option toLowerCase account
            then fail ''WALLET_IDENTITY_MISMATCH''
            else ret (or_empty account, clients\<lparr>vc_account := or_empty account\<rparr>)))"

definition finish_success :: "run_context \<Rightarrow> run_vars \<Rightarrow> driver_state" where
  "finish_success cx v =
     (let d = ru_driver (persistRecord cx ST_COMPLETE (last_opt (ru_hashes v)) None (ru_lastWriteStage v) v);
          d1 = (if rx_kind cx = ''v2-add-money'' then d\<lparr>ds_recovery := None, ds_blocked := False\<rparr> else d)
      in d1\<lparr>ds_action := idle_action\<lparr>va_status := ActSuccess, va_kind := Some (rx_kind cx), va_hashes := ru_hashes v\<rparr>, ds_dialog := None\<rparr>)"

definition finish_pending :: "run_context \<Rightarrow> string \<Rightarrow> V2AddMoneyStage option \<Rightarrow> run_vars \<Rightarrow> driver_state" where
  "finish_pending cx hash transactionStage v =
     (let pendingStage = (case transactionStage of Some st \<Rightarrow> Some st | None \<Rightarrow> ru_lastWriteStage v)
      in (ru_driver (persistRecord cx (pending_stage pendingStage) (Some hash) None pendingStage v))
           \<lparr>ds_action := pending_action (rx_kind cx) (ru_hashes v)\<rparr>)"

text \<open>The message and the block of further deposits after an error.\<close>

definition report_error :: "string \<Rightarrow> v2_error \<Rightarrow> run_vars \<Rightarrow> driver_state" where
  "report_error kind e v =
     (let d = ru_driver v; confirmedStages = set (ru_confirmedStages v);
          hasCompletedAddMoneyStage = (kind = ''v2-add-money'' \<and> confirmedStages \<noteq> {} \<and> StageSave \<notin> confirmedStages);
          recoveryMessage =
            (if kind = ''v2-add-money'' \<and> StageWrap \<in> confirmedStages \<and> StageSave \<notin> confirmedStages
             then addMoneyRecoveryMessage ResumeSaving
             else if kind = ''v2-add-money'' \<and> StageApproval \<in> confirmedStages \<and> StageWrap \<notin> confirmedStages
             then addMoneyRecoveryMessage ResumeWrap
             else friendlyActionError e)
      in d\<lparr>ds_blocked := (if hasCompletedAddMoneyStage then True else ds_blocked d),
           ds_action := error_action kind recoveryMessage (ru_hashes v) (Some (ru_hashes v \<noteq> []))\<rparr>)"

definition finish_error :: "run_context \<Rightarrow> v2_error \<Rightarrow> run_vars \<Rightarrow> driver_state" where
  "finish_error cx e v = (case e of
     ReconciliationPending _ hash _ transactionStage _ \<Rightarrow> finish_pending cx hash transactionStage v
   | _ \<Rightarrow>
       let failedStage = (case addMoneyStageFromError e of Some st \<Rightarrow> Some st | None \<Rightarrow> ru_lastWriteStage v);
           hash = (if reverted_text e then last_opt (ru_hashes v) else None)
       in report_error (rx_kind cx) e (persistRecord cx ST_FAILED hash (Some ST_FAILED) failedStage v))"

definition unresolved_record :: "'w driver_env \<Rightarrow> driver_state \<Rightarrow> SafeTransactionRecord option" where
  "unresolved_record env d = (case en_readAccount env of
     None \<Rightarrow> None
   | Some account \<Rightarrow> find (\<lambda>r. sr_chainId r = V2_PREVIEW_CHAIN_ID \<and> isUnresolvedV2Transaction r)
       (loadSafeTransactions account (ds_storage d)))"

definition run_vars_of :: "RunActionOptions \<Rightarrow> driver_state \<Rightarrow> run_vars" where
  "run_vars_of options d = \<lparr>ru_writeIndex = length (ro_initialHashes options), ru_hashes = ro_initialHashes options,
     ru_lastWriteStage = None, ru_confirmedStages = remdups (ro_initialConfirmedStages options), ru_driver = d\<rparr>"

definition run_context_of :: "'w driver_env \<Rightarrow> string \<Rightarrow> RunActionOptions \<Rightarrow> string \<Rightarrow> run_context" where
  "run_context_of env kind options account = \<lparr>rx_kind = kind,
     rx_operationId = (if truthy (ro_operationId options) then or_empty (ro_operationId options) else en_randomUUID env),
     rx_account = account, rx_tick = en_tick env\<rparr>"

text \<open>The operation with its callbacks, and the end of the run.\<close>

definition run_operation ::
  "run_context \<Rightarrow> bool \<Rightarrow> ('w, 'a) v2_op \<Rightarrow> run_vars \<Rightarrow> 'w client_world \<times> action_event list \<Rightarrow> 'w driver" where
  "run_operation cx fresh operation v w =
     (let v1 = (if fresh then persistRecord cx ST_WALLET None None None v else v) in
      case operation w of (r, w') \<Rightarrow>
        let v2 = handle_events cx (drop (length (snd w)) (snd w')) v1 in
        (w', case r of Inr _ \<Rightarrow> finish_success cx v2 | Inl e \<Rightarrow> finish_error cx e v2))"

definition runAction ::
  "'w driver_env \<Rightarrow> string \<Rightarrow> ('w V2ActionClients \<Rightarrow> ('w, 'a) v2_op) \<Rightarrow> RunActionOptions \<Rightarrow> 'w driver \<Rightarrow> 'w driver" where
  "runAction env kind operation options st = (case st of (w, d) \<Rightarrow>
     if va_status (ds_action d) = ActRunning \<or> va_status (ds_action d) = ActPending then (w, d)
     else case unresolved_record env d of
       Some u \<Rightarrow> (w, d\<lparr>ds_action := pending_action (sr_kind u) [or_empty (sr_hash u)]\<rparr>)
     | None \<Rightarrow>
         let v = run_vars_of options (d\<lparr>ds_action := idle_action\<lparr>va_status := ActRunning, va_kind := Some kind,
                   va_hashes := ro_initialHashes options\<rparr>\<rparr>)
         in case open_run env w of
              (Inl e, w') \<Rightarrow> (w', report_error kind e v)
            | (Inr (account, clients), w') \<Rightarrow>
                run_operation (run_context_of env kind options account) (\<not> truthy (ro_operationId options)) (operation clients) v w')"

section \<open>Pending transactions\<close>

definition settle_record :: "'w driver_env \<Rightarrow> SafeTransactionRecord \<Rightarrow> reconciliation_status \<Rightarrow> driver_state \<Rightarrow> driver_state" where
  "settle_record env r status d = (case status of
     StillPending \<Rightarrow> d
   | _ \<Rightarrow>
       let ok = (status = Confirmed); a = ds_action d;
           d1 = d\<lparr>ds_storage := persistSafeTransaction (r\<lparr>sr_stage := (if ok then ST_COMPLETE else ST_FAILED),
                  sr_errorStage := (if ok then None else Some ST_FAILED), sr_updatedAt := ds_now d\<rparr>) (ds_storage d),
                ds_now := en_tick env (ds_now d)\<rparr>
       in if va_status a = ActPending \<and> or_empty (sr_hash r) \<in> set (va_hashes a)
          then d1\<lparr>ds_action := (if ok
             then idle_action\<lparr>va_status := ActSuccess, va_kind := va_kind a, va_stage := Some RECONCILE, va_hashes := va_hashes a\<rparr>
             else idle_action\<lparr>va_status := ActError, va_kind := va_kind a, va_error := Some MsgReverted, va_hashes := va_hashes a,
                    va_recoveryRequired := Some False\<rparr>)\<rparr>
          else d1)"

fun reconcile_each :: "'w driver_env \<Rightarrow> 'w V2ActionClients \<Rightarrow> SafeTransactionRecord list \<Rightarrow> 'w driver \<Rightarrow> 'w driver" where
  "reconcile_each env clients [] st = st"
| "reconcile_each env clients (r # rs) (w, d) =
     (if \<not> truthy (sr_hash r) then reconcile_each env clients rs (w, d)
      else case reconcileV2Transaction clients (or_empty (sr_hash r)) w of
        (Inr (_, status), w') \<Rightarrow> reconcile_each env clients rs (w', settle_record env r status d)
      | (Inl _, w') \<Rightarrow> (w', d))"

definition pending_records :: "string \<Rightarrow> driver_state \<Rightarrow> SafeTransactionRecord list" where
  "pending_records account d = filter (\<lambda>r. sr_chainId r = V2_PREVIEW_CHAIN_ID \<and> isUnresolvedV2Transaction r)
     (loadSafeTransactions account (ds_storage d))"

definition reconcilePendingTransactions :: "'w driver_env \<Rightarrow> 'w driver \<Rightarrow> 'w driver" where
  "reconcilePendingTransactions env st = (case (en_readAccount env, en_publicClient env) of
     (Some account, Some clients) \<Rightarrow>
       (case st of (w, d) \<Rightarrow>
        let pending = pending_records account d in
        case pending of
          [] \<Rightarrow> (w, d)
        | r # _ \<Rightarrow>
            let d1 = (if va_status (ds_action d) = ActIdle
               then d\<lparr>ds_action := pending_action (sr_kind r) (List.map_filter (\<lambda>r. if truthy (sr_hash r) then sr_hash r else None) pending)\<rparr>
               else d)
            in reconcile_each env clients pending (w, d1))
   | _ \<Rightarrow> st)"

section \<open>An unfinished deposit\<close>

definition no_options :: RunActionOptions where
  "no_options = \<lparr>ro_operationId = None, ro_initialHashes = [], ro_initialConfirmedStages = []\<rparr>"

definition completed_hash :: "SafeTransactionRecord option \<Rightarrow> string option" where
  "completed_hash r = (case r of None \<Rightarrow> None | Some x \<Rightarrow> if sr_stage x = ST_COMPLETE \<and> truthy (sr_hash x) then sr_hash x else None)"

definition still_unresolved :: "SafeTransactionRecord option \<Rightarrow> bool" where
  "still_unresolved r = (case r of None \<Rightarrow> False | Some x \<Rightarrow> isUnresolvedV2Transaction x)"

definition offer_recovery :: "'w driver_env \<Rightarrow> AddMoneyRecovery \<Rightarrow> driver_state \<Rightarrow> driver_state" where
  "offer_recovery env recovery d = d\<lparr>ds_blocked := False, ds_recovery := Some recovery,
     ds_amount := en_formatUnits env (ar_amount recovery) 6, ds_dialog := Some DlgAddMoney,
     ds_action := error_action ''v2-add-money'' (addMoneyRecoveryMessage (ar_resumeStage recovery)) (ar_hashes recovery) (Some True)\<rparr>"

definition block_deposits :: "string list \<Rightarrow> driver_state \<Rightarrow> driver_state" where
  "block_deposits hashes d = d\<lparr>ds_recovery := None, ds_blocked := True, ds_dialog := Some DlgAddMoney,
     ds_action := error_action ''v2-add-money'' MsgUnverifiedStep hashes (Some True)\<rparr>"

definition recover_checkpoint ::
  "'w driver_env \<Rightarrow> 'w V2ActionClients \<Rightarrow> string \<Rightarrow> V2AddMoneyCheckpoint \<Rightarrow> 'w driver \<Rightarrow> 'w driver" where
  "recover_checkpoint env clients account checkpoint st = (case st of (w, d) \<Rightarrow>
     let completedApproval = completed_hash (cp_approval checkpoint); completedWrap = completed_hash (cp_wrap checkpoint);
         hashes = List.map_filter id [completedApproval, completedWrap]
     in case completedWrap of
          Some hash \<Rightarrow> (case recoverConfirmedV2Wrap (en_decode env) clients account hash w of
            (Inl _, w') \<Rightarrow> (w', block_deposits hashes d)
          | (Inr (_, amount), w') \<Rightarrow> (w', offer_recovery env \<lparr>ar_operationId = cp_operationId checkpoint, ar_resumeStage = ResumeSaving,
              ar_amount = amount, ar_hashes = hashes,
              ar_confirmedStages = (if completedApproval \<noteq> None then [StageApproval, StageWrap] else [StageWrap])\<rparr> d))
        | None \<Rightarrow> (case completedApproval of
            None \<Rightarrow> (w, d)
          | Some hash \<Rightarrow> (case recoverConfirmedV2Approval (en_decode env) clients account hash w of
              (Inl _, w') \<Rightarrow> (w', block_deposits hashes d)
            | (Inr (_, amount), w') \<Rightarrow> (w', offer_recovery env \<lparr>ar_operationId = cp_operationId checkpoint, ar_resumeStage = ResumeWrap,
                ar_amount = amount, ar_hashes = hashes, ar_confirmedStages = [StageApproval]\<rparr> d))))"

definition discoverAddMoneyRecovery :: "'w driver_env \<Rightarrow> 'w driver \<Rightarrow> 'w driver" where
  "discoverAddMoneyRecovery env st = (case (en_readAccount env, en_publicClient env) of
     (Some account, Some clients) \<Rightarrow>
       (case st of (w, d) \<Rightarrow>
        if va_status (ds_action d) = ActRunning \<or> va_status (ds_action d) = ActPending then (w, d)
        else case findLatestV2AddMoneyCheckpoint
            (filter (\<lambda>r. sr_chainId r = V2_PREVIEW_CHAIN_ID) (loadSafeTransactions account (ds_storage d))) of
          None \<Rightarrow> (w, d\<lparr>ds_blocked := False\<rparr>)
        | Some checkpoint \<Rightarrow>
            if map_option sr_stage (cp_save checkpoint) = Some ST_COMPLETE then (w, d)
            else if still_unresolved (cp_approval checkpoint) \<or> still_unresolved (cp_wrap checkpoint) \<or> still_unresolved (cp_save checkpoint)
            then (w, d)
            else recover_checkpoint env clients account checkpoint (w, d))
   | _ \<Rightarrow> st)"

section \<open>Dialogs\<close>

definition openDialog :: "V2DialogKind \<Rightarrow> driver_state \<Rightarrow> driver_state" where
  "openDialog kind d =
     (let d1 = (if kind = DlgAddMoney \<and> ds_recovery d = None then d\<lparr>ds_amount := ''0.001''\<rparr> else d);
          d2 = (if kind = DlgWithdraw then d1\<lparr>ds_amount := ''0.001''\<rparr> else d1);
          d3 = (if kind = DlgEntryTopUp then d2\<lparr>ds_amount := ''0.005''\<rparr> else d2);
          d4 = (if kind = DlgEntryWithdraw then d3\<lparr>ds_amount := ''0.001''\<rparr> else d3);
          d5 = (if kind = DlgTurnOn then d4\<lparr>ds_draws := ''2''\<rparr> else d4)
      in d5\<lparr>ds_dialog := Some kind\<rparr>)"

text \<open>An operation on a parsed input; a text that does not parse throws inside the run.\<close>

definition with_units ::
  "(js_error, int) result \<Rightarrow> (int \<Rightarrow> 'w V2ActionClients \<Rightarrow> ('w, 'a) v2_op) \<Rightarrow> 'w V2ActionClients \<Rightarrow> ('w, unit) v2_op" where
  "with_units parsed operation clients = (case parsed of Inl e \<Rightarrow> throw (Plain e) | Inr n \<Rightarrow> discard (operation n clients))"

definition resume_operation :: "AddMoneyRecovery \<Rightarrow> 'w V2ActionClients \<Rightarrow> ('w, unit) v2_op" where
  "resume_operation recovery clients = (case ar_resumeStage recovery of
     ResumeSaving \<Rightarrow> discard (resumeV2AddMoneySave clients (ar_amount recovery))
   | ResumeWrap \<Rightarrow> discard (resumeV2AddMoneyAfterApproval clients (ar_amount recovery)))"

definition submitDialog :: "'w driver_env \<Rightarrow> 'w driver \<Rightarrow> 'w driver" where
  "submitDialog env st = (case st of (w, d) \<Rightarrow>
     let units = (\<lambda>decimals. en_parseUnits env (trim (ds_amount d)) decimals) in
     (case ds_dialog d of
        None \<Rightarrow> (w, d)
      | Some DlgAddMoney \<Rightarrow>
          (if ds_blocked d then (w, d)
           else case ds_recovery d of
             Some recovery \<Rightarrow> runAction env ''v2-add-money'' (resume_operation recovery)
               \<lparr>ro_operationId = Some (ar_operationId recovery), ro_initialHashes = ar_hashes recovery,
                ro_initialConfirmedStages = ar_confirmedStages recovery\<rparr> (w, d)
           | None \<Rightarrow> runAction env ''v2-add-money'' (with_units (units 6) (\<lambda>n clients. addV2Money clients n)) no_options (w, d))
      | Some DlgWithdraw \<Rightarrow> runAction env ''v2-withdraw-savings'' (with_units (units 6) (\<lambda>n clients. withdrawV2Savings clients n)) no_options (w, d)
      | Some DlgEntryTopUp \<Rightarrow>
          runAction env ''v2-entry-balance-top-up'' (with_units (units 18) (\<lambda>n clients. topUpV2EntryBalance clients n)) no_options (w, d)
      | Some DlgEntryWithdraw \<Rightarrow>
          runAction env ''v2-entry-balance-withdraw'' (with_units (units 18) (\<lambda>n clients. withdrawV2EntryBalance clients n)) no_options (w, d)
      | Some DlgTurnOn \<Rightarrow> runAction env ''v2-prize-savings-enable''
          (with_units (en_BigInt env (if trim (ds_draws d) = [] then ''2'' else trim (ds_draws d))) (\<lambda>n clients. enableV2PrizeSavings clients n))
          no_options (w, d)
      | Some DlgTurnOff \<Rightarrow> runAction env ''v2-prize-savings-disable'' (\<lambda>clients. discard (disableV2PrizeSavings clients)) no_options (w, d)))"

definition dismissAction :: "driver_state \<Rightarrow> driver_state" where
  "dismissAction d = d\<lparr>ds_action := idle_action\<rparr>"


end
