(* ===== verification/Client_Driver_Safety.thy ===== *)
theory Client_Driver_Safety
  imports Client_Driver
begin

text \<open>
  The driver keeps its promises to the user: an unresolved transaction blocks further actions until
  it is settled, every hash the wallet returned is in the browser's storage when a run ends, and an
  unfinished deposit is taken up where the chain left it.
\<close>

section \<open>Stored records\<close>

lemma load_account: "toLowerCase a = toLowerCase b \<Longrightarrow> loadSafeTransactions a st = loadSafeTransactions b st"
  by (simp add: loadSafeTransactions_def split: transaction_storage.split)

lemma load_persist:
  assumes "toLowerCase a = toLowerCase (sr_account r)"
  shows "loadSafeTransactions a (persistSafeTransaction r st) =
    take 20 (r # filter (\<lambda>item. sr_id item \<noteq> sr_id r) (loadSafeTransactions a st))"
proof -
  have own: "filter (\<lambda>x. toLowerCase (sr_account x) = toLowerCase (sr_account r)) (take n (filter Q (loadSafeTransactions (sr_account r) st)))
      = take n (filter Q (loadSafeTransactions (sr_account r) st))" for n Q
    by (rule filter_True) (auto simp: loadSafeTransactions_def split: transaction_storage.splits dest!: in_set_takeD)
  show ?thesis
    unfolding load_account [OF assms]
    by (simp add: persistSafeTransaction_def Let_def loadSafeTransactions_def [of "sr_account r" "Records _"] take_Cons' own min_def)
qed

lemma load_length: "length (loadSafeTransactions a st) \<le> 20"
  by (simp add: loadSafeTransactions_def split: transaction_storage.split)

text \<open>A record among the newest \<open>n\<close>: it moves down by one when another one is recorded.\<close>

definition kept :: "nat \<Rightarrow> string \<Rightarrow> (SafeTransactionRecord \<Rightarrow> bool) \<Rightarrow> transaction_storage \<Rightarrow> bool" where
  "kept n a P st \<longleftrightarrow> list_ex P (take n (loadSafeTransactions a st))"

lemma kept_mono: "kept n a P st \<Longrightarrow> n \<le> m \<Longrightarrow> (\<And>r. P r \<Longrightarrow> Q r) \<Longrightarrow> kept m a Q st"
  unfolding kept_def list_ex_iff by (meson set_take_subset_set_take subsetD)

lemma kept_stored: "kept n a P st \<Longrightarrow> \<exists>r \<in> set (loadSafeTransactions a st). P r"
  unfolding kept_def list_ex_iff by (meson in_set_takeD)

lemma kept_new:
  assumes "toLowerCase a = toLowerCase (sr_account r)" and "P r" and "0 < n"
  shows "kept n a P (persistSafeTransaction r st)"
  using assms by (cases n) (simp_all add: kept_def load_persist [OF assms(1)])

lemma take_filter_prefix: "set (filter P (take n xs)) \<subseteq> set (take n (filter P xs))"
proof (induction xs arbitrary: n)
  case (Cons x xs)
  show ?case
  proof (cases n)
    case (Suc m)
    have "set (take m (filter P xs)) \<subseteq> set (take (Suc m) (filter P xs))" by (rule set_take_subset_set_take) simp
    with Cons [of m] Suc show ?thesis by auto
  qed simp
qed simp

lemma kept_other:
  assumes "toLowerCase a = toLowerCase (sr_account r)" and "kept n a P st" and "n < 20" and "\<And>x. P x \<Longrightarrow> sr_id x \<noteq> sr_id r"
  shows "kept (Suc n) a P (persistSafeTransaction r st)"
proof -
  from assms(2) obtain x where x: "x \<in> set (take n (loadSafeTransactions a st))" "P x" by (auto simp: kept_def list_ex_iff)
  with assms(4) have "x \<in> set (filter (\<lambda>item. sr_id item \<noteq> sr_id r) (take n (loadSafeTransactions a st)))" by auto
  then have "x \<in> set (take n (filter (\<lambda>item. sr_id item \<noteq> sr_id r) (loadSafeTransactions a st)))"
    by (rule subsetD [OF take_filter_prefix])
  with x(2) assms(3) show ?thesis by (auto simp: kept_def load_persist [OF assms(1)] list_ex_iff min_def)
qed

section \<open>Announced hashes\<close>

text \<open>The hashes announced to the driver; a receipt is only announced for the last of them.\<close>

definition announced :: "action_event list \<Rightarrow> string list" where
  "announced evs = List.map_filter (\<lambda>ev. case ev of OnHash h _ \<Rightarrow> Some h | _ \<Rightarrow> None) evs"

fun receipted :: "string option \<Rightarrow> action_event list \<Rightarrow> bool" where
  "receipted l [] = True"
| "receipted l (OnHash h mark # evs) = receipted (Some h) evs"
| "receipted l (OnReceipt h mark # evs) = (l = Some h \<and> receipted l evs)"
| "receipted l (ev # evs) = receipted l evs"

lemma announced_simps [simp]:
  "announced [] = []" "announced (xs @ ys) = announced xs @ announced ys" "announced (OnHash h mark # evs) = h # announced evs"
  "announced (OnStage g # evs) = announced evs" "announced (OnTransactionStage ts # evs) = announced evs" "announced (OnStep p # evs) = announced evs"
  "announced (OnReceipt h mark # evs) = announced evs" "announced (Simulated c # evs) = announced evs"
  "announced (Submitted c ho # evs) = announced evs"
  by (simp_all add: announced_def List.map_filter_def)

lemma receipted_more: "receipted None evs \<Longrightarrow> receipted l evs"
proof (induction evs arbitrary: l)
  case (Cons ev evs)
  then show ?case by (cases ev) auto
qed simp

lemma receipted_append: "receipted l xs \<Longrightarrow> receipted None ys \<Longrightarrow> receipted l (xs @ ys)"
  by (induction l xs rule: receipted.induct) (auto intro: receipted_more)

interpretation receipted: action_discipline "\<lambda>_. receipted None" clients for clients
proof
  show "notification ev \<Longrightarrow> receipted None [ev]" for ev by (cases ev) simp_all
  show "write_spec clients request stage r new \<Longrightarrow> receipted None new" for request stage r new
    by (auto simp: write_outcomes)
qed (simp_all add: receipted_append)

text \<open>The hashes announced are those that the wallet returned.\<close>

definition returned :: "action_event list \<Rightarrow> string list" where
  "returned evs = List.map_filter (\<lambda>ev. case ev of Submitted _ h \<Rightarrow> h | _ \<Rightarrow> None) evs"

lemma returned_simps [simp]:
  "returned [] = []" "returned (xs @ ys) = returned xs @ returned ys" "returned (OnHash h mark # evs) = returned evs"
  "returned (OnStage g # evs) = returned evs" "returned (OnTransactionStage ts # evs) = returned evs" "returned (OnStep p # evs) = returned evs"
  "returned (OnReceipt h mark # evs) = returned evs" "returned (Simulated c # evs) = returned evs"
  "returned (Submitted c None # evs) = returned evs" "returned (Submitted c (Some h) # evs) = h # returned evs"
  by (simp_all add: returned_def List.map_filter_def)

interpretation announcing: action_discipline "\<lambda>_ evs. announced evs = returned evs" clients for clients
proof
  show "notification ev \<Longrightarrow> announced [ev] = returned [ev]" for ev by (cases ev) simp_all
  show "write_spec clients request stage r new \<Longrightarrow> announced new = returned new" for request stage r new
    by (auto simp: write_outcomes)
qed simp_all

section \<open>What a run records\<close>

definition write_id :: "run_context \<Rightarrow> nat \<Rightarrow> string" where
  "write_id cx k = rx_operationId cx @ '':write:'' @ nat_digits k"

definition write_record :: "run_context \<Rightarrow> nat \<Rightarrow> string \<Rightarrow> SafeTransactionRecord \<Rightarrow> bool" where
  "write_record cx k h r \<longleftrightarrow> sr_id r = write_id cx k \<and> sr_hash r = Some h \<and> sr_kind r = rx_kind cx \<and>
     sr_operationId r = Some (rx_operationId cx) \<and> sr_chainId r = V2_PREVIEW_CHAIN_ID"

text \<open>After \<open>n\<close> records of a run, its hashes from number \<open>base\<close> on are among the newest \<open>n\<close>.\<close>

definition hashes_kept :: "run_context \<Rightarrow> nat \<Rightarrow> nat \<Rightarrow> run_vars \<Rightarrow> bool" where
  "hashes_kept cx base n v \<longleftrightarrow> length (ru_hashes v) = ru_writeIndex v \<and> base \<le> ru_writeIndex v \<and>
     (\<forall>k. base \<le> k \<and> k < ru_writeIndex v \<longrightarrow>
        kept n (rx_account cx) (write_record cx (Suc k) (ru_hashes v ! k)) (ds_storage (ru_driver v)))"

lemma write_id_eq [simp]: "write_id cx j = write_id cx k \<longleftrightarrow> j = k"
  by (simp add: write_id_def)

lemma record_id_cases:
  "record_id cx k (Some h) None = (if h = [] then rx_operationId cx else write_id cx k)"
  "record_id cx k hash (Some e) = rx_operationId cx @ '':failure''" "record_id cx k None None = rx_operationId cx"
  by (simp_all add: record_id_def write_id_def truthy_def)

lemma other_ids: "rx_operationId cx \<noteq> write_id cx k" "rx_operationId cx @ '':failure'' \<noteq> write_id cx k"
  by (simp_all add: write_id_def)

lemma persist_fields [simp]:
  "ru_writeIndex (persistRecord cx stage hash errorStage opStage v) = ru_writeIndex v"
  "ru_hashes (persistRecord cx stage hash errorStage opStage v) = ru_hashes v"
  "ru_lastWriteStage (persistRecord cx stage hash errorStage opStage v) = ru_lastWriteStage v"
  "ru_confirmedStages (persistRecord cx stage hash errorStage opStage v) = ru_confirmedStages v"
  by (simp_all add: persistRecord_def Let_def)

lemma update_action_fields [simp]:
  "ru_writeIndex (update_action f v) = ru_writeIndex v" "ru_hashes (update_action f v) = ru_hashes v"
  "ru_lastWriteStage (update_action f v) = ru_lastWriteStage v" "ru_confirmedStages (update_action f v) = ru_confirmedStages v"
  "ds_storage (ru_driver (update_action f v)) = ds_storage (ru_driver v)"
  by (simp_all add: update_action_def)

lemma persist_storage:
  "\<exists>r. sr_id r = record_id cx (ru_writeIndex v) hash errorStage \<and> sr_kind r = rx_kind cx \<and> sr_operationId r = Some (rx_operationId cx) \<and>
     sr_operationStage r = opStage \<and> sr_hash r = hash \<and> sr_chainId r = V2_PREVIEW_CHAIN_ID \<and> sr_account r = rx_account cx \<and>
     sr_stage r = stage \<and> sr_errorStage r = errorStage \<and>
     ds_storage (ru_driver (persistRecord cx stage hash errorStage opStage v)) = persistSafeTransaction r (ds_storage (ru_driver v))"
  by (auto simp: persistRecord_def Let_def intro!: exI)

text \<open>A record of the last write, or of none, keeps the other hashes.\<close>

lemma hashes_kept_persist:
  assumes "length (ru_hashes v) = ru_writeIndex v" "base \<le> ru_writeIndex v"
    and "\<And>k. base \<le> k \<Longrightarrow> k < ru_writeIndex v \<Longrightarrow> record_id cx (ru_writeIndex v) hash errorStage \<noteq> write_id cx (Suc k) \<Longrightarrow>
      kept n (rx_account cx) (write_record cx (Suc k) (ru_hashes v ! k)) (ds_storage (ru_driver v))"
    and "n < 20"
    and "\<And>k. record_id cx (ru_writeIndex v) hash errorStage = write_id cx (Suc k) \<Longrightarrow>
      Suc k = ru_writeIndex v \<and> hash = Some (ru_hashes v ! k)"
  shows "hashes_kept cx base (Suc n) (persistRecord cx stage hash errorStage opStage v)"
proof -
  obtain r where r: "sr_id r = record_id cx (ru_writeIndex v) hash errorStage" "sr_kind r = rx_kind cx"
      "sr_operationId r = Some (rx_operationId cx)" "sr_hash r = hash" "sr_chainId r = V2_PREVIEW_CHAIN_ID" "sr_account r = rx_account cx"
      "ds_storage (ru_driver (persistRecord cx stage hash errorStage opStage v)) = persistSafeTransaction r (ds_storage (ru_driver v))"
    using persist_storage by blast
  have "kept (Suc n) (rx_account cx) (write_record cx (Suc k) (ru_hashes v ! k)) (persistSafeTransaction r (ds_storage (ru_driver v)))"
    if k: "base \<le> k" "k < ru_writeIndex v" for k
  proof (cases "sr_id r = write_id cx (Suc k)")
    case True
    with assms(5) [of k] r have "write_record cx (Suc k) (ru_hashes v ! k) r" by (simp add: write_record_def)
    then show ?thesis using r(6) by (intro kept_new) simp_all
  next
    case False
    have "kept n (rx_account cx) (write_record cx (Suc k) (ru_hashes v ! k)) (ds_storage (ru_driver v))"
      using assms(3) k False r(1) by simp
    then show ?thesis using False assms(4) r(6) by (intro kept_other) (auto simp: write_record_def)
  qed
  with assms(1,2) r(7) show ?thesis by (simp add: hashes_kept_def)
qed

text \<open>The records an event makes, and the last hash announced before it.\<close>

fun record_count :: "action_event list \<Rightarrow> nat" where
  "record_count [] = 0"
| "record_count (OnHash h mark # evs) = Suc (record_count evs)"
| "record_count (OnReceipt h mark # evs) = Suc (record_count evs)"
| "record_count (ev # evs) = record_count evs"

lemma record_count_append [simp]: "record_count (xs @ ys) = record_count xs + record_count ys"
  by (induction xs rule: record_count.induct) simp_all

lemma hashes_kept_hash:
  assumes "hashes_kept cx base n v" and "n < 20" and "h \<noteq> []"
  shows "hashes_kept cx base (Suc n) (handle_event cx (OnHash h mark) v)"
proof -
  let ?v = "note_hash h mark v"
  have f: "ru_hashes ?v = ru_hashes v @ [h]" "ru_writeIndex ?v = Suc (ru_writeIndex v)" "ru_driver ?v = ru_driver v"
    by (simp_all add: note_hash_def)
  have "hashes_kept cx base (Suc n) (persistRecord cx (pending_stage mark) (Some h) None mark ?v)"
  proof (rule hashes_kept_persist)
    show "length (ru_hashes ?v) = ru_writeIndex ?v" "base \<le> ru_writeIndex ?v" using assms(1) f by (simp_all add: hashes_kept_def)
    show "n < 20" by (rule assms(2))
    show "kept n (rx_account cx) (write_record cx (Suc k) (ru_hashes ?v ! k)) (ds_storage (ru_driver ?v))"
      if "base \<le> k" "k < ru_writeIndex ?v" "record_id cx (ru_writeIndex ?v) (Some h) None \<noteq> write_id cx (Suc k)" for k
      using that assms(1,3) f by (auto simp: hashes_kept_def record_id_cases nth_append less_Suc_eq)
    show "Suc k = ru_writeIndex ?v \<and> Some h = Some (ru_hashes ?v ! k)"
      if "record_id cx (ru_writeIndex ?v) (Some h) None = write_id cx (Suc k)" for k
      using that assms(1,3) f by (auto simp: hashes_kept_def record_id_cases nth_append)
  qed
  then show ?thesis by (simp add: hashes_kept_def Let_def)
qed

lemma hashes_kept_repeat:
  assumes "hashes_kept cx base n v" and "n < 20" and "errorStage \<noteq> None \<or> (\<forall>h. hash = Some h \<longrightarrow> last_opt (ru_hashes v) = Some h)"
  shows "hashes_kept cx base (Suc n) (persistRecord cx stage hash errorStage opStage v)"
proof (rule hashes_kept_persist)
  show "n < 20" by (rule assms(2))
  show "Suc k = ru_writeIndex v \<and> hash = Some (ru_hashes v ! k)" if "record_id cx (ru_writeIndex v) hash errorStage = write_id cx (Suc k)" for k
  proof -
    from that obtain h where "hash = Some h" "errorStage = None" "ru_writeIndex v = Suc k"
      by (cases errorStage; cases hash) (auto simp: record_id_cases other_ids split: if_splits)
    with assms(1,3) show ?thesis by (auto simp: hashes_kept_def last_opt_def last_conv_nth split: if_splits)
  qed
qed (use assms(1) in \<open>auto simp: hashes_kept_def\<close>)

lemma note_receipt_fields [simp]:
  "ru_writeIndex (note_receipt mark v) = ru_writeIndex v" "ru_hashes (note_receipt mark v) = ru_hashes v"
  "ru_driver (note_receipt mark v) = ru_driver v"
  by (simp_all add: note_receipt_def split: option.split)

lemma last_opt_append: "last_opt (xs @ [x]) = Some x"
  by (simp add: last_opt_def)

lemma hash_event_hashes [simp]: "ru_hashes (handle_event cx (OnHash h mark) v) = ru_hashes v @ [h]"
  by (simp add: Let_def) (simp add: note_hash_def)

lemma handle_events_kept:
  assumes "hashes_kept cx base n v" and "n + record_count evs \<le> 20" and "receipted (last_opt (ru_hashes v)) evs" and "[] \<notin> set (announced evs)"
  shows "hashes_kept cx base (n + record_count evs) (handle_events cx evs v) \<and> ru_hashes (handle_events cx evs v) = ru_hashes v @ announced evs"
  using assms
proof (induction evs arbitrary: n v)
  case (Cons ev evs)
  have step: "handle_events cx (ev # evs) v = handle_events cx evs (handle_event cx ev v)" by (simp add: handle_events_def)
  show ?case
  proof (cases ev)
    case (OnHash h mark)
    with Cons.prems have "hashes_kept cx base (Suc n) (handle_event cx ev v)" by (auto intro!: hashes_kept_hash simp del: handle_event.simps)
    from Cons.IH [OF this] Cons.prems OnHash show ?thesis
      unfolding step by (auto simp: last_opt_append simp del: handle_event.simps)
  next
    case (OnReceipt h mark)
    have "hashes_kept cx base (Suc n) (handle_event cx ev v)"
      using Cons.prems unfolding OnReceipt handle_event.simps by (intro hashes_kept_repeat) (auto simp: hashes_kept_def)
    from Cons.IH [OF this] Cons.prems OnReceipt show ?thesis unfolding step by auto
  next
    case (OnStage g)
    have "hashes_kept cx base n (handle_event cx ev v)" using Cons.prems(1) by (simp add: OnStage hashes_kept_def)
    from Cons.IH [OF this] Cons.prems OnStage show ?thesis unfolding step by simp
  next
    case (OnStep p)
    have "hashes_kept cx base n (handle_event cx ev v)" using Cons.prems(1) by (simp add: OnStep hashes_kept_def)
    from Cons.IH [OF this] Cons.prems OnStep show ?thesis unfolding step by simp
  next
    case (OnTransactionStage ts)
    then show ?thesis unfolding step using Cons.IH [OF Cons.prems(1)] Cons.prems by simp
  next
    case (Simulated c)
    then show ?thesis unfolding step using Cons.IH [OF Cons.prems(1)] Cons.prems by simp
  next
    case (Submitted c ho)
    then show ?thesis unfolding step using Cons.IH [OF Cons.prems(1)] Cons.prems by simp
  qed
qed (simp add: handle_events_def)


section \<open>How much a run records\<close>

text \<open>A run records at most \<open>k\<close> times, and what it leaves pending is the last hash announced.\<close>

definition bounded :: "nat \<Rightarrow> ('w, 'a) v2_op \<Rightarrow> bool" where
  "bounded k m \<longleftrightarrow> traces (\<lambda>r new. record_count new \<le> k \<and>
     (\<forall>msg h t mark e. r = Inl (ReconciliationPending msg h t mark e) \<longrightarrow> last_opt (announced new) = Some h)) m"

lemma last_opt_append2: "last_opt ys = Some y \<Longrightarrow> last_opt (xs @ ys) = Some y"
  by (auto simp: last_opt_def split: if_splits)

lemma bounded_le: "bounded k m \<Longrightarrow> k \<le> n \<Longrightarrow> bounded n m"
  unfolding bounded_def by (erule traces_weaken) simp

lemma bounded_bind: "bounded k m \<Longrightarrow> (\<And>a. bounded l (f a)) \<Longrightarrow> bounded (k + l) (bind_eff m f)"
  unfolding bounded_def by (erule traces_bind, assumption) (auto intro: last_opt_append2)

lemma bounded_if: "bounded k m \<Longrightarrow> bounded l m' \<Longrightarrow> bounded (k + l) (if b then m else m')"
  by (auto intro: bounded_le)

lemma bounded_case_list:
  assumes "bounded k m" and "\<And>y ys. bounded l (f y ys)"
  shows "bounded (k + l) (case xs of [] \<Rightarrow> m | y # ys \<Rightarrow> f y ys)"
proof (cases xs)
  case Nil
  then show ?thesis using bounded_le [OF assms(1), of "k + l"] by simp
next
  case (Cons y ys)
  then show ?thesis using bounded_le [OF assms(2), of "k + l"] by simp
qed

lemma bounded_silent: "traces silent m \<Longrightarrow> bounded 0 m"
  unfolding bounded_def by (erule traces_weaken) (auto simp: silent_def)

lemma bounded_notify: "bounded 0 (notify (OnStage g))" "bounded 0 (notify (OnStep p))" "bounded 0 (show_step i n label)"
  unfolding bounded_def show_step_def by (rule traces_weaken [OF notify_trace], simp)+

lemma bounded_write: "bounded 2 (writeV2 clients request stage)"
  unfolding bounded_def by (rule traces_weaken [OF writeV2_trace]) (auto simp: write_outcomes pendingError_def last_opt_def)

lemmas bounded_intros = bounded_bind bounded_if bounded_case_list bounded_notify bounded_write
  silent_ops [THEN bounded_silent] silent_guards [THEN bounded_silent] silent_reads [THEN bounded_silent]

lemma bounded_save: "bounded 2 (saveV2Money clients amount)"
  unfolding saveV2Money_def by (rule bounded_le, (rule bounded_intros)+) simp

lemma bounded_add: "bounded 6 (addV2Money clients amount)"
  unfolding addV2Money_def approve_if_required_def Let_def by (rule bounded_le, (rule bounded_intros bounded_save)+) simp

lemma bounded_resume_save: "bounded 2 (resumeV2AddMoneySave clients amount)"
  unfolding resumeV2AddMoneySave_def by (rule bounded_le, (rule bounded_intros bounded_save)+) simp

lemma bounded_resume_wrap: "bounded 10 (resumeV2AddMoneyAfterApproval clients amount)"
  unfolding resumeV2AddMoneyAfterApproval_def by (rule bounded_le, (rule bounded_intros bounded_save bounded_add)+) simp

lemma bounded_prize_savings: "bounded 4 (enableV2PrizeSavings clients draws)" "bounded 4 (disableV2PrizeSavings clients)"
  unfolding enableV2PrizeSavings_def disableV2PrizeSavings_def top_up_credit_def
  by (rule bounded_le, (rule bounded_intros)+, simp)+

lemma bounded_entry_balance: "bounded 2 (topUpV2EntryBalance clients amount)" "bounded 2 (withdrawV2EntryBalance clients amount)"
  unfolding topUpV2EntryBalance_def withdrawV2EntryBalance_def by (rule bounded_le, (rule bounded_intros)+, simp)+

lemma bounded_withdraw: "bounded 8 (withdrawV2Savings clients amount)"
  unfolding withdrawV2Savings_def withdrawV2Asset_def unwrapToUsdc_def Let_def
  by (rule bounded_le, (rule bounded_intros)+) simp


section \<open>Operations the dialogs run\<close>

definition well_run :: "('w, 'a) v2_op \<Rightarrow> bool" where
  "well_run m \<longleftrightarrow> traces (\<lambda>r new. record_count new \<le> 16 \<and> receipted None new \<and> announced new = returned new \<and>
     (\<forall>msg h t mark e. r = Inl (ReconciliationPending msg h t mark e) \<longrightarrow> last_opt (announced new) = Some h)) m"

lemma traces_conj: "traces R m \<Longrightarrow> traces S m \<Longrightarrow> traces (\<lambda>r new. R r new \<and> S r new) m"
  by (rule tracesI) (metis tracesD same_append_eq)

lemma well_runI:
  assumes "receipted.obeys m" and "announcing.obeys m" and "bounded k m" and "k \<le> 16"
  shows "well_run m"
  using traces_conj [OF traces_conj [OF assms(1,2) [unfolded receipted.obeys_def announcing.obeys_def]] bounded_le [OF assms(3,4), unfolded bounded_def]]
  unfolding well_run_def by (rule traces_weaken) blast

lemma well_run_discard: "well_run m \<Longrightarrow> well_run (discard m)"
  unfolding well_run_def discard_def
  by (erule traces_bind, rule silent_ops(1)) (auto simp: silent_def)

lemma well_run_dialogs:
  "well_run (addV2Money clients amount)" "well_run (resumeV2AddMoneySave clients amount)"
  "well_run (resumeV2AddMoneyAfterApproval clients amount)" "well_run (withdrawV2Savings clients amount)"
  "well_run (topUpV2EntryBalance clients amount)" "well_run (withdrawV2EntryBalance clients amount)"
  "well_run (enableV2PrizeSavings clients draws)" "well_run (disableV2PrizeSavings clients)"
  by (rule well_runI [OF receipted.obeys_add announcing.obeys_add bounded_add], simp)
    (rule well_runI [OF receipted.obeys_resume(1) announcing.obeys_resume(1) bounded_resume_save], simp,
     rule well_runI [OF receipted.obeys_resume(2) announcing.obeys_resume(2) bounded_resume_wrap], simp,
     rule well_runI [OF receipted.obeys_withdraw(1) announcing.obeys_withdraw(1) bounded_withdraw], simp,
     rule well_runI [OF receipted.obeys_entry_balance(1) announcing.obeys_entry_balance(1) bounded_entry_balance(1)], simp,
     rule well_runI [OF receipted.obeys_entry_balance(2) announcing.obeys_entry_balance(2) bounded_entry_balance(2)], simp,
     rule well_runI [OF receipted.obeys_prize_savings(1) announcing.obeys_prize_savings(1) bounded_prize_savings(1)], simp,
     rule well_runI [OF receipted.obeys_prize_savings(2) announcing.obeys_prize_savings(2) bounded_prize_savings(2)], simp)

lemma well_run_throw: "well_run (throw (Plain e))"
  unfolding well_run_def by (rule traces_weaken [OF silent_ops(2)]) (auto simp: silent_def)

lemma well_run_units: "(\<And>n. well_run (operation n clients)) \<Longrightarrow> well_run (with_units parsed operation clients)"
  by (simp add: with_units_def well_run_throw well_run_discard split: sum.split)

lemma well_run_resume: "well_run (resume_operation recovery clients)"
  by (simp add: resume_operation_def well_run_discard well_run_dialogs split: resume_stage.split)

text \<open>Every submission of a dialog runs such an operation, or leaves everything as it is.\<close>

lemma submitDialog_runs:
  fixes env :: "'w driver_env"
  obtains "submitDialog env (w, d) = (w, d)"
  | kind options and operation :: "'w V2ActionClients \<Rightarrow> ('w, unit) v2_op" where "submitDialog env (w, d) = runAction env kind operation options (w, d)"
      "\<And>clients. well_run (operation clients)" "take 3 kind = ''v2-''"
proof (cases "ds_dialog d")
  case None
  then show thesis using that(1) by (simp add: submitDialog_def Let_def)
next
  case (Some k)
  note ok = well_run_units well_run_dialogs well_run_resume well_run_discard
  show thesis
  proof (cases "k = DlgAddMoney \<and> ds_blocked d")
    case True
    then show thesis using that(1) Some by (simp add: submitDialog_def Let_def)
  next
    case False
    then show thesis
      by (cases k; cases "ds_recovery d") (rule that(2), simp add: submitDialog_def Some Let_def, simp add: ok, simp)+
  qed
qed

section \<open>A run and its records\<close>

text \<open>The accounts the wallet session may name.\<close>

definition session_accounts :: "'w driver_env \<Rightarrow> string set" where
  "session_accounts env = {a. \<exists>session \<in> yields (en_session env).
     (case fs_verifiedAddress session of Some b \<Rightarrow> Some b | None \<Rightarrow> fs_address session) = Some a}"

lemma open_run_silent: "traces silent (open_run env)"
proof -
  have rd: "traces silent (client_read m Plain)" for m :: "('a, 'b) client_read"
    by (rule tracesI) (auto simp: client_read_def silent_def split: prod.splits sum.splits)
  show ?thesis
    by (auto simp: open_run_def Let_def split: option.split intro!: silent_intros rd)
qed

lemma open_run_account:
  assumes "open_run env w = (Inr (account, clients), w')"
  shows "account \<in> session_accounts env \<and> (\<exists>base. en_publicClient env = Some base \<and> clients = base\<lparr>vc_account := account\<rparr>)"
proof -
  from assms have "\<exists>base. en_publicClient env = Some base \<and> clients = base\<lparr>vc_account := account\<rparr>"
    by (auto simp: open_run_def bind_eff_Inr Let_def split: if_splits option.splits)
  moreover from assms obtain session s1 where rd: "client_read (en_session env) Plain w = (Inr session, s1)"
    and ac: "(case fs_verifiedAddress session of Some b \<Rightarrow> Some b | None \<Rightarrow> fs_address session) = Some account"
    by (auto simp: open_run_def bind_eff_Inr Let_def truthy_def or_empty_def split: if_splits option.splits)
  moreover from rd have "session \<in> yields (en_session env)" by (auto simp: client_read_def yields_def split: prod.splits sum.splits)
  ultimately show ?thesis using ac unfolding session_accounts_def by blast
qed

lemma finish_kept:
  assumes "hashes_kept cx base n v" and "n < 20"
    and "\<And>msg h t mark e. r = Inl (ReconciliationPending msg h t mark e) \<Longrightarrow> last_opt (ru_hashes v) = Some h"
    and "base \<le> k" and "k < length (ru_hashes v)"
  shows "kept (Suc n) (rx_account cx) (write_record cx (Suc k) (ru_hashes v ! k))
    (ds_storage (case r of Inr _ \<Rightarrow> finish_success cx v | Inl e \<Rightarrow> finish_error cx e v))"
proof -
  have keep: "kept (Suc n) (rx_account cx) (write_record cx (Suc k) (ru_hashes v ! k)) (ds_storage (ru_driver (persistRecord cx stage hash errorStage opStage v)))"
    if "errorStage \<noteq> None \<or> (\<forall>h. hash = Some h \<longrightarrow> last_opt (ru_hashes v) = Some h)" for stage hash errorStage opStage
    using hashes_kept_repeat [OF assms(1,2) that, of stage opStage] assms(4,5) by (simp add: hashes_kept_def)
  show ?thesis
  proof (cases r)
    case (Inr a)
    then show ?thesis by (simp add: finish_success_def Let_def keep)
  next
    case (Inl e)
    then show ?thesis
      using assms(3) by (cases e) (auto simp: finish_error_def finish_pending_def report_error_def Let_def intro!: keep)
  qed
qed

definition started :: "run_context \<Rightarrow> bool \<Rightarrow> run_vars \<Rightarrow> run_vars" where
  "started cx fresh v = (if fresh then persistRecord cx ST_WALLET None None None v else v)"

lemma run_operation_inv:
  assumes "run_operation cx fresh operation v w = (w', d')" and "snd w' = snd w @ new"
  obtains r where "operation w = (r, w')"
    "d' = (case r of Inr _ \<Rightarrow> finish_success cx (handle_events cx new (started cx fresh v))
       | Inl e \<Rightarrow> finish_error cx e (handle_events cx new (started cx fresh v)))"
proof -
  obtain r w1 where o: "operation w = (r, w1)" by (cases "operation w")
  with assms(1) have eq: "w1 = w'" "d' = (case r of Inr _ \<Rightarrow> finish_success cx (handle_events cx (drop (length (snd w)) (snd w')) (started cx fresh v))
      | Inl e \<Rightarrow> finish_error cx e (handle_events cx (drop (length (snd w)) (snd w')) (started cx fresh v)))"
    by (cases r; auto simp: run_operation_def started_def Let_def)+
  have "drop (length (snd w)) (snd w') = new" using assms(2) by simp
  with that o eq show thesis by metis
qed

lemma run_operation_world: "run_operation cx fresh operation v w = (w', d') \<Longrightarrow> w' = snd (operation w)"
  by (auto simp: run_operation_def Let_def split: prod.splits)

lemma run_operation_kept:
  assumes "run_operation cx fresh operation v w = (w', d')" and "well_run operation"
    and "length (ru_hashes v) = ru_writeIndex v" and "snd w' = snd w @ new" and "[] \<notin> set (returned new)" and "h \<in> set (returned new)"
  shows "\<exists>k. kept 20 (rx_account cx) (write_record cx k h) (ds_storage d')"
proof -
  let ?v1 = "started cx fresh v"
  let ?v2 = "handle_events cx new ?v1"
  obtain r where op: "operation w = (r, w')" and d': "d' = (case r of Inr _ \<Rightarrow> finish_success cx ?v2 | Inl e \<Rightarrow> finish_error cx e ?v2)"
    by (rule run_operation_inv [OF assms(1,4)])
  from tracesD [OF assms(2) [unfolded well_run_def] op] assms(4) have tr: "record_count new \<le> 16" "receipted None new" "announced new = returned new"
    "\<And>msg h t mark e. r = Inl (ReconciliationPending msg h t mark e) \<Longrightarrow> last_opt (announced new) = Some h" by auto
  have v1: "hashes_kept cx (ru_writeIndex v) 1 ?v1" using assms(3) by (auto simp: hashes_kept_def started_def)
  have "receipted (last_opt (ru_hashes ?v1)) new" using tr(2) by (rule receipted_more)
  from handle_events_kept [OF v1 _ this] tr(1,3) assms(5) have v2: "hashes_kept cx (ru_writeIndex v) (1 + record_count new) ?v2"
    and hs: "ru_hashes ?v2 = ru_hashes v @ returned new" by (auto simp: started_def)
  from assms(6) obtain i where i: "i < length (returned new)" "returned new ! i = h" by (auto simp: in_set_conv_nth)
  have "kept (Suc (1 + record_count new)) (rx_account cx) (write_record cx (Suc (ru_writeIndex v + i)) (ru_hashes ?v2 ! (ru_writeIndex v + i))) (ds_storage d')"
    unfolding d'
  proof (rule finish_kept [OF v2])
    show "1 + record_count new < 20" using tr(1) by simp
    show "last_opt (ru_hashes ?v2) = Some h" if "r = Inl (ReconciliationPending msg h t mark e)" for msg h t mark e
      using tr(4) [OF that] tr(3) hs by (simp add: last_opt_append2)
    show "ru_writeIndex v \<le> ru_writeIndex v + i" "ru_writeIndex v + i < length (ru_hashes ?v2)" using i(1) hs assms(3) by simp_all
  qed
  moreover have "ru_hashes ?v2 ! (ru_writeIndex v + i) = h" using hs assms(3) i by (simp add: nth_append)
  ultimately have "kept (Suc (1 + record_count new)) (rx_account cx) (write_record cx (Suc (ru_writeIndex v + i)) h) (ds_storage d')" by simp
  then have "kept 20 (rx_account cx) (write_record cx (Suc (ru_writeIndex v + i)) h) (ds_storage d')" by (rule kept_mono) (use tr(1) in simp_all)
  then show ?thesis by blast
qed


lemma report_error_storage: "ds_storage (report_error kind e v) = ds_storage (ru_driver v)"
  by (simp add: report_error_def Let_def)

lemma well_run_events: "well_run m \<Longrightarrow> m w = (r, w') \<Longrightarrow> \<exists>new. snd w' = snd w @ new"
  unfolding well_run_def by (drule (1) tracesD) blast

text \<open>How a run goes: nothing, or it fails before any event, or it runs its operation for a session account.\<close>

lemma runAction_cases:
  assumes "runAction env kind operation options (w, d) = (w', d')"
  obtains "snd w' = snd w" "ds_storage d' = ds_storage d"
  | account clients w1 v where "account \<in> session_accounts env" "snd w1 = snd w" "length (ru_hashes v) = ru_writeIndex v"
      "ds_storage (ru_driver v) = ds_storage d" "\<exists>base. en_publicClient env = Some base \<and> clients = base\<lparr>vc_account := account\<rparr>"
      "run_operation (run_context_of env kind options account) (\<not> truthy (ro_operationId options)) (operation clients) v w1 = (w', d')"
proof (cases "va_status (ds_action d) = ActRunning \<or> va_status (ds_action d) = ActPending \<or> unresolved_record env d \<noteq> None")
  case True
  with assms have "w' = w" "ds_storage d' = ds_storage d" by (auto simp: runAction_def split: option.splits if_splits)
  then show thesis using that(1) by simp
next
  case False
  let ?v = "run_vars_of options (d\<lparr>ds_action := idle_action\<lparr>va_status := ActRunning, va_kind := Some kind, va_hashes := ro_initialHashes options\<rparr>\<rparr>)"
  obtain r w1 where o: "open_run env w = (r, w1)" by (cases "open_run env w")
  have quiet: "snd w1 = snd w" using tracesD [OF open_run_silent o] by (auto simp: silent_def)
  show thesis
  proof (cases r)
    case (Inl e)
    with assms False o have "w' = w1" "ds_storage d' = ds_storage d"
      by (auto simp: runAction_def Let_def report_error_storage run_vars_of_def)
    with quiet that(1) show thesis by simp
  next
    case (Inr ac)
    obtain account clients where ac: "ac = (account, clients)" by (cases ac)
    with assms False o Inr have "run_operation (run_context_of env kind options account) (\<not> truthy (ro_operationId options)) (operation clients) ?v w1 = (w', d')"
      by (simp add: runAction_def Let_def)
    moreover have "account \<in> session_accounts env" "\<exists>base. en_publicClient env = Some base \<and> clients = base\<lparr>vc_account := account\<rparr>"
      using open_run_account o Inr ac by blast+
    ultimately show thesis using that(2) [of account w1 ?v clients] quiet by (simp add: run_vars_of_def)
  qed
qed

text \<open>A submission only adds events.\<close>

lemma submitDialog_events:
  assumes "submitDialog env (w, d) = (w', d')"
  shows "\<exists>new. snd w' = snd w @ new"
proof (cases rule: submitDialog_runs [of env w d])
  case 1
  with assms show ?thesis by simp
next
  case (2 kind options operation)
  with assms have "runAction env kind operation options (w, d) = (w', d')" by simp
  then show ?thesis
  proof (cases rule: runAction_cases)
    case r: (2 account clients w1 v)
    show ?thesis using well_run_events [OF 2(2), of clients w1 "fst (operation clients w1)" w'] run_operation_world [OF r(6)] r(2)
      by (simp add: prod_eq_iff)
  qed simp
qed



section \<open>Unresolved transactions\<close>

text \<open>
  An unresolved transaction blocks the next action: while the storage holds a transaction of the
  account whose outcome is open, no action signs or records anything; the driver shows that it is
  busy.
\<close>

theorem unresolved_transaction_blocks_actions:
  assumes "en_readAccount env = Some account" and "u \<in> set (loadSafeTransactions account (ds_storage d))"
    and "sr_chainId u = V2_PREVIEW_CHAIN_ID" and "isUnresolvedV2Transaction u"
  shows "\<exists>d'. runAction env kind operation options (w, d) = (w, d') \<and> ds_storage d' = ds_storage d \<and>
    va_status (ds_action d') \<in> {ActRunning, ActPending}"
proof -
  from assms obtain u' where "unresolved_record env d = Some u'"
    by (cases "unresolved_record env d") (auto simp: unresolved_record_def find_None_iff)
  then show ?thesis by (auto simp: runAction_def pending_action_def)
qed

lemma settled_not_unresolved: "status \<noteq> StillPending \<Longrightarrow> \<not> isUnresolvedV2Transaction
    (r\<lparr>sr_stage := (if status = Confirmed then ST_COMPLETE else ST_FAILED), sr_errorStage := e, sr_updatedAt := t\<rparr>)"
  by (simp add: isUnresolvedV2Transaction_def)

lemma settle_record_load:
  assumes "status \<noteq> StillPending" and "r \<in> set (loadSafeTransactions a (ds_storage d))" and "distinct (map sr_id (loadSafeTransactions a (ds_storage d)))"
  obtains r' where "sr_id r' = sr_id r" "\<not> isUnresolvedV2Transaction r'"
    "loadSafeTransactions a (ds_storage (settle_record env r status d)) =
      r' # filter (\<lambda>x. sr_id x \<noteq> sr_id r) (loadSafeTransactions a (ds_storage d))"
proof -
  let ?r = "r\<lparr>sr_stage := (if status = Confirmed then ST_COMPLETE else ST_FAILED),
    sr_errorStage := (if status = Confirmed then None else Some ST_FAILED), sr_updatedAt := ds_now d\<rparr>"
  let ?rest = "filter (\<lambda>x. sr_id x \<noteq> sr_id r) (loadSafeTransactions a (ds_storage d))"
  have st: "ds_storage (settle_record env r status d) = persistSafeTransaction ?r (ds_storage d)"
    using assms(1) by (cases status) (auto simp: settle_record_def Let_def)
  have acc: "toLowerCase a = toLowerCase (sr_account ?r)"
    using assms(2) by (auto simp: loadSafeTransactions_def split: transaction_storage.splits dest!: in_set_takeD)
  have "length ?rest < length (loadSafeTransactions a (ds_storage d))" using length_filter_less [OF assms(2), of "\<lambda>x. sr_id x \<noteq> sr_id r"] by simp
  with load_length [of a "ds_storage d"] have "length (?r # ?rest) \<le> 20" by simp
  then have "loadSafeTransactions a (ds_storage (settle_record env r status d)) = ?r # ?rest"
    unfolding st load_persist [OF acc] by simp
  then show thesis using that [of ?r] settled_not_unresolved [OF assms(1)] by simp
qed

lemma reconcile_each_settles:
  assumes "\<And>r w. r \<in> set rs \<Longrightarrow> \<exists>h status w'. reconcileV2Transaction clients (or_empty (sr_hash r)) w = (Inr (h, status), w') \<and> status \<noteq> StillPending"
    and "\<And>r. r \<in> set rs \<Longrightarrow> truthy (sr_hash r)"
    and "distinct rs" and "set rs \<subseteq> set (loadSafeTransactions a (ds_storage d))" and "distinct (map sr_id (loadSafeTransactions a (ds_storage d)))"
    and "\<And>x. x \<in> set (loadSafeTransactions a (ds_storage d)) \<Longrightarrow> isUnresolvedV2Transaction x \<Longrightarrow> sr_chainId x = V2_PREVIEW_CHAIN_ID \<Longrightarrow> x \<in> set rs"
  shows "pending_records a (snd (reconcile_each env clients rs (w, d))) = []"
  using assms
proof (induction rs arbitrary: w d)
  case Nil
  then show ?case by (auto simp: pending_records_def filter_empty_conv)
next
  case (Cons r rs)
  from Cons.prems(1) [of r w] obtain h status w' where rc: "reconcileV2Transaction clients (or_empty (sr_hash r)) w = (Inr (h, status), w')" "status \<noteq> StillPending"
    by auto
  let ?d = "settle_record env r status d"
  from Cons.prems(4) have r: "r \<in> set (loadSafeTransactions a (ds_storage d))" by simp
  obtain r' where r': "sr_id r' = sr_id r" "\<not> isUnresolvedV2Transaction r'"
    "loadSafeTransactions a (ds_storage ?d) = r' # filter (\<lambda>x. sr_id x \<noteq> sr_id r) (loadSafeTransactions a (ds_storage d))"
    by (rule settle_record_load [OF rc(2) r Cons.prems(5)])
  have ids: "sr_id x \<noteq> sr_id r" if "x \<in> set rs" for x
    using that Cons.prems(3,4,5) r by (auto simp: distinct_map dest: inj_onD)
  have "pending_records a (snd (reconcile_each env clients rs (w', ?d))) = []"
  proof (rule Cons.IH)
    show "set rs \<subseteq> set (loadSafeTransactions a (ds_storage ?d))" using Cons.prems(4) ids r'(3) by auto
    show "distinct (map sr_id (loadSafeTransactions a (ds_storage ?d)))" using Cons.prems(5) r'(1,3) by (auto simp: distinct_map_filter)
    show "x \<in> set rs" if "x \<in> set (loadSafeTransactions a (ds_storage ?d))" "isUnresolvedV2Transaction x" "sr_chainId x = V2_PREVIEW_CHAIN_ID" for x
      using that r'(2,3) Cons.prems(6) [of x] by auto
  qed (use Cons.prems in auto)
  with rc Cons.prems(2) [of r] show ?case by simp
qed

text \<open>
  C18. Pending transactions are settled.  Once the chain has a receipt for each of them, one pass of the
  reconciliation leaves no transaction of the account unresolved, and the next action is not held
  back by the storage.
\<close>

theorem pending_transactions_are_settled:
  assumes "en_readAccount env = Some account" and "en_publicClient env = Some clients"
    and "distinct (map sr_id (loadSafeTransactions account (ds_storage d)))"
    and "\<And>r w. r \<in> set (pending_records account d) \<Longrightarrow>
      \<exists>h status w'. reconcileV2Transaction clients (or_empty (sr_hash r)) w = (Inr (h, status), w') \<and> status \<noteq> StillPending"
    and "reconcilePendingTransactions env (w, d) = (w', d')"
  shows "pending_records account d' = [] \<and> unresolved_record env d' = None"
proof -
  let ?P = "pending_records account d"
  have none: "unresolved_record env d1 = None \<longleftrightarrow> pending_records account d1 = []" for d1
    using assms(1) by (auto simp: unresolved_record_def pending_records_def find_None_iff filter_empty_conv)
  have "distinct ?P" using assms(3) by (auto simp: pending_records_def distinct_map)
  have settle: "pending_records account (snd (reconcile_each env clients ?P (w, d1))) = []" if "ds_storage d1 = ds_storage d" for d1
    by (rule reconcile_each_settles) (use assms(3,4) \<open>distinct ?P\<close> that in \<open>auto simp: pending_records_def isUnresolvedV2Transaction_def\<close>)
  have "pending_records account d' = []"
    using assms(1,2,5) settle
    by (cases ?P) (auto simp: reconcilePendingTransactions_def Let_def split: if_splits dest!: arg_cong [where f = snd])
  with none show ?thesis by simp
qed


section \<open>Deposits\<close>

text \<open>Every hash of a deposit is announced with its step, and so is what it leaves pending.\<close>

fun step_marked :: "action_event \<Rightarrow> bool" where
  "step_marked (OnHash h mark) = (mark \<noteq> None)"
| "step_marked (OnReceipt h mark) = (mark \<noteq> None)"
| "step_marked ev = True"

definition marked :: "('w, 'a) v2_op \<Rightarrow> bool" where
  "marked m \<longleftrightarrow> traces (\<lambda>r new. list_all step_marked new \<and> (\<forall>msg h t e. r \<noteq> Inl (ReconciliationPending msg h t None e))) m"

lemma marked_bind: "marked m \<Longrightarrow> (\<And>a. marked (f a)) \<Longrightarrow> marked (bind_eff m f)"
  unfolding marked_def by (erule traces_bind, assumption) auto

lemma marked_if: "(b \<Longrightarrow> marked m) \<Longrightarrow> (\<not> b \<Longrightarrow> marked m') \<Longrightarrow> marked (if b then m else m')"
  by simp

lemma marked_silent: "traces silent m \<Longrightarrow> marked m"
  unfolding marked_def by (erule traces_weaken) (auto simp: silent_def)

lemma marked_notify: "marked (notify (OnStage g))" "marked (show_step i n label)"
  unfolding marked_def show_step_def by (rule traces_weaken [OF notify_trace], simp)+

lemma marked_write: "addMoneyStageForWrite stage \<noteq> None \<Longrightarrow> marked (writeV2 clients request stage)"
  unfolding marked_def by (rule traces_weaken [OF writeV2_trace]) (auto simp: write_outcomes pendingError_def)

lemmas marked_intros = marked_bind marked_if marked_notify marked_write silent_ops [THEN marked_silent] silent_guards [THEN marked_silent]

lemma marked_stages:
  "addMoneyStageForWrite ''add-money-approval'' \<noteq> None" "addMoneyStageForWrite ''add-money-wrap'' \<noteq> None"
  "addMoneyStageForWrite ''add-money-save'' \<noteq> None"
  by (simp_all add: addMoneyStageForWrite_def)

lemma marked_save: "marked (saveV2Money clients amount)"
  unfolding saveV2Money_def by (intro marked_intros marked_stages)

lemma marked_add: "marked (addV2Money clients amount)"
  unfolding addV2Money_def approve_if_required_def Let_def by (intro marked_intros marked_stages marked_save)

lemma marked_discard: "marked m \<Longrightarrow> marked (discard m)"
  unfolding discard_def by (intro marked_intros)

lemma marked_deposits: "marked (resume_operation recovery clients)" "marked (with_units parsed (\<lambda>n clients. addV2Money clients n) clients)"
proof -
  have "marked (resumeV2AddMoneySave clients amount)" "marked (resumeV2AddMoneyAfterApproval clients amount)" for amount
    unfolding resumeV2AddMoneySave_def resumeV2AddMoneyAfterApproval_def by (intro marked_intros marked_stages marked_save marked_add)+
  then show "marked (resume_operation recovery clients)" by (simp add: resume_operation_def marked_discard split: resume_stage.split)
  show "marked (with_units parsed (\<lambda>n clients. addV2Money clients n) clients)"
    by (simp add: with_units_def marked_discard marked_add silent_ops [THEN marked_silent] split: sum.split)
qed

text \<open>The records of a run are never unresolved when every hash carries a step.\<close>

definition no_unresolved :: "transaction_storage \<Rightarrow> bool" where
  "no_unresolved st \<longleftrightarrow> (case st of Records rs \<Rightarrow> list_all (\<lambda>r. \<not> isUnresolvedV2Transaction r) rs | _ \<Rightarrow> True)"

lemma no_unresolved_load: "no_unresolved st \<Longrightarrow> r \<in> set (loadSafeTransactions a st) \<Longrightarrow> \<not> isUnresolvedV2Transaction r"
  by (auto simp: no_unresolved_def loadSafeTransactions_def list_all_iff split: transaction_storage.splits dest!: in_set_takeD)

lemma no_unresolved_persist:
  assumes "no_unresolved st" and "\<not> isUnresolvedV2Transaction r"
  shows "no_unresolved (persistSafeTransaction r st)"
  using assms no_unresolved_load [OF assms(1)]
  by (auto simp: persistSafeTransaction_def Let_def no_unresolved_def [of "Records _"] list_all_iff dest!: in_set_takeD)

lemma no_unresolved_record:
  assumes "no_unresolved (ds_storage (ru_driver v))" and "stage \<noteq> ST_SUBMITTED" and "stage \<noteq> ST_CONFIRMING"
  shows "no_unresolved (ds_storage (ru_driver (persistRecord cx stage hash errorStage opStage v)))"
proof -
  obtain r where r: "sr_stage r = stage" "ds_storage (ru_driver (persistRecord cx stage hash errorStage opStage v)) = persistSafeTransaction r (ds_storage (ru_driver v))"
    using persist_storage by blast
  with assms show ?thesis by (auto intro!: no_unresolved_persist simp: isUnresolvedV2Transaction_def)
qed

lemma marked_stage [simp]: "pending_stage (Some st) \<noteq> ST_SUBMITTED" "pending_stage (Some st) \<noteq> ST_CONFIRMING"
  by (cases st; simp add: pending_stage_def)+

lemma no_unresolved_events:
  assumes "no_unresolved (ds_storage (ru_driver v))" and "list_all step_marked evs"
  shows "no_unresolved (ds_storage (ru_driver (handle_events cx evs v)))"
  using assms
proof (induction evs arbitrary: v)
  case (Cons ev evs)
  have "no_unresolved (ds_storage (ru_driver (handle_event cx ev v)))"
    using Cons.prems by (cases ev) (auto simp: Let_def note_hash_def intro!: no_unresolved_record)
  with Cons show ?case by (simp add: handle_events_def)
qed (simp add: handle_events_def)


lemma no_unresolved_finish:
  assumes "no_unresolved (ds_storage (ru_driver v))" and "\<forall>msg h t e. r \<noteq> Inl (ReconciliationPending msg h t None e)"
  shows "no_unresolved (ds_storage (case r of Inr _ \<Rightarrow> finish_success cx v | Inl e \<Rightarrow> finish_error cx e v))"
proof (cases r)
  case (Inr a)
  then show ?thesis using assms(1) by (simp add: finish_success_def Let_def no_unresolved_record)
next
  case (Inl e)
  then show ?thesis
    using assms by (cases e) (auto simp: finish_error_def finish_pending_def Let_def report_error_storage intro!: no_unresolved_record split: option.split)
qed

lemma no_unresolved_run:
  assumes "run_operation cx fresh operation v w = (w', d')" and "marked operation" and "no_unresolved (ds_storage (ru_driver v))"
  shows "no_unresolved (ds_storage d')"
proof -
  have "operation w = (fst (operation w), w')" using run_operation_world [OF assms(1)] by simp
  from tracesD [OF assms(2) [unfolded marked_def] this] obtain new where new: "snd w' = snd w @ new" "list_all step_marked new"
    "\<forall>msg h t e. fst (operation w) \<noteq> Inl (ReconciliationPending msg h t None e)" by blast
  obtain r where r: "operation w = (r, w')" "d' = (case r of Inr _ \<Rightarrow> finish_success cx (handle_events cx new (started cx fresh v))
      | Inl e \<Rightarrow> finish_error cx e (handle_events cx new (started cx fresh v)))"
    by (rule run_operation_inv [OF assms(1) new(1)])
  have "no_unresolved (ds_storage (ru_driver (started cx fresh v)))" using assms(3) by (simp add: started_def no_unresolved_record)
  from no_unresolved_finish [OF no_unresolved_events [OF this new(2)]] new(3) show ?thesis unfolding r(2) using r(1) by simp
qed

lemma add_money_dialog:
  fixes env :: "'w driver_env"
  assumes "ds_dialog d = Some DlgAddMoney"
  obtains "submitDialog env (w, d) = (w, d)"
  | options and operation :: "'w V2ActionClients \<Rightarrow> ('w, unit) v2_op" where "submitDialog env (w, d) = runAction env ''v2-add-money'' operation options (w, d)"
      "\<And>clients. marked (operation clients)"
proof (cases "ds_blocked d")
  case True
  with assms that(1) show thesis by (simp add: submitDialog_def Let_def)
next
  case False
  show thesis
  proof (cases "ds_recovery d")
    case None
    show thesis by (rule that(2), use False assms None in \<open>simp add: submitDialog_def Let_def\<close>, rule marked_deposits(2))
  next
    case (Some recovery)
    show thesis by (rule that(2), use False assms Some in \<open>simp add: submitDialog_def Let_def\<close>, rule marked_deposits(1))
  qed
qed

text \<open>
  C19. A deposit in flight is not seen as unresolved.  Whatever a deposit submits, and even when it ends
  with a transaction pending, the storage afterwards holds nothing that the driver's own checks take
  for unresolved: the guard before the next action does not fire and the reconciliation has nothing
  to do.  The deposit's hashes are stored under the confirming stage of their step, which the check
  for unresolved transactions does not know.
\<close>

theorem deposit_in_flight_is_not_seen_as_unresolved:
  assumes "ds_dialog d = Some DlgAddMoney" and "no_unresolved (ds_storage d)" and "submitDialog env (w, d) = (w', d')"
  shows "unresolved_record env' d' = None \<and> pending_records account d' = []"
proof -
  have "no_unresolved (ds_storage d')"
  proof (cases rule: add_money_dialog [OF assms(1), of env w])
    case 1
    with assms show ?thesis by simp
  next
    case (2 options operation)
    with assms(3) have "runAction env ''v2-add-money'' operation options (w, d) = (w', d')" by simp
    then show ?thesis
    proof (cases rule: runAction_cases)
      case 1
      with assms(2) show ?thesis by simp
    next
      case r: (2 acct clients w1 v)
      from no_unresolved_run [OF r(6) 2(2)] r(4) assms(2) show ?thesis by simp
    qed
  qed
  from no_unresolved_load [OF this] show ?thesis
    by (auto simp: unresolved_record_def pending_records_def find_None_iff filter_empty_conv split: option.split)
qed

text \<open>
  So a deposit whose wrap is still pending is offered again from its approval after a reload: the
  dialog then wraps a second time.
\<close>

theorem pending_wrap_is_offered_again:
  assumes "en_readAccount env = Some account" and "en_publicClient env = Some clients" and "va_status (ds_action d) = ActIdle"
    and "findLatestV2AddMoneyCheckpoint (filter (\<lambda>r. sr_chainId r = V2_PREVIEW_CHAIN_ID) (loadSafeTransactions account (ds_storage d))) = Some cp"
    and "cp_approval cp = Some ra" and "sr_stage ra = ST_COMPLETE" and "sr_hash ra = Some ha" and "ha \<noteq> []"
    and "cp_wrap cp = Some rw" and "sr_stage rw = ST_WRAP_CONFIRMING" and "cp_save cp = None"
    and "recoverConfirmedV2Approval (en_decode env) clients account ha w = (Inr (ha, amount), w')"
  shows "\<exists>d'. discoverAddMoneyRecovery env (w, d) = (w', d') \<and> \<not> ds_blocked d' \<and> ds_dialog d' = Some DlgAddMoney \<and>
    (\<exists>recovery. ds_recovery d' = Some recovery \<and> ar_resumeStage recovery = ResumeWrap \<and> ar_amount recovery = amount) \<and>
    va_status (ds_action d') = ActError \<and> ds_storage d' = ds_storage d"
  using assms
  by (simp add: discoverAddMoneyRecovery_def recover_checkpoint_def still_unresolved_def isUnresolvedV2Transaction_def completed_hash_def
      truthy_def offer_recovery_def error_action_def Let_def)


lemma discover_save:
  assumes "discoverAddMoneyRecovery env (w, d) = (w1, d1)" and "ds_recovery d1 = Some recovery" and "ds_recovery d \<noteq> Some recovery"
    and "ar_resumeStage recovery = ResumeSaving"
  shows "ds_dialog d1 = Some DlgAddMoney \<and> \<not> ds_blocked d1 \<and> (\<exists>clients account. \<exists>hash \<in> set (ar_hashes recovery).
    en_publicClient env = Some clients \<and> en_readAccount env = Some account \<and>
    wrapped_on_chain (en_decode env) clients account hash (ar_amount recovery))"
  using assms
  by (auto simp: discoverAddMoneyRecovery_def recover_checkpoint_def offer_recovery_def block_deposits_def Let_def List.map_filter_def
      split: option.splits if_splits prod.splits sum.splits dest!: recovered_wrap)

text \<open>
  C17. An unfinished deposit is finished, not repeated.  When the driver finds a deposit whose wrap is
  recorded as complete, the amount it offers is the one that the recorded transaction wrapped on
  chain for the account; confirming the dialog then submits at most the save of an encryption of
  that amount.
\<close>

theorem recovered_deposit_is_only_saved:
  assumes "discoverAddMoneyRecovery env (w, d) = (w1, d1)" and "ds_recovery d1 = Some recovery" and "ds_recovery d \<noteq> Some recovery"
    and "ar_resumeStage recovery = ResumeSaving" and "submitDialog env' (w2, d1) = (w3, d3)" and "snd w3 = snd w2 @ new"
  shows "(\<exists>clients account. \<exists>hash \<in> set (ar_hashes recovery). en_publicClient env = Some clients \<and> en_readAccount env = Some account \<and>
      wrapped_on_chain (en_decode env) clients account hash (ar_amount recovery)) \<and>
    (submitted new = [] \<or> (\<exists>clients' account'. en_publicClient env' = Some clients' \<and> account' \<in> session_accounts env' \<and>
      submitted new \<in> save_plans (clients'\<lparr>vc_account := account'\<rparr>) (ar_amount recovery)))"
proof -
  note found = discover_save [OF assms(1-4)]
  from found assms(2,5) have run: "runAction env' ''v2-add-money'' (resume_operation recovery) \<lparr>ro_operationId = Some (ar_operationId recovery),
      ro_initialHashes = ar_hashes recovery, ro_initialConfirmedStages = ar_confirmedStages recovery\<rparr> (w2, d1) = (w3, d3)"
    by (simp add: submitDialog_def Let_def)
  from run have "submitted new = [] \<or> (\<exists>clients' account'. en_publicClient env' = Some clients' \<and> account' \<in> session_accounts env' \<and>
      submitted new \<in> save_plans (clients'\<lparr>vc_account := account'\<rparr>) (ar_amount recovery))"
  proof (cases rule: runAction_cases)
    case 1
    with assms(6) show ?thesis by simp
  next
    case (2 account clients w4 v)
    obtain r s5 where r: "resumeV2AddMoneySave clients (ar_amount recovery) w4 = (r, s5)" by (cases "resumeV2AddMoneySave clients (ar_amount recovery) w4")
    have "w3 = s5" using run_operation_world [OF 2(6)] r assms(4)
      by (cases r) (simp_all add: resume_operation_def discard_def bind_eff_apply)
    with tracesD [OF follows_resume_save r] 2(2) assms(6) have "submitted new \<in> insert [] (save_plans clients (ar_amount recovery))"
      by (auto simp: follows_def split: sum.splits)
    with 2(1,5) show ?thesis by auto
  qed
  with found show ?thesis by blast
qed

section \<open>Witnesses\<close>

definition demo_env :: "nat driver_env" where
  "demo_env = \<lparr>en_authenticated = True, en_accountStatus = SIGNED_IN_READY,
     en_session = ret \<lparr>fs_verifiedAddress = Some ''0xa'', fs_address = Some ''0xa''\<rparr>, en_readAccount = Some ''0xa'', en_address = None,
     en_publicClient = Some demo_v2, en_walletClient = True, en_randomUUID = ''op'', en_tick = (\<lambda>t. t + 1), en_decode = demo_decode,
     en_parseUnits = (\<lambda>_ _. Inr 50), en_formatUnits = (\<lambda>_ _. ''50''), en_BigInt = (\<lambda>_. Inr 2)\<rparr>"

definition demo_driver :: "transaction_storage \<Rightarrow> driver_state" where
  "demo_driver storage = \<lparr>ds_action = idle_action, ds_recovery = None, ds_blocked = False, ds_dialog = Some DlgAddMoney, ds_amount = ''50'',
     ds_draws = ''2'', ds_storage = storage, ds_now = 7\<rparr>"

definition demo_record :: "string \<Rightarrow> V2AddMoneyStage option \<Rightarrow> string \<Rightarrow> TransactionStage \<Rightarrow> SafeTransactionRecord" where
  "demo_record i stage hash st = \<lparr>sr_id = i, sr_kind = ''v2-add-money'', sr_operationId = Some ''op'', sr_operationStage = stage,
     sr_hash = Some hash, sr_chainId = V2_PREVIEW_CHAIN_ID, sr_account = ''0xa'', sr_stage = st, sr_errorStage = None, sr_updatedAt = 3\<rparr>"

lemma demo_same: "demo_v2\<lparr>vc_account := ''0xa''\<rparr> = demo_v2"
  by (simp add: demo_v2_def)

lemma demo_open: "open_run demo_env w = (Inr (''0xa'', demo_v2), w)"
  by (simp add: open_run_def demo_env_def bind_eff_apply client_read_def truthy_def or_empty_def demo_same)

lemma demo_load: "sr_account r = ''0xa'' \<Longrightarrow> loadSafeTransactions ''0xa'' (Records [r]) = [r]"
  by (simp add: loadSafeTransactions_def)

theorem unresolved_transaction_blocks_actions_witness:
  "\<exists>d'. runAction demo_env ''v2-withdraw-savings'' (\<lambda>clients. discard (withdrawV2Savings clients 50)) no_options
      (demo_start, demo_driver (Records [demo_record ''op:write:1'' None ''0x1'' ST_CONFIRMING])) = (demo_start, d')"
proof -
  let ?r = "demo_record ''op:write:1'' None ''0x1'' ST_CONFIRMING"
  have "?r \<in> set (loadSafeTransactions ''0xa'' (ds_storage (demo_driver (Records [?r]))))"
    by (simp add: demo_driver_def demo_load demo_record_def)
  moreover have "en_readAccount demo_env = Some ''0xa''" by (simp add: demo_env_def)
  moreover have "sr_chainId ?r = V2_PREVIEW_CHAIN_ID" "isUnresolvedV2Transaction ?r"
    by (simp_all add: demo_record_def isUnresolvedV2Transaction_def truthy_def)
  ultimately show ?thesis using unresolved_transaction_blocks_actions by blast
qed

theorem pending_transactions_are_settled_witness:
  "\<exists>w' d'. reconcilePendingTransactions demo_env (demo_start, demo_driver (Records [demo_record ''op:write:1'' None ''0x1'' ST_CONFIRMING])) = (w', d') \<and>
     pending_records ''0xa'' d' = [] \<and> unresolved_record demo_env d' = None"
proof -
  let ?r = "demo_record ''op:write:1'' None ''0x1'' ST_CONFIRMING"
  let ?d = "demo_driver (Records [?r])"
  obtain w' d' where run: "reconcilePendingTransactions demo_env (demo_start, ?d) = (w', d')"
    by (cases "reconcilePendingTransactions demo_env (demo_start, ?d)")
  have settles: "\<exists>h status w'. reconcileV2Transaction demo_v2 (or_empty (sr_hash r)) w = (Inr (h, status), w') \<and> status \<noteq> StillPending" for r w
    by (simp add: reconcileV2Transaction_def catch_eff_apply bind_eff_apply demo_fields demo_call demo_v2_receipt_def)
  have env: "en_readAccount demo_env = Some ''0xa''" "en_publicClient demo_env = Some demo_v2" by (simp_all add: demo_env_def)
  have "distinct (map sr_id (loadSafeTransactions ''0xa'' (ds_storage ?d)))" by (simp add: demo_driver_def demo_load demo_record_def)
  from pending_transactions_are_settled [OF env this settles run] run show ?thesis by blast
qed

text \<open>A whole deposit through the dialog, from an empty storage.\<close>

lemma demo_submit:
  obtains w' d' where "submitDialog demo_env (demo_start, demo_driver NoItem) = (w', d')"
    "addV2Money demo_v2 50 demo_start = (Inr [demo_v2_hash 0, demo_v2_hash 1, demo_v2_hash 2], w')"
proof -
  obtain s' where s': "addV2Money demo_v2 50 demo_start = (Inr [demo_v2_hash 0, demo_v2_hash 1, demo_v2_hash 2], s')"
    using demo_deposit by blast
  have units: "en_parseUnits demo_env x y = Inr 50" for x y by (simp add: demo_env_def)
  have "unresolved_record demo_env (demo_driver NoItem) = None"
    by (simp add: unresolved_record_def demo_driver_def loadSafeTransactions_def split: option.split)
  moreover have "va_status (ds_action (demo_driver NoItem)) = ActIdle" "ds_dialog (demo_driver NoItem) = Some DlgAddMoney"
    "\<not> ds_blocked (demo_driver NoItem)" "ds_recovery (demo_driver NoItem) = None"
    by (simp_all add: demo_driver_def idle_action_def)
  ultimately have "\<exists>d'. submitDialog demo_env (demo_start, demo_driver NoItem) = (s', d')"
    by (simp add: submitDialog_def runAction_def Let_def demo_open units with_units_def run_operation_def discard_def bind_eff_apply s')
  with s' that show thesis by blast
qed

interpretation acknowledged: action_discipline "\<lambda>ok evs. ok \<longrightarrow> returned evs = confirmed evs" clients for clients
proof
  show "notification ev \<Longrightarrow> ok \<longrightarrow> returned [ev] = confirmed [ev]" for ok ev by (cases ev) simp_all
  show "write_spec clients request stage r new \<Longrightarrow> is_ok r \<longrightarrow> returned new = confirmed new" for request stage r new
    by (auto simp: write_outcomes)
qed simp_all


theorem deposit_in_flight_is_not_seen_as_unresolved_witness:
  "\<exists>w' d'. submitDialog demo_env (demo_start, demo_driver NoItem) = (w', d') \<and> pending_records ''0xa'' d' = []"
proof -
  obtain w' d' where run: "submitDialog demo_env (demo_start, demo_driver NoItem) = (w', d')" by (rule demo_submit)
  have "ds_dialog (demo_driver NoItem) = Some DlgAddMoney" "no_unresolved (ds_storage (demo_driver NoItem))"
    by (simp_all add: demo_driver_def no_unresolved_def)
  from deposit_in_flight_is_not_seen_as_unresolved [OF this run] run show ?thesis by blast
qed

theorem recovered_deposit_is_only_saved_witness:
  "\<exists>w1 d1 w3 d3. discoverAddMoneyRecovery demo_env
       (demo_start, demo_driver (Records [demo_record ''op:write:1'' (Some StageWrap) ''0xh'' ST_COMPLETE])) = (w1, d1) \<and>
     submitDialog demo_env (w1, d1) = (w3, d3) \<and> wrapped_on_chain demo_decode demo_v2 ''0xa'' ''0xh'' 50"
proof -
  let ?r = "demo_record ''op:write:1'' (Some StageWrap) ''0xh'' ST_COMPLETE"
  let ?d = "demo_driver (Records [?r])"
  let ?recovery = "\<lparr>ar_operationId = ''op'', ar_resumeStage = ResumeSaving, ar_amount = 50, ar_hashes = [''0xh''], ar_confirmedStages = [StageWrap]\<rparr>"
  obtain w1 where rec: "recoverConfirmedV2Wrap demo_decode demo_v2 ''0xa'' ''0xh'' demo_start = (Inr (''0xh'', 50), w1)"
    using demo_recovery by (auto simp: demo_fields)
  have env: "en_readAccount demo_env = Some ''0xa''" "en_publicClient demo_env = Some demo_v2" "en_decode demo_env = demo_decode"
    by (simp_all add: demo_env_def)
  have cp: "findLatestV2AddMoneyCheckpoint [?r] = Some \<lparr>cp_operationId = ''op'', cp_records = [?r], cp_approval = None, cp_wrap = Some ?r, cp_save = None\<rparr>"
    by (simp add: demo_record_def findLatestV2AddMoneyCheckpoint_def add_money_record_def truthy_def or_empty_def newest_first_def latestForStage_def
        Let_def)
  have "loadSafeTransactions ''0xa'' (ds_storage ?d) = [?r]" "va_status (ds_action ?d) = ActIdle"
    by (simp_all add: demo_driver_def demo_load demo_record_def idle_action_def)
  moreover have "sr_chainId ?r = V2_PREVIEW_CHAIN_ID" "sr_stage ?r = ST_COMPLETE" "sr_hash ?r = Some ''0xh''" by (simp_all add: demo_record_def)
  ultimately have found: "discoverAddMoneyRecovery demo_env (demo_start, ?d) = (w1, offer_recovery demo_env ?recovery ?d)"
    by (simp add: discoverAddMoneyRecovery_def env cp still_unresolved_def isUnresolvedV2Transaction_def recover_checkpoint_def completed_hash_def
        truthy_def Let_def List.map_filter_def rec)
  let ?d1 = "offer_recovery demo_env ?recovery ?d"
  have same: "ds_recovery ?d1 = Some ?recovery" "ds_recovery ?d \<noteq> Some ?recovery" by (simp_all add: offer_recovery_def demo_driver_def)
  obtain w3 d3 where run: "submitDialog demo_env (w1, ?d1) = (w3, d3)" by (cases "submitDialog demo_env (w1, ?d1)")
  obtain new where new: "snd w3 = snd w1 @ new" using submitDialog_events [OF run] by blast
  from recovered_deposit_is_only_saved [OF found same _ run new] have "wrapped_on_chain demo_decode demo_v2 ''0xa'' ''0xh'' 50" by (simp add: env)
  with found run show ?thesis by blast
qed


end
