(* ===== verification/Client_Classic_Safety.thy ===== *)
theory Client_Classic_Safety
  imports Client_Classic Client_Driver_Safety Client_View_Safety
begin

text \<open>
  What the earlier actions do to the wallet: one transaction at a time, every hash told, and the
  plans of making money private and public again.
\<close>

section \<open>One transaction\<close>

text \<open>The events other than notifications.\<close>

definition core :: "action_event list \<Rightarrow> action_event list" where
  "core evs = filter (\<lambda>ev. \<not> notification ev) evs"

lemma core_simps [simp]:
  "core [] = []" "core (xs @ ys) = core xs @ core ys" "core (ev # evs) = (if notification ev then core evs else ev # core evs)"
  by (simp_all add: core_def)

lemma core_scan: "scan st (core evs) = scan st evs"
proof (induction evs arbitrary: st)
  case (Cons ev evs)
  then show ?case by (cases ev) auto
qed simp

lemma core_lists: "submitted (core evs) = submitted evs" "confirmed (core evs) = confirmed evs" "announced (core evs) = announced evs"
  "returned (core evs) = returned evs"
proof -
  have "submitted (core evs) = submitted evs \<and> confirmed (core evs) = confirmed evs \<and> announced (core evs) = announced evs \<and>
      returned (core evs) = returned evs"
  proof (induction evs)
    case (Cons ev evs)
    then show ?case
    proof (cases ev)
      case (Submitted c h)
      with Cons show ?thesis by (cases h) simp_all
    qed simp_all
  qed simp
  then show "submitted (core evs) = submitted evs" "confirmed (core evs) = confirmed evs" "announced (core evs) = announced evs"
    "returned (core evs) = returned evs" by simp_all
qed

text \<open>
  What one transaction may have done: it was not signed; the wallet returned a hash that was told,
  and the wait failed or the transaction reverted; or it was confirmed.
\<close>

definition wallet_fits :: "'w ActionClients \<Rightarrow> bool" where
  "wallet_fits clients \<longleftrightarrow> (truthy (vc_signer (ac_clients clients)) \<longrightarrow>
       toLowerCase (or_empty (vc_signer (ac_clients clients))) = toLowerCase (ac_account clients)) \<and>
     11155111 \<in> yields (vc_walletChainId (ac_clients clients))"

definition classic_outcome :: "contract_call \<Rightarrow> bool \<Rightarrow> (v2_error, string) result \<Rightarrow> action_event list \<Rightarrow> bool" where
  "classic_outcome request simulate r new =
     (let checks = (if simulate then [Simulated request] else []) in
      (\<exists>e. r = Inl e \<and> core new \<in> {[], checks, checks @ [Submitted request None]}) \<or>
      (\<exists>h e. r = Inl e \<and> core new = checks @ [Submitted request (Some h), OnHash h None]) \<or>
      (\<exists>h. r = Inr h \<and> core new = checks @ [Submitted request (Some h), OnHash h None, OnReceipt h None]))"

definition classic_spec :: "'w ActionClients \<Rightarrow> contract_call \<Rightarrow> bool \<Rightarrow> (v2_error, string) result \<Rightarrow> action_event list \<Rightarrow> bool" where
  "classic_spec clients request simulate r new \<longleftrightarrow> classic_outcome request simulate r new \<and> (submitted new \<noteq> [] \<longrightarrow> wallet_fits clients)"

lemma classic_silent: "traces silent (assertWalletClient clients stage)" "traces silent (client_call m (classicError what))"
  "traces silent (readAllowance v clients lcUsdc fresh)"
proof -
  show "traces silent (client_call m (classicError what))"
    by (rule tracesI) (auto simp: silent_def client_call_def classicError_def split: prod.splits sum.splits)
  show "traces silent (assertWalletClient clients stage)" "traces silent (readAllowance v clients lcUsdc fresh)"
    by (auto simp: assertWalletClient_def readAllowance_def Let_def intro!: silent_intros)
qed

lemma ret_trace: "traces (\<lambda>r new. new = [] \<and> r = Inr a) (ret a)"
  by (rule tracesI) auto

lemma told: "traces (\<lambda>r new. core new = [] \<and> r = Inr ()) (notifyActionStage stage phase)"
  "traces (\<lambda>r new. core new = [] \<and> r = Inr ()) (notify_receipt stage)"
  by (auto simp: notifyActionStage_def notify_receipt_def notify_def split: option.splits intro!: tracesI)

lemma sign_trace:
  "traces (\<lambda>r new. (\<exists>e. r = Inl e \<and> new = [Submitted request None]) \<or> (\<exists>h. r = Inr h \<and> new = [Submitted request (Some h)]))
     (sign_call clients request gas stage)"
  by (rule tracesI) (auto simp: sign_call_def split: prod.splits sum.splits)

lemma simulate_trace:
  "traces (\<lambda>r new. (\<exists>e. r = Inl e \<and> core new = []) \<or> (\<exists>gas. r = Inr gas \<and> core new = (if simulate then [Simulated request] else [])))
     (if simulate then simulate_call clients request stage else ret None)"
proof (cases simulate)
  case True
  have "traces (\<lambda>r new. (\<exists>e. r = Inl e \<and> core new = []) \<or> (\<exists>gas. r = Inr gas \<and> core new = [Simulated request])) (simulate_call clients request stage)"
    unfolding simulate_call_def
    apply (rule traces_bind [OF told(1)])
      apply (rule traces_bind [OF classic_silent(2)])
       apply (rule traces_bind [OF notify_trace])
        apply (rule ret_trace)
    by (auto simp: silent_def)
  with True show ?thesis by simp
next
  case False
  have "traces (\<lambda>r new. (\<exists>e. r = Inl e \<and> core new = []) \<or> (\<exists>gas. r = Inr gas \<and> core new = [])) (ret (None :: int option) :: ('a, int option) v2_op)"
    by (rule tracesI) auto
  with False show ?thesis by simp
qed

lemma receipt_tail:
  "traces (\<lambda>r new. (\<exists>e. r = Inl e \<and> core new = []) \<or> (r = Inr hash \<and> core new = [OnReceipt hash None]))
     (bind_eff (client_call m (classicError what)) (\<lambda>receipt.
     if \<not> rc_success receipt then fail message
     else bind_eff (notify (OnReceipt hash None)) (\<lambda>_. bind_eff (notify_receipt stage) (\<lambda>_. ret hash))))"
proof -
  have "traces (\<lambda>r new. r = Inr hash \<and> core new = [OnReceipt hash None])
      (bind_eff (notify (OnReceipt hash None)) (\<lambda>_. bind_eff (notify_receipt stage) (\<lambda>_. ret hash)) :: ('a, string) v2_op)"
    apply (rule traces_bind [OF notify_trace])
      apply (rule traces_bind [OF told(2) ret_trace])
    by auto
  then have "traces (\<lambda>r new. (\<exists>e. r = Inl e \<and> core new = []) \<or> (r = Inr hash \<and> core new = [OnReceipt hash None]))
      (bind_eff (notify (OnReceipt hash None)) (\<lambda>_. bind_eff (notify_receipt stage) (\<lambda>_. ret hash)) :: ('a, string) v2_op)"
    by (rule traces_weaken) simp
  moreover have "traces (\<lambda>r new. (\<exists>e. r = Inl e \<and> core new = []) \<or> (r = Inr hash \<and> core new = [OnReceipt hash None])) (fail message :: ('a, string) v2_op)"
    by (rule tracesI) (auto simp: fail_def)
  ultimately have tail: "traces (\<lambda>r new. (\<exists>e. r = Inl e \<and> core new = []) \<or> (r = Inr hash \<and> core new = [OnReceipt hash None]))
      (if \<not> rc_success receipt then fail message
       else bind_eff (notify (OnReceipt hash None)) (\<lambda>_. bind_eff (notify_receipt stage) (\<lambda>_. ret hash)) :: ('a, string) v2_op)" for receipt
    by simp
  show ?thesis by (rule traces_bind [OF classic_silent(2) tail]) (auto simp: silent_def)
qed

lemma assertWalletClient_fits:
  assumes "assertWalletClient clients stage s = (Inr u, s')"
  shows "wallet_fits clients"
  using assms by (auto simp: assertWalletClient_def wallet_fits_def Let_def elim!: if_InrE bind_InrE dest!: client_call_yields split: if_splits)

lemma writeAndConfirm_outcome: "traces (classic_outcome request simulate) (writeAndConfirm clients request stage simulate)"
  unfolding writeAndConfirm_def
  apply (rule traces_bind [OF classic_silent(1)])
    apply (rule traces_bind [OF simulate_trace [of simulate]])
      apply (rule traces_bind [OF classic_silent(1)])
        apply (rule traces_bind [OF told(1)])
          apply (rule traces_bind [OF sign_trace])
            apply (rule traces_bind [OF notify_trace])
             apply (rule traces_bind [OF told(1)])
               apply (rule traces_bind [OF told(1)])
                 apply (rule receipt_tail)
  by (auto simp: classic_outcome_def silent_def Let_def)

lemma writeAndConfirm_spec: "traces (classic_spec clients request simulate) (writeAndConfirm clients request stage simulate)"
proof (rule tracesI)
  fix s r s'
  assume w: "writeAndConfirm clients request stage simulate s = (r, s')"
  from tracesD [OF writeAndConfirm_outcome w] obtain new where new: "snd s' = snd s @ new" "classic_outcome request simulate r new" by blast
  obtain r1 s1 where a: "assertWalletClient clients stage s = (r1, s1)" by (cases "assertWalletClient clients stage s")
  have "wallet_fits clients" if "submitted new \<noteq> []"
  proof (cases r1)
    case (Inl e)
    with w a have "s' = s1" by (simp add: writeAndConfirm_def bind_eff_apply)
    moreover have "snd s1 = snd s" using tracesD [OF classic_silent(1) a] by (auto simp: silent_def)
    ultimately show ?thesis using new(1) that by simp
  next
    case (Inr u)
    with a show ?thesis using assertWalletClient_fits by blast
  qed
  with new show "\<exists>new. snd s' = snd s @ new \<and> classic_spec clients request simulate r new" by (auto simp: classic_spec_def)
qed

section \<open>Disciplines of the earlier actions\<close>

datatype classic_action =
    MakePrivate string int | SavePrivately string string int | EnterPrizeRound string int int | WithdrawFromVault string int
  | CloseExpiredRound string | RequestMakePublic string int | ClaimBondRefund string int | ClaimSettlementRewards string
  | MaterializeEligibility string int

fun run_classic_action :: "viem \<Rightarrow> LeopoldConfig \<Rightarrow> 'w ActionClients \<Rightarrow> classic_action \<Rightarrow> ('w, unit) v2_op" where
  "run_classic_action v config clients (MakePrivate lcUsdc amount) = discard (makePrivate v clients lcUsdc amount)"
| "run_classic_action v config clients (SavePrivately lcUsdc vault amount) = discard (savePrivately config clients lcUsdc vault amount)"
| "run_classic_action v config clients (EnterPrizeRound escrow roundId bond) = discard (enterPrizeRound clients escrow roundId bond)"
| "run_classic_action v config clients (WithdrawFromVault vault amount) = discard (withdrawSavings clients vault amount)"
| "run_classic_action v config clients (CloseExpiredRound vault) = discard (closeExpiredRound clients vault)"
| "run_classic_action v config clients (RequestMakePublic lcUsdc amount) = discard (requestMakePublic clients lcUsdc amount)"
| "run_classic_action v config clients (ClaimBondRefund escrow roundId) = discard (claimBondRefund clients escrow roundId)"
| "run_classic_action v config clients (ClaimSettlementRewards escrow) = discard (claimSettlementRewards clients escrow)"
| "run_classic_action v config clients (MaterializeEligibility vault roundId) = discard (materializeEligibility clients vault roundId)"

locale classic_discipline = event_discipline D for D :: "bool \<Rightarrow> action_event list \<Rightarrow> bool" +
  fixes clients :: "'w ActionClients"
  assumes classic_transaction: "classic_spec clients request simulate r new \<Longrightarrow> D (is_ok r) new"
begin

lemma obeys_confirm: "obeys (writeAndConfirm clients request stage simulate)"
  unfolding obeys_def by (rule traces_weaken [OF writeAndConfirm_spec]) (rule classic_transaction)

lemmas obeys_classic = obeys_quietly obeys_confirm classic_silent [THEN obeys_silent]

lemma obeys_make_private: "obeys (makePrivate v clients lcUsdc amount)"
  unfolding makePrivate_def approve_lcUsdc_def by (intro obeys_classic)

lemma obeys_save_privately: "obeys (savePrivately config clients lcUsdc vault amount)"
  unfolding savePrivately_def encrypt_for_def by (intro obeys_classic)

lemma obeys_withdraw_savings: "obeys (withdrawSavings clients vault amount)"
  unfolding withdrawSavings_def encrypt_for_def by (intro obeys_classic)

lemma obeys_make_public: "obeys (requestMakePublic clients lcUsdc amount)"
  unfolding requestMakePublic_def encrypt_for_def by (intro obeys_classic)

lemma obeys_single: "obeys (enterPrizeRound clients escrow roundId bond)" "obeys (closeExpiredRound clients vault)"
  "obeys (claimBondRefund clients escrow roundId)" "obeys (claimSettlementRewards clients escrow)"
  "obeys (materializeEligibility clients vault roundId)"
  unfolding enterPrizeRound_def closeExpiredRound_def claimBondRefund_def claimSettlementRewards_def materializeEligibility_def
  by (rule obeys_confirm)+

lemma obeys_classic_action: "obeys (run_classic_action v config clients action)"
  by (cases action) (auto simp: discard_def intro!: obeys_classic obeys_make_private obeys_save_privately obeys_withdraw_savings
      obeys_make_public obeys_single)

lemma obeys_classic_run: "obeys (run_ops (run_classic_action v config clients) actions)"
proof (induction actions)
  case Nil
  show ?case unfolding run_ops.simps by (rule silent_ops(1) [THEN obeys_silent])
qed (auto intro!: obeys_classic obeys_classic_action)

lemma classic_run_discipline:
  assumes "run_ops (run_classic_action v config clients) actions s = (r, s')" and "snd s' = snd s @ new"
  shows "D (is_ok r) new"
  using tracesD [OF obeys_classic_run [unfolded obeys_def] assms(1)] assms(2) by simp

end

lemmas classic_outcomes = classic_spec_def classic_outcome_def Let_def

interpretation classic_ordered: classic_discipline one_at_a_time clients for clients
proof
  show "classic_spec clients request simulate r new \<Longrightarrow> one_at_a_time (is_ok r) new" for request simulate r new
    unfolding one_at_a_time_def core_scan [of _ new, symmetric] by (cases simulate) (auto simp: classic_outcomes)
qed

interpretation classic_walleted: classic_discipline "\<lambda>_ evs. submitted evs = [] \<or> wallet_fits clients" clients for clients
proof
  show "notification ev \<Longrightarrow> submitted [ev] = [] \<or> wallet_fits clients" for ev by (cases ev) simp_all
qed (auto simp: classic_spec_def)

interpretation classic_announcing: classic_discipline "\<lambda>_ evs. announced evs = returned evs" clients for clients
proof
  show "classic_spec clients request simulate r new \<Longrightarrow> announced new = returned new" for request simulate r new
    unfolding core_lists [of new, symmetric] by (cases simulate) (auto simp: classic_outcomes)
qed

text \<open>
  The earlier actions, run in any order: a transaction is only submitted once the one before it is
  confirmed, every hash that the wallet returned is told to the caller, and nothing is submitted
  by a wallet whose account is known to be another one or that was never seen on Sepolia.
\<close>

theorem classic_actions_submit_one_at_a_time:
  assumes "run_ops (run_classic_action v config clients) actions s = (r, s')"
  shows "\<exists>new. snd s' = snd s @ new \<and> one_at_a_time (is_ok r) new \<and> announced new = returned new \<and>
    (submitted new = [] \<or> wallet_fits clients)"
proof -
  from tracesD [OF classic_ordered.obeys_classic_run [unfolded ordered.obeys_def] assms]
  obtain new where new: "snd s' = snd s @ new" "one_at_a_time (is_ok r) new" by blast
  with classic_announcing.classic_run_discipline [OF assms] classic_walleted.classic_run_discipline [OF assms] show ?thesis by blast
qed

section \<open>Plans\<close>

lemma follows_confirm: "traces (follows {[request]} {[], [request]} (\<lambda>h c. c = [h])) (writeAndConfirm clients request stage simulate)"
proof (rule traces_weaken [OF writeAndConfirm_spec])
  show "follows {[request]} {[], [request]} (\<lambda>h c. c = [h]) r new" if "classic_spec clients request simulate r new" for r new
    using that unfolding follows_def core_lists [of new, symmetric] by (cases simulate) (auto simp: classic_outcomes)
qed

lemmas quiet_classic = classic_silent [THEN quiet_silent] silent_ops [THEN quiet_silent]

lemma quiet_stage: "traces uneventful (notify (OnTransactionStage ts))"
  by (rule traces_weaken [OF notify_trace]) (simp add: uneventful_def)

definition approve_request :: "viem \<Rightarrow> string \<Rightarrow> int \<Rightarrow> contract_call" where
  "approve_request v lcUsdc amount = token_call (CANONICAL_USDC v) ''approve'' [VText lcUsdc, VInt amount]"

definition wrap_request :: "'w ActionClients \<Rightarrow> string \<Rightarrow> int \<Rightarrow> contract_call" where
  "wrap_request clients lcUsdc amount = token_call lcUsdc ''wrap'' [VText (ac_account clients), VInt amount]"

lemma follows_approve_lcUsdc:
  "traces (follows {[approve_request v lcUsdc amount]} {[], [approve_request v lcUsdc amount]} (\<lambda>hs c. hs = c)) (approve_lcUsdc v clients lcUsdc amount)"
proof -
  have after: "traces (follows {[]} {[]} (\<lambda>hs c. hs = hash # c))
      (bind_eff (assertWalletClient clients ''make-private-allowance-refresh'') (\<lambda>_.
       bind_eff (readAllowance v clients lcUsdc True) (\<lambda>allowanceAfterApproval.
       if allowanceAfterApproval < amount
       then fail (''ACTION_CONFIRMATION_FAILED:make-private-approval-allowance:'' @ int_to_string allowanceAfterApproval)
       else bind_eff (notify (OnTransactionStage ST_ALLOWANCE_REFRESH)) (\<lambda>_. ret [hash]))))" for hash
    by (intro follows_quiet follows_if follows_fail follows_ret quiet_classic quiet_stage) auto
  show ?thesis
    unfolding approve_lcUsdc_def approve_request_def
    by (rule follows_bind [OF follows_confirm after]) auto
qed

lemma follows_make_private:
  "traces (follows {[wrap_request clients lcUsdc amount], [approve_request v lcUsdc amount, wrap_request clients lcUsdc amount]}
     {[], [approve_request v lcUsdc amount], [wrap_request clients lcUsdc amount], [approve_request v lcUsdc amount, wrap_request clients lcUsdc amount]}
     (\<lambda>hs c. hs = c)) (makePrivate v clients lcUsdc amount)"
proof -
  have wrap: "traces (follows {[wrap_request clients lcUsdc amount]} {[], [wrap_request clients lcUsdc amount]} (\<lambda>hs c. hs = hashes @ c))
      (bind_eff (writeAndConfirm clients (token_call lcUsdc ''wrap'' [VText (ac_account clients), VInt amount]) ''make-private-wrap'' True)
        (\<lambda>hash. ret (hashes @ [hash])))" for hashes
    unfolding wrap_request_def
    by (rule follows_bind [OF follows_confirm, where K = "\<lambda>h hs c. hs = hashes @ [h] \<and> c = []" and Q = "{[]}" and G = "{}"])
      (auto intro: follows_ret)
  have approvals: "traces (follows {[], [approve_request v lcUsdc amount]} {[], [approve_request v lcUsdc amount]} (\<lambda>hs c. hs = c))
      (if b then approve_lcUsdc v clients lcUsdc amount else ret [])" for b
    by (intro follows_if follows_ret follows_weaken [OF follows_approve_lcUsdc]) auto
  show ?thesis
    unfolding makePrivate_def
    by (intro follows_quiet quiet_classic follows_bind [OF approvals wrap]) auto
qed

definition public_plans :: "'w ActionClients \<Rightarrow> string \<Rightarrow> int \<Rightarrow> contract_call list set" where
  "public_plans clients lcUsdc amount = {[unwrap_request clients lcUsdc enc, finalize_unwrap lcUsdc requestId dec] | enc requestId dec.
     enc \<in> yields (vc_encryptPrivateAmount (ac_clients clients) lcUsdc amount) \<and>
     (\<exists>hash ids. \<exists>receipt \<in> yields (vc_getTransactionReceipt (ac_clients clients) hash). rc_unwrapRequestIds receipt = requestId # ids) \<and>
     dec \<in> yields (vc_decryptPublicValue (ac_clients clients) requestId) \<and> fst dec \<le> 0xffffffffffffffff}"

definition begun_public :: "'w ActionClients \<Rightarrow> string \<Rightarrow> int \<Rightarrow> contract_call list set" where
  "begun_public clients lcUsdc amount = insert [] ((\<lambda>enc. [unwrap_request clients lcUsdc enc]) `
     yields (vc_encryptPrivateAmount (ac_clients clients) lcUsdc amount)) \<union> public_plans clients lcUsdc amount"

lemma follows_make_public:
  "traces (follows (public_plans clients lcUsdc amount) (begun_public clients lcUsdc amount) (\<lambda>h c. \<exists>h'. c = [h', h])) (requestMakePublic clients lcUsdc amount)"
proof -
  let ?finals = "\<lambda>enc. {[finalize_unwrap lcUsdc requestId dec] | requestId dec.
     [unwrap_request clients lcUsdc enc, finalize_unwrap lcUsdc requestId dec] \<in> public_plans clients lcUsdc amount}"
  have finish: "traces (follows (?finals enc) (insert [] (?finals enc)) (\<lambda>h c. c = [h]))
      (bind_eff (client_call (vc_getTransactionReceipt (ac_clients clients) requestHash) Plain) (\<lambda>receipt.
       case rc_unwrapRequestIds receipt of
         [] \<Rightarrow> fail ''UNWRAP_REQUEST_ID_UNAVAILABLE''
       | requestId # _ \<Rightarrow>
           bind_eff (client_call (vc_decryptPublicValue (ac_clients clients) requestId) Plain) (\<lambda>decryption.
           if fst decryption > 0xffffffffffffffff then fail ''RELAYER_PUBLIC_CLEAR_OUT_OF_RANGE''
           else writeAndConfirm clients (finalize_unwrap lcUsdc requestId decryption) ''finalizeUnwrap'' False)))"
    if enc: "enc \<in> yields (vc_encryptPrivateAmount (ac_clients clients) lcUsdc amount)" for enc requestHash
  proof (rule follows_value)
    fix receipt assume receipt: "receipt \<in> yields (vc_getTransactionReceipt (ac_clients clients) requestHash)"
    show "traces (follows (?finals enc) (insert [] (?finals enc)) (\<lambda>h c. c = [h])) (case rc_unwrapRequestIds receipt of
         [] \<Rightarrow> fail ''UNWRAP_REQUEST_ID_UNAVAILABLE''
       | requestId # _ \<Rightarrow>
           bind_eff (client_call (vc_decryptPublicValue (ac_clients clients) requestId) Plain) (\<lambda>decryption.
           if fst decryption > 0xffffffffffffffff then fail ''RELAYER_PUBLIC_CLEAR_OUT_OF_RANGE''
           else writeAndConfirm clients (finalize_unwrap lcUsdc requestId decryption) ''finalizeUnwrap'' False))"
    proof (cases "rc_unwrapRequestIds receipt")
      case Nil
      then show ?thesis by (simp add: follows_fail)
    next
      case (Cons requestId ids)
      have "traces (follows (?finals enc) (insert [] (?finals enc)) (\<lambda>h c. c = [h]))
          (if fst dec > 0xffffffffffffffff then fail ''RELAYER_PUBLIC_CLEAR_OUT_OF_RANGE''
           else writeAndConfirm clients (finalize_unwrap lcUsdc requestId dec) ''finalizeUnwrap'' False)"
        if dec: "dec \<in> yields (vc_decryptPublicValue (ac_clients clients) requestId)" for dec
      proof (intro follows_if follows_fail follows_weaken [OF follows_confirm])
        assume "\<not> fst dec > 0xffffffffffffffff"
        then have "[unwrap_request clients lcUsdc enc, finalize_unwrap lcUsdc requestId dec] \<in> public_plans clients lcUsdc amount"
          unfolding public_plans_def using enc dec receipt Cons by (intro CollectI exI conjI) (rule refl, auto)
        then show "{[finalize_unwrap lcUsdc requestId dec]} \<subseteq> ?finals enc" "{[], [finalize_unwrap lcUsdc requestId dec]} \<subseteq> insert [] (?finals enc)"
          by blast+
      qed auto
      then show ?thesis unfolding Cons by (auto intro: follows_value)
    qed
  qed simp
  show ?thesis
    unfolding requestMakePublic_def encrypt_for_def
    by (rule follows_value, rule follows_bind [OF follows_confirm finish]) (auto simp: begun_public_def)
qed

text \<open>
  Making money private and public follows a plan.  Making it private submits the approval, where
  needed, and the wrap of the same amount for the account; making it public submits the unwrap of
  an encryption of the amount and the finalisation of that request with what it was decrypted to,
  a 64-bit number.  Success returns confirmed hashes, and a failure stopped after a beginning.
\<close>

theorem private_and_public_follow_their_plans:
  assumes "makePrivate v clients lcUsdc amount s = (r, s')" and "requestMakePublic clients lcUsdc amount t = (q, t')"
  shows "(\<exists>new. snd s' = snd s @ new \<and> (case r of
      Inr hashes \<Rightarrow> submitted new \<in> {[wrap_request clients lcUsdc amount], [approve_request v lcUsdc amount, wrap_request clients lcUsdc amount]} \<and>
        confirmed new = hashes
    | Inl _ \<Rightarrow> submitted new \<in> {[], [approve_request v lcUsdc amount], [wrap_request clients lcUsdc amount],
        [approve_request v lcUsdc amount, wrap_request clients lcUsdc amount]})) \<and>
    (\<exists>new. snd t' = snd t @ new \<and> (case q of
      Inr hash \<Rightarrow> submitted new \<in> public_plans clients lcUsdc amount \<and> (\<exists>first. confirmed new = [first, hash])
    | Inl _ \<Rightarrow> submitted new \<in> begun_public clients lcUsdc amount))"
  using tracesD [OF follows_make_private assms(1)] tracesD [OF follows_make_public assms(2)]
  by (fastforce simp: follows_def split: sum.splits)

section \<open>Witnesses\<close>

definition demo_classic_clients :: "nat ActionClients" where
  "demo_classic_clients = \<lparr>ac_clients = demo_v2, ac_getBlockNumber = reads_as (\<lambda>_. 5), ac_readUintAt = (\<lambda>_ _ _ _. reads_as (\<lambda>_. 100))\<rparr>"

lemma classic_lower: "lower_char (CHR ''A'') = CHR ''a''" "lower_char (CHR ''a'') = CHR ''a''"
  by code_simp+

text \<open>Closing an expired round submits its one call and returns the hash.\<close>

lemma demo_close_round:
  "\<exists>s'. run_ops (run_classic_action demo_viem config demo_classic_clients) [CloseExpiredRound ''0xv''] demo_start = (Inr (), s') \<and>
    submitted (snd s') \<noteq> []"
  by (simp add: discard_def closeExpiredRound_def writeAndConfirm_def assertWalletClient_def simulate_call_def sign_call_def notify_receipt_def
      notifyActionStage_def notify_def action_stage_def client_call_def client_read_def bind_eff_apply demo_classic_clients_def demo_v2_def
      reads_as_def demo_start_def demo_v2_receipt_def submitFinancialWriteOnce_def token_call_def truthy_def or_empty_def toLowerCase_def
      classic_lower Let_def V2_PREVIEW_CHAIN_ID_def)

theorem classic_actions_submit_one_at_a_time_witness:
  "\<exists>s'. submitted (snd s') \<noteq> [] \<and> one_at_a_time True (snd s') \<and> announced (snd s') = returned (snd s') \<and> wallet_fits demo_classic_clients"
proof -
  obtain s' where run: "run_ops (run_classic_action demo_viem sample_config demo_classic_clients) [CloseExpiredRound ''0xv''] demo_start = (Inr (), s')"
    "submitted (snd s') \<noteq> []" using demo_close_round by blast
  from classic_actions_submit_one_at_a_time [OF run(1)] run(2) show ?thesis by (auto simp: demo_start_def)
qed

end
