(* ===== verification/Client_Provider_Safety.thy ===== *)
theory Client_Provider_Safety
  imports Client_Provider Client_Classic_Safety Client_View_Safety
begin

text \<open>
  What the provider submits and what it records: savings only go to an open round of a verified
  deployment, every transaction ends in a record, and a superseded reveal shows nothing.
\<close>

section \<open>Submissions of the provider\<close>

text \<open>Whatever an operation of the provider does, its submissions are one of \<open>P\<close>.\<close>

definition submits_via :: "('s \<Rightarrow> action_event list) \<Rightarrow> contract_call list set \<Rightarrow> ('e, 's, 'a) eff \<Rightarrow> bool" where
  "submits_via ev P m \<longleftrightarrow> (\<forall>s r s'. m s = (r, s') \<longrightarrow> (\<exists>new. ev s' = ev s @ new \<and> submitted new \<in> P))"

abbreviation submits :: "contract_call list set \<Rightarrow> ('w, 'a) fin_op \<Rightarrow> bool" where
  "submits \<equiv> submits_via (\<lambda>s. snd (fst s))"

lemma submitsI: "(\<And>s r s'. m s = (r, s') \<Longrightarrow> \<exists>new. ev s' = ev s @ new \<and> submitted new \<in> P) \<Longrightarrow> submits_via ev P m"
  unfolding submits_via_def by blast

lemma submitsD: "submits_via ev P m \<Longrightarrow> m s = (r, s') \<Longrightarrow> \<exists>new. ev s' = ev s @ new \<and> submitted new \<in> P"
  unfolding submits_via_def by blast

lemma submits_mono: "submits_via ev P m \<Longrightarrow> P \<subseteq> Q \<Longrightarrow> submits_via ev Q m"
  unfolding submits_via_def by blast

text \<open>Sequencing; the second operation only matters for the values the first one returns.\<close>

lemma submits_then:
  assumes "submits_via ev P m" and "\<And>a s s'. m s = (Inr a, s') \<Longrightarrow> submits_via ev Q (f a)" and "P \<subseteq> R"
    and "\<And>p q. p \<in> P \<Longrightarrow> q \<in> Q \<Longrightarrow> p @ q \<in> R"
  shows "submits_via ev R (bind_eff m f)"
proof (rule submitsI)
  fix s r s'
  assume b: "bind_eff m f s = (r, s')"
  obtain r1 s1 where m: "m s = (r1, s1)" by (cases "m s")
  from submitsD [OF assms(1) m] obtain n1 where n1: "ev s1 = ev s @ n1" "submitted n1 \<in> P" by blast
  show "\<exists>new. ev s' = ev s @ new \<and> submitted new \<in> R"
  proof (cases r1)
    case (Inl e)
    with b m n1 assms(3) show ?thesis by (auto simp: bind_eff_apply)
  next
    case (Inr a)
    with b m have f: "f a s1 = (r, s')" by (simp add: bind_eff_apply)
    from submitsD [OF assms(2) [OF m [unfolded Inr]] f] obtain n2 where n2: "ev s' = ev s1 @ n2" "submitted n2 \<in> Q" by blast
    with n1 assms(4) show ?thesis by (intro exI [of _ "n1 @ n2"]) simp
  qed
qed

lemma submits_quietly:
  assumes "submits_via ev {[]} m" and "\<And>a s s'. m s = (Inr a, s') \<Longrightarrow> submits_via ev P (f a)" and "[] \<in> P"
  shows "submits_via ev P (bind_eff m f)"
  by (rule submits_then [OF assms(1,2)]) (use assms(3) in auto)

lemma submits_finally:
  assumes "submits_via ev P m" and "\<And>a. submits_via ev {[]} (f a)"
  shows "submits_via ev P (bind_eff m f)"
  by (rule submits_then [OF assms]) auto

lemma submits_catch:
  assumes "submits_via ev P m" and "\<And>e. submits_via ev {[]} (h e)"
  shows "submits_via ev P (catch_eff m h)"
proof (rule submitsI)
  fix s r s'
  assume b: "catch_eff m h s = (r, s')"
  obtain r1 s1 where m: "m s = (r1, s1)" by (cases "m s")
  from submitsD [OF assms(1) m] obtain n1 where n1: "ev s1 = ev s @ n1" "submitted n1 \<in> P" by blast
  show "\<exists>new. ev s' = ev s @ new \<and> submitted new \<in> P"
  proof (cases r1)
    case (Inl e)
    with b m have "h e s1 = (r, s')" by (simp add: catch_eff_apply)
    from submitsD [OF assms(2) this] n1 show ?thesis by auto
  next
    case (Inr a)
    with b m n1 show ?thesis by (auto simp: catch_eff_apply)
  qed
qed

lemma submits_if: "(b \<Longrightarrow> submits_via ev P m) \<Longrightarrow> (\<not> b \<Longrightarrow> submits_via ev P m') \<Longrightarrow> submits_via ev P (if b then m else m')"
  by simp

abbreviation quiet :: "('w, 'a) fin_op \<Rightarrow> bool" where "quiet \<equiv> submits {[]}"

lemma submits_chain:
  assumes "traces R m" and "\<And>r new. R r new \<Longrightarrow> submitted new \<in> P"
  shows "submits P (hearing env cb m)"
proof (rule submitsI)
  fix s r s'
  assume o: "hearing env cb m s = (r, s')"
  obtain r1 c where m: "m (fst s) = (r1, c)" by (cases "m (fst s)")
  with o have "fst s' = c" by (auto simp: hearing_def Let_def split: sum.splits)
  with tracesD [OF assms(1) m] assms(2) show "\<exists>new. snd (fst s') = snd (fst s) @ new \<and> submitted new \<in> P" by auto
qed

lemma quiet_chain: "traces silent m \<Longrightarrow> quiet (hearing env cb m)"
  by (erule submits_chain) (simp add: silent_def)

lemma silent_read: "traces silent (client_read m Plain)"
  by (rule tracesI) (auto simp: client_read_def silent_def split: prod.splits sum.splits)

lemma quiet_basic: "quiet (ret a)" "quiet (throw e)" "quiet (update_state f)" "quiet (look g)" "quiet (raise message)"
  "quiet (on_read env m)" "quiet (on_reveal q)" "quiet (on_chain env (client_call n Plain))"
proof -
  show "quiet (ret a)" "quiet (throw e)" "quiet (update_state f)" "quiet (look g)" "quiet (raise message)" "quiet (on_reveal q)"
    by (auto simp: update_state_def look_def raise_def on_reveal_def split: prod.splits sum.splits intro!: submitsI)
  show "quiet (on_read env m)" unfolding on_read_def by (rule quiet_chain [OF silent_read])
  show "quiet (on_chain env (client_call n Plain))" by (rule quiet_chain [OF silent_ops(4)])
qed

lemmas quiet_intros = submits_quietly [where P = "{[]}" and ev = "\<lambda>s. snd (fst s)"] submits_catch submits_if quiet_basic

lemma quiet_awaited: "quiet m \<Longrightarrow> quiet (awaited env m)"
  by (rule submitsI) (auto simp: awaited_def split: prod.splits dest: submitsD)

lemma quiet_map: "(\<And>x. quiet (f x)) \<Longrightarrow> quiet (map_eff f xs)"
proof (induction xs)
  case Nil
  show ?case unfolding map_eff.simps by (rule quiet_basic(1))
next
  case (Cons x xs)
  show ?case unfolding map_eff.simps by (intro quiet_intros Cons) simp_all
qed

lemma quiet_guards: "quiet (ensureFinancialAccess env)" "quiet (live_clients env b)" "quiet (configured_address item label)" "quiet (vault_of env slug)"
  "quiet requireVerified" "quiet (readLiveVaultRound env slug clients)" "quiet (requireLiveOpenRound env slug clients)"
  "quiet (refreshPrivateBalanceHandle env)" "quiet (refresh_fin env)" "quiet (addActivity label vault)" "quiet (done_with env label vault)"
  "quiet (parsed_amount env input)"
proof -
  show a: "quiet (ensureFinancialAccess env)" unfolding ensureFinancialAccess_def by (intro quiet_intros) simp_all
  show b: "quiet (live_clients env b)" by (auto simp: live_clients_def quiet_basic split: option.split)
  show c: "quiet (configured_address item label)" for item label by (auto simp: configured_address_def quiet_basic split: sum.split)
  show d: "quiet (vault_of env slug)" by (auto simp: vault_of_def quiet_basic split: option.split)
  show "quiet requireVerified" unfolding requireVerified_def by (intro quiet_intros) simp_all
  show r: "quiet (readLiveVaultRound env slug clients)" unfolding readLiveVaultRound_def by (intro quiet_intros d) simp_all
  show "quiet (requireLiveOpenRound env slug clients)" unfolding requireLiveOpenRound_def by (intro quiet_intros r) (auto simp: quiet_basic)
  show "quiet (refreshPrivateBalanceHandle env)"
    unfolding refreshPrivateBalanceHandle_def begin_reveal_run_def if_current_def by (intro quiet_intros quiet_awaited c) simp_all
  have s: "quiet (read_states env p account n)" for p account n unfolding read_states_def by (intro quiet_map quiet_intros) simp_all
  show f: "quiet (refresh_fin env)"
    by (auto simp: refresh_fin_def quiet_basic split: option.split intro!: quiet_intros s)
  show g: "quiet (addActivity label vault)" unfolding addActivity_def by (rule quiet_basic)
  show "quiet (done_with env label vault)" unfolding done_with_def by (intro quiet_intros f g) simp_all
  show "quiet (parsed_amount env input)" by (auto simp: parsed_amount_def quiet_basic split: sum.split)
qed

section \<open>Saving and withdrawing\<close>

text \<open>A transaction submits what its action submits.\<close>

lemma submits_run:
  assumes "submits P (financial_body env action)" and "[] \<in> P"
  shows "submits P (run_financial env action)"
  unfolding run_financial_def execute_fin_def
  by (intro submits_quietly submits_catch submits_finally quiet_basic quiet_guards quiet_intros assms) (simp_all add: assms)

text \<open>What the guards hand on comes from the environment.\<close>

lemma vault_of_Inr: "vault_of env slug s = (Inr vault, s') \<Longrightarrow> getVaultConfig (fe_config env) slug = Some vault"
  by (auto simp: vault_of_def raise_def split: option.splits)

lemma configured_Inr: "configured_address item label s = (Inr a, s') \<Longrightarrow> requireConfiguredAddress item label = Inr a"
  by (auto simp: configured_address_def split: sum.splits)

lemma parsed_amount_Inr: "parsed_amount env input s = (Inr n, s') \<Longrightarrow> parseUsdcAmount (fe_parseUnits env) input = Inr n"
  by (auto simp: parsed_amount_def split: sum.splits)

definition wallet_of :: "'w financial_env \<Rightarrow> 'w PublicClient \<times> 'w ActionClients \<Rightarrow> bool" where
  "wallet_of env clients \<longleftrightarrow> fe_publicClient env = Some (fst clients) \<and> (\<exists>c account. fe_walletClients env = Some c \<and>
     fe_account env = Some account \<and> snd clients = c\<lparr>ac_clients := (ac_clients c)\<lparr>vc_account := account\<rparr>\<rparr>)"

lemma live_clients_Inr: "live_clients env b s = (Inr clients, s') \<Longrightarrow> wallet_of env clients"
  by (auto simp: live_clients_def wallet_of_def raise_def split: option.splits if_splits)

lemmas guard_values = vault_of_Inr configured_Inr parsed_amount_Inr live_clients_Inr

text \<open>A round that was read as open: a block, the state of the vault at it, and their verdict.\<close>

definition read_open :: "'w financial_env \<Rightarrow> string \<Rightarrow> VaultPublicState \<Rightarrow> bool" where
  "read_open env slug state \<longleftrightarrow> (\<exists>p vault account block s1 s2 s3.
     fe_publicClient env = Some p \<and> getVaultConfig (fe_config env) slug = Some vault \<and>
     on_read env (readLatestBlock p) s1 = (Inr block, s2) \<and>
     on_read env (readVaultPublicState p vault account (Some (cb_number block))) s2 = (Inr state, s3) \<and>
     er_depositOpen (getEffectiveVaultRoundStatus (Some state) (Some (cb_timestamp block))))"

lemma readLiveVaultRound_read:
  assumes "wallet_of env clients" and "readLiveVaultRound env slug clients s = (Inr (vault, state, timestamp), s')"
    and "er_depositOpen (getEffectiveVaultRoundStatus (Some state) (Some timestamp))"
  shows "read_open env slug state"
proof -
  from assms(2) obtain block s0 s1 s2 where "on_read env (readLatestBlock (fst clients)) s0 = (Inr block, s1)"
      "on_read env (readVaultPublicState (fst clients) vault (ac_account (snd clients)) (Some (cb_number block))) s1 = (Inr state, s2)"
      "timestamp = cb_timestamp block" "getVaultConfig (fe_config env) slug = Some vault"
    unfolding readLiveVaultRound_def by (elim bind_InrE) (auto simp del: split_paired_All dest: vault_of_Inr)
  with assms(1,3) show ?thesis unfolding read_open_def wallet_of_def by blast
qed

lemma open_round_read: "requireLiveOpenRound env slug clients s = (Inr state, s') \<Longrightarrow> wallet_of env clients \<Longrightarrow> read_open env slug state"
  unfolding requireLiveOpenRound_def
  by (erule bind_InrE) (auto simp: raise_def split: if_splits dest: readLiveVaultRound_read)

lemma prepared_round_read:
  assumes "read_withdrawal_round env slug clients s = (Inr r, s')" and "wr_canWithdrawNow r" and "wallet_of env clients"
  shows "\<exists>state. read_open env slug state"
proof -
  from assms obtain vault state timestamp s1 where "readLiveVaultRound env slug clients s = (Inr (vault, state, timestamp), s1)"
      "er_depositOpen (getEffectiveVaultRoundStatus (Some state) (Some timestamp))"
    unfolding read_withdrawal_round_def by (auto elim!: bind_InrE simp: Let_def)
  with assms(3) show ?thesis by (blast intro: readLiveVaultRound_read)
qed

text \<open>The address of a vault, and what the wallet encrypts an amount to.\<close>

definition vault_at :: "'w financial_env \<Rightarrow> string \<Rightarrow> string \<Rightarrow> bool" where
  "vault_at env slug a \<longleftrightarrow> (\<exists>vault. getVaultConfig (fe_config env) slug = Some vault \<and>
     requireConfiguredAddress (lv_vault vault) (lv_name vault @ '' vault'') = Inr a)"

definition encryptions :: "'w financial_env \<Rightarrow> string \<Rightarrow> int \<Rightarrow> (string \<times> string) set" where
  "encryptions env target amount = (case fe_walletClients env of
     None \<Rightarrow> {} | Some c \<Rightarrow> yields (vc_encryptPrivateAmount (ac_clients c) target amount))"

lemma encrypted_by: "wallet_of env clients \<Longrightarrow> enc \<in> yields (vc_encryptPrivateAmount (ac_clients (snd clients)) target amount) \<Longrightarrow>
    enc \<in> encryptions env target amount"
  by (auto simp: wallet_of_def encryptions_def)

text \<open>What a save may submit: the transfer of an encryption of the amount to the vault.\<close>

definition saves :: "'w financial_env \<Rightarrow> string \<Rightarrow> int \<Rightarrow> contract_call list set" where
  "saves env slug amount = {[save_transfer lcUsdc vault enc] | lcUsdc vault enc.
     vault_at env slug vault \<and> official_vault_target (fe_config env) vault \<and>
     Some (toLowerCase lcUsdc) = map_option toLowerCase (private_token env) \<and> enc \<in> encryptions env lcUsdc amount}"

lemma savesI:
  assumes "vault_at env slug vault" and "official_vault_target (fe_config env) vault"
    and "Some (toLowerCase lcUsdc) = map_option toLowerCase (private_token env)" and "enc \<in> encryptions env lcUsdc amount"
  shows "[save_transfer lcUsdc vault enc] \<in> saves env slug amount"
  unfolding saves_def using assms by blast

lemma follows_save_privately:
  assumes "wallet_of env clients" and "vault_at env slug vault"
  shows "traces (follows (saves env slug amount) (insert [] (saves env slug amount)) (\<lambda>_ _. True))
    (savePrivately (fe_config env) (snd clients) lcUsdc vault amount)"
  unfolding savePrivately_def encrypt_for_def
  by (intro follows_if follows_fail follows_quiet [OF quiet_stage] follows_value follows_weaken [OF follows_confirm])
    (use assms in \<open>auto intro: savesI simp: private_token_def dest: encrypted_by\<close>)

lemma follows_submits: "traces (follows P F H) m \<Longrightarrow> P \<subseteq> Q \<Longrightarrow> F \<subseteq> Q \<Longrightarrow> submits Q (hearing env cb m)"
  by (erule submits_chain) (auto simp: follows_def split: sum.splits)

lemma submits_save:
  assumes "wallet_of env clients" and "vault_at env slug vault" and "insert [] (saves env slug amount) \<subseteq> P"
  shows "submits P (on_chain env (savePrivately (fe_config env) (snd clients) lcUsdc vault amount))"
  by (rule follows_submits [OF follows_save_privately [OF assms(1,2)]]) (use assms(3) in auto)

text \<open>
  C20. Saving from the interface submits nothing but one transfer of an encryption of the amount that was
  typed, to the vault of the configuration, and only when its round was read as open at a block.
\<close>

theorem saves_only_enter_open_rounds:
  assumes "run_financial env (SaveTo slug input) s = (r, s')"
  shows "\<exists>new. snd (fst s') = snd (fst s) @ new \<and> (submitted new = [] \<or>
    (\<exists>amount state. parseUsdcAmount (fe_parseUnits env) input = Inr amount \<and> read_open env slug state \<and> submitted new \<in> saves env slug amount))"
proof -
  let ?P = "insert [] {calls. \<exists>amount state. parseUsdcAmount (fe_parseUnits env) input = Inr amount \<and> read_open env slug state \<and>
    calls \<in> saves env slug amount}"
  have "submits ?P (save_action env slug input)"
    unfolding save_action_def
    by (intro submits_quietly submits_if submits_finally submits_save quiet_basic [THEN submits_mono] quiet_basic quiet_guards quiet_intros)
      (auto simp: vault_at_def dest: open_round_read guard_values)
  from submitsD [OF submits_run [of ?P env "SaveTo slug input"] assms] this show ?thesis by fastforce
qed

text \<open>The preparation of a withdrawal submits at most what closes the round.\<close>

abbreviation prepares :: "contract_call list set \<Rightarrow> ('e, 'w provider, 'a) withdrawal_op \<Rightarrow> bool" where
  "prepares \<equiv> submits_via (\<lambda>s. snd (fst (fst s)))"

abbreviation shows_stage :: "TransactionStage \<Rightarrow> 'w provider \<Rightarrow> 'w provider" where
  "shows_stage \<equiv> \<lambda>stage p. (fst p, show_stage stage (snd p))"

lemma prepares_steps:
  "prepares {[]} (onStage shows_stage stage)"
  "quiet read \<Longrightarrow> prepares {[]} (read_round_state read wrap)"
  "submits P advance \<Longrightarrow> prepares P (advance_round advance)"
  "prepares {[]} (ret a)" "prepares {[]} (throw e)"
  by (rule submitsI, force simp: onStage_def read_round_state_def advance_round_def split: prod.splits sum.splits dest: submitsD)+

lemma prepares_after:
  assumes "quiet read"
  shows "prepares {[]} (after_advance read shows_stage outcome)"
proof (cases outcome)
  case (Inl e)
  then show ?thesis
    unfolding after_advance_def by (simp, intro submits_catch submits_quietly submits_if prepares_steps assms) simp_all
next
  case (Inr u)
  then show ?thesis
    unfolding after_advance_def by (simp, intro submits_catch submits_quietly submits_if prepares_steps assms) simp_all
qed

lemma prepares_outcome:
  assumes "prepares P m" and "\<And>outcome. prepares {[]} (f outcome)"
  shows "prepares P (\<lambda>s. case m s of (outcome, s') \<Rightarrow> f outcome s')"
proof (rule submitsI)
  fix s r s'
  assume "(case m s of (outcome, s') \<Rightarrow> f outcome s') = (r, s')"
  then obtain outcome s1 where m: "m s = (outcome, s1)" and f: "f outcome s1 = (r, s')" by (cases "m s") auto
  from submitsD [OF assms(1) m] submitsD [OF assms(2) f]
  show "\<exists>new. snd (fst (fst s')) = snd (fst (fst s)) @ new \<and> submitted new \<in> P" by auto
qed

lemma prepares_withdrawal:
  assumes "quiet read" and "submits P advance" and "[] \<in> P"
  shows "prepares P (prepareWithdrawalRound read advance shows_stage)"
  unfolding prepareWithdrawalRound_def
  by (intro submits_quietly submits_if prepares_steps [THEN submits_mono] prepares_outcome prepares_after prepares_steps assms)
    (use assms(3) in auto)

lemma prepared_Inr:
  assumes "prepareWithdrawalRound read advance callback s = (Inr r, s')"
  shows "wr_canWithdrawNow r \<and> (\<exists>s s'. read s = (Inr r, s'))"
  using assms
  by (auto simp: prepareWithdrawalRound_def after_advance_def read_round_state_def bind_eff_apply catch_eff_apply
      split: prod.splits sum.splits if_splits)

definition round_closings :: "'w financial_env \<Rightarrow> string \<Rightarrow> contract_call list set" where
  "round_closings env slug = {[token_call vault ''closeRound'' []] | vault. vault_at env slug vault}"

definition withdrawals :: "'w financial_env \<Rightarrow> string \<Rightarrow> int \<Rightarrow> contract_call list set" where
  "withdrawals env slug amount = {[vault_withdrawal vault enc] | vault enc. vault_at env slug vault \<and> enc \<in> encryptions env vault amount}"

lemma submits_prepare:
  assumes "vault_at env slug vault"
  shows "submits (insert [] (round_closings env slug)) (prepare_withdrawal env slug clients vault)"
proof -
  have read: "quiet (read_withdrawal_round env slug clients)"
    unfolding read_withdrawal_round_def by (intro submits_quietly quiet_guards) (auto simp: Let_def quiet_basic)
  have advance: "submits (insert [] (round_closings env slug)) (bind_eff (on_chain env (closeExpiredRound (snd clients) vault)) (\<lambda>_. ret ()))"
    unfolding closeExpiredRound_def
    by (intro submits_finally follows_submits [OF follows_confirm] quiet_basic) (use assms in \<open>auto simp: round_closings_def\<close>)
  show ?thesis
  proof (rule submitsI)
    fix s r s'
    assume "prepare_withdrawal env slug clients vault s = (r, s')"
    then obtain q w where "prepareWithdrawalRound (read_withdrawal_round env slug clients)
        (bind_eff (on_chain env (closeExpiredRound (snd clients) vault)) (\<lambda>_. ret ())) shows_stage (s, []) = (q, (s', w))"
      by (auto simp: prepare_withdrawal_def split: prod.splits sum.splits)
    from submitsD [OF prepares_withdrawal [OF read advance] this]
    show "\<exists>new. snd (fst s') = snd (fst s) @ new \<and> submitted new \<in> insert [] (round_closings env slug)" by simp
  qed
qed

lemma prepare_withdrawal_open:
  assumes "prepare_withdrawal env slug clients vault s = (Inr r, s')" and "wallet_of env clients"
  shows "\<exists>state. read_open env slug state"
proof -
  from assms(1) obtain w where "prepareWithdrawalRound (read_withdrawal_round env slug clients)
      (bind_eff (on_chain env (closeExpiredRound (snd clients) vault)) (\<lambda>_. ret ())) shows_stage (s, []) = (Inr r, (s', w))"
    by (auto simp: prepare_withdrawal_def split: prod.splits sum.splits)
  from prepared_Inr [OF this] prepared_round_read [OF _ _ assms(2)] show ?thesis by blast
qed

lemma prepared_by:
  "prepare_withdrawal env slug clients vault s = (Inr r, s') \<Longrightarrow> live_clients env b t = (Inr clients, t') \<Longrightarrow> \<exists>state. read_open env slug state"
  by (blast intro: prepare_withdrawal_open live_clients_Inr)

lemma follows_withdraw_savings:
  assumes "wallet_of env clients" and "vault_at env slug vault"
  shows "traces (follows (withdrawals env slug amount) (insert [] (withdrawals env slug amount)) (\<lambda>_ _. True))
    (withdrawSavings (snd clients) vault amount)"
  unfolding withdrawSavings_def encrypt_for_def
  by (intro follows_value follows_weaken [OF follows_confirm]) (use assms in \<open>auto simp: withdrawals_def dest: encrypted_by\<close>)

lemma submits_withdraw:
  assumes "wallet_of env clients" and "vault_at env slug vault"
  shows "submits (insert [] (withdrawals env slug amount)) (on_chain env (withdrawSavings (snd clients) vault amount))"
  by (rule follows_submits [OF follows_withdraw_savings [OF assms]]) auto

text \<open>
  Withdrawing from the interface submits at most the closing of the vault's round and then one
  withdrawal of an encryption of the amount that was typed; the withdrawal only when the round
  was read as open at a block, after the closing if there was one.
\<close>

definition open_withdrawals :: "'w financial_env \<Rightarrow> string \<Rightarrow> string \<Rightarrow> contract_call list set" where
  "open_withdrawals env slug input = {calls. \<exists>amount state. parseUsdcAmount (fe_parseUnits env) input = Inr amount \<and> read_open env slug state \<and>
    calls \<in> withdrawals env slug amount}"

theorem withdrawals_leave_open_rounds:
  assumes "run_financial env (WithdrawFrom slug input) s = (r, s')"
  shows "\<exists>new closing. snd (fst s') = snd (fst s) @ new \<and> closing \<in> insert [] (round_closings env slug) \<and>
    (submitted new = closing \<or> (\<exists>withdrawal \<in> open_withdrawals env slug input. submitted new = closing @ withdrawal))"
proof -
  let ?W = "insert [] (open_withdrawals env slug input)" and ?C = "insert [] (round_closings env slug)"
  let ?P = "{closing @ rest | closing rest. closing \<in> ?C \<and> rest \<in> ?W}"
  have "submits ?P (withdraw_action env slug input)"
    unfolding withdraw_action_def
    by (intro submits_then [OF submits_prepare, where Q = ?W] submits_finally [OF submits_withdraw [THEN submits_mono]] submits_quietly submits_if
        quiet_basic [THEN submits_mono] quiet_basic quiet_guards quiet_intros)
      (auto simp: vault_at_def open_withdrawals_def dest: guard_values dest!: prepared_by)
  from submitsD [OF submits_run [of ?P env "WithdrawFrom slug input"] assms] this show ?thesis by fastforce
qed

section \<open>Invariants of the guards\<close>

text \<open>
  The guards and the private reads add no event and change little of the state; whatever does not
  speak of the world, the error and the timer survives them.
\<close>

locale provider_invariant =
  fixes env :: "'w financial_env" and I :: "'w provider \<Rightarrow> bool"
  assumes world: "I (c, st) \<Longrightarrow> snd c' = snd c \<Longrightarrow> I (c', st)"
    and timer: "I (c, st) \<Longrightarrow> I (c, fire_timer st)"
    and errors: "I (c, st) \<Longrightarrow> I (c, st\<lparr>fp_error := e\<rparr>)"
begin

lemma keeps_silent: "traces silent m \<Longrightarrow> keeps I (hearing env cb m)"
  by (rule keepsI) (auto simp: hearing_def silent_def Let_def split: prod.splits sum.splits intro!: timer dest!: tracesD intro: world)

lemma keeps_calls: "keeps I (on_read env n)" "keeps I (on_chain env (client_call q Plain))" "keeps I (on_reveal p)"
  "keeps I (raise message)" "keeps I (look f)"
proof -
  show "keeps I (on_read env n)" unfolding on_read_def by (rule keeps_silent [OF silent_read])
  show "keeps I (on_chain env (client_call q Plain))" by (rule keeps_silent [OF silent_ops(4)])
  show "keeps I (on_reveal p)" by (rule keepsI) (auto simp: on_reveal_def split: prod.splits sum.splits intro: world)
  show "keeps I (raise message)" "keeps I (look f)" by (auto simp: raise_def look_def intro: keepsI keeps_rules)
qed

lemma keeps_guards: "keeps I (ensureFinancialAccess env)" "keeps I (live_clients env b)" "keeps I (configured_address item label)"
  "keeps I (vault_of env slug)" "keeps I requireVerified" "keeps I (parsed_amount env input)"
proof -
  have "keeps I (update_state (\<lambda>st. st\<lparr>fp_error := Some e\<rparr>))" for e by (rule keepsI) (auto simp: update_state_def intro: errors)
  then show "keeps I (ensureFinancialAccess env)" unfolding ensureFinancialAccess_def by (intro keeps_rules keeps_calls)
  show "keeps I (live_clients env b)" "keeps I (configured_address item label)" "keeps I (vault_of env slug)" "keeps I requireVerified"
    "keeps I (parsed_amount env input)"
    by (auto simp: live_clients_def configured_address_def vault_of_def requireVerified_def parsed_amount_def
        intro!: keeps_rules keeps_calls split: option.split)
qed

lemma keeps_wanted: "keeps I (reveal_wanted env)"
  unfolding reveal_wanted_def ensurePrivateRevealAccess_def by (auto intro!: keeps_rules keeps_calls keeps_guards)

end

section \<open>Unverified deployments\<close>

definition unverified :: "action_event list \<Rightarrow> 'w provider \<Rightarrow> bool" where
  "unverified base s \<longleftrightarrow> \<not> fp_deploymentVerified (snd s) \<and> (\<exists>new. snd (fst s) = base @ new \<and> submitted new = [])"

interpretation unverified: provider_invariant env "unverified base" for env base
  by unfold_locales (auto simp: unverified_def fire_timer_def)

text \<open>What fails without having submitted anything, from a deployment that was not verified.\<close>

abbreviation refused :: "action_event list \<Rightarrow> ('w, unit) fin_op \<Rightarrow> bool" where
  "refused base m \<equiv> triple (unverified base) m (\<lambda>r s. (\<exists>e. r = Inl e) \<and> unverified base s)"

lemma refused_rules:
  "refused base (raise message)" "refused base (bind_eff requireVerified f)"
  "keeps (unverified base) m \<Longrightarrow> (\<And>a. refused base (g a)) \<Longrightarrow> refused base (bind_eff m g)"
proof -
  show "refused base (raise message)" by (simp add: raise_def)
  show "refused base (bind_eff requireVerified f)"
    by (rule tripleI) (auto simp: requireVerified_def look_def raise_def bind_eff_apply unverified_def)
  show "refused base (bind_eff m g)" if "keeps (unverified base) m" and "\<And>a. refused base (g a)"
    by (rule triple_bind [where R = "\<lambda>_. unverified base", OF triple_weaken [OF that(1) [unfolded keeps_def]] that(2)])
      (auto split: sum.split)
qed

lemma refused_body: "action \<noteq> AcquireUsdc \<Longrightarrow> refused base (financial_body env action)"
  by (cases action)
    (auto simp: makePrivate_action_def save_action_def enterRound_action_def withdraw_action_def makePublic_action_def
      claimRefund_action_def claimRewards_action_def split: option.split prod.split
      intro!: refused_rules unverified.keeps_calls unverified.keeps_guards)

text \<open>
  C30. Before the deployment was verified, no transaction but the one that fetches test tokens submits
  anything: it ends in an error.
\<close>

theorem unverified_deployments_get_nothing:
  assumes "run_financial env action s = (r, s')" and "\<not> fp_deploymentVerified (snd s)" and "action \<noteq> AcquireUsdc"
  shows "(\<exists>e. r = Inl e) \<and> \<not> fp_deploymentVerified (snd s') \<and> (\<exists>new. snd (fst s') = snd (fst s) @ new \<and> submitted new = [])"
proof -
  let ?base = "snd (fst s)"
  have k: "keeps (unverified ?base) (update_state f)" if "\<And>st. fp_deploymentVerified (f st) = fp_deploymentVerified st" for f
    by (rule keepsI) (use that in \<open>auto simp: update_state_def unverified_def\<close>)
  have persist: "fp_deploymentVerified (persist_stage env stage hash e st) = fp_deploymentVerified st" for stage hash e st
    by (simp add: persist_stage_def Let_def split: option.split)
  have fail: "refused ?base (bind_eff (update_state (fail_exec env e)) (\<lambda>_. throw e))" for e
    by (intro refused_rules k) (simp_all add: fail_exec_def persist Let_def)
  have body: "refused ?base (bind_eff (ensureFinancialAccess env) (\<lambda>_.
        bind_eff (update_state (persist_stage env ST_WALLET None None)) (\<lambda>_.
        bind_eff (financial_body env action) (\<lambda>_. bind_eff (refreshPrivateBalanceHandle env) (\<lambda>_.
        update_state (finish_exec env True))))))"
    by (intro refused_rules unverified.keeps_guards k persist triple_bind [where R = "\<lambda>_ _. False"] triple_weaken [OF refused_body [OF assms(3)]])
      (auto simp: triple_def)
  have "refused ?base (run_financial env action)"
    unfolding run_financial_def execute_fin_def
    by (intro refused_rules k triple_catch [where H = "\<lambda>_. unverified ?base"] triple_weaken [OF body] fail) (auto simp: start_exec_def)
  from tripleD [OF this _ assms(1)] assms(2) show ?thesis by (auto simp: unverified_def)
qed

section \<open>The record of a transaction\<close>

text \<open>The last hash that the wallet returned; an empty one does not count.\<close>

definition newest :: "string \<Rightarrow> string option \<Rightarrow> string option" where
  "newest h acc = (if truthy (Some h) then Some h else acc)"

definition last_hash :: "action_event list \<Rightarrow> string option" where
  "last_hash evs = fold newest (returned evs) None"

definition told_hashes :: "('w, 'a) v2_op \<Rightarrow> bool" where
  "told_hashes m \<longleftrightarrow> traces (\<lambda>_ new. announced new = returned new) m"

lemma told_bind: "told_hashes m \<Longrightarrow> (\<And>a. told_hashes (f a)) \<Longrightarrow> told_hashes (bind_eff m f)"
  unfolding told_hashes_def by (erule traces_bind) auto

lemma told_silent: "traces silent m \<Longrightarrow> told_hashes m"
  unfolding told_hashes_def by (erule traces_weaken) (simp add: silent_def)

lemma told_if: "(b \<Longrightarrow> told_hashes m) \<Longrightarrow> (\<not> b \<Longrightarrow> told_hashes m') \<Longrightarrow> told_hashes (if b then m else m')"
  by simp

lemma told_faucet: "told_hashes (getTestUsdc clients)"
proof -
  have send: "traces (\<lambda>r new. (\<exists>e. r = Inl e \<and> returned new = [] \<and> announced new = []) \<or> (\<exists>h. r = Inr h \<and> returned new = [h] \<and> announced new = []))
      (send_faucet clients input)" for input
    by (rule tracesI) (auto simp: send_faucet_def split: prod.splits sum.splits)
  have rest: "traces silent (bind_eff (client_call (vc_waitForTransactionReceipt clients hash) Plain) (\<lambda>receipt.
     if \<not> rc_success receipt then fail ''CANONICAL_FAUCET_TRANSACTION_FAILED'' else ret hash))" for hash
    by (intro silent_intros)
  have tail: "told_hashes (bind_eff (send_faucet clients input) (\<lambda>hash. bind_eff (notify (OnHash hash None)) (\<lambda>_.
     bind_eff (client_call (vc_waitForTransactionReceipt clients hash) Plain) (\<lambda>receipt.
     if \<not> rc_success receipt then fail ''CANONICAL_FAUCET_TRANSACTION_FAILED'' else ret hash))))" for input
    unfolding told_hashes_def
    by (rule traces_bind [OF send], rule traces_bind [OF notify_trace], rule rest) (auto simp: silent_def)
  have sim: "told_hashes (notify (Simulated request))" for request
    unfolding told_hashes_def by (rule traces_weaken [OF notify_trace]) simp
  show ?thesis
    unfolding getTestUsdc_def
    by (intro tail told_bind told_if sim silent_ops [THEN told_silent])
qed

lemma told_classic:
  "told_hashes (makePrivate v clients lcUsdc amount)" "told_hashes (savePrivately config clients lcUsdc vault amount)"
  "told_hashes (enterPrizeRound clients escrow roundId bond)" "told_hashes (withdrawSavings clients vault amount)"
  "told_hashes (closeExpiredRound clients vault)" "told_hashes (requestMakePublic clients lcUsdc amount)"
  "told_hashes (claimBondRefund clients escrow roundId)" "told_hashes (claimSettlementRewards clients escrow)"
  unfolding told_hashes_def announcing.obeys_def [symmetric]
  by (rule classic_announcing.obeys_make_private classic_announcing.obeys_save_privately classic_announcing.obeys_withdraw_savings
    classic_announcing.obeys_make_public classic_announcing.obeys_single)+

definition tracked :: "'w financial_env \<Rightarrow> string \<Rightarrow> action_event list \<Rightarrow> 'w provider \<Rightarrow> bool" where
  "tracked env kind base s \<longleftrightarrow> ex_id (fp_exec (snd s)) = fe_randomUUID env \<and> ex_kind (fp_exec (snd s)) = kind \<and>
     (\<exists>new. snd (fst s) = base @ new \<and> ex_latestHash (fp_exec (snd s)) = last_hash new)"

interpretation tracked: provider_invariant env "tracked env' kind base" for env env' kind base
  by unfold_locales (auto simp: tracked_def fire_timer_def)

lemma fold_handle:
  assumes "fe_account env = Some account"
  shows "ex_id (fp_exec (fold (handle_financial env) evs st)) = ex_id (fp_exec st) \<and>
    ex_kind (fp_exec (fold (handle_financial env) evs st)) = ex_kind (fp_exec st) \<and>
    ex_latestHash (fp_exec (fold (handle_financial env) evs st)) = fold newest (announced evs) (ex_latestHash (fp_exec st))"
proof (induction evs arbitrary: st)
  case (Cons ev evs)
  then show ?case
    by (cases ev) (simp_all add: assms persist_stage_def show_stage_def fire_timer_def newest_def Let_def)
qed simp

lemma hears_hashes: "HashOnly \<noteq> NoCallbacks" "HashAndStages \<noteq> NoCallbacks"
  by simp_all

lemma heard_hashes: "cb \<noteq> NoCallbacks \<Longrightarrow> announced (filter (hears cb) evs) = announced evs"
proof (induction evs)
  case (Cons ev evs)
  then show ?case by (cases cb; cases ev) simp_all
qed simp

lemma tracks_chain:
  assumes "told_hashes m" and "fe_account env = Some account" and "cb \<noteq> NoCallbacks"
  shows "keeps (tracked env kind base) (hearing env cb m)"
proof (rule keepsI)
  fix s r s'
  assume t: "tracked env kind base s" and o: "hearing env cb m s = (r, s')"
  obtain r1 c where m: "m (fst s) = (r1, c)" by (cases "m (fst s)")
  from tracesD [OF assms(1) [unfolded told_hashes_def] m] obtain new where new: "snd c = snd (fst s) @ new" "announced new = returned new" by blast
  from t obtain old where old: "snd (fst s) = base @ old" "ex_latestHash (fp_exec (snd s)) = last_hash old" by (auto simp: tracked_def)
  from o m have s': "s' = (c, fire_timer (fold (handle_financial env) (filter (hears cb) new) (snd s)))"
    by (auto simp: hearing_def new(1) Let_def split: sum.splits)
  have "tracked env kind base (c, fold (handle_financial env) (filter (hears cb) new) (snd s))"
    using t old fold_handle [OF assms(2), of "filter (hears cb) new" "snd s"] heard_hashes [OF assms(3)] by (auto simp: tracked_def new last_hash_def)
  then show "tracked env kind base s'" unfolding s' by (rule tracked.timer)
qed

lemma tracks_update: "(\<And>st. ex_id (fp_exec (f st)) = ex_id (fp_exec st) \<and> ex_kind (fp_exec (f st)) = ex_kind (fp_exec st) \<and>
    ex_latestHash (fp_exec (f st)) = ex_latestHash (fp_exec st)) \<Longrightarrow> keeps (tracked env kind base) (update_state f)"
  by (rule keepsI) (auto simp: update_state_def tracked_def)

lemma tracks_persist: "keeps (tracked env kind base) (update_state (persist_stage env' stage None e))"
  by (rule tracks_update) (simp add: persist_stage_def truthy_def Let_def split: option.split)

lemma tracks_map: "(\<And>x. keeps I (f x)) \<Longrightarrow> keeps I (map_eff f xs)"
  by (induction xs) (auto intro: keeps_rules)

lemmas tracks_steps = keeps_bind keeps_catch keeps_ret keeps_throw keeps_if tracks_map tracked.keeps_calls tracked.keeps_guards

lemma tracks_refresh: "keeps (tracked env kind base) (refresh_fin env')"
  by (auto simp: refresh_fin_def read_states_def split: option.split intro!: tracks_steps tracks_update)

lemma tracks_done: "keeps (tracked env kind base) (done_with env' label vault)" "keeps (tracked env kind base) (addActivity label vault)"
  unfolding done_with_def addActivity_def by (intro tracks_steps tracks_update tracks_refresh; simp)+

lemma tracks_rounds: "keeps (tracked env kind base) (readLiveVaultRound env' slug clients)"
  "keeps (tracked env kind base) (requireLiveOpenRound env' slug clients)"
  "keeps (tracked env kind base) (read_withdrawal_round env' slug clients)"
proof -
  show r: "keeps (tracked env kind base) (readLiveVaultRound env' slug clients)"
    unfolding readLiveVaultRound_def by (intro tracks_steps tracks_update) simp
  show "keeps (tracked env kind base) (requireLiveOpenRound env' slug clients)"
    "keeps (tracked env kind base) (read_withdrawal_round env' slug clients)"
    unfolding requireLiveOpenRound_def read_withdrawal_round_def by (auto simp: Let_def intro!: tracks_steps r)
qed

text \<open>An invariant of the provider, carried through the preparation of a withdrawal.\<close>

abbreviation keeps_below :: "('w provider \<Rightarrow> bool) \<Rightarrow> ('e, 'w provider, 'a) withdrawal_op \<Rightarrow> bool" where
  "keeps_below I \<equiv> keeps (\<lambda>s. I (fst s))"

lemma keeps_withdrawal:
  assumes "keeps I read" and "keeps I advance" and "\<And>stage p. I p \<Longrightarrow> I (shows_stage stage p)"
  shows "keeps_below I (prepareWithdrawalRound read advance shows_stage)"
proof -
  have shown: "keeps_below I (onStage shows_stage stage)" for stage
    by (rule keepsI) (use assms(3) in \<open>auto simp: onStage_def\<close>)
  have read: "keeps_below I (read_round_state read wrap)" for wrap
    by (rule keepsI) (auto simp: read_round_state_def split: prod.splits sum.splits dest: keepsD [OF assms(1)])
  have adv: "keeps_below I (advance_round advance)"
    by (rule keepsI) (auto simp: advance_round_def split: prod.splits sum.splits dest: keepsD [OF assms(2)])
  have after: "keeps_below I (after_advance read shows_stage outcome)" for outcome
    unfolding after_advance_def by (intro keeps_case_sum keeps_catch keeps_bind keeps_if keeps_ret keeps_throw shown read)
  have "keeps_below I (\<lambda>s. case advance_round advance s of (outcome, s') \<Rightarrow> after_advance read shows_stage outcome s')"
    by (rule keepsI) (auto split: prod.splits dest: keepsD [OF adv] keepsD [OF after])
  then show ?thesis
    unfolding prepareWithdrawalRound_def by (intro keeps_bind keeps_if keeps_ret keeps_throw shown read)
qed

lemma tracks_prepare:
  assumes "fe_account env = Some account"
  shows "keeps (tracked env kind base) (prepare_withdrawal env slug clients vault)"
proof (rule keepsI)
  fix s r s'
  assume t: "tracked env kind base s" and p: "prepare_withdrawal env slug clients vault s = (r, s')"
  have advance: "keeps (tracked env kind base) (bind_eff (on_chain env (closeExpiredRound (snd clients) vault)) (\<lambda>_. ret ()))"
    by (intro tracks_steps tracks_chain [OF told_classic(5) assms hears_hashes(2)])
  have k: "keeps_below (tracked env kind base) (prepareWithdrawalRound (read_withdrawal_round env slug clients)
      (bind_eff (on_chain env (closeExpiredRound (snd clients) vault)) (\<lambda>_. ret ())) shows_stage)"
    by (rule keeps_withdrawal [OF tracks_rounds(3) advance]) (auto simp: tracked_def show_stage_def)
  from p obtain q w where "prepareWithdrawalRound (read_withdrawal_round env slug clients)
      (bind_eff (on_chain env (closeExpiredRound (snd clients) vault)) (\<lambda>_. ret ())) shows_stage (s, []) = (q, (s', w))"
    by (auto simp: prepare_withdrawal_def split: prod.splits sum.splits)
  from keepsD [OF k _ this] t show "tracked env kind base s'" by simp
qed

lemma tracks_body:
  assumes "fe_account env = Some account"
  shows "keeps (tracked env kind base) (financial_body env action)"
proof -
  have inv: "keeps (tracked env kind base) (update_state invalidatePrivateBalance)"
    and show_refresh: "keeps (tracked env kind base) (update_state (show_stage stage))" for stage
    by (rule tracks_update, simp add: invalidatePrivateBalance_def hide_balance_def show_stage_def)+
  note steps = tracks_steps tracks_done tracks_rounds tracks_refresh tracks_prepare [OF assms] inv show_refresh
    tracks_chain [OF told_faucet assms hears_hashes(1)] tracks_chain [OF told_classic(1) assms hears_hashes(2)] tracks_chain [OF told_classic(2) assms hears_hashes(2)]
    tracks_chain [OF told_classic(3) assms hears_hashes(1)] tracks_chain [OF told_classic(4) assms hears_hashes(2)] tracks_chain [OF told_classic(6) assms hears_hashes(1)]
    tracks_chain [OF told_classic(7) assms hears_hashes(1)] tracks_chain [OF told_classic(8) assms hears_hashes(1)]
  show ?thesis
    by (cases action)
      (auto simp: acquireUsdc_action_def makePrivate_action_def save_action_def enterRound_action_def withdraw_action_def
        makePublic_action_def claimRefund_action_def claimRewards_action_def split: option.split prod.split intro!: steps)
qed

lemma tracks_handle:
  assumes "\<And>st. fp_exec (fe_meanwhile env st) = fp_exec st"
  shows "keeps (tracked env kind base) (refreshPrivateBalanceHandle env)"
proof -
  have meanwhile: "tracked env kind base s \<Longrightarrow> tracked env kind base (fst s, fe_meanwhile env (snd s))" for s
    by (simp add: tracked_def assms)
  have awaits: "keeps (tracked env kind base) (awaited env m)" if k: "keeps (tracked env kind base) m" for m :: "('a, 'b) fin_op"
  proof (rule keepsI)
    fix s r s'
    assume t: "tracked env kind base s" and m: "awaited env m s = (r, s')"
    from m obtain s1 where "m s = (r, s1)" "s' = (fst s1, fe_meanwhile env (snd s1))" by (auto simp: awaited_def split: prod.splits)
    with meanwhile [OF keepsD [OF k t]] show "tracked env kind base s'" by simp
  qed
  have hides: "keeps (tracked env kind base) (if_current runId f)"
    if "\<And>st. fp_exec (f st) = fp_exec st" for runId f
    unfolding if_current_def by (intro tracks_steps tracks_update) (simp add: that)
  show ?thesis
    unfolding refreshPrivateBalanceHandle_def begin_reveal_run_def
    by (intro tracks_steps awaits hides tracks_update) (simp_all add: invalidatePrivateBalance_def hide_balance_def)
qed

text \<open>
  C21. Every transaction of the interface ends in a record of the account, under the id it was started
  with, whatever else happened to the list of records: complete or failed, as the interface shows,
  a failure with the stage it failed in, and with the last hash that the wallet returned.
\<close>

definition ends_as :: "(financial_error, unit) result \<Rightarrow> SafeTransactionRecord \<Rightarrow> financial_state \<Rightarrow> bool" where
  "ends_as r record st \<longleftrightarrow> (case r of
     Inr _ \<Rightarrow> sr_stage record = ST_COMPLETE \<and> sr_errorStage record = None \<and> fp_txStage st = ST_COMPLETE
   | Inl e \<Rightarrow> sr_stage record = ST_FAILED \<and> fp_txStage st = ST_FAILED \<and> fp_error st = Some e \<and>
       sr_errorStage record = fp_txErrorStage st \<and> fp_txErrorStage st \<noteq> None)"


section \<open>Reveals that were superseded\<close>

definition same_run :: "nat \<Rightarrow> 'w provider \<Rightarrow> bool" where
  "same_run n s \<longleftrightarrow> fp_revealRun (snd s) = n"

interpretation same_run: provider_invariant env "same_run n" for env n
  by unfold_locales (auto simp: same_run_def fire_timer_def)

definition reveal_begun :: "financial_state \<Rightarrow> financial_state" where
  "reveal_begun st = st\<lparr>fp_error := None, fp_revealRun := Suc (fp_revealRun st), fp_privateBalanceHandle := None,
     fp_privateBalanceStatus := PB_READING_HANDLE\<rparr>"

lemma reveal_after:
  assumes "revealPrivateBalance env s = (r, s')"
  shows "\<exists>q s1 st. reveal_wanted env (fst s, reveal_begun (snd s)) = (q, s1) \<and> fp_revealRun (snd s1) = Suc (fp_revealRun (snd s)) \<and>
    st = fe_meanwhile env (snd s1) \<and> fst s' = fst s1 \<and>
    (if fp_revealRun st \<noteq> Suc (fp_revealRun (snd s)) then snd s' = st \<and> (\<exists>e. r = Inl e)
     else case q of Inr shown \<Rightarrow> snd s' = show_revealed shown st \<and> r = Inr ()
       | Inl e \<Rightarrow> snd s' = show_reveal_failure e st \<and> r = Inl (Enriched e))"
proof -
  obtain q s1 where q: "reveal_wanted env (fst s, reveal_begun (snd s)) = (q, s1)" by (cases "reveal_wanted env (fst s, reveal_begun (snd s))")
  have "same_run (Suc (fp_revealRun (snd s))) (fst s, reveal_begun (snd s))" by (simp add: same_run_def reveal_begun_def)
  from keepsD [OF same_run.keeps_wanted this q] have "fp_revealRun (snd s1) = Suc (fp_revealRun (snd s))" by (simp add: same_run_def)
  with q assms show ?thesis
    by (cases q) (auto simp: revealPrivateBalance_def begin_reveal_run_def bind_eff_apply catch_eff_apply update_state_def look_def raise_def
        awaited_def reveal_begun_def split: if_splits)
qed

text \<open>
  A reveal shows the balance it was asked for and nothing else.  When anything started another run
  while the reveal was waiting, a change of the wallet for one, it ends in an error and leaves the
  state as that run made it; otherwise it shows the decrypted balance or hides it with the error.
\<close>

theorem superseded_reveals_show_nothing:
  assumes "revealPrivateBalance env s = (r, s')"
  shows "\<exists>waiting st. fp_revealRun waiting = Suc (fp_revealRun (snd s)) \<and> st = fe_meanwhile env waiting \<and>
    (if fp_revealRun st \<noteq> fp_revealRun waiting then snd s' = st \<and> (\<exists>e. r = Inl e)
     else (r = Inr () \<and> fp_privateBalanceRevealed (snd s') \<and> (\<exists>s1 balance. fp_privateBalance (snd s') = Some (snd balance) \<and>
           reveal_wanted env (fst s, reveal_begun (snd s)) = (Inr balance, s1))) \<or>
       (\<exists>e. r = Inl e \<and> fp_error (snd s') = Some e) \<and> fp_privateBalance (snd s') = None \<and> \<not> fp_privateBalanceRevealed (snd s'))"
proof -
  from reveal_after [OF assms] obtain q s1 where q: "reveal_wanted env (fst s, reveal_begun (snd s)) = (q, s1)"
      "fp_revealRun (snd s1) = Suc (fp_revealRun (snd s))"
    and k: "if fp_revealRun (fe_meanwhile env (snd s1)) \<noteq> Suc (fp_revealRun (snd s)) then snd s' = fe_meanwhile env (snd s1) \<and> (\<exists>e. r = Inl e)
     else case q of Inr shown \<Rightarrow> snd s' = show_revealed shown (fe_meanwhile env (snd s1)) \<and> r = Inr ()
       | Inl e \<Rightarrow> snd s' = show_reveal_failure e (fe_meanwhile env (snd s1)) \<and> r = Inl (Enriched e)"
    by blast
  show ?thesis
    by (rule exI [of _ "snd s1"], rule exI [of _ "fe_meanwhile env (snd s1)"])
      (use q k in \<open>cases q; auto simp: show_revealed_def show_reveal_failure_def simp del: split_paired_Ex\<close>)
qed

section \<open>Witnesses\<close>

definition demo_action_clients :: "nat ActionClients" where
  "demo_action_clients = \<lparr>ac_clients = demo_v2\<lparr>vc_getTransaction := (\<lambda>_. reads_as (\<lambda>_. \<lparr>ct_to = Some COMPOUND_FAUCET, ct_from = ''0xA'', ct_input = ''0x1''\<rparr>))\<rparr>,
     ac_getBlockNumber = reads_as (\<lambda>_. 5), ac_readUintAt = (\<lambda>_ _ _ _. reads_as (\<lambda>_. 100))\<rparr>"

definition demo_provider_env :: "nat financial_env" where
  "demo_provider_env = \<lparr>fe_viem = demo_viem, fe_config = sample_config, fe_account = Some ''0xa'', fe_publicReadAccount = None,
     fe_verifiedAddress = Some ''0xa'', fe_publicClient = Some sample_client, fe_walletClients = Some demo_action_clients, fe_ethereum = True,
     fe_privateClients = (\<lambda>_. demo_clients), fe_session = ret (), fe_financialAuthorized = False, fe_networkHealthy = True,
     fe_ethBalance = Some 1, fe_randomUUID = ''id'', fe_tick = (\<lambda>t. t + 1), fe_parseUnits = (\<lambda>_ _. 50), fe_roundWeights = (\<lambda>_. ret []),
     fe_meanwhile = (\<lambda>st. st)\<rparr>"

definition demo_financial :: financial_state where
  "demo_financial = \<lparr>fp_usdcBalance = None, fp_privateBalance = None, fp_privateBalanceRevealed = False, fp_privateBalanceHandle = None,
     fp_privateBalanceStatus = PB_UNREAD, fp_vaultPositions = Map.empty, fp_revealedVaults = {}, fp_enteredVaults = {}, fp_privateResults = Map.empty,
     fp_revealedResults = {}, fp_privateEligibility = Map.empty, fp_publicVaultState = Map.empty, fp_latestBlockTimestamp = None, fp_txStage = ST_READY,
     fp_txErrorStage = None, fp_error = None, fp_activity = [], fp_deploymentVerified = False, fp_revealRun = 0, fp_storage = NoItem, fp_now = 7,
     fp_exec = \<lparr>ex_id = [], ex_kind = [], ex_latestHash = None, ex_activeStage = ST_READY, ex_timer = False\<rparr>\<rparr>"

theorem saves_only_enter_open_rounds_witness:
  "\<exists>r s' new. run_financial demo_provider_env (SaveTo ''daily'' ''50'') (demo_start, demo_financial) = (r, s') \<and>
    snd (fst s') = snd demo_start @ new \<and> (submitted new = [] \<or>
    (\<exists>amount state. parseUsdcAmount (fe_parseUnits demo_provider_env) ''50'' = Inr amount \<and> read_open demo_provider_env ''daily'' state \<and>
      submitted new \<in> saves demo_provider_env ''daily'' amount))"
proof -
  obtain r s' where run: "run_financial demo_provider_env (SaveTo ''daily'' ''50'') (demo_start, demo_financial) = (r, s')" by (metis surj_pair)
  from saves_only_enter_open_rounds [OF this] run show ?thesis by auto
qed

theorem withdrawals_leave_open_rounds_witness:
  "\<exists>r s' new closing. run_financial demo_provider_env (WithdrawFrom ''daily'' ''50'') (demo_start, demo_financial) = (r, s') \<and>
    snd (fst s') = snd demo_start @ new \<and> closing \<in> insert [] (round_closings demo_provider_env ''daily'') \<and>
    (submitted new = closing \<or> (\<exists>w. w \<in> open_withdrawals demo_provider_env ''daily'' ''50'' \<and> submitted new = closing @ w))"
proof -
  obtain r s' where run: "run_financial demo_provider_env (WithdrawFrom ''daily'' ''50'') (demo_start, demo_financial) = (r, s')" by (metis surj_pair)
  from withdrawals_leave_open_rounds [OF this] run show ?thesis by (auto simp: Bex_def)
qed

theorem unverified_deployments_get_nothing_witness:
  "\<exists>e s' new. run_financial demo_provider_env (ClaimRewards ''daily'') (demo_start, demo_financial) = (Inl e, s') \<and>
    snd (fst s') = snd demo_start @ new \<and> submitted new = []"
proof -
  obtain r s' where run: "run_financial demo_provider_env (ClaimRewards ''daily'') (demo_start, demo_financial) = (r, s')" by (metis surj_pair)
  have "\<not> fp_deploymentVerified (snd (demo_start, demo_financial))" by (simp add: demo_financial_def)
  from unverified_deployments_get_nothing [OF run this] run show ?thesis by auto
qed

text \<open>Test tokens are fetched: the run completes, with the hash of its transaction in the record.\<close>

lemma demo_faucet_run:
  "\<exists>s'. run_financial demo_provider_env AcquireUsdc (demo_start, demo_financial) = (Inr (), s')"
proof -
  have lower: "lower_char (CHR ''A'') = CHR ''a''" "lower_char (CHR ''a'') = CHR ''a''" by code_simp+
  show ?thesis
  by (simp add: run_financial_def execute_fin_def acquireUsdc_action_def live_clients_def ensureFinancialAccess_def on_read_def hearing_def
      client_read_def update_state_def look_def bind_eff_apply catch_eff_apply demo_provider_env_def demo_action_clients_def getTestUsdc_def
      client_call_def notify_def send_faucet_def submitFinancialWriteOnce_def demo_v2_def reads_as_def demo_start_def demo_v2_receipt_def
      done_with_def addActivity_def refresh_fin_def refreshPrivateBalanceHandle_def begin_reveal_run_def truthy_def or_empty_def toLowerCase_def lower)
qed


theorem superseded_reveals_show_nothing_witness:
  "\<exists>e s' waiting. revealPrivateBalance (demo_provider_env\<lparr>fe_meanwhile := invalidatePrivateBalance\<rparr>) (demo_start, demo_financial) = (Inl e, s') \<and>
    snd s' = invalidatePrivateBalance waiting"
proof -
  obtain r s' where run: "revealPrivateBalance (demo_provider_env\<lparr>fe_meanwhile := invalidatePrivateBalance\<rparr>) (demo_start, demo_financial) = (r, s')"
    by (metis surj_pair)
  from superseded_reveals_show_nothing [OF this] run show ?thesis
    by (auto simp: invalidatePrivateBalance_def hide_balance_def split: if_splits)
qed

end
