(* ===== verification/Client_Identity.thy ===== *)
theory Client_Identity
  imports Client_Account Client_Reads
begin

text \<open>
  The controller of the wallet session (\<open>frontend/components/wallet-identity-provider.tsx\<close>).  Its
  handlers and effects are split at every await: a step runs to the next one and leaves what it
  waits for as a pending item, so that a run of steps is an interleaving of all of them.  React
  updates take effect at once; what the account provider and the wallet libraries show is given to
  every step anew.  The fixture of development builds is left out.
\<close>

section \<open>State\<close>

record identity_view =
  iv_clientReady :: bool
  iv_accountStatus :: AccountStatus
  iv_metadata :: FinancialWalletMetadataStatus
  iv_financialWallet :: "string option"
  iv_providerUserId :: "string option"
  iv_provider :: ProviderObservation
  iv_runtime :: WalletRuntimeObservation
  iv_revision :: int
  iv_now :: int

text \<open>What a callback captured when it was made.\<close>

record captured =
  cp_clientReady :: bool
  cp_financialWallet :: "string option"

definition capture :: "identity_view \<Rightarrow> captured" where
  "capture view = \<lparr>cp_clientReady = iv_clientReady view, cp_financialWallet = iv_financialWallet view\<rparr>"

text \<open>Why a network probe runs: for its own sake, or to grant the session with this snapshot.\<close>

datatype probe_purpose = ForHealth | ForSession WalletSessionSnapshot

datatype pending =
    AwaitConnect string int captured bool
  | AwaitRestore string int captured
  | AwaitRefresh int captured
  | AwaitProbe string captured probe_purpose
  | AwaitSwitch int captured
  | AwaitSwitchAccount int captured
  | AwaitSwitchNetwork int captured "string option"

record identity_state =
  is_control :: WalletSessionControl
  is_epoch :: int
  is_authorized :: bool
  is_attempt :: "(string \<times> int) option"
  is_bootstrapKey :: "string option"
  is_continuation :: "string option"
  is_marker :: "stored_session option"
  is_health :: "(string \<times> WalletRpcHealthState) option"
  is_inFlight :: "string option"
  is_pending :: "pending list"

definition initial_identity :: "stored_session option \<Rightarrow> identity_state" where
  "initial_identity marker = \<lparr>is_control = initialWalletSessionControl, is_epoch = 0, is_authorized = False, is_attempt = None,
     is_bootstrapKey = None, is_continuation = None, is_marker = marker, is_health = None, is_inFlight = None, is_pending = []\<rparr>"

datatype command_reason = OfSession WalletSessionReason | OfHealth WalletRpcHealthState | Because string

datatype identity_output =
    Silent
  | CommandOk WalletSessionState
  | CommandFailed WalletSessionState command_reason
  | Granted WalletSessionSnapshot
  | Refused command_reason

definition dispatch :: "WalletSessionEvent \<Rightarrow> identity_state \<Rightarrow> identity_state" where
  "dispatch ev s = s\<lparr>is_control := walletSessionReducer (is_control s) ev\<rparr>"

definition await :: "pending \<Rightarrow> identity_state \<Rightarrow> identity_state" where
  "await p s = s\<lparr>is_pending := p # is_pending s\<rparr>"

definition persistSessionMarker :: "viem \<Rightarrow> string \<Rightarrow> identity_state \<Rightarrow> identity_state" where
  "persistSessionMarker v address s = s\<lparr>is_marker := persistActiveWalletSession v (is_marker s) address\<rparr>"

definition clearSessionMarker :: "identity_state \<Rightarrow> identity_state" where
  "clearSessionMarker s = s\<lparr>is_marker := clearPersistedWalletSession (is_marker s)\<rparr>"

section \<open>The derived session\<close>

definition identity_inputs :: "identity_view \<Rightarrow> WalletSessionControl \<Rightarrow> WalletRpcHealthState \<Rightarrow> WalletSessionInputs" where
  "identity_inputs view control health =
     \<lparr>wi_initialized = (iv_clientReady view \<and> iv_accountStatus view = SIGNED_IN_READY \<and> iv_metadata view \<noteq> META_LOADING),
      wi_verifiedFinancialWallet = iv_financialWallet view, wi_control = control, wi_provider = iv_provider view,
      wi_runtime = iv_runtime view, wi_networkHealth = health\<rparr>"

definition identityKey :: "identity_view \<Rightarrow> identity_state \<Rightarrow> string" where
  "identityKey view s = walletSessionIdentityKey (identity_inputs view (is_control s) NOT_CHECKED)"

definition effectiveHealth :: "identity_view \<Rightarrow> identity_state \<Rightarrow> WalletRpcHealthState" where
  "effectiveHealth view s = (case is_health s of
     Some (key, health) \<Rightarrow> if key = identityKey view s then health
       else if is_inFlight s = Some (identityKey view s) then CHECKING else NOT_CHECKED
   | None \<Rightarrow> if is_inFlight s = Some (identityKey view s) then CHECKING else NOT_CHECKED)"

definition walletSession :: "viem \<Rightarrow> identity_view \<Rightarrow> identity_state \<Rightarrow> WalletSessionSnapshot" where
  "walletSession v view s = deriveWalletSession v (identity_inputs view (is_control s) (effectiveHealth view s))"

text \<open>The key of a probe takes only the readiness of the client, as captured.\<close>

definition probe_key :: "captured \<Rightarrow> identity_view \<Rightarrow> identity_state \<Rightarrow> string" where
  "probe_key cp view s = walletSessionIdentityKey \<lparr>wi_initialized = cp_clientReady cp, wi_verifiedFinancialWallet = cp_financialWallet cp,
     wi_control = is_control s, wi_provider = iv_provider view, wi_runtime = iv_runtime view, wi_networkHealth = NOT_CHECKED\<rparr>"

section \<open>Handlers\<close>

definition invalidateSession :: "WalletSessionReason \<Rightarrow> identity_state \<Rightarrow> identity_state" where
  "invalidateSession reason s =
     (let epoch = is_epoch s + 1
      in dispatch (Invalidate reason epoch) (clearSessionMarker s\<lparr>is_epoch := epoch, is_authorized := False, is_attempt := None,
           is_continuation := None, is_health := None, is_inFlight := None\<rparr>))"

definition current_attempt :: "string \<Rightarrow> int \<Rightarrow> identity_state \<Rightarrow> bool" where
  "current_attempt attemptId epoch s \<longleftrightarrow> is_epoch s = epoch \<and> is_attempt s = Some (attemptId, epoch)"

definition runtime_probe :: "viem \<Rightarrow> captured \<Rightarrow> identity_view \<Rightarrow> WalletSessionControl \<Rightarrow> string \<Rightarrow> int option \<Rightarrow> WalletSessionSnapshot" where
  "runtime_probe v cp view control account chainId = deriveWalletSession v
     \<lparr>wi_initialized = cp_clientReady cp, wi_verifiedFinancialWallet = cp_financialWallet cp,
      wi_control = control\<lparr>wc_intent := WI_ACTIVE, wc_status := WS_CONNECTED, wc_reason := CONNECTED\<rparr>,
      wi_provider = (iv_provider view)\<lparr>po_connected := True, po_accountKnown := True, po_activeAccount := Some account, po_chainId := chainId\<rparr>,
      wi_runtime = iv_runtime view, wi_networkHealth = NOT_CHECKED\<rparr>"

definition completeAttemptFromObservations ::
  "viem \<Rightarrow> captured \<Rightarrow> identity_view \<Rightarrow> string \<Rightarrow> int \<Rightarrow> string \<Rightarrow> int option \<Rightarrow> int \<Rightarrow> identity_state \<Rightarrow> bool \<times> identity_state" where
  "completeAttemptFromObservations v cp view attemptId epoch account chainId revision s =
     (if \<not> current_attempt attemptId epoch s then (False, s)
      else if \<not> walletsMatch v (Some account) (cp_financialWallet cp)
      then (False, dispatch (ConnectPhase attemptId WAITING_FOR_ACCOUNT_SELECTION (Some ACCOUNT_SELECTION_REQUIRED)) s)
      else if chainId \<noteq> Some LEOPOLD_CHAIN_ID
      then (True, dispatch (WrongNetwork (Some attemptId) revision (Some epoch))
        (persistSessionMarker v account s\<lparr>is_authorized := False, is_attempt := None\<rparr>))
      else let s1 = dispatch (ConnectPhase attemptId VERIFYING_RUNTIME None) s in
        if \<not> ws_runtimeAligned (runtime_probe v cp view (is_control s1) account chainId) then (False, s1)
        else (True, dispatch (Connected (Some attemptId) revision (Some epoch))
          (persistSessionMarker v account s1\<lparr>is_authorized := True, is_attempt := None\<rparr>)))"

section \<open>Connecting\<close>

datatype provider_refusal = ProviderSelection | ProviderGone | ProviderCancelled | ProviderTimedOut

datatype connect_result = ProviderConnected string "int option" int | ProviderRefused provider_refusal

fun refusal_reason :: "provider_refusal \<Rightarrow> WalletSessionReason" where
  "refusal_reason ProviderSelection = ACCOUNT_SELECTION_REQUIRED"
| "refusal_reason ProviderGone = PROVIDER_UNAVAILABLE"
| "refusal_reason ProviderCancelled = CONNECT_CANCELLED"
| "refusal_reason ProviderTimedOut = CONNECT_TIMEOUT"

definition commandFailure :: "viem \<Rightarrow> identity_view \<Rightarrow> command_reason \<Rightarrow> identity_state \<Rightarrow> identity_output \<times> identity_state" where
  "commandFailure v view reason s = (CommandFailed (ws_status (walletSession v view s)) reason, s)"

text \<open>An attempt is run for a command or, as its continuation, by the effect that observes the provider.\<close>

definition runConnectAttempt :: "bool \<Rightarrow> captured \<Rightarrow> string \<Rightarrow> int \<Rightarrow> identity_state \<Rightarrow> identity_output \<times> identity_state" where
  "runConnectAttempt continues cp attemptId epoch s = (Silent, await (AwaitConnect attemptId epoch cp continues) (dispatch (ConnectPhase attemptId SYNCING_PROVIDER None) s))"

definition connect_returned ::
  "viem \<Rightarrow> identity_view \<Rightarrow> string \<Rightarrow> int \<Rightarrow> captured \<Rightarrow> connect_result \<Rightarrow> identity_state \<Rightarrow> identity_output \<times> identity_state" where
  "connect_returned v view attemptId epoch cp result s =
     (if \<not> current_attempt attemptId epoch s then commandFailure v view (Because ''STALE_CONNECT_ATTEMPT'') s
      else case result of
        ProviderRefused refusal \<Rightarrow>
          (if refusal = ProviderSelection
           then (CommandFailed WS_CONNECTING (OfSession ACCOUNT_SELECTION_REQUIRED),
             dispatch (ConnectPhase attemptId WAITING_FOR_ACCOUNT_SELECTION (Some ACCOUNT_SELECTION_REQUIRED)) s)
           else (CommandFailed (if refusal = ProviderCancelled then WS_DISCONNECTED else WS_ERROR) (OfSession (refusal_reason refusal)),
             dispatch (ConnectFailed (refusal_reason refusal) attemptId epoch) ((clearSessionMarker s)\<lparr>is_attempt := None\<rparr>)))
      | ProviderConnected account chainId revision \<Rightarrow>
          (case completeAttemptFromObservations v cp view attemptId epoch account chainId revision
             (dispatch (ConnectPhase attemptId VERIFYING_NETWORK None) s) of
             (completed, s') \<Rightarrow>
               (if completed then CommandOk (if chainId = Some LEOPOLD_CHAIN_ID then WS_CONNECTED else WS_WRONG_NETWORK)
                else CommandFailed WS_CONNECTING (Because ''VERIFYING_RUNTIME''), s')))"

definition attempt_name :: "string \<Rightarrow> int \<Rightarrow> int \<Rightarrow> string" where
  "attempt_name origin epoch now = origin @ ''-'' @ int_to_string epoch @ ''-'' @ int_to_string now"

definition connectVerifiedWallet :: "viem \<Rightarrow> identity_view \<Rightarrow> identity_state \<Rightarrow> identity_output \<times> identity_state" where
  "connectVerifiedWallet v view s =
     (if iv_accountStatus view \<noteq> SIGNED_IN_READY then commandFailure v view (Because ''ACCOUNT_NOT_READY'') s
      else if \<not> truthy (iv_financialWallet view) then commandFailure v view (OfSession FINANCIAL_WALLET_NOT_LINKED) s
      else if wc_intent (is_control s) = WI_CONNECTING \<and> truthy (wc_connectAttemptId (is_control s))
      then runConnectAttempt False (capture view) (or_empty (wc_connectAttemptId (is_control s))) (wc_epoch (is_control s)) s
      else let epoch = is_epoch s + 1; attemptId = attempt_name ''connect'' epoch (iv_now view)
        in runConnectAttempt False (capture view) attemptId epoch
          (dispatch (ConnectStarted attemptId (iv_now view) epoch)
            (s\<lparr>is_epoch := epoch, is_authorized := False, is_attempt := Some (attemptId, epoch)\<rparr>)))"

section \<open>Network health\<close>

fun healthFromPreflight :: "FinancialNetworkHealthState \<Rightarrow> WalletRpcHealthState" where
  "healthFromPreflight NET_HEALTHY = HEALTHY"
| "healthFromPreflight NET_APP_RPC_UNAVAILABLE = APP_RPC_UNAVAILABLE"
| "healthFromPreflight NET_WALLET_RPC_UNAVAILABLE = WALLET_RPC_UNAVAILABLE"
| "healthFromPreflight _ = UNKNOWN_HEALTH"

definition grant :: "probe_purpose \<Rightarrow> WalletRpcHealthState \<Rightarrow> identity_output" where
  "grant purpose health = (case purpose of
     ForHealth \<Rightarrow> Silent
   | ForSession session \<Rightarrow> if health \<noteq> HEALTHY then Refused (OfHealth health)
       else Granted (session\<lparr>ws_networkHealth := health, ws_canUseFinancialActions := True\<rparr>))"

definition runNetworkHealthProbe ::
  "viem \<Rightarrow> captured \<Rightarrow> probe_purpose \<Rightarrow> identity_view \<Rightarrow> identity_state \<Rightarrow> identity_output \<times> identity_state" where
  "runNetworkHealthProbe v cp purpose view s =
     (let key = probe_key cp view s in
      if \<not> walletSessionRuntimeAligned v (walletSession v view s)
      then (grant purpose NOT_CHECKED, s\<lparr>is_health := Some (key, NOT_CHECKED)\<rparr>)
      else (Silent, await (AwaitProbe key cp purpose) (s\<lparr>is_inFlight := Some key\<rparr>)))"

definition probe_returned ::
  "identity_view \<Rightarrow> string \<Rightarrow> captured \<Rightarrow> probe_purpose \<Rightarrow> FinancialNetworkHealthState \<Rightarrow> identity_state \<Rightarrow> identity_output \<times> identity_state" where
  "probe_returned view key cp purpose result s =
     (let health = healthFromPreflight result
      in (grant purpose health, s\<lparr>is_health := (if probe_key cp view s = key then Some (key, health) else is_health s),
            is_inFlight := (if is_inFlight s = Some key then None else is_inFlight s)\<rparr>))"

section \<open>Requiring the session\<close>

definition requireConnectedFinancialSession :: "viem \<Rightarrow> identity_view \<Rightarrow> identity_state \<Rightarrow> identity_output \<times> identity_state" where
  "requireConnectedFinancialSession v view s =
     (let before = walletSession v view s in
      if iv_accountStatus view \<noteq> SIGNED_IN_READY \<or> iv_metadata view \<noteq> META_PRESENT \<or> \<not> is_authorized s \<or>
         wc_providerRevision (is_control s) \<noteq> Some (iv_revision view) \<or> ws_status before \<noteq> WS_CONNECTED \<or> ws_intent before \<noteq> WI_ACTIVE
      then (Refused (OfSession (ws_reason before)), s)
      else (Silent, await (AwaitRefresh (is_epoch s) (capture view)) s))"

definition refresh_returned ::
  "viem \<Rightarrow> identity_view \<Rightarrow> int \<Rightarrow> captured \<Rightarrow> (string option \<times> int option) option \<Rightarrow> identity_state \<Rightarrow> identity_output \<times> identity_state" where
  "refresh_returned v view epoch cp result s = (case result of
     None \<Rightarrow> (Refused (OfHealth WALLET_RPC_UNAVAILABLE), s)
   | Some (activeAccount, chainId) \<Rightarrow>
       if is_epoch s \<noteq> epoch then (Refused (Because ''STALE_SESSION''), s)
       else if \<not> truthy activeAccount then (Refused (OfSession PROVIDER_DISCONNECTED), invalidateSession PROVIDER_DISCONNECTED s)
       else if \<not> walletsMatch v activeAccount (cp_financialWallet cp)
       then (Refused (OfSession ACCOUNT_CHANGED), invalidateSession ACCOUNT_CHANGED s)
       else if chainId \<noteq> Some LEOPOLD_CHAIN_ID
       then (Refused (OfSession WRONG_NETWORK), dispatch (WrongNetwork None (iv_revision view) (Some (is_epoch s + 1)))
         (s\<lparr>is_epoch := is_epoch s + 1, is_authorized := False\<rparr>))
       else if \<not> walletsMatch v (ro_wagmiAccount (iv_runtime view)) activeAccount then (Refused (OfSession WAGMI_ACCOUNT_MISMATCH), s)
       else if \<not> walletsMatch v (ro_walletClientAccount (iv_runtime view)) activeAccount
       then (Refused (OfSession WALLETCLIENT_ACCOUNT_MISMATCH), s)
       else runNetworkHealthProbe v cp (ForSession (walletSession v view s)) view s)"

section \<open>Switching the network\<close>

definition switchToSepolia :: "viem \<Rightarrow> identity_view \<Rightarrow> identity_state \<Rightarrow> identity_output \<times> identity_state" where
  "switchToSepolia v view s =
     (let before = walletSession v view s in
      if ws_status before \<noteq> WS_WRONG_NETWORK \<or> ws_intent before \<noteq> WI_ACTIVE
      then commandFailure v view (Because ''NETWORK_SWITCH_NOT_REQUIRED'') s
      else let epoch = is_epoch s + 1 in (Silent, await (AwaitSwitch epoch (capture view)) (s\<lparr>is_epoch := epoch\<rparr>)))"

definition switch_returned ::
  "viem \<Rightarrow> identity_view \<Rightarrow> int \<Rightarrow> captured \<Rightarrow> identity_state \<Rightarrow> identity_output \<times> identity_state" where
  "switch_returned v view epoch cp s =
     (if is_epoch s \<noteq> epoch then commandFailure v view (Because ''STALE_NETWORK_SWITCH'') s
      else (Silent, await (AwaitSwitchAccount epoch cp) s))"

definition switch_finished ::
  "viem \<Rightarrow> identity_view \<Rightarrow> int \<Rightarrow> captured \<Rightarrow> string option \<Rightarrow> int option \<Rightarrow> identity_state \<Rightarrow> identity_output \<times> identity_state" where
  "switch_finished v view epoch cp account chainId s =
     (if \<not> truthy account \<or> \<not> walletsMatch v account (cp_financialWallet cp)
      then let reason = (if truthy account then ACCOUNT_CHANGED else PROVIDER_DISCONNECTED)
        in commandFailure v view (OfSession reason) (invalidateSession reason s)
      else if chainId \<noteq> Some LEOPOLD_CHAIN_ID then commandFailure v view (OfSession WRONG_NETWORK) s
      else (CommandOk WS_CONNECTED, dispatch (Connected None (iv_revision view) (Some epoch))
        ((persistSessionMarker v (or_empty account) s)\<lparr>is_authorized := True\<rparr>)))"

section \<open>Effects\<close>

definition or_text :: "string \<Rightarrow> string option \<Rightarrow> string" where
  "or_text d x = (case x of None \<Rightarrow> d | Some t \<Rightarrow> t)"

fun account_text :: "AccountStatus \<Rightarrow> string" where
  "account_text AUTH_LOADING = ''AUTH_LOADING''"
| "account_text SIGNED_OUT = ''SIGNED_OUT''"
| "account_text SIGNED_IN_PROFILE_INCOMPLETE = ''SIGNED_IN_PROFILE_INCOMPLETE''"
| "account_text SIGNED_IN_READY = ''SIGNED_IN_READY''"

fun metadata_text :: "FinancialWalletMetadataStatus \<Rightarrow> string" where
  "metadata_text META_LOADING = ''LOADING''"
| "metadata_text META_UNAVAILABLE = ''UNAVAILABLE''"
| "metadata_text META_NONE = ''NONE''"
| "metadata_text META_PRESENT = ''PRESENT''"
| "metadata_text META_ERROR = ''ERROR''"

definition bootstrap_key :: "identity_view \<Rightarrow> string" where
  "bootstrap_key view = account_text (iv_accountStatus view) @ '':'' @ or_text ''anonymous'' (iv_providerUserId view) @ '':'' @
     metadata_text (iv_metadata view) @ '':'' @ or_text ''unlinked'' (iv_financialWallet view)"

text \<open>The session starts over whenever the account, its metadata or its wallet is another one.\<close>

definition bootstrap :: "viem \<Rightarrow> identity_view \<Rightarrow> identity_state \<Rightarrow> identity_state" where
  "bootstrap v view s =
     (if \<not> iv_clientReady view \<or> iv_accountStatus view = AUTH_LOADING \<or> iv_metadata view = META_LOADING then s
      else if is_bootstrapKey s = Some (bootstrap_key view) then s
      else let epoch = is_epoch s + 1;
               s1 = s\<lparr>is_bootstrapKey := Some (bootstrap_key view), is_epoch := epoch, is_authorized := False\<rparr> in
        if iv_accountStatus view = SIGNED_IN_PROFILE_INCOMPLETE then dispatch (Invalidate NO_ACTIVE_SESSION epoch) s1
        else if iv_accountStatus view = SIGNED_OUT then dispatch (Invalidate NO_ACTIVE_SESSION epoch) (clearSessionMarker s1)
        else if iv_metadata view \<noteq> META_PRESENT \<or> \<not> truthy (iv_financialWallet view)
        then dispatch (Invalidate (if iv_metadata view = META_NONE then FINANCIAL_WALLET_NOT_LINKED else NO_ACTIVE_SESSION) epoch) (clearSessionMarker s1)
        else if \<not> walletsMatch v (readPersistedWalletSession v (is_marker s)) (iv_financialWallet view)
        then dispatch (Invalidate NO_ACTIVE_SESSION epoch) (clearSessionMarker s1)
        else let attemptId = attempt_name ''restore'' epoch (iv_now view) in
          await (AwaitRestore attemptId epoch (capture view))
            (dispatch (RestoreStarted attemptId (iv_now view) epoch) (s1\<lparr>is_attempt := Some (attemptId, epoch)\<rparr>)))"

definition restore_returned ::
  "viem \<Rightarrow> identity_view \<Rightarrow> string \<Rightarrow> int \<Rightarrow> captured \<Rightarrow> (string option \<times> int option) option \<Rightarrow> identity_state \<Rightarrow> identity_state" where
  "restore_returned v view attemptId epoch cp result s =
     (if is_epoch s \<noteq> epoch then s
      else case result of
        None \<Rightarrow> invalidateSession PROVIDER_TIMEOUT s
      | Some (account, chainId) \<Rightarrow>
          if \<not> truthy account \<or> \<not> walletsMatch v account (cp_financialWallet cp)
          then invalidateSession (if truthy account then SESSION_RESTORE_INVALID else PROVIDER_DISCONNECTED) s
          else snd (completeAttemptFromObservations v cp view attemptId epoch (or_empty account) chainId (iv_revision view) s))"

text \<open>The timer of the present attempt.\<close>

definition attempt_timeout :: "identity_state \<Rightarrow> identity_state" where
  "attempt_timeout s =
     (let control = is_control s; attemptId = wc_connectAttemptId control in
      if wc_intent control \<noteq> WI_CONNECTING \<or> \<not> truthy attemptId \<or> wc_connectStartedAt control = None then s
      else if map_option fst (is_attempt s) \<noteq> attemptId then s
      else let epoch = is_epoch s + 1; s1 = (clearSessionMarker s)\<lparr>is_epoch := epoch, is_attempt := None\<rparr> in
        if wc_connectOrigin control = Some RESTORE then dispatch (Invalidate SESSION_RESTORE_INVALID epoch) s1
        else dispatch (ConnectFailed CONNECT_TIMEOUT (or_empty attemptId) epoch) s1)"

text \<open>What the provider shows, held against an active session or a waiting attempt.\<close>

definition observe_active :: "viem \<Rightarrow> identity_view \<Rightarrow> identity_state \<Rightarrow> identity_state" where
  "observe_active v view s =
     (let control = is_control s; provider = iv_provider view in
      if wc_providerRevision control \<noteq> Some (po_revision provider) then invalidateSession ACCOUNT_CHANGED s
      else if \<not> truthy (po_activeAccount provider) then invalidateSession PROVIDER_DISCONNECTED s
      else if \<not> walletsMatch v (po_activeAccount provider) (iv_financialWallet view) then invalidateSession ACCOUNT_CHANGED s
      else if po_chainId provider \<noteq> Some LEOPOLD_CHAIN_ID \<and> wc_status control \<noteq> WS_WRONG_NETWORK
      then dispatch (WrongNetwork None (po_revision provider) (Some (is_epoch s + 1))) (s\<lparr>is_epoch := is_epoch s + 1, is_authorized := False\<rparr>)
      else if po_chainId provider = Some LEOPOLD_CHAIN_ID \<and> wc_status control = WS_WRONG_NETWORK \<and> ws_runtimeAligned (walletSession v view s)
      then dispatch (Connected None (po_revision provider) (Some (is_epoch s + 1))) (s\<lparr>is_epoch := is_epoch s + 1, is_authorized := True\<rparr>)
      else s)"

definition observe :: "viem \<Rightarrow> identity_view \<Rightarrow> identity_state \<Rightarrow> identity_state" where
  "observe v view s =
     (let control = is_control s in
      if \<not> truthy (iv_financialWallet view) \<or> \<not> po_accountKnown (iv_provider view) then s
      else if wc_intent control = WI_ACTIVE then observe_active v view s
      else if wc_intent control = WI_CONNECTING \<and> truthy (wc_connectAttemptId control) \<and>
        wc_connectPhase control = Some WAITING_FOR_ACCOUNT_SELECTION \<and>
        walletsMatch v (po_activeAccount (iv_provider view)) (iv_financialWallet view) \<and> is_continuation s \<noteq> wc_connectAttemptId control
      then snd (runConnectAttempt True (capture view) (or_empty (wc_connectAttemptId control)) (wc_epoch control)
        (s\<lparr>is_continuation := wc_connectAttemptId control\<rparr>))
      else s)"

definition runtime_ready :: "viem \<Rightarrow> identity_view \<Rightarrow> identity_state \<Rightarrow> identity_state" where
  "runtime_ready v view s =
     (let control = is_control s in
      if wc_intent control \<noteq> WI_CONNECTING \<or> wc_connectPhase control \<noteq> Some VERIFYING_RUNTIME \<or> \<not> truthy (wc_connectAttemptId control) \<or>
        \<not> truthy (iv_financialWallet view) \<or> \<not> truthy (po_activeAccount (iv_provider view)) then s
      else snd (completeAttemptFromObservations v (capture view) view (or_empty (wc_connectAttemptId control)) (wc_epoch control)
        (or_empty (po_activeAccount (iv_provider view))) (po_chainId (iv_provider view)) (po_revision (iv_provider view)) s))"

definition health_effect :: "viem \<Rightarrow> identity_view \<Rightarrow> identity_state \<Rightarrow> identity_state" where
  "health_effect v view s =
     (let session = walletSession v view s in
      if iv_accountStatus view \<noteq> SIGNED_IN_READY \<or> ws_status session \<noteq> WS_CONNECTED \<or> \<not> ws_runtimeAligned session then s
      else if map_option fst (is_health s) = Some (identityKey view s) \<or> is_inFlight s = Some (identityKey view s) then s
      else snd (runNetworkHealthProbe v (capture view) ForHealth view s))"

section \<open>Steps\<close>

datatype reply =
    ConnectReply connect_result
  | WalletReply "(string option \<times> int option) option"
  | HealthReply FinancialNetworkHealthState
  | SwitchReply "(string, unit) result"
  | AccountReply "(string, string option) result"
  | NetworkReply "(string, int option) result"

datatype identity_event =
    EvConnect | EvDisconnect | EvRequire | EvSwitch | EvRetryHealth
  | EvBootstrap | EvTimeout | EvObserve | EvRuntime | EvHealth
  | EvResume pending reply

text \<open>
  A pending item goes on with its reply; a reply of another kind is none.  A continuation of a
  waiting attempt also clears the mark that it runs.
\<close>

fun resume :: "viem \<Rightarrow> identity_view \<Rightarrow> pending \<Rightarrow> reply \<Rightarrow> identity_state \<Rightarrow> identity_output \<times> identity_state" where
  "resume v view (AwaitConnect attemptId epoch cp continues) (ConnectReply result) s =
     (case connect_returned v view attemptId epoch cp result s of
       (out, s') \<Rightarrow> (out, if continues then s'\<lparr>is_continuation := None\<rparr> else s'))"
| "resume v view (AwaitRestore attemptId epoch cp) (WalletReply result) s = (Silent, restore_returned v view attemptId epoch cp result s)"
| "resume v view (AwaitRefresh epoch cp) (WalletReply result) s = refresh_returned v view epoch cp result s"
| "resume v view (AwaitProbe key cp purpose) (HealthReply result) s = probe_returned view key cp purpose result s"
| "resume v view (AwaitSwitch epoch cp) (SwitchReply (Inr _)) s = switch_returned v view epoch cp s"
| "resume v view (AwaitSwitch epoch cp) (SwitchReply (Inl message)) s = commandFailure v view (Because message) s"
| "resume v view (AwaitSwitchAccount epoch cp) (AccountReply (Inr account)) s = (Silent, await (AwaitSwitchNetwork epoch cp account) s)"
| "resume v view (AwaitSwitchAccount epoch cp) (AccountReply (Inl message)) s = commandFailure v view (Because message) s"
| "resume v view (AwaitSwitchNetwork epoch cp account) (NetworkReply (Inr chainId)) s = switch_finished v view epoch cp account chainId s"
| "resume v view (AwaitSwitchNetwork epoch cp account) (NetworkReply (Inl message)) s = commandFailure v view (Because message) s"
| "resume v view p r s = (Silent, await p s)"

fun identity_step :: "viem \<Rightarrow> identity_view \<Rightarrow> identity_event \<Rightarrow> identity_state \<Rightarrow> identity_output \<times> identity_state" where
  "identity_step v view EvConnect s = connectVerifiedWallet v view s"
| "identity_step v view EvDisconnect s = (Silent, invalidateSession USER_DISCONNECTED s)"
| "identity_step v view EvRequire s = requireConnectedFinancialSession v view s"
| "identity_step v view EvSwitch s = switchToSepolia v view s"
| "identity_step v view EvRetryHealth s = runNetworkHealthProbe v (capture view) ForHealth view s"
| "identity_step v view EvBootstrap s = (Silent, bootstrap v view s)"
| "identity_step v view EvTimeout s = (Silent, attempt_timeout s)"
| "identity_step v view EvObserve s = (Silent, observe v view s)"
| "identity_step v view EvRuntime s = (Silent, runtime_ready v view s)"
| "identity_step v view EvHealth s = (Silent, health_effect v view s)"
| "identity_step v view (EvResume p r) s =
     (if p \<in> set (is_pending s) then resume v view p r (s\<lparr>is_pending := remove1 p (is_pending s)\<rparr>) else (Silent, s))"

text \<open>A run of the controller, with what each step was given and what it returned.\<close>

type_synonym identity_label = "identity_view \<times> identity_event \<times> identity_output"

inductive identity_run :: "viem \<Rightarrow> stored_session option \<Rightarrow> identity_label list \<Rightarrow> identity_state \<Rightarrow> bool" for v marker where
  begins: "identity_run v marker [] (initial_identity marker)"
| goes_on: "identity_run v marker labels s \<Longrightarrow> identity_step v view ev s = (out, s') \<Longrightarrow>
    identity_run v marker (labels @ [(view, ev, out)]) s'"

end
