(* ===== verification/Client_Wallet_Account.thy ===== *)
theory Client_Wallet_Account
  imports Client_Identity
begin

text \<open>
  How \<open>components/auth-provider.tsx\<close> follows the account and the network of the wallet provider.
  Reads of the provider are split at their await; the events of the provider come in between.  The
  revision of the account is what an active session is bound to (\<open>Client_Identity\<close>).
\<close>

section \<open>State\<close>

record provider_state =
  pv_account :: "string option"
  pv_known :: bool
  pv_revision :: int
  pv_readRevision :: int
  pv_networkReadRevision :: int
  pv_network :: "int option"
  pv_reads :: "int list"
  pv_networkReads :: "int list"

definition initial_provider :: provider_state where
  "initial_provider = \<lparr>pv_account = None, pv_known = False, pv_revision = 0, pv_readRevision = 0, pv_networkReadRevision = 0,
     pv_network = None, pv_reads = [], pv_networkReads = []\<rparr>"

definition commitProviderAccount :: "viem \<Rightarrow> string option \<Rightarrow> provider_state \<Rightarrow> provider_state" where
  "commitProviderAccount v next s =
     (let previous = pv_account s;
          changed = (pv_known s \<and> (if previous = None then next \<noteq> None else next = None \<or> \<not> walletsMatch v previous next))
      in s\<lparr>pv_revision := (if changed then pv_revision s + 1 else pv_revision s), pv_account := next, pv_known := True\<rparr>)"

section \<open>Reads\<close>

text \<open>A read of the account: without an external wallet it ends at once.\<close>

definition readProviderAccount :: "viem \<Rightarrow> bool \<Rightarrow> provider_state \<Rightarrow> provider_state" where
  "readProviderAccount v wallet s =
     (let revision = pv_readRevision s + 1; s1 = s\<lparr>pv_readRevision := revision\<rparr> in
      if \<not> wallet then commitProviderAccount v None s1 else s1\<lparr>pv_reads := revision # pv_reads s1\<rparr>)"

text \<open>Its end: the accounts the provider returned, or nothing when it failed or timed out.\<close>

definition account_read ::
  "viem \<Rightarrow> int \<Rightarrow> string list option \<Rightarrow> provider_state \<Rightarrow> string option \<times> provider_state" where
  "account_read v revision accounts s =
     (let next = (case accounts of None \<Rightarrow> None | Some l \<Rightarrow> normalizeWalletAddress v (case l of [] \<Rightarrow> None | a # _ \<Rightarrow> Some a))
      in (next, if revision \<noteq> pv_readRevision s then s else commitProviderAccount v next s))"

definition refreshActiveNetwork :: "bool \<Rightarrow> provider_state \<Rightarrow> provider_state" where
  "refreshActiveNetwork wallet s =
     (let revision = pv_networkReadRevision s + 1; s1 = s\<lparr>pv_networkReadRevision := revision\<rparr> in
      if \<not> wallet then s1\<lparr>pv_network := None\<rparr> else s1\<lparr>pv_networkReads := revision # pv_networkReads s1\<rparr>)"

definition network_read :: "int \<Rightarrow> rpc_json option \<Rightarrow> provider_state \<Rightarrow> provider_state" where
  "network_read revision network s = (case network of
     None \<Rightarrow> s
   | Some value \<Rightarrow> if revision \<noteq> pv_networkReadRevision s then s else s\<lparr>pv_network := normalizeNetworkChainId value\<rparr>)"

section \<open>Events of the provider\<close>

definition onAccountChange :: "viem \<Rightarrow> string list \<Rightarrow> provider_state \<Rightarrow> provider_state" where
  "onAccountChange v accounts s = commitProviderAccount v (normalizeWalletAddress v (case accounts of [] \<Rightarrow> None | a # _ \<Rightarrow> Some a))
     (s\<lparr>pv_readRevision := pv_readRevision s + 1\<rparr>)"

definition onDisconnect :: "viem \<Rightarrow> provider_state \<Rightarrow> provider_state" where
  "onDisconnect v s = commitProviderAccount v None (s\<lparr>pv_readRevision := pv_readRevision s + 1\<rparr>)"

definition onChainChange :: "rpc_json \<Rightarrow> provider_state \<Rightarrow> provider_state" where
  "onChainChange network s = s\<lparr>pv_network := normalizeNetworkChainId network\<rparr>"

text \<open>What \<open>reconnectExistingWallet\<close> reports goes to the same account.\<close>

datatype provider_event =
    BeginRead bool
  | EndRead int "string list option"
  | BeginNetworkRead bool
  | EndNetworkRead int "rpc_json option"
  | AccountChange "string list"
  | ProviderDisconnect
  | ChainChange rpc_json
  | Reported "string option"

fun provider_step :: "viem \<Rightarrow> provider_event \<Rightarrow> provider_state \<Rightarrow> provider_state" where
  "provider_step v (BeginRead wallet) s = readProviderAccount v wallet s"
| "provider_step v (EndRead revision accounts) s =
     (if revision \<in> set (pv_reads s)
      then snd (account_read v revision accounts (s\<lparr>pv_reads := remove1 revision (pv_reads s)\<rparr>)) else s)"
| "provider_step v (BeginNetworkRead wallet) s = refreshActiveNetwork wallet s"
| "provider_step v (EndNetworkRead revision network) s =
     (if revision \<in> set (pv_networkReads s)
      then network_read revision network (s\<lparr>pv_networkReads := remove1 revision (pv_networkReads s)\<rparr>) else s)"
| "provider_step v (AccountChange accounts) s = onAccountChange v accounts s"
| "provider_step v ProviderDisconnect s = onDisconnect v s"
| "provider_step v (ChainChange network) s = onChainChange network s"
| "provider_step v (Reported a) s = commitProviderAccount v (normalizeWalletAddress v a) s"

definition provider_run :: "viem \<Rightarrow> provider_event list \<Rightarrow> provider_state \<Rightarrow> provider_state" where
  "provider_run v events s = fold (provider_step v) events s"

section \<open>What the provider is shown to be\<close>

definition provider_observation :: "bool \<Rightarrow> provider_state \<Rightarrow> ProviderObservation" where
  "provider_observation available s = \<lparr>po_revision = pv_revision s, po_available = available,
     po_connected = (pv_known s \<and> truthy (pv_account s)), po_accountKnown = pv_known s, po_activeAccount = pv_account s,
     po_chainId = pv_network s\<rparr>"

definition connectedWallet :: "provider_state \<Rightarrow> string option" where
  "connectedWallet s = (if pv_known s then pv_account s else None)"

section \<open>Connecting the verified wallet\<close>

text \<open>
  The result of \<open>connectVerifiedWallet\<close>: the wallet given is the linked wallet with the verified address
  when this device has one, and the revision is the one read after the account was refreshed.  The accounts it reports, the network
  it sets and the refresh at its end are the events \<open>Reported\<close>, \<open>ChainChange\<close> and \<open>BeginRead\<close> above.
\<close>

definition cancel_patterns :: "pattern_item list list" where
  "cancel_patterns = map lit [''4001'', ''reject'', ''cancel'']"

definition failed_connection :: "client_error \<Rightarrow> provider_refusal" where
  "failed_connection e = (let detail = (case e of ClientTimeout reason \<Rightarrow> '' '' @ reason | ClientThrown d \<Rightarrow> d) in
     if matches cancel_patterns detail then ProviderCancelled
     else if matches [lit ''timeout''] detail then ProviderTimedOut
     else ProviderGone)"

definition connect_wallet ::
  "viem \<Rightarrow> 'w ExistingWalletConnection \<Rightarrow> string \<Rightarrow> bool \<Rightarrow> ('w, unit) provider_call \<Rightarrow> ('w, rpc_json) provider_call
     \<Rightarrow> ('w, (provider_refusal, string \<times> int option) result) client_op" where
  "connect_wallet v wallet financialWallet isPrimary switchWallet getNetwork =
     bind_eff (reconnectExistingWallet v wallet financialWallet isPrimary switchWallet) (\<lambda>recovery.
     if \<not> er_connected recovery
     then ret (Inl (if er_reason recovery = SELECTION_REQUIRED then ProviderSelection else ProviderGone))
     else bind_eff (withWalletSessionTimeout getNetwork WALLET_SESSION_TIMEOUT_MS ''PROVIDER_NETWORK_TIMEOUT'') (\<lambda>network.
       ret (Inr (or_empty (er_activeAddress recovery), normalizeNetworkChainId network))))"

definition connect_linked_wallet ::
  "viem \<Rightarrow> 'w ExistingWalletConnection option \<Rightarrow> string option \<Rightarrow> bool \<Rightarrow> ('w, unit) provider_call \<Rightarrow> ('w, rpc_json) provider_call
     \<Rightarrow> ('w, (provider_refusal, string \<times> int option) result) client_op" where
  "connect_linked_wallet v wallet financialWallet isPrimary switchWallet getNetwork =
     (if \<not> truthy financialWallet then ret (Inl ProviderGone)
      else case wallet of
        None \<Rightarrow> ret (Inl ProviderGone)
      | Some w \<Rightarrow> connect_wallet v w (or_empty financialWallet) isPrimary switchWallet getNetwork)"

definition connection_result ::
  "(client_error, (provider_refusal, string \<times> int option) result) result \<Rightarrow> int \<Rightarrow> connect_result" where
  "connection_result outcome revision = (case outcome of
     Inl e \<Rightarrow> ProviderRefused (failed_connection e)
   | Inr (Inl refusal) \<Rightarrow> ProviderRefused refusal
   | Inr (Inr (account, chainId)) \<Rightarrow> ProviderConnected account chainId revision)"

section \<open>The revision names the account\<close>

definition checksummed :: "viem \<Rightarrow> string option \<Rightarrow> bool" where
  "checksummed v a \<longleftrightarrow> (a = None \<or> (\<exists>x. normalizeWalletAddress v x = a))"

lemma checksummed_normalize [simp]: "checksummed v None" "checksummed v (normalizeWalletAddress v x)"
  by (auto simp: checksummed_def)

lemma checksummed_self:
  assumes "viem_ok v" and "checksummed v (Some a)"
  shows "a = vm_getAddress v (toLowerCase a)"
proof -
  from assms(2) obtain x where "vm_isAddress v x" "a = vm_getAddress v (toLowerCase x)"
    by (auto simp: checksummed_def normalize_Some)
  moreover from this assms(1) have "toLowerCase a = toLowerCase x" by (simp add: viem_ok_def)
  ultimately show ?thesis by simp
qed

lemma checksummed_match:
  assumes "viem_ok v" and "checksummed v (Some a)" and "checksummed v (Some b)" and "walletsMatch v (Some a) (Some b)"
  shows "a = b"
proof -
  from assms(1,4) have "toLowerCase a = toLowerCase b" by (simp add: walletsMatch_iff)
  then have "vm_getAddress v (toLowerCase a) = vm_getAddress v (toLowerCase b)" by (rule arg_cong)
  from trans [OF checksummed_self [OF assms(1,2)] trans [OF this checksummed_self [OF assms(1,3), symmetric]]] show ?thesis .
qed

text \<open>How every step may move: the account changes only together with the revision, once it is known.\<close>

definition pinned :: "provider_state \<Rightarrow> provider_state \<Rightarrow> bool" where
  "pinned s s' \<longleftrightarrow> pv_revision s \<le> pv_revision s' \<and> (pv_known s \<longrightarrow> pv_known s') \<and>
     (pv_known s \<and> pv_revision s' = pv_revision s \<longrightarrow> pv_account s' = pv_account s)"

lemma pinned_refl: "pv_revision s' = pv_revision s \<Longrightarrow> pv_known s' = pv_known s \<Longrightarrow> pv_account s' = pv_account s \<Longrightarrow> pinned s s'"
  by (simp add: pinned_def)

lemma pinned_trans: "pinned s s' \<Longrightarrow> pinned s' s'' \<Longrightarrow> pinned s s''"
  by (auto simp: pinned_def)

lemma pinned_commit:
  assumes "viem_ok v" and "checksummed v (pv_account s)" and "checksummed v next"
  shows "pinned s (commitProviderAccount v next s)"
  using assms checksummed_match [OF assms(1)]
  by (cases "pv_account s"; cases "next") (auto simp: pinned_def commitProviderAccount_def Let_def)

lemma committed_fields [simp]: "pv_account (commitProviderAccount v next s) = next" "pv_known (commitProviderAccount v next s)"
  by (simp_all add: commitProviderAccount_def Let_def)

lemma step_pinned:
  assumes "viem_ok v" and "checksummed v (pv_account s)"
  shows "pinned s (provider_step v ev s) \<and> checksummed v (pv_account (provider_step v ev s))"
proof -
  have commit: "pinned s (commitProviderAccount v next s1)"
    if "checksummed v next" "pv_account s1 = pv_account s" "pv_known s1 = pv_known s" "pv_revision s1 = pv_revision s" for "next" s1
    by (rule pinned_trans [of s s1], rule pinned_refl) (simp_all add: that assms pinned_commit)
  note same = pinned_refl [of _ s]
  show ?thesis
  proof (cases ev)
    case (BeginRead wallet)
    show ?thesis by (simp add: BeginRead readProviderAccount_def Let_def commit same assms)
  next
    case (EndRead revision accounts)
    show ?thesis by (simp add: EndRead account_read_def Let_def commit same assms split: option.split)
  next
    case (BeginNetworkRead wallet)
    show ?thesis by (simp add: BeginNetworkRead refreshActiveNetwork_def Let_def same assms)
  next
    case (EndNetworkRead revision network)
    show ?thesis by (simp add: EndNetworkRead network_read_def same assms split: option.split)
  next
    case (AccountChange accounts)
    show ?thesis by (simp add: AccountChange onAccountChange_def commit)
  next
    case ProviderDisconnect
    show ?thesis by (simp add: ProviderDisconnect onDisconnect_def commit)
  next
    case (ChainChange network)
    show ?thesis by (simp add: ChainChange onChainChange_def same assms)
  next
    case (Reported a)
    show ?thesis by (simp add: Reported commit)
  qed
qed

lemma run_pinned:
  assumes "viem_ok v" and "checksummed v (pv_account s)"
  shows "pinned s (provider_run v events s) \<and> checksummed v (pv_account (provider_run v events s))"
  using assms(2)
proof (induction events arbitrary: s)
  case (Cons ev events)
  from step_pinned [OF assms(1) Cons.prems, of ev] Cons.IH [of "provider_step v ev s"] show ?case
    by (auto simp: provider_run_def intro: pinned_trans)
qed (simp add: provider_run_def pinned_refl)

lemma run_append: "provider_run v (a @ b) s = provider_run v b (provider_run v a s)"
  by (simp add: provider_run_def)

lemma initial_checksummed: "viem_ok v \<Longrightarrow> checksummed v (pv_account (provider_run v events initial_provider))"
  using run_pinned [of v initial_provider events] by (simp add: initial_provider_def)

text \<open>
  C26. An accepted session is still that of its account: when the session was bound to the revision of
  the account at one moment and a later request for it is not refused, then the provider has shown
  the same account at every moment in between, whatever reads and events there were.
\<close>

theorem accepted_session_kept_its_account:
  assumes "viem_ok v" and "p = provider_run v before initial_provider" and "pv_known p"
    and "wc_providerRevision (is_control s) = Some (pv_revision p)"
    and "iv_revision view = pv_revision (provider_run v (between @ rest) p)"
    and "fst (requireConnectedFinancialSession v view s) = Silent"
  shows "pv_account (provider_run v between p) = pv_account p \<and> connectedWallet (provider_run v between p) = pv_account p"
proof -
  from assms(6) have "wc_providerRevision (is_control s) = Some (iv_revision view)"
    by (auto simp: requireConnectedFinancialSession_def Let_def split: if_splits)
  with assms(4,5) have same: "pv_revision (provider_run v rest (provider_run v between p)) = pv_revision p" by (simp add: run_append)
  have check: "checksummed v (pv_account p)" using initial_checksummed [OF assms(1)] assms(2) by simp
  have one: "pinned p (provider_run v between p)" "checksummed v (pv_account (provider_run v between p))"
    using run_pinned [OF assms(1) check] by simp_all
  with run_pinned [OF assms(1) one(2), of rest] same assms(3) show ?thesis
    by (auto simp: pinned_def connectedWallet_def)
qed

text \<open>Events after which an account is not looked at anew.\<close>

fun looks_away :: "provider_event \<Rightarrow> bool" where
  "looks_away (EndRead revision accounts) = True"
| "looks_away (BeginNetworkRead wallet) = True"
| "looks_away (EndNetworkRead revision network) = True"
| "looks_away (ChainChange network) = True"
| "looks_away _ = False"

definition reads_started :: "provider_state \<Rightarrow> bool" where
  "reads_started s \<longleftrightarrow> (\<forall>r \<in> set (pv_reads s). r \<le> pv_readRevision s)"

lemma committed_reads [simp]: "pv_reads (commitProviderAccount v next s) = pv_reads s"
  "pv_readRevision (commitProviderAccount v next s) = pv_readRevision s"
  by (simp_all add: commitProviderAccount_def Let_def)

lemma reads_started_step: "reads_started s \<Longrightarrow> reads_started (provider_step v ev s)"
  by (cases ev) (auto simp: reads_started_def readProviderAccount_def account_read_def refreshActiveNetwork_def network_read_def
      onAccountChange_def onDisconnect_def onChainChange_def Let_def dest: set_remove1_subset [THEN subsetD] split: option.split)

lemma reads_started_run: "reads_started (provider_run v events initial_provider)"
proof -
  have "reads_started s \<Longrightarrow> reads_started (provider_run v events s)" for s
    by (induction events arbitrary: s) (simp_all add: provider_run_def reads_started_step)
  then show ?thesis by (simp add: reads_started_def initial_provider_def)
qed

lemma stale_reads:
  assumes "\<forall>r \<in> set (pv_reads s). r < pv_readRevision s" and "looks_away ev"
  shows "pv_account (provider_step v ev s) = pv_account s \<and> pv_revision (provider_step v ev s) = pv_revision s \<and>
    (\<forall>r \<in> set (pv_reads (provider_step v ev s)). r < pv_readRevision (provider_step v ev s))"
  using assms
  by (cases ev) (auto simp: account_read_def refreshActiveNetwork_def network_read_def onChainChange_def Let_def
      dest: set_remove1_subset [THEN subsetD] split: option.split)

lemma stale_run:
  "\<forall>r \<in> set (pv_reads s). r < pv_readRevision s \<Longrightarrow> \<forall>e \<in> set later. looks_away e \<Longrightarrow>
    pv_account (provider_run v later s) = pv_account s \<and> pv_revision (provider_run v later s) = pv_revision s"
proof (induction later arbitrary: s)
  case (Cons e later)
  from stale_reads [OF Cons.prems(1), of e v] Cons.prems(2) Cons.IH [of "provider_step v e s"] show ?case by (simp add: provider_run_def)
qed (simp add: provider_run_def)

text \<open>
  C27. What the wallet announced is not overwritten by an older read: after it told of an account or of a
  disconnection, the answers of all reads that were under way, in any order and with any content,
  leave account and revision as they are.
\<close>

theorem announced_account_survives_late_reads:
  assumes "s = provider_run v events initial_provider" and "ev = AccountChange accounts \<or> ev = ProviderDisconnect"
    and "\<forall>e \<in> set later. looks_away e"
  shows "pv_account (provider_run v later (provider_step v ev s)) = pv_account (provider_step v ev s) \<and>
    pv_revision (provider_run v later (provider_step v ev s)) = pv_revision (provider_step v ev s)"
proof -
  have "\<forall>r \<in> set (pv_reads (provider_step v ev s)). r < pv_readRevision (provider_step v ev s)"
    using reads_started_run [of v events] assms(1,2) by (auto simp: reads_started_def onAccountChange_def onDisconnect_def)
  from stale_run [OF this assms(3)] show ?thesis .
qed

text \<open>
  A connection is only reported for the verified wallet: what \<open>connectVerifiedWallet\<close> returns as
  connected is that wallet, with the network the wallet named.
\<close>

lemma connection_is_verified:
  assumes "viem_ok v" and "vm_isAddress v verified"
    and "connection_result (fst (connect_linked_wallet v wallet (Some verified) isPrimary switchWallet getNetwork world)) revision =
      ProviderConnected account chainId r"
  shows "names_wallet v verified (Some account) \<and> r = revision"
proof -
  have "truthy (Some verified)" using assms(1,2) by (auto simp: truthy_def viem_ok_def)
  with assms(3) obtain w world' where run: "connect_wallet v w verified isPrimary switchWallet getNetwork world = (Inr (Inr (account, chainId)), world')"
      and r: "r = revision"
    by (cases "connect_linked_wallet v wallet (Some verified) isPrimary switchWallet getNetwork world")
      (auto simp: connection_result_def connect_linked_wallet_def or_empty_def ret_def split: sum.splits prod.splits option.splits)
  from run obtain recovery world1 where "reconnectExistingWallet v w verified isPrimary switchWallet world = (Inr recovery, world1)"
      "er_connected recovery" "account = or_empty (er_activeAddress recovery)"
    by (auto simp: connect_wallet_def bind_eff_Inr split: if_splits)
  moreover from reconnect_only_verified_wallet [OF assms(1,2) this(1)] this(2) have "names_wallet v verified (er_activeAddress recovery)" by blast
  ultimately show ?thesis using r by (auto simp: names_wallet_def or_empty_def)
qed

text \<open>The properties on a wallet that stays and one that changes.\<close>

theorem announced_account_survives_late_reads_witness:
  "pv_account (provider_run demo_viem [BeginRead True, AccountChange [demo_address], EndRead 1 (Some [''0x'' @ replicate 40 (CHR ''b'')])] initial_provider)
    = normalizeWalletAddress demo_viem (Some demo_address)"
  using announced_account_survives_late_reads [OF refl, of "AccountChange [demo_address]" "[demo_address]"
      "[EndRead 1 (Some [''0x'' @ replicate 40 (CHR ''b'')])]" demo_viem "[BeginRead True]"]
  by (simp add: provider_run_def onAccountChange_def)

definition kept_session :: identity_state where
  "kept_session = (initial_identity None)\<lparr>is_control := activated WS_CONNECTED CONNECTED 0 (Some 1) initialWalletSessionControl, is_authorized := True\<rparr>"

definition kept_view :: identity_view where
  "kept_view = \<lparr>iv_clientReady = True, iv_accountStatus = SIGNED_IN_READY, iv_metadata = META_PRESENT,
     iv_financialWallet = Some demo_address, iv_providerUserId = Some ''user'',
     iv_provider = (provider_observation True (provider_run demo_viem [AccountChange [demo_address]] initial_provider))\<lparr>po_chainId := Some LEOPOLD_CHAIN_ID\<rparr>,
     iv_runtime = \<lparr>ro_dynamicPrimaryWallet = Some demo_address, ro_dynamicLinkedWallets = [],
       ro_dynamicWalletObject = Some \<lparr>dw_id = ''w'', dw_address = demo_address\<rparr>, ro_wagmiAccount = Some demo_address,
       ro_walletClientAccount = Some demo_address, ro_walletClientId = None, ro_walletClientChainId = Some LEOPOLD_CHAIN_ID\<rparr>,
     iv_revision = 0, iv_now = 0\<rparr>"

theorem accepted_session_kept_its_account_witness:
  "pv_account (provider_run demo_viem [BeginRead True] (provider_run demo_viem [AccountChange [demo_address]] initial_provider)) =
    normalizeWalletAddress demo_viem (Some demo_address)"
proof -
  let ?p = "provider_run demo_viem [AccountChange [demo_address]] initial_provider"
  have n: "normalizeWalletAddress demo_viem (Some demo_address) = Some demo_address"
    by (simp add: normalizeWalletAddress_def) (simp add: demo_viem_def demo_address_def, simp add: toLowerCase_def lower_char_def)
  have p: "pv_account ?p = Some demo_address" "pv_known ?p" "pv_revision ?p = 0"
    by (simp_all add: provider_run_def onAccountChange_def n) (simp add: commitProviderAccount_def initial_provider_def)
  have later: "pv_revision (provider_run demo_viem ([BeginRead True] @ []) ?p) = 0"
    using p(3) by (simp add: provider_run_def readProviderAccount_def Let_def)
  have matches: "walletsMatch demo_viem (Some demo_address) (Some demo_address)" "truthy (Some demo_address)"
    by (simp_all add: walletsMatch_def n truthy_def) (simp_all add: demo_address_def)
  have "fst (requireConnectedFinancialSession demo_viem kept_view kept_session) = Silent"
    using p matches n
    by (simp add: requireConnectedFinancialSession_def kept_view_def kept_session_def walletSession_def deriveWalletSession_def session_status_def
        identity_inputs_def provider_observation_def activated_def runtimeAlignment_def normalizeDescriptor_def initial_identity_def Let_def split_beta)
  then show ?thesis
    using accepted_session_kept_its_account [OF demo_viem_ok refl p(2), of kept_session kept_view "[BeginRead True]" "[]"] p later n
    by (simp add: kept_session_def kept_view_def activated_def)
qed

end
