(* ===== verification/Client_Identity_Safety.thy ===== *)
theory Client_Identity_Safety
  imports Client_Identity
begin

text \<open>
  What holds in every interleaving of the session controller's steps: the session is authorised
  exactly while it is connected, a grant was preceded by its checks, and a disconnected session
  stays so, but for one race of the network switch.
\<close>

section \<open>The invariant of the controller\<close>

definition identity_inv :: "identity_state \<Rightarrow> bool" where
  "identity_inv s \<longleftrightarrow> session_inv (is_control s) \<and> (is_authorized s \<longleftrightarrow> wc_status (is_control s) = WS_CONNECTED) \<and>
     (\<forall>a e. is_attempt s = Some (a, e) \<longrightarrow> e \<le> is_epoch s \<and> (e = is_epoch s \<longrightarrow> wc_connectAttemptId (is_control s) = Some a))"

named_theorems identity_defs \<open>the handlers of the session controller\<close>

lemmas control_shapes = started_def activated_def deactivated_def isCurrentAttempt_def

lemma session_inv_dispatch: "session_inv (is_control s) \<Longrightarrow> session_inv (is_control (dispatch ev s))"
  by (simp add: dispatch_def session_inv_step)

lemma connecting_not_connected:
  "session_inv c \<Longrightarrow> wc_connectAttemptId c = Some a \<Longrightarrow> wc_intent c = WI_CONNECTING \<and> wc_status c = WS_CONNECTING"
  by (auto simp: session_inv_def split: WalletSessionIntent.splits)

lemma inv_await [simp]: "identity_inv (await p s) \<longleftrightarrow> identity_inv s"
  by (simp add: identity_inv_def await_def)

lemma inv_fields [simp]: "identity_inv (s\<lparr>is_pending := ps\<rparr>) \<longleftrightarrow> identity_inv s" "identity_inv (s\<lparr>is_continuation := c\<rparr>) \<longleftrightarrow> identity_inv s"
  "identity_inv (s\<lparr>is_health := h\<rparr>) \<longleftrightarrow> identity_inv s" "identity_inv (s\<lparr>is_inFlight := i\<rparr>) \<longleftrightarrow> identity_inv s"
  "identity_inv (s\<lparr>is_health := h, is_inFlight := i\<rparr>) \<longleftrightarrow> identity_inv s"
  by (simp_all add: identity_inv_def)

lemma inv_phase: "identity_inv s \<Longrightarrow> identity_inv (dispatch (ConnectPhase a phase reason) s)"
  by (auto simp: identity_inv_def dispatch_def session_inv_def split: WalletSessionIntent.splits if_splits)

text \<open>Attempts of an older epoch are no longer considered.\<close>

definition outdated :: "identity_state \<Rightarrow> bool" where
  "outdated s \<longleftrightarrow> (\<forall>a e. is_attempt s = Some (a, e) \<longrightarrow> e < is_epoch s)"

lemma inv_outdated: "identity_inv s \<Longrightarrow> is_epoch s < is_epoch s' \<Longrightarrow> is_attempt s' = is_attempt s \<Longrightarrow> outdated s'"
  by (fastforce simp: identity_inv_def outdated_def)

lemma inv_activated:
  assumes "outdated s" and "isCurrentAttempt (is_control s) a"
  shows "is_authorized s \<Longrightarrow> identity_inv (dispatch (Connected a revision epoch) s)"
    "\<not> is_authorized s \<Longrightarrow> identity_inv (dispatch (WrongNetwork a revision epoch) s)"
  using assms by (auto simp: identity_inv_def dispatch_def outdated_def session_inv_def activated_def)

lemma inv_deactivated:
  assumes "outdated s" and "\<not> is_authorized s"
  shows "identity_inv (dispatch (Invalidate reason epoch) s)"
    "wc_connectAttemptId (is_control s) = Some a \<Longrightarrow> identity_inv (dispatch (ConnectFailed reason a epoch) s)"
  using assms by (auto simp: identity_inv_def dispatch_def outdated_def session_inv_def deactivated_def)

lemma inv_invalidate: "identity_inv (invalidateSession reason s)"
  unfolding invalidateSession_def Let_def by (rule inv_deactivated) (simp_all add: outdated_def)

lemma inv_initial: "identity_inv (initial_identity marker)"
  by (simp add: identity_inv_def initial_identity_def session_inv_initial) (simp add: initialWalletSessionControl_def)

lemma current_attempt_pending:
  "identity_inv s \<Longrightarrow> current_attempt a e s \<Longrightarrow> wc_connectAttemptId (is_control s) = Some a \<and> \<not> is_authorized s"
  by (auto simp: identity_inv_def current_attempt_def dest: connecting_not_connected)

lemma attempt_kept: "wc_connectAttemptId (is_control (dispatch (ConnectPhase a phase reason) s)) = wc_connectAttemptId (is_control s)"
  by (simp add: dispatch_def)

lemma inv_complete:
  assumes "identity_inv s"
  shows "identity_inv (snd (completeAttemptFromObservations v cp view a e account chainId revision s))"
proof (cases "current_attempt a e s")
  case True
  then have "isCurrentAttempt (is_control s) (Some a)" "isCurrentAttempt (is_control (dispatch (ConnectPhase a VERIFYING_RUNTIME None) s)) (Some a)"
    using current_attempt_pending [OF assms] attempt_kept by (auto simp: isCurrentAttempt_def)
  then show ?thesis
    using assms
    by (auto simp: completeAttemptFromObservations_def Let_def outdated_def persistSessionMarker_def intro!: inv_activated inv_phase)
qed (simp add: completeAttemptFromObservations_def assms)

lemma inv_start:
  assumes "identity_inv s" and "epoch = is_epoch s + 1"
  shows "identity_inv (dispatch (ConnectStarted a now epoch) (s\<lparr>is_epoch := epoch, is_authorized := False, is_attempt := Some (a, epoch)\<rparr>))"
    "identity_inv (dispatch (RestoreStarted a now epoch) (s\<lparr>is_bootstrapKey := k, is_epoch := epoch, is_authorized := False, is_attempt := Some (a, epoch)\<rparr>))"
  by (auto simp: identity_inv_def dispatch_def session_inv_def control_shapes)

lemma inv_connect:
  assumes "identity_inv s"
  shows "identity_inv (snd (connectVerifiedWallet v view s))"
  using inv_start(1) [OF assms refl] assms
  by (auto simp: connectVerifiedWallet_def runConnectAttempt_def commandFailure_def Let_def intro!: inv_phase)

lemma inv_connect_returned:
  assumes "identity_inv s"
  shows "identity_inv (snd (connect_returned v view a e cp result s))"
proof (cases "current_attempt a e s")
  case True
  show ?thesis
  proof (cases result)
    case (ProviderConnected account chainId revision)
    with True inv_complete [OF inv_phase [OF assms]] show ?thesis
      by (auto simp: connect_returned_def split: prod.splits) (metis snd_conv)+
  next
    case (ProviderRefused refusal)
    with True current_attempt_pending [OF assms True] assms show ?thesis
      by (auto simp: connect_returned_def outdated_def clearSessionMarker_def intro!: inv_deactivated inv_phase)
  qed
qed (simp add: connect_returned_def commandFailure_def assms)

lemma inv_probe: "identity_inv s \<Longrightarrow> identity_inv (snd (runNetworkHealthProbe v cp purpose view s))"
  "identity_inv s \<Longrightarrow> identity_inv (snd (probe_returned view key cp purpose result s))"
  by (auto simp: runNetworkHealthProbe_def probe_returned_def Let_def)

lemma inv_next_epoch: "identity_inv s \<Longrightarrow> outdated (s\<lparr>is_epoch := is_epoch s + 1, is_authorized := b\<rparr>)"
  by (fastforce simp: identity_inv_def outdated_def)

lemma inv_refresh_returned: "identity_inv s \<Longrightarrow> identity_inv (snd (refresh_returned v view e cp result s))"
  by (auto simp: refresh_returned_def isCurrentAttempt_def inv_invalidate intro!: inv_probe inv_activated inv_next_epoch split: option.split)

lemma inv_bootstrap:
  assumes "identity_inv s"
  shows "identity_inv (bootstrap v view s)"
proof -
  have "outdated (s\<lparr>is_bootstrapKey := k, is_epoch := is_epoch s + 1, is_authorized := False\<rparr>)" for k
    using assms by (fastforce simp: identity_inv_def outdated_def)
  then show ?thesis
    using assms inv_start(2) [OF assms refl]
    by (auto simp: bootstrap_def Let_def clearSessionMarker_def outdated_def intro!: inv_deactivated)
qed

lemma inv_restore: "identity_inv s \<Longrightarrow> identity_inv (restore_returned v view a e cp result s)"
  by (auto simp: restore_returned_def inv_invalidate inv_complete split: option.split)

lemma inv_timeout:
  assumes "identity_inv s"
  shows "identity_inv (attempt_timeout s)"
proof (cases "wc_connectAttemptId (is_control s)")
  case (Some attemptId)
  let ?s1 = "(clearSessionMarker s)\<lparr>is_epoch := is_epoch s + 1, is_attempt := None\<rparr>"
  have "\<not> is_authorized s"
    using assms connecting_not_connected [OF _ Some] by (auto simp: identity_inv_def)
  then have "outdated ?s1" "\<not> is_authorized ?s1" by (simp_all add: outdated_def clearSessionMarker_def)
  from inv_deactivated [OF this] Some show ?thesis
    by (simp add: attempt_timeout_def Let_def or_empty_def assms clearSessionMarker_def)
qed (simp add: attempt_timeout_def Let_def truthy_def assms)

lemma inv_observe: "identity_inv s \<Longrightarrow> identity_inv (observe v view s)"
  by (auto simp: observe_def observe_active_def runConnectAttempt_def Let_def isCurrentAttempt_def inv_invalidate
      intro!: inv_activated inv_next_epoch inv_phase)

lemma inv_switch:
  assumes "identity_inv s"
  shows "identity_inv (snd (switchToSepolia v view s))"
proof -
  have "identity_inv (s\<lparr>is_epoch := is_epoch s + 1\<rparr>)" using assms by (fastforce simp: identity_inv_def)
  then show ?thesis by (simp add: switchToSepolia_def commandFailure_def Let_def assms)
qed

section \<open>Switches that were not overtaken\<close>

fun switch_epoch :: "pending \<Rightarrow> int option" where
  "switch_epoch (AwaitSwitch e cp) = Some e"
| "switch_epoch (AwaitSwitchAccount e cp) = Some e"
| "switch_epoch (AwaitSwitchNetwork e cp account) = Some e"
| "switch_epoch _ = None"

definition switches :: "identity_state \<Rightarrow> int set" where
  "switches s = {e. \<exists>p \<in> set (is_pending s). switch_epoch p = Some e}"

lemma switches_await [simp]: "switches (await p s) = switches s \<union> {e. switch_epoch p = Some e}"
  by (auto simp: switches_def await_def)

text \<open>No pending switch shares its epoch with the attempt.\<close>

definition apart :: "identity_state \<Rightarrow> bool" where
  "apart s \<longleftrightarrow> (\<forall>e \<in> switches s. e \<le> is_epoch s \<and> (\<forall>a. is_attempt s \<noteq> Some (a, e)))"

text \<open>How a handler may move on: the epoch grows, and a new attempt or switch gets a new epoch.\<close>

definition moves_on :: "identity_state \<Rightarrow> identity_state \<Rightarrow> bool" where
  "moves_on s s' \<longleftrightarrow> is_epoch s \<le> is_epoch s' \<and>
     (is_attempt s' = None \<or> is_attempt s' = is_attempt s \<or> (\<exists>a. is_attempt s' = Some (a, is_epoch s') \<and> is_epoch s < is_epoch s')) \<and>
     (\<forall>e \<in> switches s' - switches s. e = is_epoch s' \<and> is_epoch s < e \<and> is_attempt s' = is_attempt s)"

lemma apart_moves:
  assumes "apart s" and "identity_inv s" and "moves_on s s'"
  shows "apart s'"
  unfolding apart_def
proof (rule ballI)
  fix e
  assume e: "e \<in> switches s'"
  have old: "is_attempt s = Some (a, e') \<Longrightarrow> e' \<le> is_epoch s" for a e' using assms(2) by (simp add: identity_inv_def)
  have mono: "is_epoch s \<le> is_epoch s'"
    and att: "is_attempt s' = None \<or> is_attempt s' = is_attempt s \<or> (\<exists>a. is_attempt s' = Some (a, is_epoch s') \<and> is_epoch s < is_epoch s')"
    using assms(3) unfolding moves_on_def by blast+
  show "e \<le> is_epoch s' \<and> (\<forall>a. is_attempt s' \<noteq> Some (a, e))"
  proof (cases "e \<in> switches s")
    case True
    then have e: "e \<le> is_epoch s" "\<forall>a. is_attempt s \<noteq> Some (a, e)" using assms(1) unfolding apart_def by blast+
    from att have "\<forall>a. is_attempt s' \<noteq> Some (a, e)"
    proof (elim disjE exE conjE)
      fix a assume "is_attempt s' = Some (a, is_epoch s')" "is_epoch s < is_epoch s'"
      with e(1) show ?thesis by simp
    qed (use e(2) in simp_all)
    with e(1) mono show ?thesis by simp
  next
    case False
    with e have "e = is_epoch s'" "is_epoch s < e" "is_attempt s' = is_attempt s" using assms(3) unfolding moves_on_def by blast+
    with old show ?thesis by (metis linorder_not_less order_refl)
  qed
qed

lemma moved_fields [simp]:
  "is_epoch (dispatch ev s) = is_epoch s" "is_attempt (dispatch ev s) = is_attempt s" "is_pending (dispatch ev s) = is_pending s"
  "is_epoch (persistSessionMarker v a s) = is_epoch s" "is_attempt (persistSessionMarker v a s) = is_attempt s"
  "is_pending (persistSessionMarker v a s) = is_pending s" "is_epoch (clearSessionMarker s) = is_epoch s"
  "is_attempt (clearSessionMarker s) = is_attempt s" "is_pending (clearSessionMarker s) = is_pending s"
  "is_epoch (await p s) = is_epoch s" "is_attempt (await p s) = is_attempt s" "is_pending (await p s) = p # is_pending s"
  by (simp_all add: dispatch_def persistSessionMarker_def clearSessionMarker_def await_def)

lemma moves_same: "is_epoch s' = is_epoch s \<Longrightarrow> is_attempt s' \<in> {None, is_attempt s} \<Longrightarrow> is_pending s' = is_pending s \<Longrightarrow> moves_on s s'"
  by (auto simp: moves_on_def switches_def)

lemma moves_from: "moves_on s1 s' \<Longrightarrow> is_epoch s1 = is_epoch s \<Longrightarrow> is_attempt s1 = is_attempt s \<Longrightarrow> is_pending s1 = is_pending s \<Longrightarrow> moves_on s s'"
  by (auto simp: moves_on_def switches_def)

lemma moves_invalidate: "moves_on s (invalidateSession reason s)"
  by (simp add: moves_on_def invalidateSession_def Let_def switches_def)

lemma moves_complete: "moves_on s (snd (completeAttemptFromObservations v cp view a e account chainId revision s))"
  by (rule moves_same) (auto simp: completeAttemptFromObservations_def Let_def)

lemma moves_connect: "moves_on s (snd (connectVerifiedWallet v view s))"
  by (simp add: connectVerifiedWallet_def runConnectAttempt_def commandFailure_def Let_def) (auto simp: moves_on_def switches_def)

lemma moves_connect_returned: "moves_on s (snd (connect_returned v view a e cp result s))"
proof (cases result)
  case (ProviderConnected account chainId revision)
  have "moves_on s (snd (completeAttemptFromObservations v cp view a e account chainId revision (dispatch (ConnectPhase a VERIFYING_NETWORK None) s)))"
    by (rule moves_from [OF moves_complete]) simp_all
  then show ?thesis
    by (simp add: ProviderConnected connect_returned_def commandFailure_def moves_same split: prod.split) (metis snd_conv)
next
  case (ProviderRefused refusal)
  show ?thesis by (rule moves_same) (auto simp: ProviderRefused connect_returned_def commandFailure_def)
qed

lemma moves_probe: "moves_on s (snd (runNetworkHealthProbe v cp purpose view s))" "moves_on s (snd (probe_returned view key cp purpose result s))"
  by (simp_all add: runNetworkHealthProbe_def probe_returned_def Let_def) (auto simp: moves_on_def switches_def)

lemma moves_next: "moves_on s (dispatch ev (s\<lparr>is_epoch := is_epoch s + 1, is_authorized := b\<rparr>))"
  by (auto simp: moves_on_def switches_def)

lemma moves_refresh: "moves_on s (snd (refresh_returned v view e cp result s))"
  by (auto simp: refresh_returned_def moves_probe(1) moves_invalidate moves_same split: option.split intro!: moves_next)

lemma moves_bootstrap: "moves_on s (bootstrap v view s)"
  by (simp add: bootstrap_def Let_def moves_same) (auto simp: moves_on_def switches_def)

lemma moves_effects: "moves_on s (restore_returned v view a e cp result s)" "moves_on s (attempt_timeout s)"
  "moves_on s (observe v view s)" "moves_on s (runtime_ready v view s)" "moves_on s (health_effect v view s)"
proof -
  show "moves_on s (restore_returned v view a e cp result s)"
    by (simp add: restore_returned_def moves_invalidate moves_complete moves_same split: option.split)
  show "moves_on s (attempt_timeout s)"
    by (auto simp: attempt_timeout_def Let_def moves_on_def switches_def split: option.split WalletSessionIntent.split)
  have "moves_on s (await (AwaitConnect a e cp True) (dispatch ev (s\<lparr>is_continuation := c\<rparr>)))" for a e cp ev c
    by (auto simp: moves_on_def switches_def)
  then show "moves_on s (observe v view s)"
    by (simp add: observe_def observe_active_def runConnectAttempt_def Let_def moves_invalidate moves_next moves_same)
  show "moves_on s (runtime_ready v view s)"
    by (simp add: runtime_ready_def Let_def moves_complete moves_same)
  show "moves_on s (health_effect v view s)"
    by (simp add: health_effect_def Let_def moves_probe(1) moves_same)
qed

lemma moves_require: "moves_on s (snd (requireConnectedFinancialSession v view s))" "moves_on s (snd (switchToSepolia v view s))"
  by (simp_all add: requireConnectedFinancialSession_def switchToSepolia_def commandFailure_def Let_def moves_same)
    (auto simp: moves_on_def switches_def)

section \<open>Runs of the controller\<close>

text \<open>A run in which no other epoch began between the start of a network switch and its end.\<close>

fun orderly :: "identity_event \<Rightarrow> identity_state \<Rightarrow> bool" where
  "orderly (EvResume (AwaitSwitchNetwork e cp account) r) s = (is_epoch s = e)"
| "orderly _ s = True"

inductive orderly_run :: "viem \<Rightarrow> stored_session option \<Rightarrow> identity_label list \<Rightarrow> identity_state \<Rightarrow> bool" for v marker where
  begins: "orderly_run v marker [] (initial_identity marker)"
| goes_on: "orderly_run v marker labels s \<Longrightarrow> identity_step v view ev s = (out, s') \<Longrightarrow> orderly ev s \<Longrightarrow>
    orderly_run v marker (labels @ [(view, ev, out)]) s'"

lemma orderly_is_run: "orderly_run v marker labels s \<Longrightarrow> identity_run v marker labels s"
  by (induction rule: orderly_run.induct) (auto intro: identity_run.intros)

lemma switch_finished_inv:
  assumes "identity_inv s" and "is_epoch s = e" and "\<forall>a. is_attempt s \<noteq> Some (a, e)"
  shows "identity_inv (snd (switch_finished v view e cp account chainId s))" "moves_on s (snd (switch_finished v view e cp account chainId s))"
proof -
  have "outdated s" using assms by (fastforce simp: identity_inv_def outdated_def)
  then have "identity_inv (dispatch (Connected None r ep) ((persistSessionMarker v a s)\<lparr>is_authorized := True\<rparr>))" for r ep a
    by (intro inv_activated) (simp_all add: outdated_def isCurrentAttempt_def)
  then show "identity_inv (snd (switch_finished v view e cp account chainId s))"
    by (simp add: switch_finished_def commandFailure_def Let_def inv_invalidate assms(1))
  show "moves_on s (snd (switch_finished v view e cp account chainId s))"
    by (simp add: switch_finished_def commandFailure_def Let_def moves_invalidate moves_same)
qed

lemma moves_refl [simp]: "moves_on s s"
  by (rule moves_same) simp_all

lemma moves_await [simp]: "switch_epoch p = None \<Longrightarrow> moves_on s (await p s)"
  by (simp add: moves_on_def)

lemma inv_require: "identity_inv s \<Longrightarrow> identity_inv (snd (requireConnectedFinancialSession v view s))"
  by (simp add: requireConnectedFinancialSession_def Let_def)

lemma inv_runtime: "identity_inv s \<Longrightarrow> identity_inv (runtime_ready v view s) \<and> identity_inv (health_effect v view s)"
  by (simp add: runtime_ready_def health_effect_def Let_def inv_complete inv_probe)

lemma inv_remaining:
  "identity_inv s \<Longrightarrow> \<forall>p r. ev \<noteq> EvResume p r \<Longrightarrow> identity_inv (snd (identity_step v view ev s)) \<and> moves_on s (snd (identity_step v view ev s))"
  by (cases ev) (simp_all add: inv_connect inv_invalidate inv_switch inv_probe inv_bootstrap inv_timeout inv_observe inv_require inv_runtime
      moves_connect moves_invalidate moves_require moves_probe moves_effects moves_bootstrap)

lemma apart_continuation [simp]: "apart (s\<lparr>is_continuation := c\<rparr>) = apart s"
  by (simp add: apart_def switches_def)

lemma apart_remove: "apart s \<Longrightarrow> apart (s\<lparr>is_pending := remove1 p (is_pending s)\<rparr>)"
  by (auto simp: apart_def switches_def dest!: notin_set_remove1 [THEN contrapos_pp] dest: set_remove1_subset [THEN subsetD])

lemma resume_switches:
  "resume v view (AwaitSwitch e cp) (SwitchReply x) s =
     (case x of Inl message \<Rightarrow> commandFailure v view (Because message) s | Inr _ \<Rightarrow> switch_returned v view e cp s)"
  "resume v view (AwaitSwitchAccount e cp) (AccountReply y) s =
     (case y of Inl message \<Rightarrow> commandFailure v view (Because message) s | Inr account \<Rightarrow> (Silent, await (AwaitSwitchNetwork e cp account) s))"
  "resume v view (AwaitSwitchNetwork e cp account) (NetworkReply z) s =
     (case z of Inl message \<Rightarrow> commandFailure v view (Because message) s | Inr chainId \<Rightarrow> switch_finished v view e cp account chainId s)"
  by (cases x, simp_all, cases y, simp_all, cases z, simp_all)

lemma inv_resume:
  assumes "identity_inv s" and "apart s" and "p \<in> set (is_pending s)" and "orderly (EvResume p r) s"
  defines "s0 \<equiv> s\<lparr>is_pending := remove1 p (is_pending s)\<rparr>"
  shows "identity_inv (snd (resume v view p r s0)) \<and> apart (snd (resume v view p r s0))"
proof -
  have inv: "identity_inv s0" and apart: "apart s0"
    using assms(1,2) apart_remove by (simp_all add: s0_def)
  have same: "is_epoch s0 = is_epoch s" "is_attempt s0 = is_attempt s" by (simp_all add: s0_def)
  have own: "switch_epoch p = Some e \<Longrightarrow> e \<le> is_epoch s0 \<and> (\<forall>a. is_attempt s0 \<noteq> Some (a, e))" for e
    using assms(2,3) unfolding same by (auto simp: apart_def switches_def)
  have again: "apart (await q s0)" if "\<And>e. switch_epoch q = Some e \<Longrightarrow> switch_epoch p = Some e" for q
    using apart own that by (auto simp: apart_def)
  have moved: "moves_on s0 s' \<Longrightarrow> apart s'" for s' by (rule apart_moves [OF apart inv])
  show ?thesis
  proof (cases p)
    case (AwaitConnect a e cp continues)
    have k: "identity_inv (snd (connect_returned v view a e cp result s0)) \<and> apart (snd (connect_returned v view a e cp result s0))" for result
      using inv_connect_returned [OF inv] moved [OF moves_connect_returned] by blast
    show ?thesis
    proof (cases r)
      case (ConnectReply result)
      obtain out s1 where "connect_returned v view a e cp result s0 = (out, s1)" by (cases "connect_returned v view a e cp result s0")
      with k [of result] show ?thesis by (simp add: AwaitConnect ConnectReply)
    qed (use again [of p] AwaitConnect inv in simp_all)
  next
    case (AwaitRestore a e cp)
    with again [of p] show ?thesis by (cases r) (simp_all add: inv inv_restore moved [OF moves_effects(1)])
  next
    case (AwaitRefresh e cp)
    with again [of p] show ?thesis by (cases r) (simp_all add: inv inv_refresh_returned moved [OF moves_refresh])
  next
    case (AwaitProbe key cp purpose)
    with again [of p] show ?thesis by (cases r) (simp_all add: inv inv_probe moved [OF moves_probe(2)])
  next
    case (AwaitSwitch e cp)
    with again [of p] again [of "AwaitSwitchAccount e cp"] show ?thesis
      by (cases r) (auto simp: resume_switches inv apart switch_returned_def commandFailure_def split: sum.split)
  next
    case (AwaitSwitchAccount e cp)
    with again [of p] again [of "AwaitSwitchNetwork e cp account" for account] show ?thesis
      by (cases r) (auto simp: resume_switches inv apart commandFailure_def split: sum.split)
  next
    case (AwaitSwitchNetwork e cp account)
    with assms(4) own have "is_epoch s0 = e" "\<forall>a. is_attempt s0 \<noteq> Some (a, e)" by (simp_all add: same)
    from switch_finished_inv [OF inv this] AwaitSwitchNetwork again [of p] show ?thesis
      by (cases r) (auto simp: resume_switches inv apart commandFailure_def moved split: sum.split)
  qed
qed

lemma inv_step:
  assumes "identity_inv s" and "apart s" and "orderly ev s"
  shows "identity_inv (snd (identity_step v view ev s)) \<and> apart (snd (identity_step v view ev s))"
proof (cases "\<exists>p r. ev = EvResume p r")
  case True
  then show ?thesis using inv_resume [OF assms(1,2)] assms by auto
next
  case False
  with inv_remaining [OF assms(1), of ev v view] apart_moves [OF assms(2,1)] show ?thesis by blast
qed

lemma inv_run: "orderly_run v marker labels s \<Longrightarrow> identity_inv s \<and> apart s"
proof (induction rule: orderly_run.induct)
  case begins
  show ?case by (simp add: inv_initial) (simp add: apart_def switches_def initial_identity_def)
next
  case (goes_on labels s view ev out s')
  then show ?case using inv_step [of s ev v view] by (metis snd_conv)
qed

text \<open>
  C22. In every interleaving of handlers, effects and replies in which a network switch was not
  overtaken, the session is authorised exactly while it is connected; then it is active, and no
  attempt is pending.
\<close>

theorem authorised_exactly_while_connected:
  assumes "orderly_run v marker labels s"
  shows "(is_authorized s \<longleftrightarrow> wc_status (is_control s) = WS_CONNECTED) \<and> session_inv (is_control s) \<and>
    (is_authorized s \<longrightarrow> wc_intent (is_control s) = WI_ACTIVE \<and> wc_connectAttemptId (is_control s) = None \<and>
      (\<forall>a. is_attempt s \<noteq> Some (a, is_epoch s)))"
proof -
  from inv_run [OF assms] have inv: "identity_inv s" by simp
  then show ?thesis by (auto simp: identity_inv_def session_inv_def split: WalletSessionIntent.splits)
qed

section \<open>Grants\<close>

text \<open>The items that lead to a grant, and the handlers that make none of them.\<close>

fun leads_to_grant :: "pending \<Rightarrow> bool" where
  "leads_to_grant (AwaitRefresh e cp) = True"
| "leads_to_grant (AwaitProbe key cp (ForSession session)) = True"
| "leads_to_grant _ = False"

definition adds_none :: "identity_state \<Rightarrow> identity_state \<Rightarrow> bool" where
  "adds_none s s' \<longleftrightarrow> (\<forall>p \<in> set (is_pending s'). leads_to_grant p \<longrightarrow> p \<in> set (is_pending s))"

lemma adds_same: "is_pending s' = is_pending s \<Longrightarrow> adds_none s s'"
  by (simp add: adds_none_def)

lemma adds_await: "\<not> leads_to_grant p \<Longrightarrow> adds_none s (await p s)"
  by (auto simp: adds_none_def)

lemma invalidate_pending [simp]: "is_pending (invalidateSession reason s) = is_pending s"
  by (simp add: invalidateSession_def Let_def)

lemma complete_pending [simp]: "is_pending (snd (completeAttemptFromObservations v cp view a e account chainId revision s)) = is_pending s"
  by (simp add: completeAttemptFromObservations_def Let_def)

lemma connect_pending: "is_pending (snd (connect_returned v view a e cp result s)) = is_pending s"
proof (cases result)
  case (ProviderConnected account chainId revision)
  obtain b s1 where c: "completeAttemptFromObservations v cp view a e account chainId revision (dispatch (ConnectPhase a VERIFYING_NETWORK None) s) = (b, s1)"
    by (cases "completeAttemptFromObservations v cp view a e account chainId revision (dispatch (ConnectPhase a VERIFYING_NETWORK None) s)")
  with complete_pending [of v cp view a e account chainId revision "dispatch (ConnectPhase a VERIFYING_NETWORK None) s"]
  have "is_pending s1 = is_pending s" by simp
  with c show ?thesis by (simp add: ProviderConnected connect_returned_def commandFailure_def)
qed (simp add: connect_returned_def commandFailure_def)

lemma adds_handlers: "adds_none s (snd (connectVerifiedWallet v view s))" "adds_none s (snd (switchToSepolia v view s))"
  "adds_none s (bootstrap v view s)" "adds_none s (restore_returned v view a e cp result s)" "adds_none s (attempt_timeout s)"
  "adds_none s (observe v view s)" "adds_none s (runtime_ready v view s)" "adds_none s (health_effect v view s)"
  "adds_none s (snd (runNetworkHealthProbe v cp ForHealth view s))" "adds_none s (snd (probe_returned view key cp purpose reply s))"
  "adds_none s (snd (switch_returned v view e cp s))" "adds_none s (snd (switch_finished v view e cp account chainId s))"
  by (auto simp: adds_none_def connectVerifiedWallet_def runConnectAttempt_def commandFailure_def switchToSepolia_def bootstrap_def
      restore_returned_def attempt_timeout_def observe_def observe_active_def runtime_ready_def health_effect_def runNetworkHealthProbe_def
      probe_returned_def switch_returned_def switch_finished_def Let_def split: option.splits WalletSessionIntent.splits if_splits)

text \<open>What a required session satisfied when it was asked for, and the account that was read again.\<close>

definition required :: "viem \<Rightarrow> identity_view \<Rightarrow> identity_state \<Rightarrow> bool" where
  "required v view s \<longleftrightarrow> iv_accountStatus view = SIGNED_IN_READY \<and> iv_metadata view = META_PRESENT \<and> is_authorized s \<and>
     wc_providerRevision (is_control s) = Some (iv_revision view) \<and> ws_status (walletSession v view s) = WS_CONNECTED \<and>
     ws_intent (walletSession v view s) = WI_ACTIVE"

definition rechecked :: "viem \<Rightarrow> captured \<Rightarrow> identity_view \<Rightarrow> string option \<Rightarrow> identity_state \<Rightarrow> bool" where
  "rechecked v cp view account s \<longleftrightarrow> walletsMatch v account (cp_financialWallet cp) \<and>
     walletsMatch v (ro_wagmiAccount (iv_runtime view)) account \<and> walletsMatch v (ro_walletClientAccount (iv_runtime view)) account \<and>
     walletSessionRuntimeAligned v (walletSession v view s)"

fun new_item :: "viem \<Rightarrow> identity_view \<Rightarrow> identity_event \<Rightarrow> identity_state \<Rightarrow> pending \<Rightarrow> bool" where
  "new_item v view ev s (AwaitRefresh e cp) = (ev = EvRequire \<and> required v view s \<and> e = is_epoch s \<and> cp = capture view)"
| "new_item v view ev s (AwaitProbe key cp (ForSession session)) = (\<exists>account.
     ev = EvResume (AwaitRefresh (is_epoch s) cp) (WalletReply (Some (account, Some LEOPOLD_CHAIN_ID))) \<and>
     AwaitRefresh (is_epoch s) cp \<in> set (is_pending s) \<and> rechecked v cp view account s \<and> session = walletSession v view s)"
| "new_item v view ev s _ = True"

lemma key_pending [simp]: "identityKey view (s\<lparr>is_pending := ps\<rparr>) = identityKey view s"
  by (simp add: identityKey_def)

lemma health_pending [simp]: "effectiveHealth view (s\<lparr>is_pending := ps\<rparr>) = effectiveHealth view s"
  by (simp add: effectiveHealth_def cong: if_cong split: option.split)

lemma session_pending [simp]: "walletSession v view (s\<lparr>is_pending := ps\<rparr>) = walletSession v view s"
  by (simp add: walletSession_def)

lemma new_refresh:
  assumes "p \<in> set (is_pending (snd (refresh_returned v view e cp result s0)))" and "leads_to_grant p"
    and "s0 = s\<lparr>is_pending := remove1 (AwaitRefresh e cp) (is_pending s)\<rparr>" and "AwaitRefresh e cp \<in> set (is_pending s)"
  shows "p \<in> set (is_pending s) \<or> new_item v view (EvResume (AwaitRefresh e cp) (WalletReply result)) s p"
  using assms
  by (auto simp: refresh_returned_def runNetworkHealthProbe_def rechecked_def Let_def dest: set_remove1_subset [THEN subsetD]
      split: option.splits if_splits)

lemma new_items:
  assumes "p \<in> set (is_pending (snd (identity_step v view ev s)))" and "leads_to_grant p"
  shows "p \<in> set (is_pending s) \<or> new_item v view ev s p"
proof (cases "\<exists>q r. ev = EvResume q r")
  case True
  then obtain q r where ev: "ev = EvResume q r" by blast
  show ?thesis
  proof (cases "q \<in> set (is_pending s)")
    case in_q: True
    let ?s0 = "s\<lparr>is_pending := remove1 q (is_pending s)\<rparr>"
    have old: "x \<in> set (is_pending ?s0) \<Longrightarrow> x \<in> set (is_pending s)" for x by (auto dest: set_remove1_subset [THEN subsetD])
    have by_none: "adds_none ?s0 s' \<Longrightarrow> p \<in> set (is_pending s') \<Longrightarrow> ?thesis" for s'
      using assms(2) old by (auto simp: adds_none_def)
    have p: "p \<in> set (is_pending (snd (resume v view q r ?s0)))" using assms(1) in_q by (simp add: ev)
    show ?thesis
    proof (cases q)
      case (AwaitConnect a e cp continues)
      then show ?thesis
        using p by_none old in_q
        by (cases r) (auto simp: split_beta connect_pending assms(2) split: if_splits)
    next
      case (AwaitRestore a e cp)
      then show ?thesis using p by_none [OF adds_handlers(4)] old in_q by (cases r) auto
    next
      case (AwaitRefresh e cp)
      then show ?thesis
        using p old in_q new_refresh [OF _ assms(2) refl] by (cases r) (auto simp: ev)
    next
      case (AwaitProbe key cp purpose)
      then show ?thesis using p by_none [OF adds_handlers(10)] old in_q by (cases r) auto
    next
      case (AwaitSwitch e cp)
      then show ?thesis using p by_none [OF adds_handlers(11)] old in_q by (cases r) (auto simp: resume_switches commandFailure_def split: sum.splits)
    next
      case (AwaitSwitchAccount e cp)
      then show ?thesis using p old in_q assms(2) by (cases r) (auto simp: resume_switches commandFailure_def split: sum.splits)
    next
      case (AwaitSwitchNetwork e cp account)
      then show ?thesis using p by_none [OF adds_handlers(12)] old in_q by (cases r) (auto simp: resume_switches commandFailure_def split: sum.splits)
    qed
  qed (use assms ev in simp)
next
  case False
  have by_none: "adds_none s s' \<Longrightarrow> p \<in> set (is_pending s') \<Longrightarrow> p \<in> set (is_pending s)" for s'
    using assms(2) by (auto simp: adds_none_def)
  note handled = by_none [OF adds_handlers(1)] by_none [OF adds_handlers(2)] by_none [OF adds_handlers(3)] by_none [OF adds_handlers(5)]
    by_none [OF adds_handlers(6)] by_none [OF adds_handlers(7)] by_none [OF adds_handlers(8)] by_none [OF adds_handlers(9)]
  show ?thesis
  proof (cases "ev = EvRequire")
    case True
    with assms(1) show ?thesis
      by (auto simp: requireConnectedFinancialSession_def required_def Let_def split: if_splits)
  next
    case other: False
    have "p \<in> set (is_pending s)"
      using False assms(1) other by (cases ev) (auto dest: handled)
    then show ?thesis ..
  qed
qed

text \<open>Only the healthy reply of a probe for a session grants it.\<close>

lemma probe_grants_nothing: "fst (runNetworkHealthProbe v cp purpose view s) \<noteq> Granted session"
  by (simp add: runNetworkHealthProbe_def grant_def Let_def split: probe_purpose.split)

lemma probe_grants:
  assumes "fst (probe_returned view key cp purpose result s) = Granted session"
  shows "\<exists>session0. purpose = ForSession session0 \<and> result = NET_HEALTHY \<and> session = session0\<lparr>ws_networkHealth := HEALTHY, ws_canUseFinancialActions := True\<rparr>"
  using assms by (cases result) (auto simp: probe_returned_def grant_def Let_def split: probe_purpose.splits)

lemma handlers_grant_nothing: "fst (connectVerifiedWallet v view s) \<noteq> Granted session" "fst (switchToSepolia v view s) \<noteq> Granted session"
  "fst (requireConnectedFinancialSession v view s) \<noteq> Granted session" "fst (connect_returned v view a e cp result s) \<noteq> Granted session"
  "fst (refresh_returned v view e cp wallet s) \<noteq> Granted session" "fst (switch_returned v view e cp s) \<noteq> Granted session"
  "fst (switch_finished v view e cp account chainId s) \<noteq> Granted session" "fst (commandFailure v view reason s) \<noteq> Granted session"
  by (simp_all add: connectVerifiedWallet_def runConnectAttempt_def commandFailure_def switchToSepolia_def requireConnectedFinancialSession_def
      connect_returned_def refresh_returned_def switch_returned_def switch_finished_def probe_grants_nothing Let_def
      split: option.split connect_result.split prod.split)

lemma resume_grants:
  assumes "fst (resume v view p r s) = Granted session"
  shows "\<exists>key cp session0. p = AwaitProbe key cp (ForSession session0) \<and> r = HealthReply NET_HEALTHY \<and>
    session = session0\<lparr>ws_networkHealth := HEALTHY, ws_canUseFinancialActions := True\<rparr>"
  using assms
proof (cases p)
  case (AwaitConnect a e cp continues)
  with assms handlers_grant_nothing(4) [of v view a e cp] show ?thesis by (cases r) (auto simp: split_beta)
next
  case (AwaitProbe key cp purpose)
  with assms show ?thesis by (cases r) (auto dest: probe_grants)
next
  case (AwaitSwitch e cp)
  with assms handlers_grant_nothing show ?thesis by (cases r) (auto simp: resume_switches split: sum.splits)
next
  case (AwaitSwitchAccount e cp)
  with assms handlers_grant_nothing show ?thesis by (cases r) (auto simp: resume_switches split: sum.splits)
next
  case (AwaitSwitchNetwork e cp account)
  with assms handlers_grant_nothing show ?thesis by (cases r) (auto simp: resume_switches split: sum.splits)
next
  case (AwaitRefresh e cp)
  with assms handlers_grant_nothing show ?thesis by (cases r) auto
next
  case (AwaitRestore a e cp)
  with assms show ?thesis by (cases r) auto
qed

lemma step_grants:
  assumes "identity_step v view ev s = (Granted session, s')"
  shows "\<exists>key cp session0. AwaitProbe key cp (ForSession session0) \<in> set (is_pending s) \<and>
    ev = EvResume (AwaitProbe key cp (ForSession session0)) (HealthReply NET_HEALTHY) \<and>
    session = session0\<lparr>ws_networkHealth := HEALTHY, ws_canUseFinancialActions := True\<rparr>"
proof (cases "\<exists>p r. ev = EvResume p r")
  case True
  then obtain p r where ev: "ev = EvResume p r" by blast
  with assms have p: "p \<in> set (is_pending s)" by (auto split: if_splits)
  with assms ev have "fst (resume v view p r (s\<lparr>is_pending := remove1 p (is_pending s)\<rparr>)) = Granted session" by simp
  from resume_grants [OF this] p ev show ?thesis by auto
next
  case False
  from assms have "fst (identity_step v view ev s) = Granted session" by simp
  with False handlers_grant_nothing probe_grants_nothing show ?thesis by (cases ev) simp_all
qed

text \<open>
  The history of a run up to a grant: when the session was asked for, and when its account was read
  again.
\<close>

definition asked :: "viem \<Rightarrow> stored_session option \<Rightarrow> identity_label list \<Rightarrow> int \<Rightarrow> captured \<Rightarrow> bool" where
  "asked v marker labels e cp \<longleftrightarrow> (\<exists>earlier later s view. labels = earlier @ later \<and> identity_run v marker earlier s \<and>
     required v view s \<and> is_epoch s = e \<and> capture view = cp)"

definition confirmed :: "viem \<Rightarrow> stored_session option \<Rightarrow> identity_label list \<Rightarrow> captured \<Rightarrow> WalletSessionSnapshot \<Rightarrow> bool" where
  "confirmed v marker labels cp session \<longleftrightarrow> (\<exists>earlier later s view account. labels = earlier @ later \<and> identity_run v marker earlier s \<and>
     asked v marker earlier (is_epoch s) cp \<and> rechecked v cp view account s \<and> session = walletSession v view s)"

fun justified :: "viem \<Rightarrow> stored_session option \<Rightarrow> identity_label list \<Rightarrow> pending \<Rightarrow> bool" where
  "justified v marker labels (AwaitRefresh e cp) = asked v marker labels e cp"
| "justified v marker labels (AwaitProbe key cp (ForSession session)) = confirmed v marker labels cp session"
| "justified v marker labels _ = True"

lemma justified_later: "justified v marker labels p \<Longrightarrow> justified v marker (labels @ rest) p"
proof (induction v marker labels p rule: justified.induct)
  case (1 v marker labels e cp)
  then show ?case unfolding justified.simps asked_def by (metis append.assoc)
next
  case (2 v marker labels key cp session)
  then show ?case unfolding justified.simps confirmed_def by (metis append.assoc)
qed simp_all

lemma new_justified:
  assumes "identity_run v marker labels s" and "new_item v view ev s p"
    and "\<And>q. q \<in> set (is_pending s) \<Longrightarrow> justified v marker labels q"
  shows "justified v marker labels p"
proof (cases p)
  case (AwaitRefresh e cp)
  with assms(1,2) show ?thesis by (auto simp: asked_def)
next
  case (AwaitProbe key cp purpose)
  show ?thesis
  proof (cases purpose)
    case (ForSession session)
    with assms(2) AwaitProbe obtain account where "AwaitRefresh (is_epoch s) cp \<in> set (is_pending s)" "rechecked v cp view account s"
        "session = walletSession v view s" by auto
    with assms(1) assms(3) [of "AwaitRefresh (is_epoch s) cp"] show ?thesis
      unfolding AwaitProbe ForSession justified.simps confirmed_def by (metis append_Nil2)
  qed (simp add: AwaitProbe)
qed simp_all

lemma justified_run: "identity_run v marker labels s \<Longrightarrow> p \<in> set (is_pending s) \<Longrightarrow> justified v marker labels p"
proof (induction arbitrary: p rule: identity_run.induct)
  case begins
  then show ?case by (simp add: initial_identity_def)
next
  case (goes_on labels s view ev out s')
  have "justified v marker labels p"
  proof (cases "leads_to_grant p")
    case True
    with new_items [of p v view ev s] goes_on.hyps(2) goes_on.prems have "p \<in> set (is_pending s) \<or> new_item v view ev s p" by auto
    with goes_on.IH new_justified [OF goes_on.hyps(1)] show ?thesis by blast
  next
    case False
    then show ?thesis by (cases "(v, marker, labels, p)" rule: justified.cases) auto
  qed
  then show ?case by (rule justified_later)
qed


section \<open>Disconnecting\<close>

text \<open>A session that was cut: no attempt, no marker, and no refresh of its epoch under way.\<close>

definition cut :: "identity_state \<Rightarrow> bool" where
  "cut s \<longleftrightarrow> \<not> is_authorized s \<and> wc_intent (is_control s) = WI_INACTIVE \<and> wc_status (is_control s) = WS_DISCONNECTED \<and>
     is_attempt s = None \<and> is_marker s = None \<and> (\<forall>e cp. AwaitRefresh e cp \<in> set (is_pending s) \<longrightarrow> e < is_epoch s)"

text \<open>Steps that may bring a session back: a new connection, and the last reply of a network switch.\<close>

fun revives :: "identity_event \<Rightarrow> bool" where
  "revives EvConnect = True"
| "revives (EvResume (AwaitSwitchNetwork e cp account) r) = True"
| "revives _ = False"

lemma epoch_resume: "is_epoch s \<le> is_epoch (snd (resume v view p r s))"
proof (cases p)
  case (AwaitConnect a e cp continues)
  then show ?thesis
    using moves_connect_returned [of s v view a e cp] by (cases r) (auto simp: split_beta moves_on_def)
next
  case (AwaitRestore a e cp)
  then show ?thesis using moves_effects(1) [of s v view a e cp] by (cases r) (auto simp: moves_on_def)
next
  case (AwaitRefresh e cp)
  then show ?thesis using moves_refresh [of s v view e cp] by (cases r) (auto simp: moves_on_def)
next
  case (AwaitProbe key cp purpose)
  then show ?thesis by (cases r) (auto simp: probe_returned_def Let_def)
next
  case (AwaitSwitch e cp)
  then show ?thesis by (cases r) (auto simp: resume_switches switch_returned_def commandFailure_def split: sum.split)
next
  case (AwaitSwitchAccount e cp)
  then show ?thesis by (cases r) (auto simp: resume_switches commandFailure_def split: sum.split)
next
  case (AwaitSwitchNetwork e cp account)
  then show ?thesis
    by (cases r) (auto simp: resume_switches switch_finished_def commandFailure_def invalidateSession_def Let_def split: sum.split)
qed

lemma epoch_step: "is_epoch s \<le> is_epoch (snd (identity_step v view ev s))"
proof (cases "\<exists>p r. ev = EvResume p r")
  case True
  then obtain p r where "ev = EvResume p r" by blast
  then show ?thesis using epoch_resume [of "s\<lparr>is_pending := remove1 p (is_pending s)\<rparr>" v view p r] by simp
next
  case False
  have "is_epoch s \<le> is_epoch s'" if "moves_on s s'" for s' using that by (simp add: moves_on_def)
  with False show ?thesis
    by (cases ev) (simp_all add: moves_connect moves_invalidate moves_require moves_probe moves_effects moves_bootstrap)
qed

lemma refreshes_bounded: "identity_run v marker labels s \<Longrightarrow> AwaitRefresh e cp \<in> set (is_pending s) \<Longrightarrow> e \<le> is_epoch s"
proof (induction rule: identity_run.induct)
  case begins
  then show ?case by (simp add: initial_identity_def)
next
  case (goes_on labels s view ev out s')
  have s': "s' = snd (identity_step v view ev s)" using goes_on.hyps(2) by simp
  with goes_on.prems have "AwaitRefresh e cp \<in> set (is_pending s) \<or> new_item v view ev s (AwaitRefresh e cp)" by (intro new_items) simp_all
  with goes_on.IH have "e \<le> is_epoch s" by auto
  with epoch_step [of s v view ev] show ?case unfolding s' by simp
qed

lemma cut_invalidate:
  assumes "\<And>e cp. AwaitRefresh e cp \<in> set (is_pending s) \<Longrightarrow> e \<le> is_epoch s"
  shows "cut (invalidateSession reason s)"
  using assms by (fastforce simp: cut_def invalidateSession_def Let_def dispatch_def deactivated_def clearSessionMarker_def clearPersistedWalletSession_def)

lemma cut_again: "cut s \<Longrightarrow> cut (invalidateSession reason s)"
  by (rule cut_invalidate) (fastforce simp: cut_def)

lemma cut_same:
  assumes "cut s" and "is_control s' = is_control s" "is_authorized s' = is_authorized s" "is_attempt s' = is_attempt s"
    "is_marker s' = is_marker s" "is_epoch s \<le> is_epoch s'" "adds_none s s'"
  shows "cut s'"
  using assms by (fastforce simp: cut_def adds_none_def)

lemma cut_fields: "cut s \<Longrightarrow> ws_intent (walletSession v view s) = WI_INACTIVE" "cut s \<Longrightarrow> \<not> current_attempt a e s"
  by (simp_all add: cut_def walletSession_def deriveWalletSession_def identity_inputs_def current_attempt_def Let_def split_beta)

lemma cut_handlers:
  assumes "cut s"
  shows "requireConnectedFinancialSession v view s = (Refused (OfSession (ws_reason (walletSession v view s))), s)"
    "cut (snd (switchToSepolia v view s))" "cut (attempt_timeout s)" "cut (observe v view s)" "cut (runtime_ready v view s)"
    "cut (health_effect v view s)" "cut (snd (runNetworkHealthProbe v cp ForHealth view s))"
    "cut (snd (probe_returned view key cp purpose result s))" "cut (snd (switch_returned v view e cp s))"
    "cut (snd (connect_returned v view a e cp connection s))" "cut (restore_returned v view a e cp wallet s)"
proof -
  note k = cut_fields [OF assms]
  have parts: "\<not> is_authorized s" "wc_intent (is_control s) = WI_INACTIVE" using assms by (simp_all add: cut_def)
  show "requireConnectedFinancialSession v view s = (Refused (OfSession (ws_reason (walletSession v view s))), s)"
    by (simp add: requireConnectedFinancialSession_def parts Let_def)
  show "cut (snd (switchToSepolia v view s))" by (simp add: switchToSepolia_def k commandFailure_def assms)
  show "cut (attempt_timeout s)" by (simp add: attempt_timeout_def parts assms)
  show "cut (observe v view s)" by (simp add: observe_def parts assms Let_def)
  show "cut (runtime_ready v view s)" by (simp add: runtime_ready_def parts assms Let_def)
  show probe: "cut (snd (runNetworkHealthProbe v cp ForHealth view s))" for cp
    by (rule cut_same [OF assms]) (simp_all add: runNetworkHealthProbe_def await_def adds_none_def Let_def)
  show "cut (health_effect v view s)" by (simp add: health_effect_def Let_def assms probe)
  show "cut (snd (probe_returned view key cp purpose result s))"
    by (rule cut_same [OF assms]) (simp_all add: probe_returned_def adds_none_def Let_def)
  show "cut (snd (switch_returned v view e cp s))"
    by (rule cut_same [OF assms]) (simp_all add: switch_returned_def commandFailure_def await_def adds_none_def)
  show "cut (snd (connect_returned v view a e cp connection s))" by (simp add: connect_returned_def k commandFailure_def assms)
  show "cut (restore_returned v view a e cp wallet s)"
    by (simp add: restore_returned_def completeAttemptFromObservations_def k assms cut_again split: option.split)
qed

lemma cut_bootstrap:
  assumes "cut s"
  shows "cut (bootstrap v view s)"
proof -
  have "\<not> walletsMatch v (readPersistedWalletSession v (is_marker s)) w" for w
    using assms by (simp add: cut_def readPersistedWalletSession_def walletsMatch_def normalizeWalletAddress_def)
  then show ?thesis
    using assms by (fastforce simp: bootstrap_def cut_def Let_def dispatch_def deactivated_def clearSessionMarker_def clearPersistedWalletSession_def)
qed

lemma cut_refresh:
  assumes "cut s" and "e < is_epoch s"
  shows "refresh_returned v view e cp result s = (fst (refresh_returned v view e cp result s), s)"
  using assms(2) by (auto simp: refresh_returned_def split: option.split)

lemma cut_removed: "cut s \<Longrightarrow> cut (s\<lparr>is_pending := remove1 p (is_pending s)\<rparr>)"
  by (auto simp: cut_def dest: set_remove1_subset [THEN subsetD])

lemma cut_resume:
  assumes "cut s" and "\<not> revives (EvResume p r)" and "\<And>e cp. p = AwaitRefresh e cp \<Longrightarrow> e < is_epoch s"
  shows "cut (snd (resume v view p r s))"
proof -
  have again: "cut (await q s)" if "\<And>e cp. q = AwaitRefresh e cp \<Longrightarrow> e < is_epoch s" for q
    using assms(1) that by (auto simp: cut_def await_def)
  note back_in = again [of p, OF assms(3)]
  show ?thesis
  proof (cases p)
    case (AwaitConnect a e cp continues)
    have k: "cut (s'\<lparr>is_continuation := c\<rparr>) = cut s'" for s' c by (simp add: cut_def)
    from AwaitConnect back_in cut_handlers(10) [OF assms(1), of v view a e cp] show ?thesis
      by (cases r) (auto simp: split_beta k)
  next
    case (AwaitRestore a e cp)
    with back_in cut_handlers(11) [OF assms(1)] show ?thesis by (cases r) auto
  next
    case (AwaitRefresh e cp)
    with assms back_in have "snd (refresh_returned v view e cp result s) = s" for result by (metis cut_refresh snd_conv)
    with AwaitRefresh back_in assms(1) show ?thesis by (cases r) auto
  next
    case (AwaitProbe key cp purpose)
    with back_in cut_handlers(8) [OF assms(1)] show ?thesis by (cases r) auto
  next
    case (AwaitSwitch e cp)
    with back_in cut_handlers(9) [OF assms(1)] assms(1) show ?thesis
      by (cases r) (auto simp: resume_switches commandFailure_def split: sum.split)
  next
    case (AwaitSwitchAccount e cp)
    with back_in again assms(1) show ?thesis by (cases r) (auto simp: resume_switches commandFailure_def split: sum.split)
  qed (use assms(2) in simp)
qed

lemma cut_step:
  assumes "cut s" and "\<not> revives ev"
  shows "cut (snd (identity_step v view ev s))"
proof (cases "\<exists>p r. ev = EvResume p r")
  case True
  then obtain p r where ev: "ev = EvResume p r" by blast
  show ?thesis
  proof (cases "p \<in> set (is_pending s)")
    case True
    with assms ev cut_resume [OF cut_removed [OF assms(1), of p], of p r v view] show ?thesis by (auto simp: cut_def [of s])
  qed (simp add: ev assms(1))
next
  case False
  with assms cut_handlers [OF assms(1)] cut_bootstrap cut_again show ?thesis by (cases ev) simp_all
qed

text \<open>
  C24. A session that the user disconnected stays disconnected, whatever effects, commands and late
  replies follow, until the user connects again or a network switch ends: it is unauthorised and
  inactive, without attempt and marker, and every request for the session is refused.
\<close>

theorem disconnected_stays:
  assumes "identity_run v marker (labels @ (view, EvDisconnect, out) # later) s" and "\<forall>(view, ev, out) \<in> set later. \<not> revives ev"
  shows "\<not> is_authorized s \<and> wc_intent (is_control s) = WI_INACTIVE \<and> is_attempt s = None \<and> is_marker s = None \<and>
    (\<forall>(view, ev, out) \<in> set later. ev = EvRequire \<longrightarrow> (\<exists>reason. out = Refused reason))"
proof -
  have "identity_run v marker l s \<Longrightarrow> l = labels @ (view, EvDisconnect, out) # later \<Longrightarrow> \<forall>(view, ev, out) \<in> set later. \<not> revives ev \<Longrightarrow>
      cut s \<and> (\<forall>(view, ev, out) \<in> set later. ev = EvRequire \<longrightarrow> (\<exists>reason. out = Refused reason))" for l
  proof (induction arbitrary: later rule: identity_run.induct)
    case (goes_on l s view' ev out' s')
    have s': "s' = snd (identity_step v view' ev s)" "out' = fst (identity_step v view' ev s)" using goes_on.hyps(2) by simp_all
    show ?case
    proof (cases later rule: rev_cases)
      case Nil
      with goes_on.prems(1) have "ev = EvDisconnect" by simp
      with s'(1) cut_invalidate refreshes_bounded [OF goes_on.hyps(1)] Nil show ?thesis by simp
    next
      case (snoc rest x)
      with goes_on.prems have l: "l = labels @ (view, EvDisconnect, out) # rest" "x = (view', ev, out')" by simp_all
      from goes_on.IH [OF l(1)] goes_on.prems(2) snoc l have IH: "cut s" "\<not> revives ev"
        "\<forall>(view, ev, out) \<in> set rest. ev = EvRequire \<longrightarrow> (\<exists>reason. out = Refused reason)" by auto
      with cut_step [OF IH(1,2)] cut_handlers(1) [OF IH(1)] s' snoc l show ?thesis by auto
    qed
  qed simp
  from this [OF assms(1) refl assms(2)] show ?thesis by (simp add: cut_def)
qed

lemma probe_grants_after_disconnect:
  assumes "AwaitProbe key cp (ForSession session) \<in> set (is_pending s)"
  shows "fst (identity_step v view (EvResume (AwaitProbe key cp (ForSession session)) (HealthReply NET_HEALTHY)) (invalidateSession USER_DISCONNECTED s)) =
    Granted (session\<lparr>ws_networkHealth := HEALTHY, ws_canUseFinancialActions := True\<rparr>)"
  using assms by (simp add: probe_returned_def grant_def Let_def)

text \<open>A user with the wallet \<open>a\<close>, which is on the chain \<open>chain\<close>.\<close>

definition race_view :: "string \<Rightarrow> int \<Rightarrow> identity_view" where
  "race_view a chain = \<lparr>iv_clientReady = True, iv_accountStatus = SIGNED_IN_READY, iv_metadata = META_PRESENT,
     iv_financialWallet = Some a, iv_providerUserId = Some ''user'',
     iv_provider = \<lparr>po_revision = 1, po_available = True, po_connected = True, po_accountKnown = True,
       po_activeAccount = Some a, po_chainId = Some chain\<rparr>,
     iv_runtime = \<lparr>ro_dynamicPrimaryWallet = Some a, ro_dynamicLinkedWallets = [], ro_dynamicWalletObject = Some \<lparr>dw_id = ''w'', dw_address = a\<rparr>,
       ro_wagmiAccount = Some a, ro_walletClientAccount = Some a, ro_walletClientId = None, ro_walletClientChainId = Some chain\<rparr>,
     iv_revision = 1, iv_now = 0\<rparr>"

definition race_state :: "string \<Rightarrow> stored_session option \<Rightarrow> pending list \<Rightarrow> int \<Rightarrow> identity_state" where
  "race_state a marker ps epoch = (initial_identity marker)\<lparr>is_control := activated WS_WRONG_NETWORK WRONG_NETWORK 1 (Some 1) initialWalletSessionControl,
     is_epoch := epoch, is_pending := ps\<rparr>"

lemma own_address:
  assumes "viem_ok v" and "vm_isAddress v a"
  shows "walletsMatch v (Some a) (Some a)" "truthy (Some a)" "truthy (normalizeWalletAddress v (Some a))"
    "walletsMatch v (normalizeWalletAddress v (Some a)) (normalizeWalletAddress v (Some a))"
  using assms normalize_address [OF assms] by (auto simp: walletsMatch_iff walletsMatch_normalize truthy_def viem_ok_def)

lemma persisted_marker: "viem_ok v \<Longrightarrow> readPersistedWalletSession v (persistActiveWalletSession v storage a) = normalizeWalletAddress v (Some a)"
  using normalize_idem [of v "Some a"]
  by (auto simp: readPersistedWalletSession_def persistActiveWalletSession_def split: option.splits)

lemma race_begin:
  assumes "viem_ok v" and "vm_isAddress v a"
  shows "\<exists>labels. identity_run v None labels (race_state a (persistActiveWalletSession v None a) [] 1)"
proof -
  let ?view = "race_view a 1" and ?id = "attempt_name ''connect'' 1 0"
  let ?p = "AwaitConnect ?id 1 (capture ?view) False"
  obtain s1 where step1: "identity_step v ?view EvConnect (initial_identity None) = (Silent, s1)"
    and s1: "s1 = (initial_identity None)\<lparr>is_control := (started USER ?id 0 1)\<lparr>wc_connectPhase := Some SYNCING_PROVIDER\<rparr>, is_epoch := 1,
      is_attempt := Some (?id, 1), is_pending := [?p]\<rparr>"
    using own_address [OF assms]
    by (simp add: connectVerifiedWallet_def race_view_def runConnectAttempt_def initial_identity_def initialWalletSessionControl_def
        dispatch_def await_def started_def Let_def)
  have "identity_step v ?view (EvResume ?p (ConnectReply (ProviderConnected a (Some 1) 1))) s1 =
      (CommandOk WS_WRONG_NETWORK, race_state a (persistActiveWalletSession v None a) [] 1)"
    using own_address [OF assms]
    by (simp add: s1 connect_returned_def completeAttemptFromObservations_def current_attempt_def race_view_def race_state_def capture_def
        dispatch_def initial_identity_def started_def activated_def isCurrentAttempt_def persistSessionMarker_def LEOPOLD_CHAIN_ID_def
        initialWalletSessionControl_def)
  with identity_run.goes_on [OF identity_run.begins step1] show ?thesis by (meson identity_run.goes_on)
qed

text \<open>
  C25. A network switch that ends after the user disconnected undoes the disconnection: there is a run
  whose last steps are the disconnection and then the last reply of the switch, and after it the
  session is authorised, connected and active, with its marker stored.
\<close>

theorem late_switch_undoes_disconnect:
  assumes "viem_ok v" and "vm_isAddress v a"
  shows "\<exists>labels view cp e s. identity_run v None (labels @ [(view, EvDisconnect, Silent),
      (view, EvResume (AwaitSwitchNetwork e cp (Some a)) (NetworkReply (Inr (Some LEOPOLD_CHAIN_ID))), CommandOk WS_CONNECTED)]) s \<and>
    is_authorized s \<and> wc_status (is_control s) = WS_CONNECTED \<and> wc_intent (is_control s) = WI_ACTIVE \<and>
    readPersistedWalletSession v (is_marker s) = normalizeWalletAddress v (Some a)"
proof -
  let ?m = "persistActiveWalletSession v None a" and ?view = "race_view a 1"
  let ?cp = "capture ?view"
  let ?p = "AwaitSwitchNetwork 2 ?cp (Some a)"
  from race_begin [OF assms] obtain labels where run: "identity_run v None labels (race_state a ?m [] 1)" by blast
  have "ws_status (walletSession v ?view (race_state a ?m [] 1)) = WS_WRONG_NETWORK \<and> ws_intent (walletSession v ?view (race_state a ?m [] 1)) = WI_ACTIVE"
    using own_address [OF assms]
    by (simp add: walletSession_def deriveWalletSession_def session_status_def identity_inputs_def race_view_def race_state_def
        activated_def LEOPOLD_CHAIN_ID_def Let_def split_beta)
  then have "identity_step v ?view EvSwitch (race_state a ?m [] 1) = (Silent, race_state a ?m [AwaitSwitch 2 ?cp] 2)"
    by (simp add: switchToSepolia_def Let_def await_def) (simp add: race_state_def initial_identity_def)
  moreover have "identity_step v ?view (EvResume (AwaitSwitch 2 ?cp) (SwitchReply (Inr ()))) (race_state a ?m [AwaitSwitch 2 ?cp] 2) =
      (Silent, race_state a ?m [AwaitSwitchAccount 2 ?cp] 2)"
    "identity_step v ?view (EvResume (AwaitSwitchAccount 2 ?cp) (AccountReply (Inr (Some a)))) (race_state a ?m [AwaitSwitchAccount 2 ?cp] 2) =
      (Silent, race_state a ?m [?p] 2)"
    by (simp_all add: race_state_def initial_identity_def switch_returned_def await_def)
  ultimately obtain labels' where run: "identity_run v None labels' (race_state a ?m [?p] 2)"
    using run by (meson identity_run.goes_on)
  define s where "s = invalidateSession USER_DISCONNECTED (race_state a ?m [?p] 2)"
  have run: "identity_run v None (labels' @ [(?view, EvDisconnect, Silent)]) s"
    unfolding s_def by (rule identity_run.goes_on [OF run]) simp
  define s' where "s' = snd (identity_step v ?view (EvResume ?p (NetworkReply (Inr (Some LEOPOLD_CHAIN_ID)))) s)"
  have pending: "is_pending s = [?p]" "is_marker s = None"
    by (simp_all add: s_def race_state_def initial_identity_def)
      (simp add: invalidateSession_def Let_def dispatch_def clearSessionMarker_def clearPersistedWalletSession_def)
  have ends: "identity_step v ?view (EvResume ?p (NetworkReply (Inr (Some LEOPOLD_CHAIN_ID)))) s = (CommandOk WS_CONNECTED, s')"
    "is_authorized s' \<and> wc_status (is_control s') = WS_CONNECTED \<and> wc_intent (is_control s') = WI_ACTIVE"
    "is_marker s' = persistActiveWalletSession v None a"
    using own_address [OF assms] pending
    by (simp_all add: s'_def switch_finished_def capture_def race_view_def dispatch_def persistSessionMarker_def activated_def isCurrentAttempt_def or_empty_def)
  from identity_run.goes_on [OF run ends(1)]
  have "identity_run v None (labels' @ [(?view, EvDisconnect, Silent), (?view, EvResume ?p (NetworkReply (Inr (Some LEOPOLD_CHAIN_ID))), CommandOk WS_CONNECTED)]) s'"
    by simp
  with ends persisted_marker [OF assms(1)] show ?thesis by metis
qed

text \<open>The properties at an address of the demonstration library.\<close>

theorem late_switch_undoes_disconnect_witness:
  "\<exists>labels view cp e s. identity_run demo_viem None (labels @ [(view, EvDisconnect, Silent),
      (view, EvResume (AwaitSwitchNetwork e cp (Some demo_address)) (NetworkReply (Inr (Some LEOPOLD_CHAIN_ID))), CommandOk WS_CONNECTED)]) s \<and>
    is_authorized s"
  using late_switch_undoes_disconnect [OF demo_viem_ok demo_address_ok] by blast

text \<open>An orderly run that connects the demonstration wallet, asks for the session and gets it.\<close>

definition grant_state :: "pending list \<Rightarrow> (string \<times> WalletRpcHealthState) option \<Rightarrow> string option \<Rightarrow> identity_state" where
  "grant_state ps health inFlight = (initial_identity (persistActiveWalletSession demo_viem None demo_address))\<lparr>
     is_control := activated WS_CONNECTED CONNECTED 1 (Some 1) initialWalletSessionControl, is_epoch := 1, is_authorized := True,
     is_health := health, is_inFlight := inFlight, is_pending := ps\<rparr>"

abbreviation home :: identity_view where "home \<equiv> race_view demo_address LEOPOLD_CHAIN_ID"

lemma demo_normal: "normalizeWalletAddress demo_viem (Some demo_address) = Some demo_address"
  by (simp add: normalizeWalletAddress_def) (simp add: demo_viem_def demo_address_def, simp add: toLowerCase_def lower_char_def)

lemma demo_address_nonempty: "demo_address \<noteq> []"
  by (simp add: demo_address_def)

lemmas demo_facts = own_address [OF demo_viem_ok demo_address_ok] demo_normal demo_address_nonempty

lemma home_connected:
  "ws_status (walletSession demo_viem home (grant_state ps health inFlight)) = WS_CONNECTED"
  "ws_intent (walletSession demo_viem home (grant_state ps health inFlight)) = WI_ACTIVE"
  "walletSessionRuntimeAligned demo_viem (walletSession demo_viem home (grant_state ps health inFlight))"
  using demo_facts
  by (simp_all add: walletSessionRuntimeAligned_def walletSession_def deriveWalletSession_def session_status_def identity_inputs_def race_view_def
      grant_state_def activated_def runtimeAlignment_def normalizeDescriptor_def Let_def split_beta)

lemma demo_connected:
  "\<exists>labels. orderly_run demo_viem None labels (grant_state [] None None)"
proof -
  let ?id = "attempt_name ''connect'' 1 0"
  let ?p = "AwaitConnect ?id 1 (capture home) False"
  obtain s1 where step1: "identity_step demo_viem home EvConnect (initial_identity None) = (Silent, s1)"
    and s1: "s1 = (initial_identity None)\<lparr>is_control := (started USER ?id 0 1)\<lparr>wc_connectPhase := Some SYNCING_PROVIDER\<rparr>, is_epoch := 1,
      is_attempt := Some (?id, 1), is_pending := [?p]\<rparr>"
    using demo_facts
    by (simp add: connectVerifiedWallet_def race_view_def runConnectAttempt_def initial_identity_def initialWalletSessionControl_def
        dispatch_def await_def started_def Let_def)
  have "ws_runtimeAligned (runtime_probe demo_viem (capture home) home control demo_address (Some LEOPOLD_CHAIN_ID))" for control
    using demo_facts
    by (simp add: runtime_probe_def deriveWalletSession_def runtimeAlignment_def normalizeDescriptor_def race_view_def capture_def Let_def split_beta)
  then have "identity_step demo_viem home (EvResume ?p (ConnectReply (ProviderConnected demo_address (Some LEOPOLD_CHAIN_ID) 1))) s1 =
      (CommandOk WS_CONNECTED, grant_state [] None None)"
    using demo_facts
    by (simp add: s1 connect_returned_def completeAttemptFromObservations_def current_attempt_def race_view_def grant_state_def capture_def
        dispatch_def initial_identity_def started_def activated_def isCurrentAttempt_def persistSessionMarker_def
        initialWalletSessionControl_def Let_def)
  with orderly_run.goes_on [OF orderly_run.begins step1] show ?thesis by (meson orderly.simps orderly_run.goes_on)
qed

lemma demo_asked:
  "\<exists>labels key cp session health. identity_run demo_viem None labels (grant_state [AwaitProbe key cp (ForSession session)] None health) \<and>
    labels \<noteq> []"
proof -
  from demo_connected obtain labels where run: "identity_run demo_viem None labels (grant_state [] None None)"
    using orderly_is_run by blast
  let ?cp = "capture home" and ?s = "grant_state [AwaitRefresh 1 (capture home)] None None"
  have "identity_step demo_viem home EvRequire (grant_state [] None None) = (Silent, ?s)"
    by (simp add: requireConnectedFinancialSession_def home_connected Let_def) (simp add: grant_state_def race_view_def activated_def await_def initial_identity_def)
  from identity_run.goes_on [OF run this]
  have run: "identity_run demo_viem None (labels @ [(home, EvRequire, Silent)]) ?s" .
  have matches: "walletsMatch demo_viem (Some demo_address) (cp_financialWallet ?cp)" "iv_runtime home = (iv_runtime home)\<lparr>ro_wagmiAccount := Some demo_address\<rparr>"
      "ro_wagmiAccount (iv_runtime home) = Some demo_address" "ro_walletClientAccount (iv_runtime home) = Some demo_address"
    using demo_facts by (simp_all add: capture_def race_view_def)
  let ?e = "EvResume (AwaitRefresh 1 ?cp) (WalletReply (Some (Some demo_address, Some LEOPOLD_CHAIN_ID)))"
  let ?key = "probe_key ?cp home (grant_state [] None None)"
  have "snd (identity_step demo_viem home ?e ?s) = grant_state [AwaitProbe ?key ?cp (ForSession (walletSession demo_viem home (grant_state [] None None)))] None (Some ?key)"
  proof -
    have "?s\<lparr>is_pending := []\<rparr> = grant_state [] None None" "is_pending ?s = [AwaitRefresh 1 ?cp]" "is_epoch (grant_state [] None None) = 1"
      by (simp_all add: grant_state_def)
    then show ?thesis
      using demo_facts(1,2) matches home_connected(3)
      by (simp add: refresh_returned_def runNetworkHealthProbe_def Let_def) (simp add: grant_state_def await_def initial_identity_def)
  qed
  with identity_run.goes_on [OF run surjective_pairing] show ?thesis by (metis append_is_Nil_conv not_Cons_self2)
qed

theorem authorised_exactly_while_connected_witness:
  "\<exists>labels s. orderly_run demo_viem None labels s \<and> wc_status (is_control s) = WS_CONNECTED \<and> wc_connectAttemptId (is_control s) = None"
proof -
  from demo_connected obtain labels where run: "orderly_run demo_viem None labels (grant_state [] None None)" by blast
  have "is_authorized (grant_state [] None None)" by (simp add: grant_state_def)
  with authorised_exactly_while_connected [OF run] run show ?thesis by blast
qed


theorem disconnected_stays_witness:
  "\<exists>labels s. identity_run demo_viem None labels s \<and> labels \<noteq> [] \<and> \<not> is_authorized s \<and> is_marker s = None"
proof -
  from demo_connected obtain labels where "orderly_run demo_viem None labels (grant_state [] None None)" by blast
  from identity_run.goes_on [OF orderly_is_run [OF this], where view = home and ev = EvDisconnect]
  have "identity_run demo_viem None (labels @ [(home, EvDisconnect, Silent)]) (invalidateSession USER_DISCONNECTED (grant_state [] None None))" by simp
  from identity_run.goes_on [OF this, where view = home and ev = EvObserve]
  have run: "identity_run demo_viem None (labels @ (home, EvDisconnect, Silent) # [(home, EvObserve, Silent)])
      (observe demo_viem home (invalidateSession USER_DISCONNECTED (grant_state [] None None)))" by simp
  from disconnected_stays [OF run] run show ?thesis by fastforce
qed

end
