(* ===== verification/Client_Integrity.thy ===== *)
theory Client_Integrity
  imports Client_Account
begin

text \<open>
  The integrity of account data (\<open>auth/account-integrity.ts\<close>, \<open>auth/email.ts\<close>): the policy read
  from the project settings of the login provider, the metadata updates for the user name and the
  financial wallet, and the operations of \<open>components/auth-provider.tsx\<close> that write them.
\<close>

section \<open>Email addresses\<close>

text \<open>The regular expression \<open>^[^\s@]+@[^\s@]+\.[^\s@]+$\<close>.\<close>

definition EMAIL_PATTERN :: "string \<Rightarrow> bool" where
  "EMAIL_PATTERN s \<longleftrightarrow> list_all (\<lambda>c. \<not> is_space c) s \<and> (case split_on CHR ''@'' s of
     [name, domain] \<Rightarrow> name \<noteq> [] \<and> list_ex (\<lambda>i. domain ! i = CHR ''.'') [1..<length domain - 1]
   | _ \<Rightarrow> False)"

datatype email_error = INVALID_EMAIL

definition normalizeEmail :: "string \<Rightarrow> (email_error, string) result" where
  "normalizeEmail s = (let normalized = trim s in if \<not> EMAIL_PATTERN normalized then Inl INVALID_EMAIL else Inr normalized)"

definition isValidEmail :: "string \<Rightarrow> bool" where
  "isValidEmail s = is_ok (normalizeEmail s)"

section \<open>The policy\<close>

definition LEOPOLD_USERNAME_PATTERN_SOURCE :: string where
  "LEOPOLD_USERNAME_PATTERN_SOURCE = ''^[a-z0-9_]{3,20}$''"

record DynamicProjectField =
  pf_enabled :: "bool option"
  pf_name :: "string option"
  pf_required :: "bool option"
  pf_unique :: "bool option"
  pf_validationRules :: "(string option \<times> bool option) option"

record DynamicProjectSettingsLike =
  ps_customFields :: "DynamicProjectField list option"
  ps_kyc :: "DynamicProjectField list option"

record AccountIntegrityPolicy =
  ap_status :: IntegrityFieldStatus
  ap_username :: IntegrityFieldStatus
  ap_financialWallet :: IntegrityFieldStatus
  ap_errors :: "string list"

definition or_no_fields :: "DynamicProjectField list option \<Rightarrow> DynamicProjectField list" where
  "or_no_fields fs = (case fs of None \<Rightarrow> [] | Some l \<Rightarrow> l)"

definition fieldByName :: "DynamicProjectSettingsLike \<Rightarrow> string \<Rightarrow> DynamicProjectField option" where
  "fieldByName settings name = find (\<lambda>f. pf_name f = Some name) (or_no_fields (ps_customFields settings) @ or_no_fields (ps_kyc settings))"

definition fieldIsUnique :: "DynamicProjectField \<Rightarrow> bool" where
  "fieldIsUnique f \<longleftrightarrow> pf_unique f = Some True \<or> (case pf_validationRules f of None \<Rightarrow> False | Some (_, unique) \<Rightarrow> unique = Some True)"

definition field_regex :: "DynamicProjectField \<Rightarrow> string option" where
  "field_regex f = (case pf_validationRules f of None \<Rightarrow> None | Some (regex, _) \<Rightarrow> regex)"

definition username_problems :: "DynamicProjectField option \<Rightarrow> string list" where
  "username_problems field = (case field of
     None \<Rightarrow> [''USERNAME_FIELD_MISSING'']
   | Some f \<Rightarrow>
       (if pf_enabled f \<noteq> Some True then [''USERNAME_FIELD_DISABLED''] else []) @
       (if pf_required f \<noteq> Some True then [''USERNAME_FIELD_NOT_REQUIRED''] else []) @
       (if \<not> fieldIsUnique f then [''USERNAME_FIELD_NOT_UNIQUE''] else []) @
       (if field_regex f \<noteq> Some LEOPOLD_USERNAME_PATTERN_SOURCE then [''USERNAME_FIELD_PATTERN_MISMATCH''] else []))"

definition evaluateAccountIntegrityPolicy :: "DynamicProjectSettingsLike option \<Rightarrow> AccountIntegrityPolicy" where
  "evaluateAccountIntegrityPolicy settings = (case settings of
     None \<Rightarrow> \<lparr>ap_status = INTEGRITY_LOADING, ap_username = INTEGRITY_LOADING, ap_financialWallet = INTEGRITY_READY, ap_errors = []\<rparr>
   | Some s \<Rightarrow>
       let errors = username_problems (fieldByName s LEOPOLD_USERNAME_METADATA_KEY);
           usernameErrors = list_ex (\<lambda>e. take 9 e = ''USERNAME_'') errors
       in \<lparr>ap_status = (if errors = [] then INTEGRITY_READY else INTEGRITY_ERROR),
           ap_username = (if usernameErrors then INTEGRITY_ERROR else INTEGRITY_READY),
           ap_financialWallet = INTEGRITY_READY, ap_errors = errors\<rparr>)"

section \<open>Metadata updates\<close>

datatype account_error = AccountIntegrityError string | UsernameInvalid | LinkRefused link_refusal | IdentityMissing

definition requirePolicyReady :: "IntegrityFieldStatus \<Rightarrow> string \<Rightarrow> (account_error, unit) result" where
  "requirePolicyReady status code = (if status \<noteq> INTEGRITY_READY then Inl (AccountIntegrityError code) else Inr ())"

definition requireAccountIdentity :: "DynamicAccountProfile \<Rightarrow> (account_error, unit) result" where
  "requireAccountIdentity identity =
     (if \<not> truthy (dp_userId identity) then Inl (AccountIntegrityError ''ACCOUNT_IDENTITY_REQUIRED'') else Inr ())"

type_synonym metadata = "string \<rightharpoonup> meta_value"

definition createUsernameMetadataUpdate ::
  "(string \<Rightarrow> string) \<Rightarrow> DynamicAccountProfile \<Rightarrow> string \<Rightarrow> AccountIntegrityPolicy \<Rightarrow> (account_error, metadata) result" where
  "createUsernameMetadataUpdate nfkc identity username policy =
     bind_result (requireAccountIdentity identity) (\<lambda>_.
     bind_result (requirePolicyReady (ap_username policy) ''USERNAME_UNIQUENESS_NOT_ENFORCED'') (\<lambda>_.
     case canonicalizeUsername nfkc username of
       Inl _ \<Rightarrow> Inl UsernameInvalid
     | Inr canonical \<Rightarrow> Inr ((metadataOf identity)(LEOPOLD_USERNAME_METADATA_KEY \<mapsto> MetaString canonical))))"

text \<open>\<open>String(value)\<close> of a metadata value that is neither missing nor null.\<close>

definition recorded_text :: "metadata \<Rightarrow> string option" where
  "recorded_text metadata = (case metadata FINANCIAL_WALLET_METADATA_KEY of
     None \<Rightarrow> None | Some MetaNull \<Rightarrow> None | Some (MetaString s) \<Rightarrow> Some s | Some (MetaOther s) \<Rightarrow> Some s)"

definition createFinancialWalletMetadataUpdate ::
  "viem \<Rightarrow> DynamicAccountProfile \<Rightarrow> string \<Rightarrow> AccountIntegrityPolicy \<Rightarrow> (account_error, metadata) result" where
  "createFinancialWalletMetadataUpdate v identity candidate policy =
     bind_result (requireAccountIdentity identity) (\<lambda>_.
     bind_result (requirePolicyReady (ap_financialWallet policy) ''FINANCIAL_WALLET_UNIQUENESS_NOT_ENFORCED'') (\<lambda>_.
     let metadata = metadataOf identity;
         existingValue = recorded_text metadata;
         existing = (case existingValue of None \<Rightarrow> None | Some s \<Rightarrow> normalizeWalletAddress v (Some s)) in
     if existingValue \<noteq> None \<and> \<not> truthy existing then Inl (AccountIntegrityError ''INVALID_FINANCIAL_WALLET_METADATA'')
     else if truthy existing \<and> \<not> walletsMatch v existing (Some candidate)
     then Inl (AccountIntegrityError ''FINANCIAL_WALLET_CHANGE_REQUIRES_REAUTH'')
     else Inr (metadata(FINANCIAL_WALLET_METADATA_KEY \<mapsto> MetaString candidate))))"

section \<open>What the interface writes\<close>

text \<open>The snapshot the guard of a wallet link looks at, and the operations that update the user.\<close>

record wallet_facts =
  wf_connectedWallet :: "string option"
  wf_walletAuthenticated :: bool
  wf_accountConflict :: bool
  wf_sessionExpired :: bool

definition identity_snapshot :: "AccountState \<Rightarrow> wallet_facts \<Rightarrow> AuthIdentitySnapshot" where
  "identity_snapshot account facts =
     \<lparr>ai_authenticated = as_authenticated account, ai_emailVerified = as_emailVerified account, ai_username = as_username account,
      ai_providerUserId = as_providerUserId account, ai_financialWallet = fm_address (as_financialWallet account),
      ai_connectedWallet = wf_connectedWallet facts, ai_walletAuthenticated = wf_walletAuthenticated facts,
      ai_sessionExpired = wf_sessionExpired facts, ai_accountConflict = wf_accountConflict facts\<rparr>"

definition confirmCurrentWalletAsFinancial ::
  "viem \<Rightarrow> AccountState \<Rightarrow> wallet_facts \<Rightarrow> AccountIntegrityPolicy \<Rightarrow> (account_error, metadata) result" where
  "confirmCurrentWalletAsFinancial v account facts policy =
     (case checkFinancialWalletLink v (identity_snapshot account facts) (wf_connectedWallet facts) of
       Inl code \<Rightarrow> Inl (LinkRefused code)
     | Inr wallet \<Rightarrow> (case as_identity account of
         None \<Rightarrow> Inl IdentityMissing
       | Some identity \<Rightarrow> createFinancialWalletMetadataUpdate v identity wallet policy))"

definition saveUsername ::
  "(string \<Rightarrow> string) \<Rightarrow> AccountState \<Rightarrow> string \<Rightarrow> AccountIntegrityPolicy \<Rightarrow> (account_error, metadata) result" where
  "saveUsername nfkc account username policy = (case as_identity account of
     None \<Rightarrow> Inl IdentityMissing
   | Some identity \<Rightarrow> createUsernameMetadataUpdate nfkc identity username policy)"

text \<open>
  A history of one user's account: the provider stores the metadata of a successful update and
  leaves the profile alone otherwise.
\<close>

datatype account_write = ConfirmWallet wallet_facts AccountIntegrityPolicy | SaveName string AccountIntegrityPolicy

definition account_of :: "viem \<Rightarrow> (string \<Rightarrow> string) \<Rightarrow> DynamicAccountProfile \<Rightarrow> AccountState" where
  "account_of v nfkc profile = deriveAccountState v nfkc
     \<lparr>ac_clientReady = True, ac_completedUser = Some profile, ac_incompleteUser = None\<rparr>"

fun perform_write :: "viem \<Rightarrow> (string \<Rightarrow> string) \<Rightarrow> account_write \<Rightarrow> DynamicAccountProfile \<Rightarrow> (account_error, metadata) result" where
  "perform_write v nfkc (ConfirmWallet facts policy) profile = confirmCurrentWalletAsFinancial v (account_of v nfkc profile) facts policy"
| "perform_write v nfkc (SaveName name policy) profile = saveUsername nfkc (account_of v nfkc profile) name policy"

fun account_writes :: "viem \<Rightarrow> (string \<Rightarrow> string) \<Rightarrow> account_write list \<Rightarrow> DynamicAccountProfile \<Rightarrow> DynamicAccountProfile" where
  "account_writes v nfkc [] profile = profile"
| "account_writes v nfkc (w # ws) profile = account_writes v nfkc ws (case perform_write v nfkc w profile of
     Inl _ \<Rightarrow> profile | Inr metadata \<Rightarrow> profile\<lparr>dp_metadata := Some metadata\<rparr>)"

section \<open>Lemmas\<close>

lemma trim_pattern: "EMAIL_PATTERN s \<Longrightarrow> trim s = s"
proof -
  assume "EMAIL_PATTERN s"
  then have "list_all (\<lambda>c. \<not> is_space c) s" by (simp add: EMAIL_PATTERN_def)
  then have "dropWhile is_space s = s" "dropWhile is_space (rev s) = rev s"
    by (auto simp: dropWhile_eq_self_iff list_all_iff hd_rev intro: hd_in_set last_in_set)
  then show ?thesis by (simp add: trim_def)
qed

lemma normalized_email: "normalizeEmail s = Inr e \<Longrightarrow> e = trim s \<and> EMAIL_PATTERN e"
  by (simp add: normalizeEmail_def Let_def split: if_splits)

lemma account_identity [simp]: "as_identity (account_of v nfkc profile) = Some profile"
  by (simp add: account_of_def deriveAccountState_def Let_def)

lemma account_wallet [simp]: "as_financialWallet (account_of v nfkc profile) = walletMetadataOf v profile"
  by (simp add: account_of_def deriveAccountState_def Let_def)

lemma other_keys: "FINANCIAL_WALLET_METADATA_KEY \<noteq> LEOPOLD_USERNAME_METADATA_KEY" "LEOPOLD_USERNAME_METADATA_KEY \<noteq> FINANCIAL_WALLET_METADATA_KEY"
  by (simp_all add: FINANCIAL_WALLET_METADATA_KEY_def LEOPOLD_USERNAME_METADATA_KEY_def)

lemma metadata_stored [simp]: "metadataOf (profile\<lparr>dp_metadata := Some m\<rparr>) = m"
  by (simp add: metadataOf_def)

lemma wallet_metadata:
  "viem_ok v \<Longrightarrow> walletMetadataOf v p = (case recorded_text (metadataOf p) of
     None \<Rightarrow> \<lparr>fm_status = META_NONE, fm_address = None\<rparr>
   | Some s \<Rightarrow> (case normalizeWalletAddress v (Some s) of
       None \<Rightarrow> \<lparr>fm_status = META_ERROR, fm_address = None\<rparr> | Some a \<Rightarrow> \<lparr>fm_status = META_PRESENT, fm_address = Some a\<rparr>))"
  by (auto simp: walletMetadataOf_def recorded_text_def Let_def dest: normalize_nonempty split: option.split meta_value.split)

lemma username_update:
  assumes "createUsernameMetadataUpdate nfkc p name policy = Inr m"
  obtains canonical where "canonicalizeUsername nfkc name = Inr canonical" "m = (metadataOf p)(LEOPOLD_USERNAME_METADATA_KEY \<mapsto> MetaString canonical)"
    "ap_username policy = INTEGRITY_READY" "truthy (dp_userId p)"
  using assms
  by (auto simp: createUsernameMetadataUpdate_def requireAccountIdentity_def requirePolicyReady_def bind_result_Inr split: sum.splits if_splits)

lemma wallet_update:
  assumes "createFinancialWalletMetadataUpdate v p candidate policy = Inr m" and "viem_ok v"
  shows "m = (metadataOf p)(FINANCIAL_WALLET_METADATA_KEY \<mapsto> MetaString candidate)" "truthy (dp_userId p)"
    "recorded_text (metadataOf p) = None \<or>
      (\<exists>s. recorded_text (metadataOf p) = Some s \<and> vm_isAddress v s \<and> walletsMatch v (Some s) (Some candidate))"
proof -
  note unfolded = assms(1) [unfolded createFinancialWalletMetadataUpdate_def requireAccountIdentity_def requirePolicyReady_def]
  show "m = (metadataOf p)(FINANCIAL_WALLET_METADATA_KEY \<mapsto> MetaString candidate)" "truthy (dp_userId p)"
    using unfolded by (auto simp: bind_result_Inr Let_def split: if_splits)
  show "recorded_text (metadataOf p) = None \<or>
      (\<exists>s. recorded_text (metadataOf p) = Some s \<and> vm_isAddress v s \<and> walletsMatch v (Some s) (Some candidate))"
  proof (cases "recorded_text (metadataOf p)")
    case (Some s)
    with unfolded have "truthy (normalizeWalletAddress v (Some s))" "walletsMatch v (normalizeWalletAddress v (Some s)) (Some candidate)"
      by (auto simp: bind_result_Inr Let_def split: if_splits)
    with Some show ?thesis
      by (auto simp: walletsMatch_normalize [OF assms(2)] truthy_normalize [OF assms(2)] normalize_Some)
  qed simp
qed

section \<open>Properties\<close>

lemma canonical_username:
  assumes "USERNAME_PATTERN s"
  shows "trim s = s" "toLowerCase s = s"
proof -
  have chars: "username_char c \<Longrightarrow> \<not> is_space c \<and> lower_char c = c" for c
    by (auto simp: username_char_def is_space_def lower_char_def is_digit_def Let_def)
  have all: "\<forall>c \<in> set s. username_char c" using assms by (simp add: USERNAME_PATTERN_def list_all_iff)
  then have "dropWhile is_space s = s" "dropWhile is_space (rev s) = rev s"
    using chars by (auto simp: dropWhile_eq_self_iff hd_rev intro: hd_in_set last_in_set)
  then show "trim s = s" by (simp add: trim_def)
  show "toLowerCase s = s" using all chars by (simp add: toLowerCase_def map_idI)
qed

lemma present_recorded:
  assumes "viem_ok v" and "walletMetadataOf v p = \<lparr>fm_status = META_PRESENT, fm_address = Some a\<rparr>"
  obtains s where "recorded_text (metadataOf p) = Some s" "normalizeWalletAddress v (Some s) = Some a"
  using assms(2) unfolding wallet_metadata [OF assms(1)] by (auto split: option.splits)

lemma same_normalized: "viem_ok v \<Longrightarrow> walletsMatch v (Some s) (Some t) \<Longrightarrow> normalizeWalletAddress v (Some t) = normalizeWalletAddress v (Some s)"
  by (auto simp: walletsMatch_iff normalizeWalletAddress_def viem_ok_def)

lemma write_keeps_wallet:
  assumes "viem_ok v" and "walletMetadataOf v p = \<lparr>fm_status = META_PRESENT, fm_address = Some a\<rparr>"
    and "perform_write v nfkc w p = Inr m"
  shows "walletMetadataOf v (p\<lparr>dp_metadata := Some m\<rparr>) = walletMetadataOf v p"
proof (cases w)
  case (ConfirmWallet facts policy)
  with assms(3) obtain c where u: "createFinancialWalletMetadataUpdate v p c policy = Inr m"
    by (auto simp: confirmCurrentWalletAsFinancial_def split: sum.splits)
  from present_recorded [OF assms(1,2)] obtain s where s: "recorded_text (metadataOf p) = Some s" "normalizeWalletAddress v (Some s) = Some a" .
  with wallet_update(3) [OF u assms(1)] have "normalizeWalletAddress v (Some c) = Some a"
    using same_normalized [OF assms(1)] by auto
  with wallet_update(1) [OF u assms(1)] show ?thesis
    by (simp add: assms(2)) (simp add: wallet_metadata [OF assms(1)] recorded_text_def)
next
  case (SaveName name policy)
  with assms(3) have "createUsernameMetadataUpdate nfkc p name policy = Inr m" by (simp add: saveUsername_def)
  then show ?thesis
    by (rule username_update) (simp add: walletMetadataOf_def other_keys)
qed

text \<open>
  C28. A recorded financial wallet is never replaced: whatever links and user names are tried
  afterwards, under whatever policies and with whatever wallets connected, the account keeps the
  same wallet.
\<close>

theorem financial_wallet_is_never_replaced:
  assumes "viem_ok v" and "walletMetadataOf v profile = \<lparr>fm_status = META_PRESENT, fm_address = Some a\<rparr>"
  shows "walletMetadataOf v (account_writes v nfkc ws profile) = \<lparr>fm_status = META_PRESENT, fm_address = Some a\<rparr>"
  using assms(2)
proof (induction ws arbitrary: profile)
  case (Cons w ws)
  show ?case
  proof (cases "perform_write v nfkc w profile")
    case (Inr m)
    with write_keeps_wallet [OF assms(1) Cons.prems Inr] Cons show ?thesis by simp
  qed (simp add: Cons)
qed simp

theorem financial_wallet_is_never_replaced_witness:
  "walletMetadataOf demo_viem (account_writes demo_viem id
     [ConfirmWallet \<lparr>wf_connectedWallet = Some ''0x'', wf_walletAuthenticated = True, wf_accountConflict = False, wf_sessionExpired = False\<rparr>
        (evaluateAccountIntegrityPolicy None)] demo_profile) = \<lparr>fm_status = META_PRESENT, fm_address = Some demo_address\<rparr>"
proof (rule financial_wallet_is_never_replaced [OF demo_viem_ok])
  have "normalizeWalletAddress demo_viem (Some demo_address) = Some demo_address"
    by (simp add: normalizeWalletAddress_def) (simp add: demo_viem_def demo_address_def, simp add: toLowerCase_def lower_char_def)
  then show "walletMetadataOf demo_viem demo_profile = \<lparr>fm_status = META_PRESENT, fm_address = Some demo_address\<rparr>"
    by (simp add: walletMetadataOf_def metadataOf_def demo_profile_def) (simp add: demo_address_def)
qed

text \<open>
  C29. What is written is what is read back: after a successful link the account shows exactly the
  connected wallet, which was authenticated, in a session that was neither expired nor in conflict;
  after a successful user name it shows its canonical form.  The rest of the metadata stays.
\<close>

theorem account_writes_are_read_back:
  assumes "viem_ok v" and "\<And>s. USERNAME_PATTERN s \<Longrightarrow> nfkc s = s"
    and "perform_write v nfkc w profile = Inr m"
  shows "(\<forall>k. k \<noteq> FINANCIAL_WALLET_METADATA_KEY \<and> k \<noteq> LEOPOLD_USERNAME_METADATA_KEY \<longrightarrow> m k = metadataOf profile k) \<and>
    (case w of
      ConfirmWallet facts policy \<Rightarrow> wf_walletAuthenticated facts \<and> \<not> wf_sessionExpired facts \<and> \<not> wf_accountConflict facts \<and>
        walletMetadataOf v (profile\<lparr>dp_metadata := Some m\<rparr>) =
          \<lparr>fm_status = META_PRESENT, fm_address = normalizeWalletAddress v (wf_connectedWallet facts)\<rparr> \<and>
        usernameOf nfkc (profile\<lparr>dp_metadata := Some m\<rparr>) = usernameOf nfkc profile
    | SaveName name policy \<Rightarrow>
        usernameOf nfkc (profile\<lparr>dp_metadata := Some m\<rparr>) = Some (toLowerCase (nfkc (trim name))) \<and>
        walletMetadataOf v (profile\<lparr>dp_metadata := Some m\<rparr>) = walletMetadataOf v profile)"
proof (cases w)
  case (ConfirmWallet facts policy)
  with assms(3) obtain c where check: "checkFinancialWalletLink v (identity_snapshot (account_of v nfkc profile) facts) (wf_connectedWallet facts) = Inr c"
    and u: "createFinancialWalletMetadataUpdate v profile c policy = Inr m"
    by (auto simp: confirmCurrentWalletAsFinancial_def split: sum.splits)
  from check have c: "normalizeWalletAddress v (wf_connectedWallet facts) = Some c" "wf_walletAuthenticated facts"
      "\<not> wf_sessionExpired facts" "\<not> wf_accountConflict facts"
    by (auto simp: checkFinancialWalletLink_def identity_snapshot_def split: if_splits option.splits)
  with normalize_idem [OF assms(1), of "wf_connectedWallet facts"] have "normalizeWalletAddress v (Some c) = Some c" by simp
  with c wallet_update(1) [OF u assms(1)] show ?thesis
    by (simp add: ConfirmWallet) (simp add: wallet_metadata [OF assms(1)] recorded_text_def usernameOf_def other_keys)
next
  case (SaveName name policy)
  with assms(3) have "createUsernameMetadataUpdate nfkc profile name policy = Inr m" by (simp add: saveUsername_def)
  then show ?thesis
  proof (rule username_update)
    fix canonical
    assume k: "canonicalizeUsername nfkc name = Inr canonical" "m = (metadataOf profile)(LEOPOLD_USERNAME_METADATA_KEY \<mapsto> MetaString canonical)"
    then have p: "USERNAME_PATTERN canonical" "canonical = toLowerCase (nfkc (trim name))"
      by (auto simp: canonicalizeUsername_def Let_def split: if_splits)
    then have "canonicalizeUsername nfkc canonical = Inr canonical"
      using canonical_username [OF p(1)] assms(2) by (simp add: canonicalizeUsername_def Let_def)
    with k p show ?thesis by (simp add: SaveName) (simp add: usernameOf_def walletMetadataOf_def other_keys)
  qed
qed

theorem account_writes_are_read_back_witness:
  "\<exists>m. perform_write demo_viem id (SaveName '' Leo_2'' (\<lparr>ap_status = INTEGRITY_READY, ap_username = INTEGRITY_READY,
      ap_financialWallet = INTEGRITY_READY, ap_errors = []\<rparr>)) demo_profile = Inr m \<and>
    usernameOf id (demo_profile\<lparr>dp_metadata := Some m\<rparr>) = Some (toLowerCase (trim '' Leo_2''))"
proof -
  let ?w = "SaveName '' Leo_2'' \<lparr>ap_status = INTEGRITY_READY, ap_username = INTEGRITY_READY, ap_financialWallet = INTEGRITY_READY, ap_errors = []\<rparr>"
  have "canonicalizeUsername id '' Leo_2'' = Inr ''leo_2''" by code_simp
  then obtain m where "perform_write demo_viem id ?w demo_profile = Inr m"
    by (simp add: saveUsername_def createUsernameMetadataUpdate_def requireAccountIdentity_def requirePolicyReady_def demo_profile_def truthy_def)
  with account_writes_are_read_back [OF demo_viem_ok _ this] show ?thesis by simp
qed

text \<open>Normalising an address is idempotent, and the policy is ready for exactly one kind of field.\<close>

lemma normalized_email_stays: "normalizeEmail s = Inr e \<Longrightarrow> normalizeEmail e = Inr e \<and> isValidEmail e"
proof -
  assume "normalizeEmail s = Inr e"
  then have "EMAIL_PATTERN e" by (simp add: normalized_email)
  then have "normalizeEmail e = Inr e" by (simp add: normalizeEmail_def trim_pattern)
  then show ?thesis by (simp add: isValidEmail_def)
qed

lemma username_policy_ready:
  "ap_username (evaluateAccountIntegrityPolicy settings) = INTEGRITY_READY \<longleftrightarrow> (\<exists>s f. settings = Some s \<and>
     fieldByName s LEOPOLD_USERNAME_METADATA_KEY = Some f \<and> pf_enabled f = Some True \<and> pf_required f = Some True \<and>
     fieldIsUnique f \<and> field_regex f = Some LEOPOLD_USERNAME_PATTERN_SOURCE)"
  by (auto simp: evaluateAccountIntegrityPolicy_def username_problems_def Let_def split: option.splits)

end
