(* ===== verification/Spec2Isabelle.thy ===== *)
theory Spec2Isabelle
  imports Twab_Model Accounting_Model Draw_Model Weight_Domain Planner Keeper_Startup
    Client_Account Client_View_Safety Client_Provider_Safety Client_Errors
    Client_Wallet_Account Client_Identity_Safety Client_Integrity
begin

text \<open>
  Verification of Leopold, a prize-savings protocol: deposits keep their principal, the yield of a
  vault is drawn as a prize with odds proportional to time-weighted balances.  The TypeScript
  implementation has three parts, and this development follows them.

  \<^bold>\<open>Reference models\<close> (\<open>src/reference/leopoldModels.ts\<close>, \<open>src/scripts/sg3-domain.ts\<close>) state
  what the contracts compute.
  \<^item> \<open>Twab_Model\<close>: class \<open>TwabReferenceModel\<close>.  Checkpoint arrays per account and vault, with
    the state a throwing call leaves behind.  The cumulative value read by the binary search is the
    exact integral of the balance over the accepted actions, and the vault aggregate is the sum of
    the accounts (a refinement of a ledger of accepted actions).
  \<^item> \<open>Accounting_Model\<close>: class \<open>AccountingReferenceModel\<close>.  Every sequence of calls leaves the
    books reconciled; winnings stay payable.
  \<^item> \<open>Draw_Model\<close>: rejection sampling, the round state machine, settlement, cursor chunks.  Winning
    candidates are counted exactly; one winner takes the whole prize.
  \<^item> \<open>Weight_Domain\<close>: the derivation of the 128-bit ticket width.  Equal to the reference mapping at
    that width, and accrual never leaves the width.

  \<^bold>\<open>Keeper\<close> (\<open>src/keeper/src\<close>), the process that closes, draws and settles rounds.  Its engine
  reads a snapshot through the gateway, asks the planner for the next action, checks gas and balance,
  records the signed transaction in the journal, and only then broadcasts and reconciles it.
  \<^item> \<open>Lifecycle\<close> (\<open>lifecycle.ts\<close>), \<open>Planner\<close> (\<open>planner.ts\<close>): what is planned is required, nothing
    due is overlooked, older rounds come first, the order of vaults does not matter.
  \<^item> \<open>Gas_Policy\<close> (\<open>gas-policy.ts\<close>, \<open>balance-guard.ts\<close>): limits respect floor, margin and ceiling;
    floors survive printing and parsing.
  \<^item> \<open>Journal\<close> (\<open>journal.ts\<close>): both stores, schemas, the append-only rule, file-system steps with
    faults and power loss, the write queue, the process lock.
  \<^item> \<open>Eff_Logic\<close>, \<open>Engine\<close>, \<open>Engine_Safety\<close>, \<open>Engine_Progress\<close> (\<open>engine.ts\<close>): a poll as an effect
    on an explicit world with any gateway.  Record before broadcast, at most one outstanding
    attempt, release only on chain evidence, no replay, termination and progress.
  \<^item> \<open>Gateway\<close>, \<open>Gateway_Safety\<close> (\<open>ethers-gateway.ts\<close>): the snapshot block is agreed by all
    endpoints before and after the reads; paged scans visit every account.
  \<^item> \<open>Keeper_Config\<close>, \<open>Keeper_Startup\<close> (\<open>manifest.ts\<close>, \<open>config.ts\<close>, \<open>public-proof.ts\<close>, \<open>cli.ts\<close>):
    a loaded configuration is usable, and one keeper runs per journal.

  \<^bold>\<open>Client\<close> (\<open>src/frontend/lib\<close>), the logic behind the web application.
  \<^item> \<open>Wallet_Session\<close> (\<open>auth/readiness.ts\<close>, \<open>auth/wallet-identity.ts\<close>): session reducer and derived
    session.  Financial actions need the verified wallet everywhere; late events of an old
    connection attempt are ignored; the persisted session round-trips.
  \<^item> \<open>Client_Account\<close> (\<open>auth/account-state.ts\<close>, \<open>auth/username.ts\<close>, \<open>auth/recovery.ts\<close>,
    \<open>auth/wallet-recovery.ts\<close>, two expressions of \<open>components/wallet-identity-provider.tsx\<close>): no
    silent dead end; only the verified wallet reconnects.
  \<^item> \<open>Client_Reads\<close> (\<open>ops/metrics.ts\<close>, \<open>ops/reliability.ts\<close>, \<open>leopold/network.ts\<close>): reads are bounded
    in attempts and time; writes need a healthy preflight.
  \<^item> \<open>Client_Money\<close> (\<open>leopold/amounts.ts\<close>, \<open>leopold/transactions.ts\<close>, \<open>leopold/withdrawal.ts\<close>,
    \<open>leopold/private-balance.ts\<close>, the stage mapping of \<open>ui/controller.ts\<close>): resumable deposits,
    withdrawals from open rounds, revealed balances bound to the present handle.
  \<^item> \<open>Client_Actions\<close>, \<open>Client_Actions_Safety\<close> (\<open>leopold/v2-actions.ts\<close>, the faucet of
    \<open>leopold/actions.ts\<close>): every action as an effect on an explicit chain with the trace of its
    callbacks, simulations and submissions.  Transactions go out one at a time and simulated,
    deposits and withdrawals follow their plan, a submitted hash is never lost.
  \<^item> \<open>Client_View\<close>, \<open>Client_View_Safety\<close> (\<open>leopold/config.ts\<close>, \<open>leopold/reads.ts\<close>, \<open>ui/controller.ts\<close>,
    \<open>ui/v2-entry-status.ts\<close>, \<open>auth/hydration.ts\<close>, \<open>components/leopold-ui-controller.tsx\<close>): a validated
    deployment is consistent, client and keeper agree on the active round, the display boundary
    rejects exactly the forbidden keys.
  \<^item> \<open>Client_Text\<close>, \<open>Client_Driver\<close>, \<open>Client_Driver_Safety\<close>
    (\<open>components/final-ui/v2-functional-state.tsx\<close>): the driver of the actions with the transaction
    records of the browser.  Submitted hashes are recorded, pending ones settled, an unfinished
    deposit is only finished.
  \<^item> \<open>Client_Classic\<close>, \<open>Client_Classic_Safety\<close> (\<open>leopold/actions.ts\<close>): the earlier actions on the
    same chain model.  One transaction at a time by the fitting wallet, every returned hash told,
    and making money private or public follows a plan.
  \<^item> \<open>Client_Errors\<close> (\<open>leopold/errors.ts\<close>): the text collected from an error object and the rules
    that turn it into a code.
  \<^item> \<open>Client_Provider\<close>, \<open>Client_Provider_Safety\<close> (\<open>components/financial-provider.tsx\<close>): the state of
    the earlier interface and its operations over those actions and reads.  Savings and withdrawals
    only go to rounds read as open, unverified deployments get nothing, every transaction ends in a
    record, and a superseded reveal shows nothing.
  \<^item> \<open>Client_Identity\<close>, \<open>Client_Identity_Safety\<close> (\<open>components/wallet-identity-provider.tsx\<close>): the
    controller of the wallet session as steps that interleave at every await.  The session is
    authorised exactly while it is connected, grants were earned, and a disconnected session stays
    so, but for a network switch that ends late.
  \<^item> \<open>Client_Wallet_Account\<close> (\<open>components/auth-provider.tsx\<close>): the account and network seen of the
    wallet provider, with reads that overlap its events.  An accepted session kept its account, and
    late reads do not overwrite what the wallet announced.
  \<^item> \<open>Client_Integrity\<close> (\<open>auth/account-integrity.ts\<close>, \<open>auth/email.ts\<close>): the policy of account data and
    its updates.  A recorded wallet is never replaced, and what is written is read back.

  \<^bold>\<open>Conventions.\<close>  \<open>Prelude\<close> holds the result type (\<open>Inl\<close> an error, \<open>Inr\<close> a value), the effect
  type (a state passed through, kept on errors), generic lemmas on lists and sorting, and the simp
  collections.  JavaScript bigints are \<open>int\<close>; numbers are \<open>int\<close> where the code uses integers and
  rationals where it computes a jittered delay, without rounding of floating point.  Record fields
  carry a prefix per type, datatype constructors keep the names of the source.  Code outside the
  repository (ethers, viem, the Zama SDK, wallet providers, clocks) is a parameter; laws on it are
  hypotheses of the theorems that need them and are met by concrete functions in the witnesses.

  \<^bold>\<open>Fuel and bounds.\<close>  Binary search, settlement loops and retry loops recurse on a measure.  The
  receipt loop of the engine and the service loop of the command line have fuel; \<open>poll_terminates\<close>
  shows that enough fuel exists when the clock advances, and theorems about results hold for every
  fuel.

  \<^bold>\<open>Simplifications.\<close>  Messages, labels of diagnostics and log lines are left out.  The two probes
  that the preflight settles together, and the reads an action starts together, run one after the
  other.  React state updates take effect at once, and the callbacks of an action run after it, in
  the order of its events.  Other handlers of the provider run only while one of its private reads
  is awaited; the controller of the session has steps for every await.  Fixture modes of development
  builds are left out.  A round state number outside the
  enumeration is read as uninitialised.  The engine's journal is modelled apart from the scan
  cursors of the gateway, although both live in one file.

  \<^bold>\<open>Not modelled.\<close>  React components and pages (rendering and hooks), contract ABIs, the Solidity
  contracts, deployment, live and smoke scripts (straight-line calls of a live chain), the SG-1, SG-2,
  SG-4 and SG-5 experiments with their evidence validators, service health and the cache of the encryption service.
\<close>

end
